(* ===== verification/Prelude.thy ===== *)
theory Prelude
  imports Main "HOL-Library.Sublist"
begin

text \<open>
  What every component of the development shares.

  \<^item> Results: an operation of the services returns a value or throws one of NestJS's HTTP
    exceptions (or an uncaught database error), so its result is \<open>http_error + 'a\<close>.
  \<^item> JavaScript strings are sequences of UTF-16 code units; they are \<open>string\<close>s here, so the
    model covers the code units below 256 (Latin-1), with the case mapping and the white space
    JavaScript gives those.
  \<^item> Times are milliseconds since the epoch (\<open>int\<close>), as \<open>Date.now()\<close> returns them.
  \<^item> A database table is the list of its rows in insertion order. \<open>upd_where\<close> is Prisma's
    \<open>updateMany\<close>, \<open>del_where\<close> its \<open>deleteMany\<close>, \<open>find\<close> its \<open>findFirst\<close>.

  The lemmas of the second half are the facts about tables that the components' proofs use; the
  collection \<open>table_simps\<close> holds them.
\<close>

named_theorems table_simps \<open>facts about rows of updated, filtered and extended tables\<close>

section \<open>Results, time and JSON\<close>

datatype http_error =
    BadRequest string
  | Unauthorized string
  | Forbidden string
  | NotFound string
  | Conflict string
  | TooManyRequests string
  | ServiceUnavailable string
  | PrismaError string \<comment> \<open>an uncaught Prisma error code, answered as a 500\<close>
  | UncaughtError string \<comment> \<open>any other thrown error, answered as a 500\<close>

type_synonym 'a res = "http_error + 'a"

type_synonym time = int

definition second_ms :: int where "second_ms = 1000"
definition minute_ms :: int where "minute_ms = 60000"
definition day_ms :: int where "day_ms = 86400000"

text \<open>JSON values; a \<open>Date\<close> is kept apart from the string it is serialised to.\<close>

datatype json =
    JNull
  | JBool bool
  | JNum int
  | JStr string
  | JDate time
  | JArr "json list"
  | JObj "(string \<times> json) list"

definition is_ok :: "'a res \<Rightarrow> bool" where
  "is_ok r = (case r of Inl _ \<Rightarrow> False | Inr _ \<Rightarrow> True)"

lemma is_ok_simps [simp]: "\<not> is_ok (Inl e)" "is_ok (Inr x)"
  by (simp_all add: is_ok_def)

lemma is_ok_iff: "is_ok r \<longleftrightarrow> (\<exists>x. r = Inr x)"
  by (cases r) auto

lemma is_ok_fstE: "is_ok (fst x) \<Longrightarrow> (\<And>v s. x = (Inr v, s) \<Longrightarrow> thesis) \<Longrightarrow> thesis"
  by (cases x) (auto simp: is_ok_iff)

definition json_opt :: "('a \<Rightarrow> json) \<Rightarrow> 'a option \<Rightarrow> json" where
  "json_opt f x = (case x of None \<Rightarrow> JNull | Some v \<Rightarrow> f v)"

section \<open>JavaScript values\<close>

subsection \<open>Truthiness and defaults\<close>

text \<open>
  An optional string is \<open>None\<close> for \<open>undefined\<close> and \<open>null\<close>. A condition \<open>if (s)\<close> is false for
  both and for the empty string.
\<close>

definition truthy :: "string option \<Rightarrow> bool" where
  "truthy s = (case s of None \<Rightarrow> False | Some t \<Rightarrow> t \<noteq> [])"

lemma truthy_simps [simp]: "\<not> truthy None" "truthy (Some t) \<longleftrightarrow> t \<noteq> []"
  by (simp_all add: truthy_def)

lemma truthy_the: "truthy s \<Longrightarrow> s = Some (the s) \<and> the s \<noteq> []"
  by (cases s) auto

fun json_truthy :: "json \<Rightarrow> bool" where
  "json_truthy JNull = False"
| "json_truthy (JBool b) = b"
| "json_truthy (JNum i) = (i \<noteq> 0)"
| "json_truthy (JStr s) = (s \<noteq> [])"
| "json_truthy (JDate t) = True"
| "json_truthy (JArr xs) = True"
| "json_truthy (JObj kvs) = True"

text \<open>The nullish default \<open>x ?? d\<close>.\<close>

definition nullish :: "'a option \<Rightarrow> 'a \<Rightarrow> 'a" where
  "nullish x d = (case x of None \<Rightarrow> d | Some v \<Rightarrow> v)"

lemma nullish_simps [simp]: "nullish None d = d" "nullish (Some v) d = v"
  by (simp_all add: nullish_def)

text \<open>The nullish choice \<open>x ?? y\<close> where \<open>y\<close> may itself be nullish.\<close>

definition or_else :: "'a option \<Rightarrow> 'a option \<Rightarrow> 'a option" where
  "or_else x y = (case x of None \<Rightarrow> y | Some v \<Rightarrow> Some v)"

lemma or_else_simps [simp]: "or_else None y = y" "or_else (Some v) y = Some v"
  by (simp_all add: or_else_def)

text \<open>An update input: a field that is absent leaves the column as it is.\<close>

definition set_if :: "'a option \<Rightarrow> 'a \<Rightarrow> 'a" where
  "set_if x old = nullish x old"

lemma set_if_simps [simp]: "set_if None d = d" "set_if (Some v) d = v"
  by (simp_all add: set_if_def)

subsection \<open>Strings\<close>

definition js_white :: "char \<Rightarrow> bool" where
  "js_white c = (c \<in> {CHR 0x09, CHR 0x0A, CHR 0x0B, CHR 0x0C, CHR 0x0D, CHR '' '', CHR 0xA0})"

text \<open>\<open>String.prototype.trim\<close>.\<close>

definition trim :: "string \<Rightarrow> string" where
  "trim s = rev (dropWhile js_white (rev (dropWhile js_white s)))"

text \<open>
  \<open>toLowerCase\<close> on a code unit below 256: the ASCII capitals and the Latin-1 capitals
  \<open>0xC0 .. 0xDE\<close> but the multiplication sign \<open>0xD7\<close> move up by 32.
\<close>

definition lower_char :: "char \<Rightarrow> char" where
  "lower_char c = (let n = of_char c :: nat in
     if (65 \<le> n \<and> n \<le> 90) \<or> (192 \<le> n \<and> n \<le> 222 \<and> n \<noteq> 215) then char_of (n + 32) else c)"

definition lower :: "string \<Rightarrow> string" where
  "lower s = map lower_char s"

text \<open>
  \<open>toUpperCase\<close> on a code unit, where its result is again one code unit below 256 (not so for the
  sharp s, the y with diaeresis and the micro sign, which the model leaves as they are).
\<close>

definition upper_char :: "char \<Rightarrow> char" where
  "upper_char c = (let n = of_char c :: nat in
     if (97 \<le> n \<and> n \<le> 122) \<or> (224 \<le> n \<and> n \<le> 254 \<and> n \<noteq> 247) then char_of (n - 32) else c)"

definition upper :: "string \<Rightarrow> string" where
  "upper s = map upper_char s"

text \<open>\<open>startsWith\<close>, \<open>endsWith\<close>, \<open>js_includes\<close> and \<open>slice(i, j)\<close> for \<open>0 \<le> i\<close>.\<close>

definition starts_with :: "string \<Rightarrow> string \<Rightarrow> bool" where
  "starts_with s p = (take (length p) s = p)"

definition ends_with :: "string \<Rightarrow> string \<Rightarrow> bool" where
  "ends_with s p = starts_with (rev s) (rev p)"

fun js_includes :: "string \<Rightarrow> string \<Rightarrow> bool" where
  "js_includes [] p = (p = [])"
| "js_includes (c # s) p = (starts_with (c # s) p \<or> js_includes s p)"

definition slice :: "nat \<Rightarrow> nat \<Rightarrow> string \<Rightarrow> string" where
  "slice i j s = take (j - i) (drop i s)"

text \<open>\<open>Array.prototype.join\<close> and splitting at every maximal run of separator characters.\<close>

fun join :: "string \<Rightarrow> string list \<Rightarrow> string" where
  "join sep [] = []"
| "join sep [x] = x"
| "join sep (x # y # xs) = x @ sep @ join sep (y # xs)"

fun split_at :: "(char \<Rightarrow> bool) \<Rightarrow> string \<Rightarrow> string list" where
  "split_at p [] = [[]]"
| "split_at p (c # s) =
     (if p c then [] # split_at p s
      else (case split_at p s of [] \<Rightarrow> [[c]] | w # ws \<Rightarrow> (c # w) # ws))"

text \<open>
  \<open>s.split(/[...]+/).filter(Boolean)\<close>: a run of separators gives empty pieces here where the
  regular expression gives none, and the filter drops the empty pieces either way.
\<close>

definition words_of :: "(char \<Rightarrow> bool) \<Rightarrow> string \<Rightarrow> string list" where
  "words_of p s = filter (\<lambda>w. w \<noteq> []) (split_at p s)"

text \<open>UTF-8 length of a string: one byte below 128, two bytes from 128 to 255.\<close>

definition utf8_bytes :: "string \<Rightarrow> nat" where
  "utf8_bytes s = sum_list (map (\<lambda>c. if (of_char c :: nat) < 128 then 1 else 2) s)"

text \<open>\<open>String(n)\<close> for an integer \<open>n\<close>.\<close>

fun digits_of :: "nat \<Rightarrow> string" where
  "digits_of n =
     (if n < 10 then [char_of (48 + n)] else digits_of (n div 10) @ [char_of (48 + n mod 10)])"

declare digits_of.simps [simp del]

definition show_int :: "int \<Rightarrow> string" where
  "show_int i = (if i < 0 then ''-'' @ digits_of (nat (- i)) else digits_of (nat i))"

text \<open>The em dash of a message, which has no Latin-1 code unit; Windows-1252's stands for it.\<close>

definition em_dash :: string where "em_dash = [CHR 0x97]"

text \<open>\<open>[first, last].filter(Boolean).join(' ').trim() || null\<close>, the display name of a person.\<close>

definition non_empty :: "string \<Rightarrow> string option" where
  "non_empty s = (if s = [] then None else Some s)"

text \<open>\<open>Math.ceil(a / b)\<close> for integers with \<open>0 < b\<close>.\<close>

definition ceil_div :: "int \<Rightarrow> int \<Rightarrow> int" where
  "ceil_div a b = - ((- a) div b)"

section \<open>Tables\<close>

definition upd_where :: "('r \<Rightarrow> bool) \<Rightarrow> ('r \<Rightarrow> 'r) \<Rightarrow> 'r list \<Rightarrow> 'r list" where
  "upd_where P f rows = map (\<lambda>r. if P r then f r else r) rows"

definition del_where :: "('r \<Rightarrow> bool) \<Rightarrow> 'r list \<Rightarrow> 'r list" where
  "del_where P rows = filter (\<lambda>r. \<not> P r) rows"

definition count_where :: "('r \<Rightarrow> bool) \<Rightarrow> 'r list \<Rightarrow> nat" where
  "count_where P rows = length (filter P rows)"

text \<open>At most one row per key: what a unique index enforces.\<close>

definition unique_on :: "('r \<Rightarrow> 'k) \<Rightarrow> 'r list \<Rightarrow> bool" where
  "unique_on key rows = distinct (map key rows)"

subsection \<open>Strings: lemmas\<close>

lemma lower_Nil [simp]: "lower [] = []"
  by (simp add: lower_def)

lemma length_lower [simp]: "length (lower s) = length s"
  by (simp add: lower_def)

lemma lower_lower [simp]: "lower (lower s) = lower s"
proof -
  have "lower_char (lower_char c) = lower_char c" for c
    by (auto simp: lower_char_def Let_def)
  then show ?thesis
    by (simp add: lower_def)
qed

lemma dropWhile_fixed: "(xs \<noteq> [] \<Longrightarrow> \<not> P (hd xs)) \<Longrightarrow> dropWhile P xs = xs"
  by (cases xs) auto

lemma split_at_not_Nil [simp]: "split_at p s \<noteq> []"
  by (cases s) (auto split: list.split)

lemma join_split: "join [d] (split_at (\<lambda>c. c = d) s) = s"
proof (induction s)
  case (Cons c s)
  obtain w ws where "split_at (\<lambda>c. c = d) s = w # ws"
    by (cases "split_at (\<lambda>c. c = d) s") auto
  then show ?case
    using Cons by (cases ws) auto
qed simp

lemma split_at_chars: "w \<in> set (split_at p s) \<Longrightarrow> c \<in> set w \<Longrightarrow> c \<in> set s \<and> \<not> p c"
proof (induction s arbitrary: w)
  case (Cons d s)
  obtain v ws where v: "split_at p s = v # ws"
    by (cases "split_at p s") (simp_all add: split_at_not_Nil)
  then show ?case
    using Cons.prems Cons.IH [of v] Cons.IH [of w] by (auto split: if_splits)
qed simp

lemma ceil_div_bounds:
  assumes "0 < b"
  shows "a \<le> ceil_div a b * b" and "ceil_div a b * b < a + b"
proof -
  define q where "q = (- a) div b"
  define r where "r = (- a) mod b"
  have eq: "- a = q * b + r" and r: "0 \<le> r" "r < b"
    using assms by (simp_all add: q_def r_def)
  have "ceil_div a b = - q"
    by (simp add: ceil_div_def q_def)
  with eq have c: "ceil_div a b * b = a + r"
    by simp
  show "a \<le> ceil_div a b * b" "ceil_div a b * b < a + b"
    using c r by linarith+
qed

lemma ceil_div_pos_iff: "0 < b \<Longrightarrow> 0 < ceil_div a b \<longleftrightarrow> 0 < a"
  by (simp add: ceil_div_def pos_imp_zdiv_neg_iff)

subsection \<open>Tables: lemmas\<close>

lemma upd_where_Nil [simp]: "upd_where P f [] = []"
  by (simp add: upd_where_def)

lemma upd_where_Cons [simp]:
  "upd_where P f (r # rows) = (if P r then f r else r) # upd_where P f rows"
  by (simp add: upd_where_def)

lemma upd_where_append [simp]: "upd_where P f (xs @ ys) = upd_where P f xs @ upd_where P f ys"
  by (simp add: upd_where_def)

lemma length_upd_where [simp]: "length (upd_where P f rows) = length rows"
  by (simp add: upd_where_def)

lemma del_where_Nil [simp]: "del_where P [] = []"
  by (simp add: del_where_def)

lemma del_where_Cons [simp]:
  "del_where P (r # rows) = (if P r then del_where P rows else r # del_where P rows)"
  by (simp add: del_where_def)

lemma del_where_append [simp]: "del_where P (xs @ ys) = del_where P xs @ del_where P ys"
  by (simp add: del_where_def)

lemma set_del_where [simp]: "set (del_where P rows) = {r \<in> set rows. \<not> P r}"
  by (auto simp: del_where_def)

lemma in_upd_where [table_simps]:
  "x \<in> set (upd_where P f rows) \<longleftrightarrow> (\<exists>r \<in> set rows. x = (if P r then f r else r))"
  by (auto simp: upd_where_def)

lemma ball_upd_where [table_simps]:
  "(\<forall>x \<in> set (upd_where P f rows). Q x) \<longleftrightarrow> (\<forall>r \<in> set rows. Q (if P r then f r else r))"
  by (auto simp: upd_where_def)

lemma bex_upd_where [table_simps]:
  "(\<exists>x \<in> set (upd_where P f rows). Q x) \<longleftrightarrow> (\<exists>r \<in> set rows. Q (if P r then f r else r))"
  by (auto simp: upd_where_def)

lemma upd_where_none: "(\<And>r. r \<in> set rows \<Longrightarrow> \<not> P r) \<Longrightarrow> upd_where P f rows = rows"
  by (induction rows) auto

lemma del_where_none: "(\<And>r. r \<in> set rows \<Longrightarrow> \<not> P r) \<Longrightarrow> del_where P rows = rows"
  by (induction rows) auto

text \<open>Rows that neither the condition nor the update touches are the same before and after.\<close>

lemma filter_upd_where_other:
  "(\<And>r. P r \<Longrightarrow> \<not> Q r \<and> \<not> Q (f r)) \<Longrightarrow> filter Q (upd_where P f rows) = filter Q rows"
  by (induction rows) auto

lemma filter_del_where_other:
  "(\<And>r. P r \<Longrightarrow> \<not> Q r) \<Longrightarrow> filter Q (del_where P rows) = filter Q rows"
  by (induction rows) auto

lemma map_upd_where_same:
  "(\<And>r. P r \<Longrightarrow> g (f r) = g r) \<Longrightarrow> map g (upd_where P f rows) = map g rows"
  by (induction rows) auto

lemma image_upd_where_same:
  "(\<And>r. P r \<Longrightarrow> g (f r) = g r) \<Longrightarrow> g ` set (upd_where P f rows) = g ` set rows"
  by (simp flip: set_map add: map_upd_where_same)

lemma unique_on_Nil [simp]: "unique_on key []"
  by (simp add: unique_on_def)

lemma unique_on_append_one:
  "unique_on key (rows @ [r]) \<longleftrightarrow> unique_on key rows \<and> key r \<notin> key ` set rows"
  by (auto simp: unique_on_def)

lemma unique_on_upd_where:
  "(\<And>r. P r \<Longrightarrow> key (f r) = key r) \<Longrightarrow> unique_on key (upd_where P f rows) = unique_on key rows"
  by (simp add: unique_on_def map_upd_where_same)

lemma unique_on_del_where: "unique_on key rows \<Longrightarrow> unique_on key (del_where P rows)"
  by (simp add: unique_on_def del_where_def distinct_map_filter)

lemma find_key_None: "find (\<lambda>x. key x = k) rows = None \<longleftrightarrow> k \<notin> key ` set rows"
  by (auto simp: find_None_iff)

lemma upd_where_comp:
  "(\<And>r. P (f r) = P r) \<Longrightarrow> upd_where P g (upd_where P f rows) = upd_where P (g \<circ> f) rows"
  by (induction rows) auto

text \<open>An update of the one row with a given id keeps another key unique if its new key is free.\<close>

lemma unique_on_upd_one:
  assumes "unique_on key rows" and "unique_on idf rows"
    and "\<And>r q. r \<in> set rows \<Longrightarrow> idf r = i \<Longrightarrow> q \<in> set rows \<Longrightarrow> idf q \<noteq> i \<Longrightarrow> key q \<noteq> key (f r)"
  shows "unique_on key (upd_where (\<lambda>r. idf r = i) f rows)"
  using assms
proof (induction rows)
  case (Cons x xs)
  have uniq: "unique_on key xs" "unique_on idf xs" "key x \<notin> key ` set xs" "idf x \<notin> idf ` set xs"
    using Cons.prems(1,2) by (auto simp: unique_on_def)
  show ?case
  proof (cases "idf x = i")
    case True
    have "upd_where (\<lambda>r. idf r = i) f xs = xs"
      using uniq(4) True by (intro upd_where_none) (metis image_eqI)
    moreover have "key (f x) \<notin> key ` set xs"
    proof
      assume "key (f x) \<in> key ` set xs"
      then obtain q where "q \<in> set xs" "key q = key (f x)"
        by auto
      then show False
        using Cons.prems(3) [of x q] uniq(4) True by (metis image_eqI list.set_intros)
    qed
    ultimately show ?thesis
      using True uniq(1) by (simp add: unique_on_def)
  next
    case False
    have "unique_on key (upd_where (\<lambda>r. idf r = i) f xs)"
      by (rule Cons.IH [OF uniq(1,2)]) (use Cons.prems(3) in auto)
    moreover have "key x \<notin> key ` set (upd_where (\<lambda>r. idf r = i) f xs)"
    proof
      assume "key x \<in> key ` set (upd_where (\<lambda>r. idf r = i) f xs)"
      then obtain q where "q \<in> set xs" "key x = key (if idf q = i then f q else q)"
        by (auto simp: in_upd_where)
      then show False
        using Cons.prems(3) [of q x] uniq(3) False by (auto split: if_splits)
    qed
    ultimately show ?thesis
      using False by (simp add: unique_on_def)
  qed
qed simp

lemma unique_on_eqD:
  "unique_on key rows \<Longrightarrow> r \<in> set rows \<Longrightarrow> r' \<in> set rows \<Longrightarrow> key r = key r' \<Longrightarrow> r = r'"
  by (auto simp: unique_on_def distinct_map dest: inj_onD)

text \<open>\<open>findFirst\<close>.\<close>

lemma find_SomeD: "find P rows = Some r \<Longrightarrow> r \<in> set rows \<and> P r"
  by (auto simp: find_Some_iff)

lemma find_NoneD: "find P rows = None \<Longrightarrow> r \<in> set rows \<Longrightarrow> \<not> P r"
  by (auto simp: find_None_iff)

lemma find_append [table_simps]:
  "find P (xs @ ys) = (case find P xs of None \<Rightarrow> find P ys | Some r \<Rightarrow> Some r)"
  by (induction xs) auto

lemma find_upd_where:
  "(\<And>r. P r \<Longrightarrow> Q (f r) = Q r) \<Longrightarrow>
   find Q (upd_where P f rows) = map_option (\<lambda>r. if P r then f r else r) (find Q rows)"
  by (induction rows) auto

lemma find_upd_where_in:
  "(\<And>r. r \<in> set rows \<Longrightarrow> P r \<Longrightarrow> Q (f r) = Q r) \<Longrightarrow>
   find Q (upd_where P f rows) = map_option (\<lambda>r. if P r then f r else r) (find Q rows)"
  by (induction rows) auto

lemma upd_where_id: "(\<And>r. r \<in> set rows \<Longrightarrow> P r \<Longrightarrow> f r = r) \<Longrightarrow> upd_where P f rows = rows"
  by (induction rows) auto

lemma upd_where_twice:
  "(\<And>r. P r \<Longrightarrow> P (f r) \<and> g (f r) = f r) \<Longrightarrow>
   upd_where P g (upd_where P f rows) = upd_where P f rows"
  by (induction rows) auto

lemma find_upd_where_other:
  "(\<And>r. P r \<Longrightarrow> \<not> Q r \<and> \<not> Q (f r)) \<Longrightarrow> find Q (upd_where P f rows) = find Q rows"
  by (induction rows) auto

lemma find_del_where:
  "(\<And>r. r \<in> set rows \<Longrightarrow> Q r \<Longrightarrow> P r) \<Longrightarrow> find Q (del_where P rows) = None"
  by (induction rows) auto

lemma find_del_where_other:
  "(\<And>r. P r \<Longrightarrow> \<not> Q r) \<Longrightarrow> find Q (del_where P rows) = find Q rows"
  by (induction rows) auto

lemma find_unique:
  "unique_on key rows \<Longrightarrow> r \<in> set rows \<Longrightarrow> find (\<lambda>x. key x = key r) rows = Some r"
  by (induction rows) (auto simp: unique_on_def)

lemma find_unique_in:
  "unique_on key rows \<Longrightarrow> r \<in> set rows \<Longrightarrow> Q r \<Longrightarrow> (\<And>x. Q x \<Longrightarrow> key x = key r) \<Longrightarrow>
   find Q rows = Some r"
proof (induction rows)
  case (Cons x xs)
  show ?case
  proof (cases "x = r")
    case False
    then have r: "r \<in> set xs"
      using Cons.prems(2) by simp
    then have "key x \<noteq> key r"
      using Cons.prems(1) unfolding unique_on_def by (metis distinct.simps(2) image_eqI list.simps(9) set_map)
    then have "\<not> Q x"
      using Cons.prems(4) by metis
    moreover have "find Q xs = Some r"
      by (rule Cons.IH [OF _ r Cons.prems(3,4)]) (use Cons.prems(1) in \<open>simp_all add: unique_on_def\<close>)
    ultimately show ?thesis
      by simp
  qed (use Cons.prems(3) in simp)
qed simp

lemma count_where_0 [table_simps]: "count_where P rows = 0 \<longleftrightarrow> (\<forall>r \<in> set rows. \<not> P r)"
  by (auto simp: count_where_def filter_empty_conv)

lemma count_where_pos: "0 < count_where P rows \<longleftrightarrow> (\<exists>r \<in> set rows. P r)"
  by (auto simp: count_where_def filter_empty_conv)

lemma count_where_append [simp]: "count_where P (xs @ ys) = count_where P xs + count_where P ys"
  by (simp add: count_where_def)

end
