(* ===== verification/Config.thy ===== *)
theory Config
  imports Prelude
begin

text \<open>
  The deployment configuration, \<open>platform/src/config.ts\<close>: the record of the values the modelled
  services read, and the three functions that derive a value from the environment and that guard
  a production start (\<open>resolvePublicBaseUrl\<close>, \<open>resolveSecretKey\<close>, \<open>stripeMode\<close>).
\<close>

section \<open>The configuration record\<close>

datatype stripe_mode = Test | Live | Unset

datatype signup_mode = Closed | InviteOnly | Open

text \<open>An SMTP relay: the shape of \<open>smtpFallback\<close> and of what the e-mail service resolves to.\<close>

record resolved_smtp =
  rs_host :: string
  rs_port :: int
  rs_secure :: bool
  rs_username :: "string option"
  rs_password :: "string option"
  rs_fromAddress :: string

record config =
  brandCompany :: string
  platformName :: string
  publicBaseUrl :: string
  signupMode :: signup_mode
  signupTrialDays :: int
  emailAppPerMin :: nat
  emailAppPerDay :: nat
  bootstrapAdminEmail :: "string option"
  bootstrapAdminPassword :: "string option"
  secretKey :: string
  accessTtlSec :: int
  refreshTtlDays :: int
  retentionAuditDays :: int
  retentionTokenDays :: int
  stripeSecretKey :: "string option"
  stripeWebhookSecret :: "string option"
  stripeGraceDays :: int
  stripeMode :: stripe_mode
  alertsEmail :: "string option"
  smtpFallback :: "resolved_smtp option" \<comment> \<open>\<open>None\<close> where no host is configured\<close>

section \<open>Values derived from the environment\<close>

text \<open>\<open>config.ts:106\<close>: a Stripe key carries its mode in its prefix.\<close>

definition stripe_mode_of :: "string option \<Rightarrow> stripe_mode" where
  "stripe_mode_of key = (let k = trim (nullish key []) in
     if starts_with k ''sk_test_'' \<or> starts_with k ''rk_test_'' then Test
     else if starts_with k ''sk_live_'' \<or> starts_with k ''rk_live_'' then Live
     else Unset)"

text \<open>
  The environment variables read here. \<open>production\<close> is \<open>NODE_ENV === 'production'\<close>. A thrown
  \<open>Error\<close> stops the process at start; it is the left side of the result. Of a message that goes
  on to explain itself, the first sentence is kept.
\<close>

definition LOCAL_BASE_URL :: string where
  "LOCAL_BASE_URL = ''http://localhost:8200''"

definition DEV_SECRET_KEY :: string where
  "DEV_SECRET_KEY = ''dev-only-secret-change-me''"

text \<open>\<open>value.replace(/\/+$/, '')\<close>.\<close>

definition strip_trailing_slashes :: "string \<Rightarrow> string" where
  "strip_trailing_slashes s = rev (dropWhile (\<lambda>c. c = CHR ''/'') (rev s))"

definition is_digit :: "char \<Rightarrow> bool" where
  "is_digit c = (48 \<le> (of_char c :: nat) \<and> (of_char c :: nat) \<le> 57)"

text \<open>
  The regular expression \<open>/^https?:\/\/(localhost|127\.0\.0\.1|\[::1\])(:\d+)?$/i\<close>: strip one of
  the prefixes it allows, then nothing, or a colon and digits, may be left.
\<close>

definition after_prefix :: "string \<Rightarrow> string \<Rightarrow> string option" where
  "after_prefix p s = (if starts_with s p then Some (drop (length p) s) else None)"

definition port_suffix :: "string \<Rightarrow> bool" where
  "port_suffix s = (case s of [] \<Rightarrow> True
     | c # ds \<Rightarrow> c = CHR '':'' \<and> ds \<noteq> [] \<and> list_all is_digit ds)"

definition is_local_url :: "string \<Rightarrow> bool" where
  "is_local_url value = (let v = lower value in
     list_ex (\<lambda>scheme. list_ex (\<lambda>host. case after_prefix (scheme @ host) v of
         None \<Rightarrow> False | Some rest \<Rightarrow> port_suffix rest)
       [''localhost'', ''127.0.0.1'', ''[::1]''])
     [''http://'', ''https://''])"

definition resolvePublicBaseUrl :: "string option \<Rightarrow> bool \<Rightarrow> string res" where
  "resolvePublicBaseUrl PUBLIC_BASE_URL production =
     (let raw = map_option trim PUBLIC_BASE_URL;
          value = strip_trailing_slashes (if truthy raw then the raw else LOCAL_BASE_URL)
      in if production \<and> is_local_url value
         then Inl (UncaughtError (''PUBLIC_BASE_URL is ''
                @ (if truthy raw then ''set to '' @ value else ''not set'') @ '' in production.''))
         else Inr value)"

definition resolveSecretKey :: "string option \<Rightarrow> bool \<Rightarrow> string res" where
  "resolveSecretKey SECRET_KEY production =
     (let raw = map_option trim SECRET_KEY;
          value = (if truthy raw then the raw else DEV_SECRET_KEY)
      in if production then
           (if value = DEV_SECRET_KEY
            then Inl (UncaughtError (''SECRET_KEY is ''
                   @ (if truthy raw then ''set to the development default'' else ''not set'')
                   @ '' in production.''))
            else if length value < 32
            then Inl (UncaughtError (''SECRET_KEY is '' @ show_int (int (length value))
                   @ '' characters; production requires at least 32.''))
            else Inr value)
         else Inr value)"

section \<open>What the guards promise\<close>

lemma starts_with_prefix: "starts_with s p \<longleftrightarrow> prefix p s"
proof
  assume "starts_with s p"
  then have "s = p @ drop (length p) s"
    by (metis append_take_drop_id starts_with_def)
  then show "prefix p s"
    by (metis prefixI)
qed (auto simp: starts_with_def prefix_def)

text \<open>No key is read as both modes, and the publishable keys are read as no mode.\<close>

lemma stripe_mode_live_iff:
  "stripe_mode_of key = Live \<longleftrightarrow>
     starts_with (trim (nullish key [])) ''sk_live_'' \<or> starts_with (trim (nullish key [])) ''rk_live_''"
  by (auto simp: stripe_mode_of_def Let_def starts_with_def)

lemma resolveSecretKey_production:
  assumes "resolveSecretKey key True = Inr k"
  shows "k \<noteq> DEV_SECRET_KEY \<and> 32 \<le> length k \<and> key \<noteq> None"
  using assms by (cases key) (auto simp: resolveSecretKey_def Let_def split: if_splits)

lemma resolveSecretKey_development: "is_ok (resolveSecretKey key False)"
  by (simp add: resolveSecretKey_def Let_def)

lemma resolvePublicBaseUrl_production:
  "resolvePublicBaseUrl url True = Inr value \<Longrightarrow> \<not> is_local_url value"
  by (auto simp: resolvePublicBaseUrl_def Let_def split: if_splits)

lemma strip_trailing_slashes_last:
  "strip_trailing_slashes s \<noteq> [] \<Longrightarrow> last (strip_trailing_slashes s) \<noteq> CHR ''/''"
  using hd_dropWhile [of "\<lambda>c. c = CHR ''/''" "rev s"]
  by (simp add: strip_trailing_slashes_def last_rev)

lemma resolvePublicBaseUrl_no_trailing_slash:
  "resolvePublicBaseUrl url production = Inr value \<Longrightarrow> value \<noteq> [] \<Longrightarrow> last value \<noteq> CHR ''/''"
  by (auto simp: resolvePublicBaseUrl_def Let_def split: if_splits dest: strip_trailing_slashes_last)

end
