(* ===== verification/Store.thy ===== *)
theory Store
  imports Config
begin

text \<open>
  The platform's database, from \<open>platform/prisma/schema.prisma\<close>: one record type per model, one
  table (a list of rows in insertion order) per model in the record \<open>db\<close>. A column that may be
  \<open>null\<close> is an \<open>option\<close>. \<open>updatedAt\<close>, which Prisma maintains and no service reads, is left out.
  The database also holds the mail the services hand to the relay (\<open>outbox\<close>), because a message
  that goes out is an effect the handlers order against their writes.

  Postgres enforces the schema's constraints: an insert or update that breaks a unique index is
  refused with Prisma's \<open>P2002\<close>, one that names a missing parent row with \<open>P2003\<close>, and a delete
  cascades to the rows declared \<open>onDelete: Cascade\<close>. The operations at the end of the theory
  (\<open>insert_\<dots>\<close>, \<open>delete_\<dots>\<close>) do the same. A query without \<open>orderBy\<close> may answer in any order; the
  model answers in insertion order, and the services use \<open>findFirst\<close> on keys that a unique index
  makes unambiguous, except where a component says otherwise.
\<close>

section \<open>Rows\<close>

datatype tenant_status = TActive | TSuspended | TPastDue

datatype app_tenant_status = Trial | Active | PastDue | Suspended

text \<open>The company profile columns of a tenant.\<close>

record tenant_profile =
  phone :: "string option"
  addressLine1 :: "string option"
  addressLine2 :: "string option"
  city :: "string option"
  tp_state :: "string option"
  postalCode :: "string option"
  country :: "string option"

record tenant =
  tn_id :: string
  tn_slug :: string
  tn_name :: string
  tn_plan :: string
  tn_status :: tenant_status
  tn_profile :: tenant_profile
  tn_stripeCustomerId :: "string option"
  tn_graceUntil :: "time option"
  tn_createdAt :: time
  tn_deletedAt :: "time option"

record user =
  u_id :: string
  u_tenantId :: "string option"
  u_email :: string
  u_passwordHash :: string
  u_name :: "string option"
  u_firstName :: "string option"
  u_lastName :: "string option"
  u_phone :: "string option"
  u_isPlatformAdmin :: bool
  u_isTenantAdmin :: bool
  u_emailVerifiedAt :: "time option"
  u_createdAt :: time
  u_deletedAt :: "time option"

record app =
  a_id :: string
  a_clientId :: string
  a_clientSecretHash :: string
  a_name :: string
  a_displayName :: "string option"
  a_callbackUrls :: "string list"
  a_autoEnroll :: bool
  a_brand :: "json option"
  a_createdAt :: time
  a_deletedAt :: "time option"

record app_price =
  p_id :: string
  p_appId :: string
  p_stripePriceId :: string
  p_tier :: string
  p_stripeProductId :: string
  p_productName :: string
  p_livemode :: bool
  p_unitAmount :: int
  p_currency :: string
  p_interval :: string
  p_intervalCount :: int
  p_sellable :: bool
  p_trialDays :: int
  p_sortOrder :: int

record app_tenant =
  at_tenantId :: string
  at_appId :: string
  at_status :: app_tenant_status
  at_plan :: string
  at_trialEndsAt :: "time option"
  at_graceUntil :: "time option"
  at_stripeSubscriptionId :: "string option"
  at_createdAt :: time

record role =
  r_id :: string
  r_appId :: string
  r_name :: string
  r_description :: "string option"

record user_role =
  ur_userId :: string
  ur_roleId :: string

record refresh_token =
  rt_id :: string
  rt_userId :: string
  rt_tokenHash :: string
  rt_appClientId :: "string option"
  rt_expiresAt :: time
  rt_revokedAt :: "time option"

record invite =
  i_id :: string
  i_tenantId :: string
  i_email :: string
  i_roleIds :: "string list"
  i_isTenantAdmin :: bool
  i_invitedById :: "string option"
  i_tokenHash :: string
  i_expiresAt :: time
  i_acceptedAt :: "time option"
  i_createdAt :: time

record passkey =
  pk_id :: string
  pk_tenantId :: "string option"
  pk_userId :: string
  pk_credentialId :: string
  pk_publicKey :: string
  pk_signCount :: int
  pk_transports :: "string option"
  pk_aaguid :: "string option"
  pk_nickname :: string
  pk_createdAt :: time
  pk_lastUsedAt :: "time option"

record smtp_config =
  sm_id :: string
  sm_tenantId :: "string option"
  sm_host :: string
  sm_port :: int
  sm_secure :: bool
  sm_username :: "string option"
  sm_passwordEnc :: "string option"
  sm_fromAddress :: string

record audit_event =
  ae_tenantId :: "string option"
  ae_userId :: "string option"
  ae_appClientId :: "string option"
  ae_action :: string
  ae_detail :: "json option"
  ae_ip :: "string option"
  ae_createdAt :: time

record email_template =
  et_code :: string
  et_subject :: string
  et_heading :: string
  et_intro :: string
  et_actionLabel :: "string option"
  et_outro :: string
  et_updatedById :: "string option"

text \<open>The parts of a message that the shared HTML shell is wrapped around: \<open>EmailBody\<close> of
  \<open>platform/src/email/email-layout.ts\<close>. A button is its label and its URL.\<close>

record email_body =
  eb_product :: string
  eb_heading :: string
  eb_intro :: string
  eb_action :: "(string \<times> string) option"
  eb_outro :: string

text \<open>What a message says: text and HTML its sender wrote, or a rendered template.\<close>

datatype mail_content = Authored "string option" "string option" | Templated email_body

text \<open>A message handed to the relay: the relay's host, the sender's address and display name.\<close>

record mail =
  m_host :: string
  m_from :: string
  m_fromName :: "string option"
  m_to :: string
  m_subject :: string
  m_content :: mail_content

record db =
  tenants :: "tenant list"
  users :: "user list"
  apps :: "app list"
  prices :: "app_price list"
  app_tenants :: "app_tenant list"
  roles :: "role list"
  user_roles :: "user_role list"
  refresh_tokens :: "refresh_token list"
  invites :: "invite list"
  passkeys :: "passkey list"
  smtp_configs :: "smtp_config list"
  audit_events :: "audit_event list"
  email_templates :: "email_template list"
  outbox :: "mail list"

definition empty_db :: db where
  "empty_db = \<lparr>tenants = [], users = [], apps = [], prices = [], app_tenants = [], roles = [],
     user_roles = [], refresh_tokens = [], invites = [], passkeys = [], smtp_configs = [],
     audit_events = [], email_templates = [], outbox = []\<rparr>"

definition no_profile :: tenant_profile where
  "no_profile = \<lparr>phone = None, addressLine1 = None, addressLine2 = None, city = None,
     tp_state = None, postalCode = None, country = None\<rparr>"

section \<open>Queries\<close>

definition tenant_by_id :: "db \<Rightarrow> string \<Rightarrow> tenant option" where
  "tenant_by_id s i = find (\<lambda>t. tn_id t = i) (tenants s)"

definition tenant_by_slug :: "db \<Rightarrow> string \<Rightarrow> tenant option" where
  "tenant_by_slug s slug = find (\<lambda>t. tn_slug t = slug) (tenants s)"

text \<open>\<open>tenant.findFirst({ where: { slug, deletedAt: null } })\<close>.\<close>

definition live_tenant_by_slug :: "db \<Rightarrow> string \<Rightarrow> tenant option" where
  "live_tenant_by_slug s slug = find (\<lambda>t. tn_slug t = slug \<and> tn_deletedAt t = None) (tenants s)"

definition user_by_id :: "db \<Rightarrow> string \<Rightarrow> user option" where
  "user_by_id s i = find (\<lambda>u. u_id u = i) (users s)"

text \<open>\<open>user.findFirst({ where: { tenantId, email } })\<close>, deleted accounts included.\<close>

definition user_by_email :: "db \<Rightarrow> string option \<Rightarrow> string \<Rightarrow> user option" where
  "user_by_email s tid email = find (\<lambda>u. u_tenantId u = tid \<and> u_email u = email) (users s)"

text \<open>\<open>user.findFirst({ where: { tenantId, email, deletedAt: null } })\<close>.\<close>

definition live_user_by_email :: "db \<Rightarrow> string option \<Rightarrow> string \<Rightarrow> user option" where
  "live_user_by_email s tid email =
     find (\<lambda>u. u_tenantId u = tid \<and> u_email u = email \<and> u_deletedAt u = None) (users s)"

definition app_by_id :: "db \<Rightarrow> string \<Rightarrow> app option" where
  "app_by_id s i = find (\<lambda>a. a_id a = i) (apps s)"

text \<open>\<open>app.findFirst({ where: { clientId, deletedAt: null } })\<close>.\<close>

definition live_app_by_client :: "db \<Rightarrow> string \<Rightarrow> app option" where
  "live_app_by_client s cid = find (\<lambda>a. a_clientId a = cid \<and> a_deletedAt a = None) (apps s)"

definition at_key :: "string \<Rightarrow> string \<Rightarrow> app_tenant \<Rightarrow> bool" where
  "at_key tid aid a = (at_tenantId a = tid \<and> at_appId a = aid)"

text \<open>\<open>appTenant.findUnique({ where: { tenantId_appId } })\<close>.\<close>

definition access_of :: "db \<Rightarrow> string \<Rightarrow> string \<Rightarrow> app_tenant option" where
  "access_of s tid aid = find (at_key tid aid) (app_tenants s)"

definition access_by_sub :: "db \<Rightarrow> string \<Rightarrow> app_tenant option" where
  "access_by_sub s sub = find (\<lambda>a. at_stripeSubscriptionId a = Some sub) (app_tenants s)"

definition token_by_hash :: "db \<Rightarrow> string \<Rightarrow> refresh_token option" where
  "token_by_hash s h = find (\<lambda>t. rt_tokenHash t = h) (refresh_tokens s)"

definition role_by_id :: "db \<Rightarrow> string \<Rightarrow> role option" where
  "role_by_id s i = find (\<lambda>r. r_id r = i) (roles s)"

section \<open>Writes with the schema's constraints\<close>

text \<open>
  \<open>user.create\<close>: the primary key, \<open>@@unique([tenantId, email])\<close> and, for platform-level users, the
  partial index \<open>users_platform_email_key\<close> make (tenantId, email) unique with \<open>null\<close> as a value
  like any other; the tenant must exist.
\<close>

definition insert_user :: "user \<Rightarrow> db \<Rightarrow> unit res \<times> db" where
  "insert_user u s =
     (if u_id u \<in> u_id ` set (users s)
         \<or> (u_tenantId u, u_email u) \<in> (\<lambda>v. (u_tenantId v, u_email v)) ` set (users s)
      then (Inl (PrismaError ''P2002''), s)
      else if (case u_tenantId u of None \<Rightarrow> False | Some tid \<Rightarrow> tenant_by_id s tid = None)
      then (Inl (PrismaError ''P2003''), s)
      else (Inr (), s\<lparr>users := users s @ [u]\<rparr>))"

definition insert_tenant :: "tenant \<Rightarrow> db \<Rightarrow> unit res \<times> db" where
  "insert_tenant t s =
     (if tn_id t \<in> tn_id ` set (tenants s) \<or> tn_slug t \<in> tn_slug ` set (tenants s)
      then (Inl (PrismaError ''P2002''), s)
      else (Inr (), s\<lparr>tenants := tenants s @ [t]\<rparr>))"

definition insert_app_tenant :: "app_tenant \<Rightarrow> db \<Rightarrow> unit res \<times> db" where
  "insert_app_tenant a s =
     (if access_of s (at_tenantId a) (at_appId a) \<noteq> None
         \<or> (case at_stripeSubscriptionId a of None \<Rightarrow> False | Some sub \<Rightarrow> access_by_sub s sub \<noteq> None)
      then (Inl (PrismaError ''P2002''), s)
      else if tenant_by_id s (at_tenantId a) = None \<or> app_by_id s (at_appId a) = None
      then (Inl (PrismaError ''P2003''), s)
      else (Inr (), s\<lparr>app_tenants := app_tenants s @ [a]\<rparr>))"

text \<open>The cascades: a user takes its role links, refresh tokens and passkeys along; a role its
  links; an app its roles, prices and tenant grants.\<close>

definition delete_users :: "(user \<Rightarrow> bool) \<Rightarrow> db \<Rightarrow> db" where
  "delete_users P s = (let gone = u_id ` set (filter P (users s)) in
     s\<lparr>users := del_where P (users s),
       user_roles := del_where (\<lambda>r. ur_userId r \<in> gone) (user_roles s),
       refresh_tokens := del_where (\<lambda>t. rt_userId t \<in> gone) (refresh_tokens s),
       passkeys := del_where (\<lambda>p. pk_userId p \<in> gone) (passkeys s)\<rparr>)"

definition delete_roles :: "(role \<Rightarrow> bool) \<Rightarrow> db \<Rightarrow> db" where
  "delete_roles P s = (let gone = r_id ` set (filter P (roles s)) in
     s\<lparr>roles := del_where P (roles s),
       user_roles := del_where (\<lambda>r. ur_roleId r \<in> gone) (user_roles s)\<rparr>)"

definition delete_app :: "string \<Rightarrow> db \<Rightarrow> db" where
  "delete_app aid s = (let s1 = delete_roles (\<lambda>r. r_appId r = aid) s in
     s1\<lparr>apps := del_where (\<lambda>a. a_id a = aid) (apps s1),
        prices := del_where (\<lambda>p. p_appId p = aid) (prices s1),
        app_tenants := del_where (\<lambda>a. at_appId a = aid) (app_tenants s1)\<rparr>)"

text \<open>\<open>refreshToken.updateMany({ where: { userId, revokedAt: null }, data: { revokedAt } })\<close>.\<close>

definition live_token_of :: "string \<Rightarrow> refresh_token \<Rightarrow> bool" where
  "live_token_of uid t = (rt_userId t = uid \<and> rt_revokedAt t = None)"

definition revoke_sessions :: "string \<Rightarrow> time \<Rightarrow> db \<Rightarrow> db" where
  "revoke_sessions uid now s =
     s\<lparr>refresh_tokens := upd_where (live_token_of uid) (\<lambda>t. t\<lparr>rt_revokedAt := Some now\<rparr>)
        (refresh_tokens s)\<rparr>"

section \<open>Facts about queries and writes\<close>

lemmas query_simps =
  tenant_by_id_def tenant_by_slug_def live_tenant_by_slug_def user_by_id_def user_by_email_def
  live_user_by_email_def app_by_id_def live_app_by_client_def access_of_def access_by_sub_def
  token_by_hash_def role_by_id_def

lemma tenant_by_idD: "tenant_by_id s i = Some t \<Longrightarrow> t \<in> set (tenants s) \<and> tn_id t = i"
  unfolding tenant_by_id_def by (drule find_SomeD) simp

lemma live_tenant_by_slugD:
  "live_tenant_by_slug s sl = Some t \<Longrightarrow>
   t \<in> set (tenants s) \<and> tn_slug t = sl \<and> tn_deletedAt t = None"
  unfolding live_tenant_by_slug_def by (drule find_SomeD) simp

lemma user_by_idD: "user_by_id s i = Some u \<Longrightarrow> u \<in> set (users s) \<and> u_id u = i"
  unfolding user_by_id_def by (drule find_SomeD) simp

lemma user_by_emailD:
  "user_by_email s tid e = Some u \<Longrightarrow> u \<in> set (users s) \<and> u_tenantId u = tid \<and> u_email u = e"
  unfolding user_by_email_def by (drule find_SomeD) simp

lemma live_user_by_emailD:
  "live_user_by_email s tid e = Some u \<Longrightarrow>
   u \<in> set (users s) \<and> u_tenantId u = tid \<and> u_email u = e \<and> u_deletedAt u = None"
  unfolding live_user_by_email_def by (drule find_SomeD) simp

lemma app_by_idD: "app_by_id s i = Some a \<Longrightarrow> a \<in> set (apps s) \<and> a_id a = i"
  unfolding app_by_id_def by (drule find_SomeD) simp

lemma live_app_by_clientD:
  "live_app_by_client s c = Some a \<Longrightarrow> a \<in> set (apps s) \<and> a_clientId a = c \<and> a_deletedAt a = None"
  unfolding live_app_by_client_def by (drule find_SomeD) simp

lemma access_ofD:
  "access_of s tid aid = Some a \<Longrightarrow>
   a \<in> set (app_tenants s) \<and> at_tenantId a = tid \<and> at_appId a = aid"
  unfolding access_of_def by (drule find_SomeD) (simp add: at_key_def)

lemma access_by_subD:
  "access_by_sub s sub = Some a \<Longrightarrow>
   a \<in> set (app_tenants s) \<and> at_stripeSubscriptionId a = Some sub"
  unfolding access_by_sub_def by (drule find_SomeD) simp

lemma token_by_hashD:
  "token_by_hash s h = Some t \<Longrightarrow> t \<in> set (refresh_tokens s) \<and> rt_tokenHash t = h"
  unfolding token_by_hash_def by (drule find_SomeD) simp

lemmas queryD = tenant_by_idD live_tenant_by_slugD user_by_idD user_by_emailD live_user_by_emailD
  app_by_idD live_app_by_clientD access_ofD access_by_subD token_by_hashD

lemma insert_user_Inr:
  "insert_user u s = (Inr x, s') \<Longrightarrow> s' = s\<lparr>users := users s @ [u]\<rparr>"
  by (simp add: insert_user_def split: if_splits)

lemma insert_user_Inl: "insert_user u s = (Inl e, s') \<Longrightarrow> s' = s"
  by (simp add: insert_user_def split: if_splits)

lemma insert_app_tenant_Inr:
  "insert_app_tenant a s = (Inr x, s') \<Longrightarrow> s' = s\<lparr>app_tenants := app_tenants s @ [a]\<rparr>"
  by (simp add: insert_app_tenant_def split: if_splits)

lemma insert_app_tenant_Inl: "insert_app_tenant a s = (Inl e, s') \<Longrightarrow> s' = s"
  by (simp add: insert_app_tenant_def split: if_splits)

lemma insert_tenant_Inl: "insert_tenant t s = (Inl e, s') \<Longrightarrow> s' = s"
  by (simp add: insert_tenant_def split: if_splits)

lemma insert_tenant_Inr:
  "insert_tenant t s = (Inr x, s') \<Longrightarrow> s' = s\<lparr>tenants := tenants s @ [t]\<rparr>"
  by (simp add: insert_tenant_def split: if_splits)

text \<open>Revoking the sessions of one user: none of its tokens stays live, no other token changes.\<close>

lemma revoke_sessions_none_live [simp]:
  "\<forall>t \<in> set (refresh_tokens (revoke_sessions uid now s)). \<not> live_token_of uid t"
  by (simp add: revoke_sessions_def ball_upd_where live_token_of_def)

lemma revoke_sessions_others:
  "uid' \<noteq> uid \<Longrightarrow>
   filter (\<lambda>t. rt_userId t = uid') (refresh_tokens (revoke_sessions uid now s))
     = filter (\<lambda>t. rt_userId t = uid') (refresh_tokens s)"
  unfolding revoke_sessions_def
  by (simp, rule filter_upd_where_other) (simp add: live_token_of_def)

lemma revoke_sessions_fields [simp]:
  "users (revoke_sessions uid now s) = users s"
  "tenants (revoke_sessions uid now s) = tenants s"
  "apps (revoke_sessions uid now s) = apps s"
  "app_tenants (revoke_sessions uid now s) = app_tenants s"
  "audit_events (revoke_sessions uid now s) = audit_events s"
  by (simp_all add: revoke_sessions_def)

lemma delete_users_fields [simp]:
  "tenants (delete_users P s) = tenants s"
  "apps (delete_users P s) = apps s"
  "app_tenants (delete_users P s) = app_tenants s"
  "audit_events (delete_users P s) = audit_events s"
  "invites (delete_users P s) = invites s"
  "smtp_configs (delete_users P s) = smtp_configs s"
  "users (delete_users P s) = del_where P (users s)"
  by (simp_all add: delete_users_def Let_def)

end
