(* ===== verification/Audit_Log.thy ===== *)
theory Audit_Log
  imports Store
begin

text \<open>
  The audit trail, \<open>platform/src/audit/audit.service.ts\<close>. \<open>record_event\<close> is the trusted path the
  platform's own services use (\<open>record\<close>), \<open>recordFromApp\<close> the one that apps reach with their client
  credentials. \<open>audit_list\<close> is the console's query.
\<close>

section \<open>Recording\<close>

record audit_meta =
  am_tenantId :: "string option"
  am_userId :: "string option"
  am_appClientId :: "string option"
  am_ip :: "string option"
  am_detail :: "json option"

definition no_meta :: audit_meta where
  "no_meta = \<lparr>am_tenantId = None, am_userId = None, am_appClientId = None, am_ip = None,
     am_detail = None\<rparr>"

text \<open>\<open>(meta.detail ?? undefined)\<close>: a JSON \<open>null\<close> is stored as no detail.\<close>

definition stored_detail :: "json option \<Rightarrow> json option" where
  "stored_detail d = (case d of Some JNull \<Rightarrow> None | _ \<Rightarrow> d)"

definition record_event :: "string \<Rightarrow> audit_meta \<Rightarrow> time \<Rightarrow> db \<Rightarrow> db" where
  "record_event action meta now s =
     s\<lparr>audit_events := audit_events s @
        [\<lparr>ae_tenantId = am_tenantId meta, ae_userId = am_userId meta,
          ae_appClientId = am_appClientId meta, ae_action = action,
          ae_detail = stored_detail (am_detail meta), ae_ip = am_ip meta, ae_createdAt = now\<rparr>]\<rparr>"

section \<open>Events pushed by an app\<close>

definition MAX_APP_EVENT_DETAIL_BYTES :: nat where
  "MAX_APP_EVENT_DETAIL_BYTES = 4096"

text \<open>\<open>JSON.stringify\<close>, for the size of a detail record. A control character without a short
  escape takes six characters; a \<open>Date\<close> is its ISO string, 24 characters in quotes.\<close>

definition json_char :: "char \<Rightarrow> string" where
  "json_char c =
     (if c = CHR 0x22 then [CHR 0x5C, CHR 0x22]
      else if c = CHR 0x5C then [CHR 0x5C, CHR 0x5C]
      else if c = CHR 0x08 then [CHR 0x5C, CHR ''b'']
      else if c = CHR 0x0C then [CHR 0x5C, CHR ''f'']
      else if c = CHR 0x0A then [CHR 0x5C, CHR ''n'']
      else if c = CHR 0x0D then [CHR 0x5C, CHR ''r'']
      else if c = CHR 0x09 then [CHR 0x5C, CHR ''t'']
      else if (of_char c :: nat) < 32
      then [CHR 0x5C, CHR ''u'', CHR ''0'', CHR ''0'',
            (if (of_char c :: nat) < 16 then CHR ''0'' else CHR ''1''),
            (let d = of_char c mod 16 :: nat in char_of (if d < 10 then 48 + d else 87 + d))]
      else [c])"

definition json_string :: "string \<Rightarrow> string" where
  "json_string s = [CHR 0x22] @ concat (map json_char s) @ [CHR 0x22]"

fun json_text :: "json \<Rightarrow> string" where
  "json_text JNull = ''null''"
| "json_text (JBool b) = (if b then ''true'' else ''false'')"
| "json_text (JNum i) = show_int i"
| "json_text (JStr s) = json_string s"
| "json_text (JDate t) = [CHR 0x22] @ replicate 24 (CHR ''0'') @ [CHR 0x22]"
| "json_text (JArr xs) = ''['' @ join '','' (map json_text xs) @ '']''"
| "json_text (JObj kvs) =
     ''{'' @ join '','' (map (\<lambda>(k, v). json_string k @ '':'' @ json_text v) kvs) @ ''}''"

record app_event_input =
  ev_action :: string
  ev_tenantId :: "string option"
  ev_userId :: "string option"
  ev_detail :: "json option"

definition record_as_app :: "app \<Rightarrow> app_event_input \<Rightarrow> time \<Rightarrow> db \<Rightarrow> unit res \<times> db" where
  "record_as_app app input now s =
     (Inr (), record_event (a_name app @ ''.'' @ trim (ev_action input))
        \<lparr>am_tenantId = ev_tenantId input, am_userId = ev_userId input,
         am_appClientId = Some (a_clientId app), am_ip = None, am_detail = ev_detail input\<rparr> now s)"

definition recordFromApp :: "app \<Rightarrow> app_event_input \<Rightarrow> time \<Rightarrow> db \<Rightarrow> unit res \<times> db" where
  "recordFromApp app input now s =
     (let bytes = (case ev_detail input of None \<Rightarrow> 0 | Some d \<Rightarrow> utf8_bytes (json_text d))
      in if MAX_APP_EVENT_DETAIL_BYTES < bytes
         then (Inl (BadRequest (''detail is '' @ show_int (int bytes) @ '' bytes; the limit is ''
                 @ show_int (int MAX_APP_EVENT_DETAIL_BYTES))), s)
         else if truthy (ev_tenantId input) then
           (case access_of s (the (ev_tenantId input)) (a_id app) of
              None \<Rightarrow> (Inl (Forbidden ''App is not enabled for this workspace''), s)
            | Some _ \<Rightarrow>
                if truthy (ev_userId input)
                   \<and> find (\<lambda>u. u_id u = the (ev_userId input) \<and> u_tenantId u = ev_tenantId input)
                       (users s) = None
                then (Inl (BadRequest ''userId is not a member of that workspace''), s)
                else record_as_app app input now s)
         else if truthy (ev_userId input)
         then (Inl (BadRequest ''userId requires tenantId''), s)
         else record_as_app app input now s)"

section \<open>The console's query\<close>

text \<open>\<open>orderBy: { createdAt: 'desc' }\<close>, then at most \<open>take\<close> rows, never more than 10000.\<close>

record audit_filters =
  af_tenantId :: "string option"
  af_action :: "string option"
  af_from :: "time option"
  af_to :: "time option"
  af_take :: "nat option"

definition audit_matches :: "audit_filters \<Rightarrow> audit_event \<Rightarrow> bool" where
  "audit_matches f e =
     ((truthy (af_tenantId f) \<longrightarrow> ae_tenantId e = af_tenantId f)
      \<and> (truthy (af_action f) \<longrightarrow> ae_action e = the (af_action f))
      \<and> (case af_from f of None \<Rightarrow> True | Some t \<Rightarrow> t \<le> ae_createdAt e)
      \<and> (case af_to f of None \<Rightarrow> True | Some t \<Rightarrow> ae_createdAt e \<le> t))"

definition audit_list :: "audit_filters \<Rightarrow> db \<Rightarrow> audit_event list" where
  "audit_list f s =
     take (min (nullish (af_take f) 100) 10000)
       (sort_key (\<lambda>e. - ae_createdAt e) (filter (audit_matches f) (audit_events s)))"

section \<open>Facts\<close>

lemma record_event_fields [simp]:
  "tenants (record_event a m n s) = tenants s"
  "users (record_event a m n s) = users s"
  "apps (record_event a m n s) = apps s"
  "prices (record_event a m n s) = prices s"
  "app_tenants (record_event a m n s) = app_tenants s"
  "roles (record_event a m n s) = roles s"
  "user_roles (record_event a m n s) = user_roles s"
  "refresh_tokens (record_event a m n s) = refresh_tokens s"
  "invites (record_event a m n s) = invites s"
  "passkeys (record_event a m n s) = passkeys s"
  "smtp_configs (record_event a m n s) = smtp_configs s"
  "email_templates (record_event a m n s) = email_templates s"
  "outbox (record_event a m n s) = outbox s"
  by (simp_all add: record_event_def)

lemma record_event_queries [simp]:
  "tenant_by_id (record_event a m n s) = tenant_by_id s"
  "tenant_by_slug (record_event a m n s) = tenant_by_slug s"
  "live_tenant_by_slug (record_event a m n s) = live_tenant_by_slug s"
  "user_by_id (record_event a m n s) = user_by_id s"
  "user_by_email (record_event a m n s) = user_by_email s"
  "live_user_by_email (record_event a m n s) = live_user_by_email s"
  "app_by_id (record_event a m n s) = app_by_id s"
  "live_app_by_client (record_event a m n s) = live_app_by_client s"
  "access_of (record_event a m n s) = access_of s"
  "access_by_sub (record_event a m n s) = access_by_sub s"
  "token_by_hash (record_event a m n s) = token_by_hash s"
  by (simp_all add: query_simps fun_eq_iff)

lemma recordFromApp_cases:
  assumes "recordFromApp app input now s = (r, s')"
  obtains e where "r = Inl e" "s' = s"
  | "r = Inr ()" "(r, s') = record_as_app app input now s"
    "truthy (ev_tenantId input) \<Longrightarrow>
       access_of s (the (ev_tenantId input)) (a_id app) \<noteq> None"
    "truthy (ev_userId input) \<Longrightarrow> truthy (ev_tenantId input)
       \<and> (\<exists>u \<in> set (users s). u_id u = the (ev_userId input) \<and> u_tenantId u = ev_tenantId input)"
  using assms
  by (auto simp: recordFromApp_def record_as_app_def Let_def find_None_iff
      split: if_splits option.splits)

text \<open>The newest events come first and a listing never exceeds its cap.\<close>

lemma audit_list_sorted: "sorted_wrt (\<lambda>a b. ae_createdAt b \<le> ae_createdAt a) (audit_list f s)"
proof -
  have "sorted (map (\<lambda>e. - ae_createdAt e)
      (sort_key (\<lambda>e. - ae_createdAt e) (filter (audit_matches f) (audit_events s))))"
    by simp
  then show ?thesis
    by (simp add: audit_list_def sorted_map sorted_wrt_take)
qed

lemma audit_list_bound: "length (audit_list f s) \<le> 10000"
  by (simp add: audit_list_def)

lemma audit_list_matches: "e \<in> set (audit_list f s) \<Longrightarrow> audit_matches f e"
  unfolding audit_list_def by (drule in_set_takeD) simp

section \<open>Properties\<close>

text \<open>
  An event an app pushes is stored only under its own name, for a workspace the app has a grant
  for and a user of that workspace; a refused push changes nothing.
\<close>

theorem app_event_confined:
  assumes "recordFromApp app input now s = (r, s')"
  shows "case r of
      Inl _ \<Rightarrow> s' = s
    | Inr _ \<Rightarrow> (\<exists>e. audit_events s' = audit_events s @ [e]
         \<and> starts_with (ae_action e) (a_name app @ ''.'')
         \<and> ae_appClientId e = Some (a_clientId app) \<and> ae_tenantId e = ev_tenantId input
         \<and> (truthy (ae_tenantId e) \<longrightarrow> access_of s (the (ae_tenantId e)) (a_id app) \<noteq> None)
         \<and> (truthy (ae_userId e) \<longrightarrow> (\<exists>u \<in> set (users s).
               u_id u = the (ae_userId e) \<and> u_tenantId u = ae_tenantId e)))"
  using assms
proof (cases rule: recordFromApp_cases)
  case 2
  then show ?thesis
    by (auto simp: record_as_app_def record_event_def starts_with_def)
qed simp

lemma app_event_confined_witness:
  "\<exists>e. audit_events (snd (recordFromApp
       \<lparr>a_id = ''a'', a_clientId = ''c'', a_clientSecretHash = [], a_name = ''swag'',
        a_displayName = None, a_callbackUrls = [], a_autoEnroll = False, a_brand = None,
        a_createdAt = 0, a_deletedAt = None\<rparr>
       \<lparr>ev_action = '' seen '', ev_tenantId = None, ev_userId = None, ev_detail = None\<rparr> 5 empty_db)) = [e]
     \<and> starts_with (ae_action e) ''swag.''"
  using app_event_confined [of
      "\<lparr>a_id = ''a'', a_clientId = ''c'', a_clientSecretHash = [], a_name = ''swag'',
        a_displayName = None, a_callbackUrls = [], a_autoEnroll = False, a_brand = None,
        a_createdAt = 0, a_deletedAt = None\<rparr>"
      "\<lparr>ev_action = '' seen '', ev_tenantId = None, ev_userId = None, ev_detail = None\<rparr>"
      5 empty_db, OF prod.collapse [symmetric]]
  by (auto simp: recordFromApp_def record_as_app_def empty_db_def)

end
