(* ===== verification/Auth.thy ===== *)
theory Auth
  imports Audit_Log "HOL-Library.Countable"
begin

text \<open>
  Sessions: \<open>platform/src/auth/auth.service.ts\<close> (password login, refresh with rotation and reuse
  detection, logout, and the gate every login method ends in) and the four request guards
  (\<open>client.guard.ts\<close>, \<open>jwt.guard.ts\<close>, \<open>platform-admin.guard.ts\<close>, \<open>tenant-admin.guard.ts\<close>).

  bcrypt, SHA-256, HMAC and AES from Node, the JWT library, the SMTP transport and
  \<open>encodeURIComponent\<close> are the fields of \<open>env\<close>, a parameter of every operation that uses them. Values drawn at random (a token, a row id) are arguments, and so is \<open>now\<close>.

  The locale \<open>session_gate\<close> is what every way into a session promises; password login and refresh are
  interpreted in it here, passkey login in its own theory.
\<close>

section \<open>The cryptographic environment\<close>

type_synonym claims = "(string \<times> json) list"

record env =
  sha256 :: "string \<Rightarrow> string"
  bcrypt_hash :: "string \<Rightarrow> string"
  bcrypt_compare :: "string \<Rightarrow> string \<Rightarrow> bool" \<comment> \<open>password, hash\<close>
  dummy_hash :: string
  jwt_sign :: "claims \<Rightarrow> int \<Rightarrow> time \<Rightarrow> string" \<comment> \<open>claims, lifetime in seconds, now\<close>
  jwt_verify :: "time \<Rightarrow> string \<Rightarrow> claims option" \<comment> \<open>\<open>None\<close> where the library throws\<close>
  hmac_sign :: "string \<Rightarrow> claims \<Rightarrow> int \<Rightarrow> time \<Rightarrow> string" \<comment> \<open>secret, claims, lifetime, now\<close>
  hmac_verify :: "string \<Rightarrow> time \<Rightarrow> string \<Rightarrow> bool" \<comment> \<open>secret, now, token\<close>
  jwt_decode :: "string \<Rightarrow> claims option"
  hmac_hex :: "string \<Rightarrow> string \<Rightarrow> string" \<comment> \<open>key, message\<close>
  encrypt_secret :: "string \<Rightarrow> string"
  decrypt_secret :: "string \<Rightarrow> string option" \<comment> \<open>\<open>None\<close> where decryption throws\<close>
  relay_send :: "resolved_smtp \<Rightarrow> mail \<Rightarrow> string res" \<comment> \<open>the message id, or what the relay threw\<close>
  uri_encode :: "string \<Rightarrow> string"

definition claim_truthy :: "claims \<Rightarrow> string \<Rightarrow> bool" where
  "claim_truthy c k = (case map_of c k of None \<Rightarrow> False | Some v \<Rightarrow> json_truthy v)"

text \<open>A string claim of a verified token; the platform signs ids, purposes and challenges as
  strings.\<close>

definition claim_string :: "claims \<Rightarrow> string \<Rightarrow> string option" where
  "claim_string c k = (case map_of c k of Some (JStr x) \<Rightarrow> Some x | _ \<Rightarrow> None)"

text \<open>
  What the libraries promise, as hypotheses of the lemmas that need it: a token that verifies carries
  the claims it was signed with, besides those the library adds; a ciphertext is non-empty base64, so
  without a colon, and decrypts to what was encrypted. Nothing is said of texts that are no ciphertexts:
  the decoder skips characters outside its alphabet, and it is the authentication tag that refuses them.
\<close>

definition token_laws :: "env \<Rightarrow> bool" where
  "token_laws env \<longleftrightarrow> (\<forall>c ttl t now x k. jwt_verify env now (jwt_sign env c ttl t) = Some x \<longrightarrow>
     k \<in> fst ` set c \<longrightarrow> map_of x k = map_of c k)"

definition cipher_laws :: "env \<Rightarrow> bool" where
  "cipher_laws env \<longleftrightarrow> (\<forall>x. encrypt_secret env x \<noteq> [] \<and> CHR '':'' \<notin> set (encrypt_secret env x)
     \<and> decrypt_secret env (encrypt_secret env x) = Some x)"

section \<open>Request guards\<close>

text \<open>\<open>ClientGuard\<close>: the app that the client credentials authenticate.\<close>

definition client_guard :: "env \<Rightarrow> string option \<Rightarrow> string option \<Rightarrow> db \<Rightarrow> app res" where
  "client_guard env clientId clientSecret s =
     (case (clientId, clientSecret) of
        (Some cid, Some secret) \<Rightarrow>
          (case live_app_by_client s cid of
             None \<Rightarrow> Inl (Unauthorized ''Invalid client credentials'')
           | Some app \<Rightarrow>
               if bcrypt_compare env secret (a_clientSecretHash app) then Inr app
               else Inl (Unauthorized ''Invalid client credentials''))
      | _ \<Rightarrow> Inl (Unauthorized ''Missing client credentials''))"

definition jwt_guard :: "env \<Rightarrow> string option \<Rightarrow> time \<Rightarrow> claims res" where
  "jwt_guard env header now =
     (case header of
        None \<Rightarrow> Inl (Unauthorized ''Missing bearer token'')
      | Some h \<Rightarrow>
          if \<not> starts_with h ''Bearer '' then Inl (Unauthorized ''Missing bearer token'')
          else (case jwt_verify env now (drop 7 h) of
                  None \<Rightarrow> Inl (Unauthorized ''Invalid or expired token'')
                | Some c \<Rightarrow>
                    if claim_truthy c ''purpose''
                    then Inl (Unauthorized ''Invalid or expired token'') else Inr c))"

definition platform_admin_guard :: "claims \<Rightarrow> unit res" where
  "platform_admin_guard c =
     (if map_of c ''platform_admin'' \<noteq> Some (JBool True)
      then Inl (Forbidden ''Platform admin required'') else Inr ())"

definition tenant_admin_guard :: "claims \<Rightarrow> unit res" where
  "tenant_admin_guard c =
     (if map_of c ''tenant_admin'' \<noteq> Some (JBool True) \<or> \<not> claim_truthy c ''tenant_id''
      then Inl (Forbidden ''Tenant admin required'') else Inr ())"

section \<open>The gate\<close>

text \<open>\<open>x != null && x < now\<close>.\<close>

definition past :: "time option \<Rightarrow> time \<Rightarrow> bool" where
  "past x now = (case x of None \<Rightarrow> False | Some t \<Rightarrow> t < now)"

lemma past_simps [simp]: "\<not> past None now" "past (Some t) now \<longleftrightarrow> t < now"
  by (simp_all add: past_def)

definition assertTenantUsable :: "tenant option \<Rightarrow> time \<Rightarrow> unit res" where
  "assertTenantUsable tenant now =
     (case tenant of
        None \<Rightarrow> Inr ()
      | Some t \<Rightarrow>
          (let graceExpired = (tn_status t = TPastDue \<and> past (tn_graceUntil t) now)
           in if tn_deletedAt t \<noteq> None \<or> tn_status t = TSuspended \<or> graceExpired
              then Inl (Forbidden ''Tenant is suspended'') else Inr ()))"

definition assertAppEnabled ::
  "tenant option \<Rightarrow> string option \<Rightarrow> time \<Rightarrow> db \<Rightarrow> unit res" where
  "assertAppEnabled tenant clientId now s =
     (case tenant of
        None \<Rightarrow> Inr ()
      | Some t \<Rightarrow>
          if \<not> truthy clientId then Inr ()
          else (let enablement = (case live_app_by_client s (the clientId) of
                      None \<Rightarrow> None
                    | Some app \<Rightarrow> access_of s (tn_id t) (a_id app))
                in case enablement of
                     None \<Rightarrow> Inl (Forbidden ''App is not enabled for this workspace'')
                   | Some e \<Rightarrow>
                       if at_status e = Suspended
                       then Inl (Forbidden ''App access is suspended for this workspace'')
                       else if at_status e = Trial \<and> past (at_trialEndsAt e) now
                       then Inl (Forbidden ''Trial has ended for this workspace'')
                       else if at_status e = PastDue \<and> past (at_graceUntil e) now
                       then Inl (Forbidden ''App access is suspended for this workspace'')
                       else Inr ()))"

section \<open>Sessions\<close>

text \<open>The roles of a user, with the app each belongs to, and those of one app.\<close>

definition roles_of :: "db \<Rightarrow> string \<Rightarrow> role list" where
  "roles_of s uid =
     List.map_filter (\<lambda>ur. role_by_id s (ur_roleId ur))
       (filter (\<lambda>ur. ur_userId ur = uid) (user_roles s))"

definition rolesForApp :: "db \<Rightarrow> user \<Rightarrow> string option \<Rightarrow> string list" where
  "rolesForApp s u clientId =
     map r_name (filter (\<lambda>r. \<not> truthy clientId
         \<or> map_option a_clientId (app_by_id s (r_appId r)) = clientId) (roles_of s (u_id u)))"

record session =
  ss_accessToken :: string
  ss_refreshToken :: string
  ss_expiresIn :: int
  ss_userId :: string
  ss_email :: string
  ss_name :: "string option"
  ss_platformAdmin :: bool
  ss_tenantAdmin :: bool
  ss_tenant :: "(string \<times> string \<times> string) option"

text \<open>The values an issued pair draws: the row id and the raw refresh token.\<close>

type_synonym drawn = "string \<times> string"

definition access_claims :: "db \<Rightarrow> user \<Rightarrow> tenant option \<Rightarrow> string option \<Rightarrow> claims" where
  "access_claims s u tenant clientId =
     [(''sub'', JStr (u_id u)), (''email'', JStr (u_email u)),
      (''tenant_id'', json_opt (JStr \<circ> tn_id) tenant),
      (''tenant_slug'', json_opt (JStr \<circ> tn_slug) tenant),
      (''roles'', JArr (map JStr (rolesForApp s u clientId))),
      (''app'', json_opt JStr clientId),
      (''platform_admin'', JBool (u_isPlatformAdmin u)),
      (''tenant_admin'', JBool (u_isTenantAdmin u))]"

text \<open>\<open>refreshToken.create\<close>: the row's id and its hash are unique.\<close>

definition insert_refresh_token :: "refresh_token \<Rightarrow> db \<Rightarrow> unit res \<times> db" where
  "insert_refresh_token t s =
     (if rt_id t \<in> rt_id ` set (refresh_tokens s) \<or> token_by_hash s (rt_tokenHash t) \<noteq> None
      then (Inl (PrismaError ''P2002''), s)
      else (Inr (), s\<lparr>refresh_tokens := refresh_tokens s @ [t]\<rparr>))"

definition issueTokens ::
  "env \<Rightarrow> config \<Rightarrow> user \<Rightarrow> tenant option \<Rightarrow> string option \<Rightarrow> drawn \<Rightarrow> time \<Rightarrow> db \<Rightarrow>
   session res \<times> db" where
  "issueTokens env cfg u tenant clientId dr now s =
     (let accessToken = jwt_sign env (access_claims s u tenant clientId) (accessTtlSec cfg) now;
          rawRefresh = snd dr
      in case insert_refresh_token
           \<lparr>rt_id = fst dr, rt_userId = u_id u, rt_tokenHash = sha256 env rawRefresh,
            rt_appClientId = clientId, rt_expiresAt = now + refreshTtlDays cfg * day_ms,
            rt_revokedAt = None\<rparr> s of
           (Inl e, s1) \<Rightarrow> (Inl e, s1)
         | (Inr _, s1) \<Rightarrow>
             (Inr \<lparr>ss_accessToken = accessToken, ss_refreshToken = rawRefresh,
                   ss_expiresIn = accessTtlSec cfg, ss_userId = u_id u, ss_email = u_email u,
                   ss_name = u_name u, ss_platformAdmin = u_isPlatformAdmin u,
                   ss_tenantAdmin = u_isTenantAdmin u,
                   ss_tenant = map_option (\<lambda>t. (tn_id t, tn_slug t, tn_name t)) tenant\<rparr>, s1))"

definition completeLogin ::
  "env \<Rightarrow> config \<Rightarrow> user \<Rightarrow> tenant option \<Rightarrow> string option \<Rightarrow> string option \<Rightarrow> string \<Rightarrow> drawn \<Rightarrow>
   time \<Rightarrow> db \<Rightarrow> session res \<times> db" where
  "completeLogin env cfg u tenant clientId ip lmeth dr now s =
     (if u_deletedAt u \<noteq> None then (Inl (Unauthorized ''Invalid credentials''), s)
      else if u_emailVerifiedAt u = None then (Inl (Forbidden ''Email not verified''), s)
      else case assertTenantUsable tenant now of
        Inl e \<Rightarrow> (Inl e, s)
      | Inr _ \<Rightarrow>
        (case assertAppEnabled tenant clientId now s of
           Inl e \<Rightarrow> (Inl e, s)
         | Inr _ \<Rightarrow>
           (case issueTokens env cfg u tenant clientId dr now s of
              (Inl e, s1) \<Rightarrow> (Inl e, s1)
            | (Inr result, s1) \<Rightarrow>
                (Inr result, record_event ''auth.login''
                   \<lparr>am_tenantId = map_option tn_id tenant, am_userId = Some (u_id u),
                    am_appClientId = clientId, am_ip = ip,
                    am_detail = Some (JObj [(''method'', JStr lmeth)])\<rparr> now s1))))"

record login_dto =
  lg_tenantSlug :: "string option"
  lg_email :: string
  lg_password :: string
  lg_clientId :: "string option"

definition login ::
  "env \<Rightarrow> config \<Rightarrow> login_dto \<Rightarrow> string option \<Rightarrow> drawn \<Rightarrow> time \<Rightarrow> db \<Rightarrow> session res \<times> db" where
  "login env cfg dto ip dr now s =
     (let tenant = (if truthy (lg_tenantSlug dto)
            then live_tenant_by_slug s (the (lg_tenantSlug dto)) else None)
      in if truthy (lg_tenantSlug dto) \<and> tenant = None
         then (Inl (Unauthorized ''Invalid credentials''), s)
         else let user = live_user_by_email s (map_option tn_id tenant) (lower (lg_email dto));
                  ok = bcrypt_compare env (lg_password dto)
                    (case user of None \<Rightarrow> dummy_hash env | Some u \<Rightarrow> u_passwordHash u)
              in case user of
                   None \<Rightarrow> (Inl (Unauthorized ''Invalid credentials''), s)
                 | Some u \<Rightarrow>
                     if \<not> ok then (Inl (Unauthorized ''Invalid credentials''), s)
                     else completeLogin env cfg u tenant (lg_clientId dto) ip ''password'' dr now s)"

section \<open>Refresh and logout\<close>

definition REFRESH_REUSE_GRACE_MS :: int where "REFRESH_REUSE_GRACE_MS = 10000"

definition tenant_of :: "db \<Rightarrow> user \<Rightarrow> tenant option" where
  "tenant_of s u = (case u_tenantId u of None \<Rightarrow> None | Some tid \<Rightarrow> tenant_by_id s tid)"

definition onRefreshReuse :: "refresh_token \<Rightarrow> user \<Rightarrow> time \<Rightarrow> db \<Rightarrow> db" where
  "onRefreshReuse stored u now s =
     (if (case rt_revokedAt stored of None \<Rightarrow> False | Some t \<Rightarrow> now - t < REFRESH_REUSE_GRACE_MS)
      then s
      else let count = count_where (live_token_of (rt_userId stored)) (refresh_tokens s);
               s1 = revoke_sessions (rt_userId stored) now s
           in record_event ''auth.refresh_reuse_detected''
                \<lparr>am_tenantId = u_tenantId u, am_userId = Some (rt_userId stored),
                 am_appClientId = rt_appClientId stored, am_ip = None,
                 am_detail = Some (JObj [(''revoked'', JNum (int count))])\<rparr> now s1)"

text \<open>
  \<open>refresh\<close> in the two halves between which another request may run: everything up to the gate, and
  the rotation. A token's owner exists by the foreign key; the model's answer where it does not is
  never given on a database that satisfies it.
\<close>

definition refresh_check ::
  "env \<Rightarrow> string \<Rightarrow> time \<Rightarrow> db \<Rightarrow> (refresh_token \<times> user \<times> tenant option) res \<times> db" where
  "refresh_check env rawToken now s =
     (case token_by_hash s (sha256 env rawToken) of
        None \<Rightarrow> (Inl (Unauthorized ''Invalid refresh token''), s)
      | Some stored \<Rightarrow>
        (case user_by_id s (rt_userId stored) of
           None \<Rightarrow> (Inl (UncaughtError ''token without owner''), s)
         | Some u \<Rightarrow>
             if rt_revokedAt stored \<noteq> None
             then (Inl (Unauthorized ''Invalid refresh token''), onRefreshReuse stored u now s)
             else if rt_expiresAt stored < now
             then (Inl (Unauthorized ''Invalid refresh token''), s)
             else if u_deletedAt u \<noteq> None
             then (Inl (Unauthorized ''Invalid refresh token''), s)
             else if u_emailVerifiedAt u = None then (Inl (Forbidden ''Email not verified''), s)
             else let tenant = tenant_of s u
                  in case assertTenantUsable tenant now of
                       Inl e \<Rightarrow> (Inl e, s)
                     | Inr _ \<Rightarrow>
                       (case assertAppEnabled tenant (rt_appClientId stored) now s of
                          Inl e \<Rightarrow> (Inl e, s)
                        | Inr _ \<Rightarrow> (Inr (stored, u, tenant), s))))"

definition refresh_rotate ::
  "env \<Rightarrow> config \<Rightarrow> refresh_token \<times> user \<times> tenant option \<Rightarrow> drawn \<Rightarrow> time \<Rightarrow> db \<Rightarrow>
   session res \<times> db" where
  "refresh_rotate env cfg c dr now s =
     (case c of (stored, u, tenant) \<Rightarrow>
        issueTokens env cfg u tenant (rt_appClientId stored) dr now
          (s\<lparr>refresh_tokens := upd_where (\<lambda>t. rt_id t = rt_id stored)
              (\<lambda>t. t\<lparr>rt_revokedAt := Some now\<rparr>) (refresh_tokens s)\<rparr>))"

definition refresh ::
  "env \<Rightarrow> config \<Rightarrow> string \<Rightarrow> drawn \<Rightarrow> time \<Rightarrow> db \<Rightarrow> session res \<times> db" where
  "refresh env cfg rawToken dr now s =
     (case refresh_check env rawToken now s of
        (Inl e, s1) \<Rightarrow> (Inl e, s1)
      | (Inr c, s1) \<Rightarrow> refresh_rotate env cfg c dr now s1)"

definition logout :: "env \<Rightarrow> string \<Rightarrow> time \<Rightarrow> db \<Rightarrow> unit res \<times> db" where
  "logout env rawToken now s =
     (Inr (), s\<lparr>refresh_tokens := upd_where
        (\<lambda>t. rt_tokenHash t = sha256 env rawToken \<and> rt_revokedAt t = None)
        (\<lambda>t. t\<lparr>rt_revokedAt := Some now\<rparr>) (refresh_tokens s)\<rparr>)"

section \<open>What the gate decides\<close>

definition tenant_usable :: "tenant \<Rightarrow> time \<Rightarrow> bool" where
  "tenant_usable t now \<longleftrightarrow> tn_deletedAt t = None
     \<and> (tn_status t = TActive \<or> tn_status t = TPastDue \<and> \<not> past (tn_graceUntil t) now)"

definition entitled_row :: "app_tenant \<Rightarrow> time \<Rightarrow> bool" where
  "entitled_row a now \<longleftrightarrow> at_status a = Active
     \<or> at_status a = Trial \<and> \<not> past (at_trialEndsAt a) now
     \<or> at_status a = PastDue \<and> \<not> past (at_graceUntil a) now"

definition entitled :: "db \<Rightarrow> string \<Rightarrow> string \<Rightarrow> time \<Rightarrow> bool" where
  "entitled s tid clientId now = (case live_app_by_client s clientId of
      None \<Rightarrow> False
    | Some app \<Rightarrow> (case access_of s tid (a_id app) of None \<Rightarrow> False | Some a \<Rightarrow> entitled_row a now))"

lemma assertTenantUsable_ok:
  "assertTenantUsable tenant now = Inr x \<longleftrightarrow>
   (case tenant of None \<Rightarrow> True | Some t \<Rightarrow> tenant_usable t now)"
  by (cases tenant; cases "tn_status (the tenant)")
     (auto simp: assertTenantUsable_def tenant_usable_def Let_def)

lemma assertAppEnabled_ok:
  "assertAppEnabled tenant clientId now s = Inr x \<longleftrightarrow>
   (case tenant of None \<Rightarrow> True
    | Some t \<Rightarrow> truthy clientId \<longrightarrow> entitled s (tn_id t) (the clientId) now)"
proof (cases tenant)
  case (Some t)
  show ?thesis
  proof (cases "truthy clientId")
    case True
    show ?thesis
    proof (cases "live_app_by_client s (the clientId)")
      case (Some app)
      then show ?thesis
        using \<open>tenant = Some t\<close> True
        by (cases "access_of s (tn_id t) (a_id app)";
            cases "at_status (the (access_of s (tn_id t) (a_id app)))")
           (auto simp: assertAppEnabled_def entitled_def entitled_row_def)
    qed (use Some True in \<open>simp add: assertAppEnabled_def entitled_def\<close>)
  qed (use Some in \<open>simp add: assertAppEnabled_def\<close>)
qed (simp add: assertAppEnabled_def)

lemmas gate_ok = assertTenantUsable_ok assertAppEnabled_ok

text \<open>An issued pair is one new live token of the user and nothing else.\<close>

definition issued_to :: "user \<Rightarrow> string option \<Rightarrow> db \<Rightarrow> db \<Rightarrow> bool" where
  "issued_to u clientId s s' \<longleftrightarrow> (\<exists>t. s' = s\<lparr>refresh_tokens := refresh_tokens s @ [t]\<rparr>
     \<and> rt_userId t = u_id u \<and> rt_revokedAt t = None \<and> rt_appClientId t = clientId)"

lemma issueTokens_Inr:
  "issueTokens env cfg u tenant clientId dr now s = (Inr ses, s') \<Longrightarrow>
   issued_to u clientId s s' \<and> ss_userId ses = u_id u \<and> ss_refreshToken ses = snd dr
   \<and> ss_tenant ses = map_option (\<lambda>t. (tn_id t, tn_slug t, tn_name t)) tenant
   \<and> token_by_hash s (sha256 env (snd dr)) = None"
  unfolding issueTokens_def insert_refresh_token_def issued_to_def Let_def
  by (force split: if_splits)

lemma issueTokens_Inl: "issueTokens env cfg u tenant clientId dr now s = (Inl e, s') \<Longrightarrow> s' = s"
  by (auto simp: issueTokens_def insert_refresh_token_def Let_def split: if_splits)

lemma completeLogin_Inr:
  assumes "completeLogin env cfg u tenant clientId ip m dr now s = (Inr ses, s')"
  shows "u_deletedAt u = None \<and> u_emailVerifiedAt u \<noteq> None
    \<and> (case tenant of None \<Rightarrow> True | Some t \<Rightarrow> tenant_usable t now
         \<and> (truthy clientId \<longrightarrow> entitled s (tn_id t) (the clientId) now))
    \<and> (\<exists>s1 meta. issued_to u clientId s s1 \<and> s' = record_event ''auth.login'' meta now s1)
    \<and> ss_userId ses = u_id u
    \<and> ss_tenant ses = map_option (\<lambda>t. (tn_id t, tn_slug t, tn_name t)) tenant"
proof -
  have g: "u_deletedAt u = None" "u_emailVerifiedAt u \<noteq> None"
    "assertTenantUsable tenant now = Inr ()" "assertAppEnabled tenant clientId now s = Inr ()"
    using assms by (auto simp: completeLogin_def split: if_splits sum.splits)
  then obtain s1 meta where "issueTokens env cfg u tenant clientId dr now s = (Inr ses, s1)"
    and "s' = record_event ''auth.login'' meta now s1"
    using assms by (auto simp: completeLogin_def split: sum.splits prod.splits)
  with g issueTokens_Inr [of env cfg u tenant clientId dr now s ses s1] show ?thesis
    by (auto simp: gate_ok split: option.splits)
qed

lemma completeLogin_Inl:
  "completeLogin env cfg u tenant clientId ip m dr now s = (Inl e, s') \<Longrightarrow> s' = s"
  by (auto simp: completeLogin_def split: if_splits sum.splits prod.splits dest: issueTokens_Inl)

text \<open>The tokens a user may still present.\<close>

definition live_tokens :: "string \<Rightarrow> db \<Rightarrow> refresh_token set" where
  "live_tokens uid s = {t \<in> set (refresh_tokens s). live_token_of uid t}"

section \<open>The interface of a way into a session\<close>

text \<open>
  \<open>attempt i now s\<close> tries to open a session, \<open>client i s\<close> is the app it is scoped to. A session
  opened belongs to a live, verified account of a tenant that may be used, and its app is one the
  tenant is entitled to; a refused attempt makes no token, and a granted one makes tokens of one
  user only.
\<close>

locale session_gate =
  fixes attempt :: "'i \<Rightarrow> time \<Rightarrow> db \<Rightarrow> session res \<times> db"
    and client :: "'i \<Rightarrow> db \<Rightarrow> string option"
  assumes granted: "unique_on tn_id (tenants s) \<Longrightarrow> attempt i now s = (Inr ses, s') \<Longrightarrow>
      \<exists>u \<in> set (users s). u_id u = ss_userId ses \<and> u_deletedAt u = None \<and> u_emailVerifiedAt u \<noteq> None
        \<and> ss_tenant ses = map_option (\<lambda>t. (tn_id t, tn_slug t, tn_name t)) (tenant_of s u)
        \<and> (case tenant_of s u of None \<Rightarrow> True | Some t \<Rightarrow> tenant_usable t now
             \<and> (truthy (client i s) \<longrightarrow> entitled s (tn_id t) (the (client i s)) now))"
    and granted_tokens: "attempt i now s = (Inr ses, s') \<Longrightarrow> uid \<noteq> ss_userId ses \<Longrightarrow>
      live_tokens uid s' \<subseteq> live_tokens uid s"
    and refused: "attempt i now s = (Inl e, s') \<Longrightarrow> live_tokens uid s' \<subseteq> live_tokens uid s"
begin

text \<open>No way into a session works for a tenant that may not be used.\<close>

lemma no_session_for_unusable_tenant:
  assumes "unique_on tn_id (tenants s)" and "attempt i now s = (Inr ses, s')"
    and "ss_tenant ses = Some (tid, sl, nm)"
  shows "\<exists>t. tenant_by_id s tid = Some t \<and> tenant_usable t now"
proof -
  obtain u where "ss_tenant ses = map_option (\<lambda>t. (tn_id t, tn_slug t, tn_name t)) (tenant_of s u)"
    and "case tenant_of s u of None \<Rightarrow> True | Some t \<Rightarrow> tenant_usable t now
             \<and> (truthy (client i s) \<longrightarrow> entitled s (tn_id t) (the (client i s)) now)"
    using granted [OF assms(1,2)] by blast
  then show ?thesis
    using assms(3) by (auto simp: tenant_of_def split: option.splits dest: tenant_by_idD)
qed

text \<open>A session that a tenant's user opens for an app is one the tenant is entitled to.\<close>

lemma session_is_entitled:
  assumes "unique_on tn_id (tenants s)" and "attempt i now s = (Inr ses, s')"
    and "ss_tenant ses = Some (tid, sl, nm)" and "truthy (client i s)"
  shows "entitled s tid (the (client i s)) now"
proof -
  obtain u where "ss_tenant ses = map_option (\<lambda>t. (tn_id t, tn_slug t, tn_name t)) (tenant_of s u)"
    and "case tenant_of s u of None \<Rightarrow> True | Some t \<Rightarrow> tenant_usable t now
             \<and> (truthy (client i s) \<longrightarrow> entitled s (tn_id t) (the (client i s)) now)"
    using granted [OF assms(1,2)] by blast
  then show ?thesis
    using assms(3,4) by (cases "tenant_of s u") auto
qed

text \<open>No sequence of attempts gives a user a live token unless one of them opened a session for it.\<close>

fun attempts :: "('i \<times> time) list \<Rightarrow> db \<Rightarrow> session res list \<times> db" where
  "attempts [] s = ([], s)"
| "attempts ((i, now) # is) s =
     (case attempt i now s of (r, s1) \<Rightarrow> (case attempts is s1 of (rs, s2) \<Rightarrow> (r # rs, s2)))"

lemma attempts_tokens:
  assumes "attempts is s = (rs, s')" and "\<forall>ses. Inr ses \<in> set rs \<longrightarrow> ss_userId ses \<noteq> uid"
  shows "live_tokens uid s' \<subseteq> live_tokens uid s"
  using assms
proof (induction "is" arbitrary: s rs)
  case (Cons x "is")
  obtain i now where x: "x = (i, now)"
    by (cases x)
  obtain r s1 where r: "attempt i now s = (r, s1)"
    by (cases "attempt i now s")
  obtain rs' where rs': "attempts is s1 = (rs', s')" "rs = r # rs'"
    using Cons.prems(1) x r by (auto split: prod.splits)
  have "live_tokens uid s1 \<subseteq> live_tokens uid s"
  proof (cases r)
    case (Inl e)
    then show ?thesis
      using refused r by blast
  next
    case (Inr ses)
    then show ?thesis
      using granted_tokens [of i now s ses s1 uid] r Cons.prems(2) rs'(2) by auto
  qed
  moreover have "live_tokens uid s' \<subseteq> live_tokens uid s1"
    using Cons.IH [OF rs'(1)] Cons.prems(2) rs'(2) by auto
  ultimately show ?case
    by blast
qed simp

end

lemma live_tokens_issued:
  "issued_to u c s s' \<Longrightarrow> uid \<noteq> u_id u \<Longrightarrow> live_tokens uid s' = live_tokens uid s"
  by (auto simp: live_tokens_def issued_to_def live_token_of_def)

lemma live_tokens_record_event [simp]: "live_tokens uid (record_event a m n s) = live_tokens uid s"
  by (simp add: live_tokens_def)

lemma live_tokens_revoke:
  "live_tokens uid (revoke_sessions uid' now s) \<subseteq> live_tokens uid s"
  by (auto simp: live_tokens_def revoke_sessions_def in_upd_where live_token_of_def split: if_splits)

section \<open>Password login and refresh are such ways\<close>

lemma tenant_by_id_unique:
  "unique_on tn_id (tenants s) \<Longrightarrow> t \<in> set (tenants s) \<Longrightarrow> tenant_by_id s (tn_id t) = Some t"
  unfolding tenant_by_id_def by (rule find_unique)

lemma login_Inr:
  assumes "login env cfg dto ip dr now s = (Inr ses, s')"
  obtains u tenant where
    "tenant = (if truthy (lg_tenantSlug dto)
       then live_tenant_by_slug s (the (lg_tenantSlug dto)) else None)"
    "truthy (lg_tenantSlug dto) \<Longrightarrow> tenant \<noteq> None"
    "live_user_by_email s (map_option tn_id tenant) (lower (lg_email dto)) = Some u"
    "bcrypt_compare env (lg_password dto) (u_passwordHash u)"
    "completeLogin env cfg u tenant (lg_clientId dto) ip ''password'' dr now s = (Inr ses, s')"
  using assms by (simp add: login_def Let_def split: if_splits option.splits)

lemma login_Inl: "login env cfg dto ip dr now s = (Inl e, s') \<Longrightarrow> s' = s"
  by (auto simp: login_def Let_def split: if_splits option.splits dest: completeLogin_Inl)

text \<open>The tenant a login finds is the tenant of the account it finds.\<close>

lemma login_tenant_of:
  assumes "unique_on tn_id (tenants s)"
    and "tenant = (if truthy slug then live_tenant_by_slug s (the slug) else None)"
    and "live_user_by_email s (map_option tn_id tenant) email = Some u"
  shows "tenant_of s u = tenant"
proof -
  have u: "u_tenantId u = map_option tn_id tenant"
    using assms(3) by (auto dest: live_user_by_emailD)
  show ?thesis
  proof (cases tenant)
    case (Some t)
    then have "t \<in> set (tenants s)"
      using assms(2) by (auto dest: live_tenant_by_slugD split: if_splits)
    with Some u assms(1) show ?thesis
      by (simp add: tenant_of_def tenant_by_id_unique)
  qed (use u in \<open>simp add: tenant_of_def\<close>)
qed

lemma refresh_check_Inr:
  assumes "refresh_check env raw now s = (Inr (stored, u, tenant), s')"
  shows "s' = s \<and> token_by_hash s (sha256 env raw) = Some stored
    \<and> user_by_id s (rt_userId stored) = Some u \<and> rt_revokedAt stored = None
    \<and> now \<le> rt_expiresAt stored \<and> u_deletedAt u = None \<and> u_emailVerifiedAt u \<noteq> None
    \<and> tenant = tenant_of s u
    \<and> (case tenant of None \<Rightarrow> True | Some t \<Rightarrow> tenant_usable t now
         \<and> (truthy (rt_appClientId stored) \<longrightarrow>
              entitled s (tn_id t) (the (rt_appClientId stored)) now))"
proof -
  have g: "assertTenantUsable tenant now = Inr ()"
    "assertAppEnabled tenant (rt_appClientId stored) now s = Inr ()"
    using assms by (auto simp: refresh_check_def Let_def split: if_splits option.splits sum.splits)
  show ?thesis
    using assms g
    by (auto simp: refresh_check_def Let_def gate_ok
        split: if_splits option.splits sum.splits)
qed

lemma onRefreshReuse_cases:
  "onRefreshReuse stored u now s = s
   \<or> (\<exists>meta. onRefreshReuse stored u now s
        = record_event ''auth.refresh_reuse_detected'' meta now
            (revoke_sessions (rt_userId stored) now s))"
  by (auto simp: onRefreshReuse_def Let_def)

lemma refresh_check_Inl:
  assumes "refresh_check env raw now s = (Inl e, s')"
  shows "s' = s \<or> (\<exists>stored u. s' = onRefreshReuse stored u now s)"
  using assms
  by (auto simp: refresh_check_def Let_def split: if_splits option.splits sum.splits)

lemma live_tokens_rotate:
  "live_tokens uid (s\<lparr>refresh_tokens := upd_where P (\<lambda>t. t\<lparr>rt_revokedAt := Some now\<rparr>)
     (refresh_tokens s)\<rparr>) = {t \<in> live_tokens uid s. \<not> P t}"
  by (auto simp: live_tokens_def in_upd_where live_token_of_def split: if_splits)
     (drule arg_cong [where f = rt_revokedAt], simp)

lemma refresh_Inr:
  assumes "refresh env cfg raw dr now s = (Inr ses, s')"
  obtains stored u where
    "refresh_check env raw now s = (Inr (stored, u, tenant_of s u), s)"
    "issued_to u (rt_appClientId stored)
       (s\<lparr>refresh_tokens := upd_where (\<lambda>t. rt_id t = rt_id stored)
              (\<lambda>t. t\<lparr>rt_revokedAt := Some now\<rparr>) (refresh_tokens s)\<rparr>) s'"
    "ss_userId ses = u_id u"
    "ss_tenant ses = map_option (\<lambda>t. (tn_id t, tn_slug t, tn_name t)) (tenant_of s u)"
proof -
  obtain c s1 where c: "refresh_check env raw now s = (Inr c, s1)"
    "refresh_rotate env cfg c dr now s1 = (Inr ses, s')"
    using assms by (auto simp: refresh_def split: sum.splits prod.splits)
  obtain stored u tenant where ct: "c = (stored, u, tenant)"
    by (cases c)
  then have t: "tenant = tenant_of s u" "s1 = s"
    using c(1) refresh_check_Inr by auto
  show thesis
    by (rule that [of stored u])
       (use c ct t in \<open>auto simp: refresh_rotate_def dest!: issueTokens_Inr\<close>)
qed

lemma refresh_Inl_tokens:
  assumes "refresh env cfg raw dr now s = (Inl e, s')"
  shows "live_tokens uid s' \<subseteq> live_tokens uid s"
proof (cases "refresh_check env raw now s")
  case (Pair r s1)
  show ?thesis
  proof (cases r)
    case (Inl e')
    then have "s' = s1"
      using assms Pair by (simp add: refresh_def)
    moreover have "s1 = s \<or> (\<exists>stored u. s1 = onRefreshReuse stored u now s)"
      using refresh_check_Inl Pair Inl by blast
    ultimately show ?thesis
      using onRefreshReuse_cases live_tokens_revoke by (metis live_tokens_record_event order_refl)
  next
    case (Inr c)
    obtain stored u tenant where ct: "c = (stored, u, tenant)"
      by (cases c)
    then have "s1 = s"
      using Pair Inr refresh_check_Inr by auto
    then show ?thesis
      using assms Pair Inr ct
      by (auto simp: refresh_def refresh_rotate_def live_tokens_rotate dest!: issueTokens_Inl)
  qed
qed

interpretation password: session_gate
  "\<lambda>(dto, ip, dr). login env cfg dto ip dr" "\<lambda>(dto, ip, dr) s. lg_clientId dto" for env cfg
proof (unfold_locales, goal_cases)
  case (1 s i now ses s')
  obtain dto ip dr where i: "i = (dto, ip, dr)"
    by (cases i)
  with 1 have "login env cfg dto ip dr now s = (Inr ses, s')"
    by simp
  then obtain u tenant where u: "tenant = (if truthy (lg_tenantSlug dto)
       then live_tenant_by_slug s (the (lg_tenantSlug dto)) else None)"
    "live_user_by_email s (map_option tn_id tenant) (lower (lg_email dto)) = Some u"
    "completeLogin env cfg u tenant (lg_clientId dto) ip ''password'' dr now s = (Inr ses, s')"
    by (rule login_Inr)
  then have "tenant_of s u = tenant" "u \<in> set (users s)"
    using login_tenant_of 1(1) live_user_by_emailD by blast+
  then show ?case
    using completeLogin_Inr [OF u(3)] i by auto
next
  case (2 i now s ses s' uid)
  obtain dto ip dr where "i = (dto, ip, dr)"
    by (cases i)
  with 2 have "login env cfg dto ip dr now s = (Inr ses, s')"
    by simp
  then show ?case
    by (rule login_Inr) (use 2(2) in \<open>auto dest!: completeLogin_Inr simp: live_tokens_issued\<close>)
next
  case (3 i now s e s' uid)
  then show ?case
    by (cases i) (auto dest: login_Inl)
qed

interpretation rotation: session_gate
  "\<lambda>(raw, dr). refresh env cfg raw dr"
  "\<lambda>(raw, dr) s. Option.bind (token_by_hash s (sha256 env raw)) rt_appClientId" for env cfg
proof (unfold_locales, goal_cases)
  case (1 s i now ses s')
  obtain raw dr where i: "i = (raw, dr)"
    by (cases i)
  with 1 have "refresh env cfg raw dr now s = (Inr ses, s')"
    by simp
  then obtain stored u where
    c: "refresh_check env raw now s = (Inr (stored, u, tenant_of s u), s)"
    and ses: "ss_userId ses = u_id u"
      "ss_tenant ses = map_option (\<lambda>t. (tn_id t, tn_slug t, tn_name t)) (tenant_of s u)"
    by (rule refresh_Inr)
  have "u \<in> set (users s)"
    using refresh_check_Inr [OF c] user_by_idD by blast
  with refresh_check_Inr [OF c] ses show ?case
    by (intro bexI [of _ u]) (auto simp: i split: option.splits)
next
  case (2 i now s ses s' uid)
  obtain raw dr where "i = (raw, dr)"
    by (cases i)
  with 2 have "refresh env cfg raw dr now s = (Inr ses, s')"
    by simp
  then show ?case
    by (rule refresh_Inr) (use 2(2) in \<open>auto simp: live_tokens_issued live_tokens_rotate\<close>)
next
  case (3 i now s e s' uid)
  then show ?case
    by (cases i) (auto dest: refresh_Inl_tokens)
qed

section \<open>Rotation, reuse and what a failed login tells\<close>

text \<open>The used token stays in the table, revoked at the time of its use.\<close>

lemma refresh_Inr_old_token:
  assumes "refresh env cfg raw dr now s = (Inr ses, s')"
  shows "\<exists>t u. token_by_hash s' (sha256 env raw) = Some t \<and> rt_revokedAt t = Some now
    \<and> rt_userId t = ss_userId ses \<and> user_by_id s' (rt_userId t) = Some u"
proof -
  obtain stored u where
    c: "refresh_check env raw now s = (Inr (stored, u, tenant_of s u), s)"
    and iss: "issued_to u (rt_appClientId stored)
       (s\<lparr>refresh_tokens := upd_where (\<lambda>t. rt_id t = rt_id stored)
              (\<lambda>t. t\<lparr>rt_revokedAt := Some now\<rparr>) (refresh_tokens s)\<rparr>) s'"
    and ses: "ss_userId ses = u_id u"
    using assms by (rule refresh_Inr)
  have st: "token_by_hash s (sha256 env raw) = Some stored"
    "user_by_id s (rt_userId stored) = Some u"
    using refresh_check_Inr [OF c] by simp_all
  then have "find (\<lambda>t. rt_tokenHash t = sha256 env raw)
      (upd_where (\<lambda>t. rt_id t = rt_id stored) (\<lambda>t. t\<lparr>rt_revokedAt := Some now\<rparr>)
        (refresh_tokens s)) = Some (stored\<lparr>rt_revokedAt := Some now\<rparr>)"
    by (subst find_upd_where) (simp_all add: token_by_hash_def)
  then have "token_by_hash s' (sha256 env raw) = Some (stored\<lparr>rt_revokedAt := Some now\<rparr>)"
    using iss by (auto simp: issued_to_def token_by_hash_def find_append)
  moreover have "user_by_id s' (rt_userId stored) = Some u" "rt_userId stored = u_id u"
    using iss st(2) by (auto simp: issued_to_def user_by_id_def dest: find_SomeD)
  ultimately show ?thesis
    using ses by auto
qed

text \<open>A revoked token is refused, and after the grace interval its presentation ends every session.\<close>

lemma refresh_revoked:
  assumes "token_by_hash s (sha256 env raw) = Some t" and "user_by_id s (rt_userId t) = Some u"
    and "rt_revokedAt t = Some r"
  shows "refresh env cfg raw dr now s
    = (Inl (Unauthorized ''Invalid refresh token''), onRefreshReuse t u now s)"
  using assms by (simp add: refresh_def refresh_check_def)

lemma onRefreshReuse_late:
  assumes "rt_revokedAt t = Some r" and "r + REFRESH_REUSE_GRACE_MS \<le> now"
  shows "live_tokens (rt_userId t) (onRefreshReuse t u now s) = {}"
  using assms revoke_sessions_none_live [of "rt_userId t" now s]
  by (auto simp: onRefreshReuse_def Let_def live_tokens_def)

lemma onRefreshReuse_early:
  assumes "rt_revokedAt t = Some r" and "now < r + REFRESH_REUSE_GRACE_MS"
  shows "onRefreshReuse t u now s = s"
  using assms by (simp add: onRefreshReuse_def)

section \<open>A small installation\<close>

text \<open>Concrete values for the instances below: transparent hashes, one workspace with one app.\<close>

definition sample_env :: env where
  "sample_env = \<lparr>sha256 = (\<lambda>x. CHR ''h'' # x), bcrypt_hash = (\<lambda>x. CHR ''b'' # x),
     bcrypt_compare = (\<lambda>pw h. h = CHR ''b'' # pw), dummy_hash = ''-'',
     jwt_sign = (\<lambda>c ttl now. ''jwt''), jwt_verify = (\<lambda>now tok. None),
     hmac_sign = (\<lambda>key c ttl now. key), hmac_verify = (\<lambda>key now tok. tok = key),
     jwt_decode = (\<lambda>tok. Some [(''purpose'', JStr ''password_reset''), (''sub'', JStr ''u1'')]),
     hmac_hex = (\<lambda>key msg. key @ msg), encrypt_secret = (\<lambda>x. x), decrypt_secret = Some,
     relay_send = (\<lambda>smtp m. Inr ''id''), uri_encode = (\<lambda>x. x)\<rparr>"

definition sample_cfg :: config where
  "sample_cfg = \<lparr>brandCompany = ''Evo'', platformName = ''Platform'',
     publicBaseUrl = ''https://p.example'', signupMode = Open, signupTrialDays = 14,
     emailAppPerMin = 2, emailAppPerDay = 3, bootstrapAdminEmail = None,
     bootstrapAdminPassword = None, secretKey = ''k'', accessTtlSec = 900, refreshTtlDays = 30,
     retentionAuditDays = 365, retentionTokenDays = 30, stripeSecretKey = None,
     stripeWebhookSecret = None, stripeGraceDays = 7, stripeMode = Unset,
     alertsEmail = None, smtpFallback = Some \<lparr>rs_host = ''relay'', rs_port = 587, rs_secure = False, rs_username = None,
       rs_password = None, rs_fromAddress = ''noreply@p.example''\<rparr>\<rparr>"

definition sample_tenant :: tenant where
  "sample_tenant = \<lparr>tn_id = ''t1'', tn_slug = ''acme'', tn_name = ''Acme'', tn_plan = ''free'',
     tn_status = TActive, tn_profile = no_profile, tn_stripeCustomerId = None,
     tn_graceUntil = None, tn_createdAt = 0, tn_deletedAt = None\<rparr>"

definition sample_user :: user where
  "sample_user = \<lparr>u_id = ''u1'', u_tenantId = Some ''t1'', u_email = ''a@x'',
     u_passwordHash = ''bpw'', u_name = None, u_firstName = None, u_lastName = None,
     u_phone = None, u_isPlatformAdmin = False, u_isTenantAdmin = True,
     u_emailVerifiedAt = Some 0, u_createdAt = 0, u_deletedAt = None\<rparr>"

definition sample_app :: app where
  "sample_app = \<lparr>a_id = ''a1'', a_clientId = ''swag'', a_clientSecretHash = ''bsec'',
     a_name = ''swag'', a_displayName = None, a_callbackUrls = [''https://swag.example/cb''],
     a_autoEnroll = True, a_brand = None, a_createdAt = 0, a_deletedAt = None\<rparr>"

definition sample_grant :: app_tenant where
  "sample_grant = \<lparr>at_tenantId = ''t1'', at_appId = ''a1'', at_status = Active, at_plan = ''pro'',
     at_trialEndsAt = None, at_graceUntil = None, at_stripeSubscriptionId = None,
     at_createdAt = 0\<rparr>"

definition sample_token :: refresh_token where
  "sample_token = \<lparr>rt_id = ''r0'', rt_userId = ''u1'', rt_tokenHash = ''hraw'',
     rt_appClientId = Some ''swag'', rt_expiresAt = 1000000, rt_revokedAt = None\<rparr>"

definition sample_db :: db where
  "sample_db = empty_db\<lparr>tenants := [sample_tenant], users := [sample_user], apps := [sample_app],
     app_tenants := [sample_grant], refresh_tokens := [sample_token]\<rparr>"

definition sample_login :: login_dto where
  "sample_login = \<lparr>lg_tenantSlug = Some ''acme'', lg_email = ''A@x'', lg_password = ''pw'',
     lg_clientId = Some ''swag''\<rparr>"

lemma sample_unique: "unique_on tn_id (tenants sample_db)"
  by code_simp

lemma sample_login_ok:
  "is_ok (fst (login sample_env sample_cfg sample_login None (''r1'', ''new'') 10 sample_db))"
  by code_simp

lemma sample_refresh_ok:
  "is_ok (fst (refresh sample_env sample_cfg ''raw'' (''r1'', ''new'') 10 sample_db))"
  by code_simp

text \<open>
  A signer and a cipher whose output can be read back: the number of what they were given. A token is
  valid for its lifetime, and a text that is no output of the cipher does not decrypt.
\<close>

instance json :: countable
  by countable_datatype

definition numbered_token :: "claims \<Rightarrow> int \<Rightarrow> time \<Rightarrow> string" where
  "numbered_token c ttl t0 = replicate (to_nat (c, ttl, t0)) CHR ''t''"

definition numbered_env :: env where
  "numbered_env = sample_env\<lparr>jwt_sign := numbered_token,
     jwt_verify := (\<lambda>now tok. case from_nat (length tok) of (c, ttl, t0) \<Rightarrow>
       if t0 \<le> now \<and> now < t0 + ttl * second_ms then Some (c @ [(''iat'', JNum t0)]) else None),
     jwt_decode := (\<lambda>tok. Some (fst (from_nat (length tok) :: claims \<times> int \<times> time))),
     encrypt_secret := (\<lambda>x. replicate (Suc (to_nat x)) CHR ''e''),
     decrypt_secret := (\<lambda>y. if y \<noteq> [] \<and> list_all (\<lambda>c. c = CHR ''e'') y
       then Some (from_nat (length y - 1)) else None)\<rparr>"

lemmas sample_defs = sample_env_def sample_cfg_def sample_tenant_def sample_user_def
  sample_app_def sample_grant_def sample_token_def sample_db_def empty_db_def

lemma numbered_laws: "token_laws numbered_env" "cipher_laws numbered_env"
  by (auto simp: token_laws_def cipher_laws_def numbered_env_def numbered_token_def list_all_iff
      map_add_def split: if_splits option.splits dest: map_of_eq_None_iff [THEN iffD1])

section \<open>Properties\<close>

text \<open>
  C23: Password login opens a session only for a live, verified account whose password was proven,
  in a workspace that is neither deleted, suspended nor past its grace period, and, when it names an
  app, only if the workspace is entitled to that app.
\<close>

theorem login_session_gated:
  assumes "unique_on tn_id (tenants s)"
    and "login env cfg dto ip dr now s = (Inr ses, s')"
  shows "(\<exists>u \<in> set (users s). u_id u = ss_userId ses \<and> u_email u = lower (lg_email dto)
      \<and> bcrypt_compare env (lg_password dto) (u_passwordHash u)
      \<and> u_deletedAt u = None \<and> u_emailVerifiedAt u \<noteq> None
      \<and> (u_tenantId u = None \<longleftrightarrow> ss_tenant ses = None))
    \<and> (\<forall>tid sl nm. ss_tenant ses = Some (tid, sl, nm) \<longrightarrow>
         (\<exists>t. tenant_by_id s tid = Some t \<and> tenant_usable t now)
         \<and> (truthy (lg_clientId dto) \<longrightarrow> entitled s tid (the (lg_clientId dto)) now))"
proof (intro conjI allI impI)
  obtain u tenant where u:
    "live_user_by_email s (map_option tn_id tenant) (lower (lg_email dto)) = Some u"
    "bcrypt_compare env (lg_password dto) (u_passwordHash u)"
    "completeLogin env cfg u tenant (lg_clientId dto) ip ''password'' dr now s = (Inr ses, s')"
    using assms(2) by (rule login_Inr)
  show "\<exists>u \<in> set (users s). u_id u = ss_userId ses \<and> u_email u = lower (lg_email dto)
      \<and> bcrypt_compare env (lg_password dto) (u_passwordHash u)
      \<and> u_deletedAt u = None \<and> u_emailVerifiedAt u \<noteq> None
      \<and> (u_tenantId u = None \<longleftrightarrow> ss_tenant ses = None)"
    using completeLogin_Inr [OF u(3)] live_user_by_emailD [OF u(1)] u(2)
    by (intro bexI [of _ u]) auto
next
  fix tid sl nm
  assume t: "ss_tenant ses = Some (tid, sl, nm)"
  have l: "(case (dto, ip, dr) of (dto, ip, dr) \<Rightarrow> login env cfg dto ip dr) now s = (Inr ses, s')"
    using assms(2) by simp
  show "\<exists>t. tenant_by_id s tid = Some t \<and> tenant_usable t now"
    by (rule password.no_session_for_unusable_tenant [OF assms(1) l t])
  show "truthy (lg_clientId dto) \<Longrightarrow> entitled s tid (the (lg_clientId dto)) now"
    using password.session_is_entitled [OF assms(1) l t] by simp
qed

lemma login_session_gated_witness:
  "\<exists>ses s'. login sample_env sample_cfg sample_login None (''r1'', ''new'') 10 sample_db
       = (Inr ses, s')
     \<and> (\<exists>u \<in> set (users sample_db). u_id u = ss_userId ses \<and> u_email u = ''a@x'')"
proof -
  obtain ses s' where l: "login sample_env sample_cfg sample_login None (''r1'', ''new'') 10
      sample_db = (Inr ses, s')"
    using sample_login_ok by (rule is_ok_fstE)
  moreover have "lower (lg_email sample_login) = ''a@x''"
    by code_simp
  ultimately show ?thesis
    using login_session_gated [OF sample_unique l] by auto
qed

text \<open>
  C24: Refresh applies the same gate as login: it renews a session only on an unrevoked, unexpired
  token of a live, verified account, whose workspace may still be used and is still entitled to the
  app the token is scoped to. A lapse in billing ends sessions that are already open.
\<close>

theorem refresh_session_gated:
  assumes "unique_on tn_id (tenants s)"
    and "refresh env cfg raw dr now s = (Inr ses, s')"
  shows "\<exists>t u. token_by_hash s (sha256 env raw) = Some t \<and> user_by_id s (rt_userId t) = Some u
    \<and> rt_revokedAt t = None \<and> now \<le> rt_expiresAt t \<and> u_deletedAt u = None
    \<and> u_emailVerifiedAt u \<noteq> None \<and> ss_userId ses = u_id u
    \<and> (\<forall>tid sl nm. ss_tenant ses = Some (tid, sl, nm) \<longrightarrow>
         (\<exists>tn. tenant_by_id s tid = Some tn \<and> tenant_usable tn now)
         \<and> (truthy (rt_appClientId t) \<longrightarrow> entitled s tid (the (rt_appClientId t)) now))"
proof -
  obtain t u where
    c: "refresh_check env raw now s = (Inr (t, u, tenant_of s u), s)"
    and ses: "ss_userId ses = u_id u"
    using assms(2) by (rule refresh_Inr)
  note f = refresh_check_Inr [OF c]
  have l: "(case (raw, dr) of (raw, dr) \<Rightarrow> refresh env cfg raw dr) now s = (Inr ses, s')"
    using assms(2) by simp
  show ?thesis
    using f ses rotation.no_session_for_unusable_tenant [OF assms(1) l]
      rotation.session_is_entitled [OF assms(1) l]
    by (intro exI [of _ t] exI [of _ u]) auto
qed

lemma refresh_session_gated_witness:
  "\<exists>ses s'. refresh sample_env sample_cfg ''raw'' (''r1'', ''new'') 10 sample_db = (Inr ses, s')
     \<and> (\<exists>t. token_by_hash sample_db ''hraw'' = Some t \<and> rt_revokedAt t = None \<and> 10 \<le> rt_expiresAt t)"
proof -
  obtain ses s' where l: "refresh sample_env sample_cfg ''raw'' (''r1'', ''new'') 10 sample_db
      = (Inr ses, s')"
    using sample_refresh_ok by (rule is_ok_fstE)
  moreover have "sha256 sample_env ''raw'' = ''hraw''"
    by code_simp
  ultimately show ?thesis
    using refresh_session_gated [OF sample_unique l] by auto
qed

text \<open>
  What may happen to the table of refresh tokens between two requests: logins by password or passkey,
  refreshes of whatever token and logouts, whose new tokens are drawn at random and so are not the one
  whose hash is \<open>h\<close>; revocations of an account's sessions; and whatever erases rows or leaves the
  table alone, as every other request does.
\<close>

inductive later_tokens :: "env \<Rightarrow> string \<Rightarrow> db \<Rightarrow> db \<Rightarrow> bool" for env h s0 where
  no_time: "later_tokens env h s0 s0"
| logged_in: "later_tokens env h s0 s \<Longrightarrow> completeLogin env cfg u tenant cid ip m dr now s = (r, s') \<Longrightarrow>
    sha256 env (snd dr) \<noteq> h \<Longrightarrow> later_tokens env h s0 s'"
| refreshed: "later_tokens env h s0 s \<Longrightarrow> refresh env cfg raw dr now s = (r, s') \<Longrightarrow>
    sha256 env (snd dr) \<noteq> h \<Longrightarrow> later_tokens env h s0 s'"
| logged_out: "later_tokens env h s0 s \<Longrightarrow> logout env raw now s = (r, s') \<Longrightarrow> later_tokens env h s0 s'"
| ended: "later_tokens env h s0 s \<Longrightarrow> later_tokens env h s0 (revoke_sessions uid now s)"
| erased: "later_tokens env h s0 s \<Longrightarrow> refresh_tokens s' = filter P (refresh_tokens s) \<Longrightarrow> later_tokens env h s0 s'"

definition spent :: "string \<Rightarrow> db \<Rightarrow> bool" where
  "spent h s \<longleftrightarrow> (\<forall>t \<in> set (refresh_tokens s). rt_tokenHash t = h \<longrightarrow> rt_revokedAt t \<noteq> None)"

lemma spent_same: "refresh_tokens s' = refresh_tokens s \<Longrightarrow> spent h s' = spent h s"
  by (simp add: spent_def)

lemma spent_revoke: "spent h s \<Longrightarrow>
  spent h (s\<lparr>refresh_tokens := upd_where P (\<lambda>t. t\<lparr>rt_revokedAt := Some now\<rparr>) (refresh_tokens s)\<rparr>)"
  by (auto simp: spent_def in_upd_where)

lemma spent_revoke_sessions: "spent h s \<Longrightarrow> spent h (revoke_sessions uid now s)"
  by (simp add: revoke_sessions_def spent_revoke)

lemma spent_issue:
  assumes "spent h s" and "issueTokens env cfg u tenant cid dr now s = (r, s')" and "sha256 env (snd dr) \<noteq> h"
  shows "spent h s'"
  using assms
  by (auto simp: issueTokens_def insert_refresh_token_def spent_def Let_def split: if_splits)

lemma spent_complete:
  assumes "spent h s" and "completeLogin env cfg u tenant cid ip m dr now s = (r, s')"
    and "sha256 env (snd dr) \<noteq> h"
  shows "spent h s'"
proof -
  obtain r1 s1 where i: "issueTokens env cfg u tenant cid dr now s = (r1, s1)"
    by fastforce
  have "refresh_tokens s' = refresh_tokens s \<or> refresh_tokens s' = refresh_tokens s1"
    using assms(2) i by (auto simp: completeLogin_def split: if_splits sum.splits prod.splits)
  then show ?thesis
    using spent_same assms(1) spent_issue [OF assms(1) i assms(3)] by metis
qed

lemma spent_refresh:
  assumes "spent h s" and "refresh env cfg raw dr now s = (r, s')" and "sha256 env (snd dr) \<noteq> h"
  shows "spent h s'"
proof (cases "refresh_check env raw now s")
  case (Pair c s1)
  show ?thesis
  proof (cases c)
    case (Inl e)
    then have "s' = s1"
      using assms(2) Pair by (simp add: refresh_def)
    moreover have "s1 = s \<or> (\<exists>stored u. s1 = onRefreshReuse stored u now s)"
      using refresh_check_Inl Pair Inl by blast
    moreover have "spent h (onRefreshReuse stored u now s)" for stored u
      using spent_revoke_sessions [OF assms(1), of "rt_userId stored" now] assms(1)
      by (auto simp: onRefreshReuse_def Let_def spent_def)
    ultimately show ?thesis
      using assms(1) by blast
  next
    case (Inr v)
    obtain stored u tenant where v: "v = (stored, u, tenant)"
      by (cases v)
    have "s1 = s"
      using refresh_check_Inr Pair Inr v by blast
    then have "refresh_rotate env cfg (stored, u, tenant) dr now s = (r, s')"
      using assms(2) Pair Inr v by (simp add: refresh_def)
    then show ?thesis
      using spent_issue [OF spent_revoke [OF assms(1)] _ assms(3)] by (auto simp: refresh_rotate_def)
  qed
qed

lemma spent_later: "later_tokens env h s0 s \<Longrightarrow> spent h s0 \<Longrightarrow> spent h s"
proof (induction rule: later_tokens.induct)
  case (logged_in s cfg u tenant cid ip m dr now r s')
  then show ?case
    using spent_complete by blast
next
  case (refreshed s cfg raw dr now r s')
  then show ?case
    using spent_refresh by blast
next
  case (logged_out s raw now r s')
  then show ?case
    using spent_revoke [of h s] by (auto simp: logout_def)
qed (auto simp: spent_revoke_sessions, auto simp: spent_def)

lemma spent_refused:
  assumes "spent (sha256 env raw) s"
  shows "\<not> is_ok (fst (refresh env cfg raw dr now s))"
proof (cases "token_by_hash s (sha256 env raw)")
  case (Some t)
  then have "rt_revokedAt t \<noteq> None"
    using assms by (auto simp: spent_def token_by_hash_def find_Some_iff)
  then show ?thesis
    using Some by (simp add: refresh_def refresh_check_def split: option.split)
qed (simp add: refresh_def refresh_check_def)

lemma refreshed_spent:
  assumes "refresh env cfg raw dr now s = (Inr ses, s')" and "unique_on rt_tokenHash (refresh_tokens s)"
  shows "spent (sha256 env raw) s'"
proof -
  let ?h = "sha256 env raw"
  obtain v s1 where c: "refresh_check env raw now s = (Inr v, s1)" "refresh_rotate env cfg v dr now s1 = (Inr ses, s')"
    using assms(1) by (auto simp: refresh_def split: sum.splits prod.splits)
  obtain stored u tenant where v: "v = (stored, u, tenant)"
    by (cases v)
  have st: "token_by_hash s ?h = Some stored" "s1 = s"
    using refresh_check_Inr [OF c(1) [unfolded v]] by simp_all
  let ?s = "s\<lparr>refresh_tokens := upd_where (\<lambda>t. rt_id t = rt_id stored)
      (\<lambda>t. t\<lparr>rt_revokedAt := Some now\<rparr>) (refresh_tokens s)\<rparr>"
  have i: "issueTokens env cfg u tenant (rt_appClientId stored) dr now ?s = (Inr ses, s')"
    using c(2) st(2) by (simp add: refresh_rotate_def v)
  have mem: "stored \<in> set (refresh_tokens s)" "rt_tokenHash stored = ?h"
    using st(1) by (auto simp: token_by_hash_def find_Some_iff)
  then have "t = stored" if "t \<in> set (refresh_tokens s)" "rt_tokenHash t = ?h" for t
    using unique_on_eqD [OF assms(2)] that by metis
  then have "spent ?h ?s"
    by (auto simp: spent_def in_upd_where)
  moreover have "sha256 env (snd dr) \<noteq> ?h"
  proof
    assume "sha256 env (snd dr) = ?h"
    moreover have "token_by_hash ?s ?h \<noteq> None"
      using st(1) by (simp add: token_by_hash_def find_upd_where)
    ultimately show False
      using i by (simp add: issueTokens_def insert_refresh_token_def Let_def split: if_splits)
  qed
  ultimately show ?thesis
    using spent_issue [OF _ i] by blast
qed



text \<open>
  C34: A login that does not prove a password learns nothing. Where no account of the address has the
  password given, the answer is the same whatever the workspace, the account, its verification or
  its suspension is, and nothing is stored.
\<close>

theorem failed_login_uniform:
  assumes "\<forall>u \<in> set (users s). u_email u = lower (lg_email dto) \<longrightarrow>
      \<not> bcrypt_compare env (lg_password dto) (u_passwordHash u)"
  shows "login env cfg dto ip dr now s = (Inl (Unauthorized ''Invalid credentials''), s)"
  using assms by (auto simp: login_def Let_def split: option.splits dest!: live_user_by_emailD)

lemma failed_login_uniform_witness:
  "login sample_env sample_cfg (sample_login\<lparr>lg_password := ''no''\<rparr>) None (''r1'', ''new'') 10 sample_db
     = (Inl (Unauthorized ''Invalid credentials''), sample_db)"
  by (rule failed_login_uniform) code_simp



text \<open>
  Two refreshes of one token that interleave both succeed. Each reads the token before the other
  has revoked it, and both are issued a live token, although the comment at \<open>onRefreshReuse\<close> counts
  on one party ever holding the live one.
\<close>

theorem interleaved_refreshes_both_succeed:
  "case refresh_check sample_env ''raw'' 10 sample_db of (Inr c1, s1) \<Rightarrow>
     (case refresh_check sample_env ''raw'' 10 s1 of (Inr c2, s2) \<Rightarrow>
        (case refresh_rotate sample_env sample_cfg c1 (''r1'', ''new1'') 10 s2 of (r1, s3) \<Rightarrow>
           (case refresh_rotate sample_env sample_cfg c2 (''r2'', ''new2'') 11 s3 of (r2, s4) \<Rightarrow>
              is_ok r1 \<and> is_ok r2
              \<and> map rt_tokenHash (filter (live_token_of ''u1'') (refresh_tokens s4))
                  = [''hnew1'', ''hnew2'']))
      | _ \<Rightarrow> False)
   | _ \<Rightarrow> False"
  by code_simp

end
