(* ===== verification/Email_Template.thy ===== *)
theory Email_Template
  imports Audit_Log
begin

text \<open>
  The copy of the platform's mail: \<open>platform/src/email/email-templates.ts\<close> (the built-in templates)
  and \<open>email-template.service.ts\<close> (substitution, the saved copy and its fallback, the console's
  operations). \<open>render\<close> gives the subject and the parts of the body (\<open>email_body\<close>), which
  \<open>Email_Layout\<close> puts into the HTML shell. The dash of the built-in
  copy, which is outside Latin-1, is the code unit \<open>0x97\<close> here.
\<close>

section \<open>Escaping and substitution\<close>

text \<open>The five replacements of \<open>esc\<close> run one after the other, the ampersand first, so no replacement is
  replaced again: character by character.\<close>

definition esc_char :: "char \<Rightarrow> string" where
  "esc_char c =
     (if c = CHR ''&'' then ''&amp;'' else if c = CHR ''<'' then ''&lt;'' else if c = CHR ''>'' then ''&gt;''
      else if c = CHR 0x22 then ''&quot;'' else if c = CHR 0x27 then ''&#39;'' else [c])"

definition esc :: "string \<Rightarrow> string" where
  "esc value = concat (map esc_char value)"

definition word_char :: "char \<Rightarrow> bool" where
  "word_char c = (let n = of_char c :: nat in
     (48 \<le> n \<and> n \<le> 57) \<or> (65 \<le> n \<and> n \<le> 90) \<or> (97 \<le> n \<and> n \<le> 122) \<or> n = 95)"

text \<open>\<open>/\{\{\s*(\w+)\s*\}\}/\<close> at the start of a string: the key and what follows the match.\<close>

definition placeholder :: "string \<Rightarrow> (string \<times> string) option" where
  "placeholder s =
     (if \<not> starts_with s ''{{'' then None
      else let s1 = dropWhile js_white (drop 2 s);
               key = takeWhile word_char s1;
               s2 = dropWhile js_white (dropWhile word_char s1)
           in if key \<noteq> [] \<and> starts_with s2 ''}}'' then Some (key, drop 2 s2) else None)"

lemma placeholder_shorter: "placeholder s = Some (key, rest) \<Longrightarrow> length rest < length s"
proof -
  assume a: "placeholder s = Some (key, rest)"
  let ?s2 = "dropWhile js_white (dropWhile word_char (dropWhile js_white (drop 2 s)))"
  have r: "rest = drop 2 ?s2" "starts_with s ''{{''"
    using a by (simp_all add: placeholder_def Let_def split: if_splits)
  have "length (dropWhile P xs) \<le> length xs" for P and xs :: string
    by (rule length_dropWhile_le)
  then have "length ?s2 \<le> length (drop 2 s)"
    by (meson order_trans)
  then have "length rest \<le> length s - 4"
    by (simp add: r(1))
  moreover have "0 < length s"
    using r(2) by (cases s) (simp_all add: starts_with_def)
  ultimately show ?thesis
    by linarith
qed

type_synonym vars = "(string \<times> string) list"

text \<open>
  \<open>vars[key]\<close> also finds what every object inherits: eleven functions and the object \<open>__proto__\<close>. The
  argument is an object literal, so its own keys come first. An inherited value has no \<open>replace\<close>, and
  \<open>esc\<close> throws on it; where values are not escaped, it is put in as the string it converts to.
\<close>

definition inherited_members :: "string list" where
  "inherited_members = [''constructor'', ''hasOwnProperty'', ''isPrototypeOf'', ''propertyIsEnumerable'',
     ''toLocaleString'', ''toString'', ''valueOf'', ''__defineGetter__'', ''__defineSetter__'',
     ''__lookupGetter__'', ''__lookupSetter__'', ''__proto__'']"

definition member_as_string :: "string \<Rightarrow> string" where
  "member_as_string key =
     (if key = ''__proto__'' then ''[object Object]''
      else ''function '' @ (if key = ''constructor'' then ''Object'' else key) @ ''() { [native code] }'')"

text \<open>The callback of the replacement, \<open>None\<close> where it throws. A placeholder without a value stays as it is
  written.\<close>

definition put_in :: "vars \<Rightarrow> bool \<Rightarrow> string \<Rightarrow> string \<Rightarrow> string option" where
  "put_in vars escapeValues key whole =
     (case map_of vars key of
        Some v \<Rightarrow> Some (if escapeValues then esc v else v)
      | None \<Rightarrow>
          if key \<in> set inherited_members
          then (if escapeValues then None else Some (member_as_string key))
          else Some whole)"

function fill :: "vars \<Rightarrow> bool \<Rightarrow> string \<Rightarrow> string option" where
  "fill vars escapeValues [] = Some []"
| "fill vars escapeValues (c # s) =
     (case placeholder (c # s) of
        None \<Rightarrow> map_option ((#) c) (fill vars escapeValues s)
      | Some (key, rest) \<Rightarrow>
          (case put_in vars escapeValues key (take (length (c # s) - length rest) (c # s)) of
             None \<Rightarrow> None
           | Some v \<Rightarrow> map_option ((@) v) (fill vars escapeValues rest)))"
  by pat_completeness auto

termination
  by (relation "measure (\<lambda>(vars, e, s). length s)") (auto dest: placeholder_shorter)

section \<open>Copy to body\<close>

definition block_tags :: "string list" where
  "block_tags = [''p'', ''div'', ''ul'', ''ol'', ''br'', ''h1'', ''h2'', ''h3'', ''h4'', ''h5'', ''h6'']"

text \<open>\<open>/<(p|div|ul|ol|br|h[1-6])\b/i\<close> somewhere in the text.\<close>

definition tag_here :: "string \<Rightarrow> bool" where
  "tag_here s = list_ex (\<lambda>t. starts_with (lower s) (''<'' @ t)
     \<and> (case drop (length t + 1) s of [] \<Rightarrow> True | c # _ \<Rightarrow> \<not> word_char c)) block_tags"

fun has_block_tag :: "string \<Rightarrow> bool" where
  "has_block_tag [] = False"
| "has_block_tag (c # s) = (tag_here (c # s) \<or> has_block_tag s)"

definition toHtml :: "string \<Rightarrow> string" where
  "toHtml text =
     (if has_block_tag text then text
      else concat (map (\<lambda>l. ''<p>'' @ l @ ''</p>'')
        (filter (\<lambda>l. l \<noteq> []) (map trim (split_at (\<lambda>c. c = CHR 0x0A) text)))))"

record template_copy =
  tc_subject :: string
  tc_heading :: string
  tc_intro :: string
  tc_actionLabel :: "string option"
  tc_outro :: string

record template_spec =
  ts_code :: string
  ts_description :: string
  ts_variables :: "string list"
  ts_copy :: template_copy

definition password_reset_copy :: template_copy where
  "password_reset_copy = \<lparr>
     tc_subject = ''Reset your {{productName}} password'',
     tc_heading = ''Reset your {{productName}} password'',
     tc_intro = ''Someone asked to reset the password for <strong>{{email}}</strong>. If that was you, set a new password now.'',
     tc_actionLabel = Some ''Reset my password'',
     tc_outro = ''The link is valid for {{expiryMinutes}} minutes and can be used once.'' @ [CHR 0x0A]
       @ ''If it wasn'' @ [CHR 0x27] @ ''t you, ignore this email '' @ [CHR 0x97]
       @ '' your password is unchanged.''\<rparr>"

definition email_verify_copy :: template_copy where
  "email_verify_copy = \<lparr>
     tc_subject = ''Verify your email for {{productName}}'',
     tc_heading = ''Confirm your email address'',
     tc_intro = ''Confirm that <strong>{{email}}</strong> is your address to activate your {{productName}} account.'',
     tc_actionLabel = Some ''Verify my email'',
     tc_outro = ''The link is valid for {{expiryHours}} hours.'' @ [CHR 0x0A]
       @ ''If you didn'' @ [CHR 0x27] @ ''t create this account, ignore this email.''\<rparr>"

definition member_invite_copy :: template_copy where
  "member_invite_copy = \<lparr>
     tc_subject = ''{{inviter}} invited you to {{workspace}}'',
     tc_heading = ''You have been invited to {{workspace}}'',
     tc_intro = ''{{inviter}} invited you to join <strong>{{workspace}}</strong> on {{productName}}.'',
     tc_actionLabel = Some ''Create your account'',
     tc_outro = ''The link is valid for {{expiryHours}} hours and can be used once.'' @ [CHR 0x0A]
       @ ''If you weren'' @ [CHR 0x27] @ ''t expecting this, ignore this email.''\<rparr>"

definition workspace_list_copy :: template_copy where
  "workspace_list_copy = \<lparr>
     tc_subject = ''Your {{productName}} workspaces'',
     tc_heading = ''Workspaces for this address'',
     tc_intro = ''This address can sign in to the following {{productName}} workspaces:'' @ [CHR 0x0A]
       @ ''{{workspaces}}'',
     tc_actionLabel = Some ''Go to sign in'',
     tc_outro = ''Use the workspace name when signing in.''\<rparr>"

definition TEMPLATES :: "template_spec list" where
  "TEMPLATES =
     [\<lparr>ts_code = ''password_reset'', ts_description = ''Sent when someone asks to reset their password.'',
       ts_variables = [''productName'', ''email'', ''expiryMinutes''], ts_copy = password_reset_copy\<rparr>,
      \<lparr>ts_code = ''email_verify'', ts_description = ''Sent after sign-up, to prove the mailbox before first login.'',
       ts_variables = [''productName'', ''email'', ''expiryHours''], ts_copy = email_verify_copy\<rparr>,
      \<lparr>ts_code = ''member_invite'', ts_description = ''Sent when an administrator invites someone into a workspace.'',
       ts_variables = [''productName'', ''inviter'', ''workspace'', ''expiryHours''], ts_copy = member_invite_copy\<rparr>,
      \<lparr>ts_code = ''workspace_list'',
       ts_description = ''Sent when someone asks which workspaces their address can sign in to.'',
       ts_variables = [''productName'', ''workspaces'', ''signInUrl''], ts_copy = workspace_list_copy\<rparr>]"

definition seed :: "string \<Rightarrow> template_spec option" where
  "seed code = find (\<lambda>t. ts_code t = code) TEMPLATES"

definition isUsable :: "template_copy \<Rightarrow> bool" where
  "isUsable copy \<longleftrightarrow> trim (tc_subject copy) \<noteq> [] \<and> trim (tc_heading copy) \<noteq> [] \<and> trim (tc_intro copy) \<noteq> []"

definition copy_of_row :: "email_template \<Rightarrow> template_copy" where
  "copy_of_row r = \<lparr>tc_subject = et_subject r, tc_heading = et_heading r, tc_intro = et_intro r,
     tc_actionLabel = et_actionLabel r, tc_outro = et_outro r\<rparr>"

text \<open>\<open>None\<close> where a substitution throws.\<close>

definition toBody :: "config \<Rightarrow> template_copy \<Rightarrow> vars \<Rightarrow> string option \<Rightarrow> email_body option" where
  "toBody cfg copy vars actionUrl =
     (case (fill vars True (tc_heading copy), fill vars True (tc_intro copy),
            if truthy actionUrl \<and> truthy (tc_actionLabel copy)
            then map_option (\<lambda>l. Some (l, the actionUrl)) (fill vars True (the (tc_actionLabel copy)))
            else Some None,
            fill vars True (tc_outro copy)) of
        (Some heading, Some intro, Some action, Some outro) \<Rightarrow>
          Some \<lparr>eb_product = nullish (map_of vars ''productName'') (platformName cfg), eb_heading = heading,
            eb_intro = toHtml intro, eb_action = action, eb_outro = toHtml outro\<rparr>
      | _ \<Rightarrow> None)"

definition message_of ::
  "config \<Rightarrow> template_copy \<Rightarrow> vars \<Rightarrow> string option \<Rightarrow> (string \<times> email_body) option" where
  "message_of cfg copy vars actionUrl =
     (case (toBody cfg copy vars actionUrl, fill vars False (tc_subject copy)) of
        (Some body, Some subject) \<Rightarrow> Some (subject, body)
      | _ \<Rightarrow> None)"

definition render ::
  "config \<Rightarrow> string \<Rightarrow> vars \<Rightarrow> string option \<Rightarrow> db \<Rightarrow> (string \<times> email_body) res" where
  "render cfg code vars actionUrl s =
     (case seed code of
        None \<Rightarrow> Inl (NotFound (''Unknown email template \"'' @ code @ ''\"''))
      | Some t \<Rightarrow>
          (let copy = (case find (\<lambda>r. et_code r = code) (email_templates s) of
                 None \<Rightarrow> ts_copy t
               | Some r \<Rightarrow> if isUsable (copy_of_row r) then copy_of_row r else ts_copy t)
           in case message_of cfg copy vars actionUrl of
                Some m \<Rightarrow> Inr m
              | None \<Rightarrow> (case message_of cfg (ts_copy t) vars actionUrl of
                  Some m \<Rightarrow> Inr m
                | None \<Rightarrow> Inl (UncaughtError ''TypeError''))))"

section \<open>The console's editor\<close>

definition template_save ::
  "string \<Rightarrow> template_copy \<Rightarrow> string option \<Rightarrow> time \<Rightarrow> db \<Rightarrow> email_template res \<times> db" where
  "template_save code copy actorId now s =
     (case seed code of
        None \<Rightarrow> (Inl (NotFound (''Unknown email template \"'' @ code @ ''\"'')), s)
      | Some _ \<Rightarrow>
          (let row = \<lparr>et_code = code, et_subject = tc_subject copy, et_heading = tc_heading copy,
                 et_intro = tc_intro copy, et_actionLabel = tc_actionLabel copy,
                 et_outro = tc_outro copy, et_updatedById = actorId\<rparr>;
               rows = (if find (\<lambda>r. et_code r = code) (email_templates s) = None
                 then email_templates s @ [row]
                 else upd_where (\<lambda>r. et_code r = code) (\<lambda>_. row) (email_templates s))
           in (Inr row, record_event ''email.template_updated''
                 (no_meta\<lparr>am_userId := actorId,
                    am_detail := Some (JObj [(''code'', JStr code)])\<rparr>) now
                 (s\<lparr>email_templates := rows\<rparr>))))"

definition template_reset :: "string \<Rightarrow> string option \<Rightarrow> time \<Rightarrow> db \<Rightarrow> unit res \<times> db" where
  "template_reset code actorId now s =
     (case seed code of
        None \<Rightarrow> (Inl (NotFound (''Unknown email template \"'' @ code @ ''\"'')), s)
      | Some _ \<Rightarrow>
          (Inr (), record_event ''email.template_reset''
             (no_meta\<lparr>am_userId := actorId, am_detail := Some (JObj [(''code'', JStr code)])\<rparr>) now
             (s\<lparr>email_templates := del_where (\<lambda>r. et_code r = code) (email_templates s)\<rparr>)))"

section \<open>Lemmas\<close>

lemma esc_safe: "c \<in> set (esc v) \<Longrightarrow> c \<noteq> CHR ''<'' \<and> c \<noteq> CHR ''>'' \<and> c \<noteq> CHR 0x22 \<and> c \<noteq> CHR 0x27"
  by (auto simp: esc_def esc_char_def split: if_splits)

lemma fill_plain: "CHR ''{'' \<notin> set s \<Longrightarrow> fill vars e s = Some s"
  by (induction s) (auto simp: placeholder_def starts_with_def)

lemma placeholder_suffix: "placeholder s = Some (key, rest) \<Longrightarrow> set rest \<subseteq> set s"
  by (auto simp: placeholder_def Let_def split: if_splits
      dest!: in_set_dropD set_dropWhileD)

text \<open>What substitution for the HTML part adds to the author's own characters is escaped.\<close>

definition harmless :: "char set" where
  "harmless = {c. c \<noteq> CHR ''<'' \<and> c \<noteq> CHR ''>'' \<and> c \<noteq> CHR 0x22 \<and> c \<noteq> CHR 0x27}"

lemma put_in_escaped: "put_in vars True key whole = Some v \<Longrightarrow> set v \<subseteq> set whole \<union> harmless"
  by (auto simp: put_in_def harmless_def split: option.splits if_splits dest: esc_safe)

lemma fill_escaped: "fill vars True s = Some x \<Longrightarrow> set x \<subseteq> set s \<union> harmless"
proof (induction vars True s arbitrary: x rule: fill.induct)
  case (2 vars c s)
  show ?case
  proof (cases "placeholder (c # s)")
    case None
    then show ?thesis
      using 2(1) 2(3) by fastforce
  next
    case (Some kr)
    obtain key rest where kr: "kr = (key, rest)"
      by (cases kr)
    let ?whole = "take (length (c # s) - length rest) (c # s)"
    obtain v y where v: "put_in vars True key ?whole = Some v" "fill vars True rest = Some y" "x = v @ y"
      using 2(3) Some kr by (auto split: option.splits)
    have "set y \<subseteq> set rest \<union> harmless"
      using 2(2) [OF Some kr [symmetric] v(1,2)] .
    moreover have "set rest \<subseteq> set (c # s)"
      using placeholder_suffix Some kr by blast
    moreover have "set v \<subseteq> set (c # s) \<union> harmless"
      using put_in_escaped [OF v(1)] set_take_subset [of "length (c # s) - length rest" "c # s"] by blast
    ultimately show ?thesis
      by (auto simp: v(3))
  qed
qed simp

text \<open>Copy that names no inherited member renders; the built-in copy is of that kind.\<close>

fun names_no_member :: "string \<Rightarrow> bool" where
  "names_no_member [] = True"
| "names_no_member (c # s) \<longleftrightarrow>
     (case placeholder (c # s) of None \<Rightarrow> True | Some (key, _) \<Rightarrow> key \<notin> set inherited_members) \<and> names_no_member s"

lemma names_no_member_append: "names_no_member (s @ t) \<Longrightarrow> names_no_member t"
  by (induction s) auto

lemma placeholder_drop:
  assumes "placeholder s = Some (key, rest)"
  shows "\<exists>u. s = u @ rest"
proof -
  define s1 where "s1 = dropWhile js_white (drop 2 s)"
  define s2 where "s2 = dropWhile js_white (dropWhile word_char s1)"
  have "rest = drop 2 s2"
    using assms by (simp add: placeholder_def Let_def s1_def s2_def split: if_splits)
  then have "s2 = take 2 s2 @ rest"
    by simp
  moreover have "s1 = takeWhile word_char s1 @ takeWhile js_white (dropWhile word_char s1) @ s2"
    by (simp add: s2_def)
  moreover have "s = take 2 s @ takeWhile js_white (drop 2 s) @ s1"
    by (simp add: s1_def)
  ultimately show ?thesis
    by (metis append.assoc)
qed

lemma fill_returns: "names_no_member s \<Longrightarrow> fill vars e s \<noteq> None"
proof (induction vars e s rule: fill.induct)
  case (2 vars e c s)
  show ?case
  proof (cases "placeholder (c # s)")
    case None
    then show ?thesis
      using 2(1) 2(3) by simp
  next
    case (Some kr)
    obtain key rest where kr: "kr = (key, rest)"
      by (cases kr)
    let ?whole = "take (length (c # s) - length rest) (c # s)"
    have "key \<notin> set inherited_members"
      using 2(3) Some kr by simp
    then obtain v where v: "put_in vars e key ?whole = Some v"
      by (cases "map_of vars key") (auto simp: put_in_def)
    have "names_no_member rest"
      using placeholder_drop [OF Some [unfolded kr]] 2(3) names_no_member_append by metis
    then show ?thesis
      using 2(2) [OF Some kr [symmetric] v] Some kr v by simp
  qed
qed simp

lemma fill_subject_returns: "fill vars False s \<noteq> None"
proof (induction vars False s rule: fill.induct)
  case (2 vars c s)
  then show ?case
    by (cases "placeholder (c # s)") (auto simp: put_in_def split: option.split prod.split)
qed simp

lemma message_of_Some:
  "message_of cfg copy vars url = Some (subject, body) \<longleftrightarrow>
     toBody cfg copy vars url = Some body \<and> fill vars False (tc_subject copy) = Some subject"
  by (auto simp: message_of_def split: option.split)

definition plain_copy :: "template_copy \<Rightarrow> bool" where
  "plain_copy copy \<longleftrightarrow> names_no_member (tc_heading copy) \<and> names_no_member (tc_intro copy)
     \<and> names_no_member (nullish (tc_actionLabel copy) []) \<and> names_no_member (tc_outro copy)"

lemma plain_copy_renders:
  assumes "plain_copy copy"
  shows "\<exists>m. message_of cfg copy vars url = Some m"
proof -
  have "fill vars True (tc_heading copy) \<noteq> None" "fill vars True (tc_intro copy) \<noteq> None"
    "fill vars True (tc_outro copy) \<noteq> None"
    "truthy (tc_actionLabel copy) \<Longrightarrow> fill vars True (the (tc_actionLabel copy)) \<noteq> None"
    using assms fill_returns
    by (auto simp: plain_copy_def simp del: not_None_eq) (cases "tc_actionLabel copy"; fastforce)
  then have "\<exists>b. toBody cfg copy vars url = Some b"
    by (auto simp: toBody_def)
  then show ?thesis
    using fill_subject_returns [of vars "tc_subject copy"] by (auto simp: message_of_def)
qed

lemma built_in_plain: "list_all (\<lambda>t. plain_copy (ts_copy t)) TEMPLATES"
  by code_simp

lemma seed_known: "code \<in> set (map ts_code TEMPLATES) \<Longrightarrow> seed code \<noteq> None"
  by (auto simp: seed_def find_None_iff)

lemma render_message:
  assumes "seed code = Some t"
  obtains copy subject body where "render cfg code vars url s = Inr (subject, body)"
    and "message_of cfg copy vars url = Some (subject, body)"
    and "copy = ts_copy t \<or> (\<exists>r \<in> set (email_templates s). et_code r = code \<and> copy = copy_of_row r \<and> isUsable copy)"
proof -
  define copy where "copy = (case find (\<lambda>r. et_code r = code) (email_templates s) of
      None \<Rightarrow> ts_copy t | Some r \<Rightarrow> if isUsable (copy_of_row r) then copy_of_row r else ts_copy t)"
  have c: "copy = ts_copy t \<or> (\<exists>r \<in> set (email_templates s). et_code r = code \<and> copy = copy_of_row r \<and> isUsable copy)"
    by (auto simp: copy_def split: option.split dest: find_SomeD)
  have "t \<in> set TEMPLATES"
    using assms by (auto simp: seed_def dest: find_SomeD)
  then have "plain_copy (ts_copy t)"
    using built_in_plain by (simp add: list_all_iff)
  then obtain m where m: "message_of cfg (ts_copy t) vars url = Some m"
    using plain_copy_renders by blast
  have r: "render cfg code vars url s = Inr (case message_of cfg copy vars url of Some x \<Rightarrow> x | None \<Rightarrow> m)"
    using assms m by (simp add: render_def Let_def copy_def [symmetric] split: option.split)
  show ?thesis
  proof (cases "message_of cfg copy vars url")
    case None
    then show ?thesis
      using that [of "fst m" "snd m" "ts_copy t"] r m by simp
  next
    case (Some x)
    then show ?thesis
      using that [of "fst x" "snd x" copy] r c by simp
  qed
qed

lemma render_known:
  assumes "code \<in> set (map ts_code TEMPLATES)"
  shows "\<exists>m. render cfg code vars url s = Inr m"
  using seed_known [OF assms] render_message by (metis not_None_eq)

section \<open>Properties\<close>

text \<open>
  Mail does not depend on the editor. For a message the platform sends, rendering always gives
  one, and its copy is usable whatever row is saved: the built-in copy stands in for a row whose
  subject, heading or text is blank, and for one whose placeholders make the substitution throw.
\<close>

theorem render_never_depends_on_editor:
  assumes "code \<in> set (map ts_code TEMPLATES)"
  shows "\<exists>copy subject body. isUsable copy \<and> render cfg code vars actionUrl s = Inr (subject, body)
    \<and> fill vars False (tc_subject copy) = Some subject \<and> toBody cfg copy vars actionUrl = Some body
    \<and> (\<exists>t \<in> set TEMPLATES. copy = ts_copy t
        \<or> (\<exists>r \<in> set (email_templates s). et_code r = code \<and> copy = copy_of_row r))"
proof -
  obtain t where t: "seed code = Some t" "t \<in> set TEMPLATES"
    using seed_known [OF assms] by (auto simp: seed_def dest: find_SomeD)
  have "list_all (\<lambda>t. isUsable (ts_copy t)) TEMPLATES"
    by code_simp
  then have usable: "isUsable (ts_copy t)"
    using t(2) by (simp add: list_all_iff)
  obtain copy subject body where "render cfg code vars actionUrl s = Inr (subject, body)"
    "message_of cfg copy vars actionUrl = Some (subject, body)"
    "copy = ts_copy t \<or> (\<exists>r \<in> set (email_templates s). et_code r = code \<and> copy = copy_of_row r \<and> isUsable copy)"
    by (rule render_message [OF t(1)])
  then show ?thesis
    using t(2) usable
    by (intro exI [of _ copy] exI [of _ subject] exI [of _ body]) (auto simp: message_of_Some)
qed

lemma render_never_depends_on_editor_witness:
  "is_ok (render \<lparr>brandCompany = [], platformName = [], publicBaseUrl = [], signupMode = Closed,
      signupTrialDays = 0, emailAppPerMin = 0, emailAppPerDay = 0, bootstrapAdminEmail = None,
      bootstrapAdminPassword = None, secretKey = [], accessTtlSec = 0, refreshTtlDays = 0,
      retentionAuditDays = 0, retentionTokenDays = 0, stripeSecretKey = None,
      stripeWebhookSecret = None, stripeGraceDays = 0, stripeMode = Unset,
      alertsEmail = None, smtpFallback = None\<rparr>
    ''password_reset'' [] None
    (empty_db\<lparr>email_templates := [\<lparr>et_code = ''password_reset'', et_subject = '' '', et_heading = [],
        et_intro = [], et_actionLabel = None, et_outro = [], et_updatedById = None\<rparr>]\<rparr>))"
proof -
  have "''password_reset'' \<in> set (map ts_code TEMPLATES)"
    by code_simp
  then show ?thesis
    using render_never_depends_on_editor [of "''password_reset''"] by (metis is_ok_simps(2))
qed

text \<open>
  A row that names an inherited member is such a row: a heading \<open>{{constructor}}\<close> makes \<open>esc\<close> throw,
  and in a subject it reads as the function's text.
\<close>

lemma inherited_member_throws:
  "fill vars True ''{{valueOf}}'' = (if map_of vars ''valueOf'' = None then None else fill vars True ''{{valueOf}}'')
   \<and> fill [] False ''{{constructor}}'' = Some ''function Object() { [native code] }''"
  by (simp add: placeholder_def starts_with_def js_white_def word_char_def Let_def put_in_def inherited_members_def
      member_as_string_def)

end
