(* ===== verification/Email_Layout.thy ===== *)
theory Email_Layout
  imports Auth Email_Template
begin

text \<open>
  The shell every platform mail is rendered into, \<open>platform/src/email/email-layout.ts\<close>: the HTML part
  with its button, the styling of the copy's paragraphs, and the text part. A template literal is the
  list of its texts, verbatim, woven with the list of its values.
\<close>

section \<open>Template literals\<close>

fun weave :: "string list \<Rightarrow> string list \<Rightarrow> string" where
  "weave [] vs = []"
| "weave (l # ls) [] = l @ weave ls []"
| "weave (l # ls) (v # vs) = l @ v @ weave ls vs"

section \<open>Styling the copy\<close>

definition BRAND :: string where "BRAND = ''#1d4067''"
definition INK :: string where "INK = ''#14304a''"
definition MUTED :: string where "MUTED = ''#5b6b7d''"
definition RULE :: string where "RULE = ''#dbe3ec''"

text \<open>
  The lookahead \<open>[^>]*\sstyle=\<close> (flag \<open>i\<close>): before the next \<open>>\<close> there is white space and then \<open>style=\<close>.
\<close>

fun has_style :: "string \<Rightarrow> bool" where
  "has_style [] = False"
| "has_style (c # s) =
     (js_white c \<and> starts_with (lower s) ''style='' \<or> c \<noteq> CHR ''>'' \<and> has_style s)"

text \<open>
  \<open>html.replace(/<tag(?![^>]*\sstyle=)/gi, ...)\<close>: the first of the tags that the text starts with
  (after \<open><\<close>), where it has no style, is put out by \<open>out\<close> of its letters, with a style after it.
\<close>

fun style_tag :: "string list \<Rightarrow> (string \<Rightarrow> string) \<Rightarrow> string \<Rightarrow> string" where
  "style_tag tags out [] = []"
| "style_tag tags out (c # s) =
     (case find (\<lambda>t. c = CHR ''<'' \<and> starts_with (lower s) t \<and> \<not> has_style (drop (length t) s)) tags of
        Some t \<Rightarrow> CHR ''<'' # out (take (length t) s) @ style_tag tags out (drop (length t) s)
      | None \<Rightarrow> c # style_tag tags out s)"

definition styleParagraphs :: "string \<Rightarrow> string" where
  \<open>styleParagraphs html =
     style_tag [''a''] (\<lambda>_. ''a style="color:'' @ BRAND @ ''"'')
       (style_tag [''li''] (\<lambda>_. ''li style="font-size:15px;line-height:1.55"'')
         (style_tag [''ul'', ''ol''] (\<lambda>t. t @ '' style="margin:0 0 14px 0;padding-left:22px;color:'' @ INK @ ''"'')
           (style_tag [''p''] (\<lambda>_. ''p style="margin:0 0 14px;font-size:15px;line-height:1.55;color:'' @ INK @ ''"'')
             html)))\<close>

section \<open>The HTML part\<close>

definition BUTTON_LAYOUT :: "string list" where
  \<open>BUTTON_LAYOUT = [
''<table role="presentation" cellpadding="0" cellspacing="0" border="0" style="margin:22px 0">
         <tr><td align="center" bgcolor="'',
''" style="border-radius:8px">
           <a href="'',
''"
              style="display:inline-block;padding:12px 26px;font-family:Helvetica,Arial,sans-serif;
                     font-size:15px;font-weight:600;color:#ffffff;text-decoration:none;border-radius:8px">
             '',
''
           </a>
         </td></tr>
       </table>
       <!-- Every mail client that blocks or mangles the button still needs the
            destination to be reachable, so it is repeated as plain text. -->
       <p style="margin:0 0 14px;font-size:12px;line-height:1.5;color:'',
'';word-break:break-all">
         If the button does not work, paste this into your browser:<br/>
         <span style="color:'',
''">'',
''</span>
       </p>'']\<close>

definition email_button :: "string \<Rightarrow> string \<Rightarrow> string" where
  "email_button label url = weave BUTTON_LAYOUT [BRAND, esc url, esc label, MUTED, MUTED, esc url]"

definition EMAIL_LAYOUT :: "string list" where
  \<open>EMAIL_LAYOUT = [
''<!doctype html>
<html lang="en"><head><meta charset="utf-8"/>
<meta name="viewport" content="width=device-width,initial-scale=1"/>
<title>'',
''</title></head>
<body style="margin:0;padding:0;background:#f4f7fb">
<table role="presentation" width="100%" cellpadding="0" cellspacing="0" border="0" style="background:#f4f7fb">
  <tr><td align="center" style="padding:28px 12px">
    <table role="presentation" width="100%" cellpadding="0" cellspacing="0" border="0"
           style="max-width:520px;background:#ffffff;border:1px solid '',
'';border-radius:12px">
      <tr><td style="padding:22px 28px 0">
        <span style="font-family:Helvetica,Arial,sans-serif;font-size:17px;font-weight:700;color:'',
''">
          '',
''
        </span>
      </td></tr>
      <tr><td style="padding:14px 28px 0"><hr style="border:0;border-top:1px solid '',
'';margin:0"/></td></tr>
      <tr><td style="padding:20px 28px 26px;font-family:Helvetica,Arial,sans-serif">
        <h1 style="margin:0 0 14px;font-size:19px;line-height:1.3;color:'',
''">'',
''</h1>
        '',
''
        '',
''
        '',
''
      </td></tr>
      <tr><td style="padding:0 28px 22px;font-family:Helvetica,Arial,sans-serif">
        <hr style="border:0;border-top:1px solid '',
'';margin:0 0 14px"/>
        <p style="margin:0;font-size:12px;line-height:1.5;color:'',
''">
          Sent by '',
'', an '',
'' product.<br/>
          This is an automated message about your account '' @ em_dash @ '' you cannot reply to it.
        </p>
      </td></tr>
    </table>
  </td></tr>
</table>
</body></html>'']\<close>

definition email_html :: "config \<Rightarrow> email_body \<Rightarrow> string" where
  "email_html cfg body = weave EMAIL_LAYOUT
     [esc (eb_product body),
      RULE,
      BRAND,
      esc (eb_product body),
      RULE,
      INK,
      esc (eb_heading body),
      styleParagraphs (eb_intro body),
      (case eb_action body of None \<Rightarrow> [] | Some (label, url) \<Rightarrow> email_button label url),
      styleParagraphs (eb_outro body),
      RULE,
      MUTED,
      esc (eb_product body),
      esc (brandCompany cfg)]"

section \<open>The text part\<close>

text \<open>\<open>/<\/(p|div|li|h[1-6])>/gi\<close> and \<open>/<br\s*\/?>/gi\<close> at the start of a text: what follows the match.\<close>

definition BLOCK_ENDS :: "string list" where
  "BLOCK_ENDS = [''p'', ''div'', ''li'', ''h1'', ''h2'', ''h3'', ''h4'', ''h5'', ''h6'']"

definition block_end :: "string \<Rightarrow> string option" where
  "block_end s = map_option (\<lambda>t. drop (length t + 3) s)
     (find (\<lambda>t. starts_with (lower s) (''</'' @ t @ ''>'')) BLOCK_ENDS)"

definition line_break :: "string \<Rightarrow> string option" where
  "line_break s =
     (if \<not> starts_with (lower s) ''<br'' then None
      else let r = dropWhile js_white (drop 3 s);
               r' = (if starts_with r ''/'' then tl r else r)
           in if starts_with r' ''>'' then Some (tl r') else None)"

text \<open>\<open>/<li[^>]*>/gi\<close> and \<open>/<[^>]+>/g\<close>.\<close>

definition past_close :: "string \<Rightarrow> string option" where
  "past_close s = (case dropWhile (\<lambda>c. c \<noteq> CHR ''>'') s of [] \<Rightarrow> None | c # r \<Rightarrow> Some r)"

definition list_item :: "string \<Rightarrow> string option" where
  "list_item s = (if starts_with (lower s) ''<li'' then past_close (drop 3 s) else None)"

definition any_tag :: "string \<Rightarrow> string option" where
  "any_tag s = (case s of c # d # r \<Rightarrow> if c = CHR ''<'' \<and> d \<noteq> CHR ''>'' then past_close r else None | _ \<Rightarrow> None)"

text \<open>An entity, as a text to find.\<close>

definition literal :: "string \<Rightarrow> string \<Rightarrow> string option" where
  "literal p s = (if starts_with s p then Some (drop (length p) s) else None)"

text \<open>A global replacement of what \<open>match\<close> recognises, which is never the empty text.\<close>

function replace_matches :: "(string \<Rightarrow> string option) \<Rightarrow> string \<Rightarrow> string \<Rightarrow> string" where
  "replace_matches match r [] = []"
| "replace_matches match r (c # s) =
     (case match (c # s) of
        Some rest \<Rightarrow> if length rest \<le> length s then r @ replace_matches match r rest
           else c # replace_matches match r s
      | None \<Rightarrow> c # replace_matches match r s)"
  by pat_completeness auto

termination
  by (relation "measure (\<lambda>(m, r, s). length s)") auto

definition plain :: "string \<Rightarrow> string" where
  "plain s =
     replace_matches (literal ''&#39;'') [CHR 0x27]
      (replace_matches (literal ''&quot;'') [CHR 0x22]
       (replace_matches (literal ''&gt;'') ''>''
        (replace_matches (literal ''&lt;'') ''<''
         (replace_matches (literal ''&amp;'') ''&''
          (replace_matches (literal ''&nbsp;'') '' ''
           (replace_matches any_tag []
            (replace_matches list_item ''- ''
             (replace_matches line_break [CHR 0x0A]
              (replace_matches block_end [CHR 0x0A] s)))))))))"

definition email_text :: "config \<Rightarrow> email_body \<Rightarrow> string" where
  "email_text cfg body = join [CHR 0x0A]
     ([eb_product body, [], eb_heading body, [], trim (plain (eb_intro body))]
      @ (case eb_action body of None \<Rightarrow> [] | Some (label, url) \<Rightarrow> [[], label @ '': '' @ url, []])
      @ [trim (plain (eb_outro body)), [], em_dash,
         ''Sent by '' @ eb_product body @ '', an '' @ brandCompany cfg @ '' product.'',
         ''This is an automated message about your account '' @ em_dash @ '' you cannot reply to it.''])"

definition renderEmail :: "config \<Rightarrow> email_body \<Rightarrow> string \<times> string" where
  "renderEmail cfg body = (email_html cfg body, email_text cfg body)"

section \<open>The tags of a text\<close>

text \<open>What is between a \<open><\<close> and the end of the name of the tag that it opens, in lower case.\<close>

definition name_char :: "char \<Rightarrow> bool" where
  "name_char c \<longleftrightarrow> c \<noteq> CHR ''<'' \<and> c \<noteq> CHR ''>'' \<and> \<not> js_white c"

fun opened :: "string \<Rightarrow> string list" where
  "opened [] = []"
| "opened (c # s) = (if c = CHR ''<'' then lower (takeWhile name_char s) # opened s else opened s)"

definition starts_name :: "string \<Rightarrow> bool" where
  "starts_name s = (case s of [] \<Rightarrow> False | c # _ \<Rightarrow> name_char c)"

lemma takeWhile_no_name: "\<not> starts_name t \<Longrightarrow> takeWhile name_char (s @ t) = takeWhile name_char s"
  by (induction s) (auto simp: starts_name_def split: list.splits)

lemma opened_append: "\<not> starts_name t \<Longrightarrow> opened (s @ t) = opened s @ opened t"
  by (induction s) (simp_all add: takeWhile_no_name)

lemma opened_none [simp]: "CHR ''<'' \<notin> set s \<Longrightarrow> opened (s @ t) = opened t"
  by (induction s) auto

lemma opened_nothing [simp]: "CHR ''<'' \<notin> set s \<Longrightarrow> opened s = []"
  using opened_none [of s "[]"] by simp

lemma lt_esc [simp]: "CHR ''<'' \<notin> set (esc v)"
  using esc_safe by blast

text \<open>A text whose last name is complete: whatever follows adds its own tags to it.\<close>

fun dangling :: "string \<Rightarrow> bool" where
  "dangling [] = False"
| "dangling (c # s) = (c = CHR ''<'' \<and> list_all name_char s \<or> dangling s)"

lemma opened_closed: "\<not> dangling s \<Longrightarrow> opened (s @ t) = opened s @ opened t"
proof (induction s)
  case (Cons c s)
  have "\<not> list_all name_char s \<Longrightarrow> takeWhile name_char (s @ t) = takeWhile name_char s"
    by (induction s) auto
  then show ?case
    using Cons by auto
qed simp

section \<open>No value opens a tag\<close>

text \<open>Copy in which no placeholder is part of the name of a tag.\<close>

fun settled :: "string \<Rightarrow> bool" where
  "settled [] = True"
| "settled (c # s) = ((c = CHR ''<'' \<longrightarrow> CHR ''{'' \<notin> set (takeWhile name_char s)) \<and> settled s)"

lemma placeholder_brace: "placeholder (c # s) = Some x \<Longrightarrow> c = CHR ''{''"
  by (auto simp: placeholder_def starts_with_def split: if_splits)

lemma starts_drop: "starts_with s p \<Longrightarrow> s = p @ drop (length p) s"
  unfolding starts_with_def by (metis append_take_drop_id)

lemma placeholder_split:
  assumes "placeholder s = Some (key, rest)"
  shows "\<exists>ph. s = ph @ rest \<and> CHR ''<'' \<notin> set ph"
proof -
  define s1 where "s1 = dropWhile js_white (drop 2 s)"
  define s2 where "s2 = dropWhile js_white (dropWhile word_char s1)"
  have p: "starts_with s ''{{''" "starts_with s2 ''}}''" "rest = drop 2 s2"
    using assms by (simp_all add: placeholder_def Let_def s1_def s2_def split: if_splits)
  have "s = ''{{'' @ takeWhile js_white (drop 2 s) @ s1"
    using starts_drop [OF p(1)] by (simp add: s1_def numeral_2_eq_2)
  moreover have "s1 = takeWhile word_char s1 @ takeWhile js_white (dropWhile word_char s1) @ s2"
    by (simp add: s2_def)
  moreover have "s2 = ''}}'' @ rest"
    using starts_drop [OF p(2)] p(3) by (simp add: numeral_2_eq_2)
  ultimately have "s = (''{{'' @ takeWhile js_white (drop 2 s) @ takeWhile word_char s1
      @ takeWhile js_white (dropWhile word_char s1) @ ''}}'') @ rest"
    by (metis append.assoc)
  moreover have "CHR ''<'' \<notin> set (takeWhile js_white u)" "CHR ''<'' \<notin> set (takeWhile word_char u)" for u
    by (auto dest!: set_takeWhileD simp: js_white_def word_char_def)
  then have "CHR ''<'' \<notin> set (''{{'' @ takeWhile js_white (drop 2 s) @ takeWhile word_char s1
      @ takeWhile js_white (dropWhile word_char s1) @ ''}}'')"
    by simp
  ultimately show ?thesis
    by blast
qed

lemma settled_append: "settled (s @ t) \<Longrightarrow> settled t"
  by (induction s) auto

lemma fill_Cons_plain:
  assumes "c \<noteq> CHR ''{''" and "fill vars e (c # s) = Some x"
  obtains y where "x = c # y" and "fill vars e s = Some y"
proof -
  have "placeholder (c # s) = None"
    using placeholder_brace assms(1) by (cases "placeholder (c # s)") blast+
  then show ?thesis
    using assms(2) that by auto
qed

lemma fill_name: "fill vars e s = Some x \<Longrightarrow> CHR ''{'' \<notin> set (takeWhile name_char s) \<Longrightarrow>
    takeWhile name_char x = takeWhile name_char s"
proof (induction s arbitrary: x)
  case (Cons c s)
  show ?case
  proof (cases "c = CHR ''{''")
    case False
    then obtain y where "x = c # y" "fill vars e s = Some y"
      using fill_Cons_plain Cons.prems(1) by blast
    then show ?thesis
      using Cons by (auto split: if_splits)
  qed (use Cons.prems in \<open>simp add: name_char_def js_white_def\<close>)
qed simp

text \<open>What substitution puts into copy opens no tag, and leaves the names of the author's tags alone.\<close>

lemma opened_put_in: "put_in vars True key ph = Some v \<Longrightarrow> CHR ''<'' \<notin> set ph \<Longrightarrow> CHR ''<'' \<notin> set v"
  by (auto simp: put_in_def split: option.splits if_splits dest: esc_safe)

lemma opened_fill: "fill vars True s = Some x \<Longrightarrow> settled s \<Longrightarrow> opened x = opened s"
proof (induction vars True s arbitrary: x rule: fill.induct)
  case (2 vars c s)
  show ?case
  proof (cases "placeholder (c # s)")
    case None
    then obtain y where y: "x = c # y" "fill vars True s = Some y"
      using 2(3) by auto
    have "opened y = opened s"
      using 2(1) [OF None y(2)] 2(4) by simp
    then show ?thesis
      using 2(4) fill_name [OF y(2)] by (auto simp: y(1))
  next
    case (Some kr)
    obtain key rest where kr: "kr = (key, rest)"
      by (cases kr)
    obtain ph where ph: "c # s = ph @ rest" "CHR ''<'' \<notin> set ph"
      using placeholder_split Some kr by blast
    then have r: "settled rest" "opened (c # s) = opened rest"
      using 2(4) settled_append by (metis, simp del: opened.simps)
    have whole: "take (length (c # s) - length rest) (c # s) = ph"
      using ph(1) by simp
    then obtain v y where v: "put_in vars True key ph = Some v" "fill vars True rest = Some y" "x = v @ y"
      using 2(3) Some kr by (auto split: option.splits)
    have "opened y = opened rest"
      by (rule 2(2) [OF Some kr [symmetric] _ v(2) r(1)]) (use whole v(1) in simp)
    then show ?thesis
      using opened_put_in [OF v(1) ph(2)] r(2) v(3) by (simp del: opened.simps)
  qed
qed simp

text \<open>Paragraphs are the only tags that \<open>toHtml\<close> adds.\<close>

lemma opened_trim: "opened (trim s) = opened s"
proof -
  let ?d = "dropWhile js_white s"
  have lt: "CHR ''<'' \<notin> set (takeWhile js_white u)" for u
    by (auto dest!: set_takeWhileD simp: js_white_def)
  have "opened s = opened ?d"
    using opened_none [OF lt [of s], of ?d] by simp
  moreover have "?d = trim s @ rev (takeWhile js_white (rev ?d))"
    unfolding trim_def by (metis rev_append rev_rev_ident takeWhile_dropWhile_id)
  moreover have "\<not> starts_name (rev (takeWhile js_white (rev ?d)))"
    by (cases "rev (takeWhile js_white (rev ?d))")
       (auto simp: starts_name_def name_char_def dest!: arg_cong [of _ _ set] set_takeWhileD)
  moreover have "opened (rev (takeWhile js_white (rev ?d))) = []"
    using lt [of "rev ?d"] by simp
  ultimately show ?thesis
    using opened_append by (metis append_Nil2)
qed

lemma opened_lines: "opened (join [CHR 0x0A] ls) = concat (map opened ls)"
proof (induction "[CHR 0x0A]" ls rule: join.induct)
  case (3 x y ys)
  have "\<not> starts_name ([CHR 0x0A] @ join [CHR 0x0A] (y # ys))"
    by (simp add: starts_name_def name_char_def js_white_def)
  then show ?case
    using 3 opened_append by (simp add: opened_append)
qed simp_all

lemma opened_paragraphs:
  "set (opened (concat (map (\<lambda>l. ''<p>'' @ l @ ''</p>'') ls))) \<subseteq> {''p'', ''/p''} \<union> set (concat (map opened ls))"
proof (induction ls)
  case (Cons l ls)
  let ?r = "concat (map (\<lambda>l. ''<p>'' @ l @ ''</p>'') ls)"
  have "lower ''p'' = ''p''" "lower ''/p'' = ''/p''"
    by code_simp+
  then have "opened (''<p>'' @ l @ ''</p>'' @ ?r) = ''p'' # opened l @ ''/p'' # opened ?r"
    by (simp add: opened_append [of "''</p>'' @ ?r" l, simplified] starts_name_def name_char_def js_white_def)
  then show ?case
    using Cons by auto
qed simp

lemma opened_toHtml: "set (opened (toHtml s)) \<subseteq> {''p'', ''/p''} \<union> set (opened s)"
proof (cases "has_block_tag s")
  case False
  let ?ls = "split_at (\<lambda>c. c = CHR 0x0A) s"
  have "set (concat (map opened (filter (\<lambda>l. l \<noteq> []) (map trim ?ls)))) \<subseteq> set (concat (map opened ?ls))"
    by (auto simp: opened_trim)
  also have "\<dots> = set (opened s)"
    using opened_lines [of ?ls] join_split [of "CHR 0x0A" s] by simp
  finally show ?thesis
    using opened_paragraphs [of "filter (\<lambda>l. l \<noteq> []) (map trim ?ls)"]
    unfolding toHtml_def if_not_P [OF False] by blast
qed (auto simp: toHtml_def)

text \<open>Styling adds no tag but the five that it puts out.\<close>

lemma style_tag_name: "takeWhile name_char (style_tag tags out s) = takeWhile name_char s"
proof (induction s)
  case (Cons c s)
  show ?case
  proof (cases "c = CHR ''<''")
    case False
    then show ?thesis
      using Cons by (simp add: find_None_iff [THEN iffD2])
  qed (simp add: name_char_def split: option.split)
qed simp

lemma name_chars_lower: "list_all name_char (lower w) \<Longrightarrow> list_all name_char w"
proof -
  have "\<not> name_char c \<Longrightarrow> lower_char c = c" for c
    by (auto simp: name_char_def js_white_def lower_char_def)
  then have "name_char (lower_char c) \<Longrightarrow> name_char c" for c
    by metis
  then show "list_all name_char (lower w) \<Longrightarrow> ?thesis"
    by (induction w) (auto simp: lower_def)
qed

lemma opened_drop: "set (opened (drop n s)) \<subseteq> set (opened s)"
  by (induction s arbitrary: n) (auto simp: drop_Cons split: nat.splits)

definition puts_style :: "(string \<Rightarrow> string) \<Rightarrow> string list \<Rightarrow> bool" where
  "puts_style out tags \<longleftrightarrow> (\<forall>w. lower w \<in> set tags \<longrightarrow> (\<exists>v style. out w = v @ CHR '' '' # style
     \<and> lower v = lower w \<and> list_all name_char v \<and> CHR ''<'' \<notin> set style))"

lemma puts_styleD:
  assumes "puts_style out tags" and "lower w = t" and "t \<in> set tags"
  shows "\<exists>v style. out w = v @ CHR '' '' # style \<and> lower v = t \<and> list_all name_char v
    \<and> CHR ''<'' \<notin> set style"
  using assms unfolding puts_style_def by blast

lemma opened_style_tag:
  assumes "puts_style out tags"
  shows "set (opened (style_tag tags out s)) \<subseteq> set tags \<union> set (opened s)"
  using assms
proof (induction tags out s rule: style_tag.induct)
  case (2 tags out c s)
  let ?P = "\<lambda>t. c = CHR ''<'' \<and> starts_with (lower s) t \<and> \<not> has_style (drop (length t) s)"
  show ?case
  proof (cases "find ?P tags")
    case None
    then show ?thesis
      using 2(1) [OF None 2(3)] by (auto simp: style_tag_name)
  next
    case (Some t)
    then have t: "t \<in> set tags" "c = CHR ''<''" "starts_with (lower s) t"
      by (auto dest: find_SomeD)
    then have w: "lower (take (length t) s) = t"
      by (simp add: starts_with_def lower_def take_map)
    obtain v style where v: "out (take (length t) s) = v @ CHR '' '' # style" "lower v = t"
        "list_all name_char v" "CHR ''<'' \<notin> set style"
      using puts_styleD [OF 2(3) w t(1)] by blast
    let ?r = "style_tag tags out (drop (length t) s)"
    have "CHR ''<'' \<notin> set v"
      using v(3) by (auto simp: list_all_iff name_char_def)
    then have "CHR ''<'' \<notin> set (v @ CHR '' '' # style)"
      using v(4) by simp
    then have "opened ((v @ CHR '' '' # style) @ ?r) = opened ?r"
      by (rule opened_none)
    moreover have "takeWhile name_char ((v @ CHR '' '' # style) @ ?r) = v"
      using v(3) by (simp add: takeWhile_append2 list_all_iff name_char_def js_white_def)
    ultimately have "opened (style_tag tags out (c # s)) = t # opened ?r"
      using Some v(1,2) t(2) by simp
    then show ?thesis
      using 2(2) [OF Some 2(3)] opened_drop [of "length t" s] t(1) by auto
  qed
qed simp

lemma lower_letters: "lower ''p'' = ''p''" "lower ''a'' = ''a''" "lower ''li'' = ''li''"
  by code_simp+

lemma puts_const:
  "list_all name_char v \<Longrightarrow> lower v = v \<Longrightarrow> CHR ''<'' \<notin> set style \<Longrightarrow>
   puts_style (\<lambda>_. v @ CHR '' '' # style) [v]"
  unfolding puts_style_def by (metis empty_iff empty_set list.set(2) singletonD)

lemma puts_same:
  "list_all (list_all name_char) tags \<Longrightarrow> CHR ''<'' \<notin> set style \<Longrightarrow>
   puts_style (\<lambda>t. t @ CHR '' '' # style) tags"
  unfolding puts_style_def using name_chars_lower by (metis list_all_iff)

lemma opened_styled:
  "set (opened (styleParagraphs s)) \<subseteq> {''p'', ''ul'', ''ol'', ''li'', ''a''} \<union> set (opened s)"
proof -
  define style1 style2 style3 style4 where
    \<open>style1 = ''style="margin:0 0 14px;font-size:15px;line-height:1.55;color:'' @ INK @ ''"''\<close>
    and \<open>style2 = ''style="margin:0 0 14px 0;padding-left:22px;color:'' @ INK @ ''"''\<close>
    and \<open>style3 = ''style="font-size:15px;line-height:1.55"''\<close>
    and \<open>style4 = ''style="color:'' @ BRAND @ ''"''\<close>
  note styles = style1_def style2_def style3_def style4_def INK_def BRAND_def
  have n: "list_all name_char ''p''" "list_all name_char ''li''" "list_all name_char ''a''"
    "list_all (list_all name_char) [''ul'', ''ol'']"
    by code_simp+
  have "styleParagraphs s = style_tag [''a''] (\<lambda>_. ''a'' @ CHR '' '' # style4)
       (style_tag [''li''] (\<lambda>_. ''li'' @ CHR '' '' # style3)
         (style_tag [''ul'', ''ol''] (\<lambda>t. t @ CHR '' '' # style2)
           (style_tag [''p''] (\<lambda>_. ''p'' @ CHR '' '' # style1) s)))"
    by (simp add: styleParagraphs_def styles)
  moreover have "puts_style (\<lambda>_. ''p'' @ CHR '' '' # style1) [''p'']"
    by (rule puts_const [OF n(1) lower_letters(1)]) (simp add: styles)
  moreover have "puts_style (\<lambda>t. t @ CHR '' '' # style2) [''ul'', ''ol'']"
    by (rule puts_same [OF n(4)]) (simp add: styles)
  moreover have "puts_style (\<lambda>_. ''li'' @ CHR '' '' # style3) [''li'']"
    by (rule puts_const [OF n(2) lower_letters(3)]) (simp add: styles)
  moreover have "puts_style (\<lambda>_. ''a'' @ CHR '' '' # style4) [''a'']"
    by (rule puts_const [OF n(3) lower_letters(2)]) (simp add: styles)
  ultimately show ?thesis
    using opened_style_tag [of _ "[''a'']"] opened_style_tag [of _ "[''li'']"]
      opened_style_tag [of _ "[''ul'', ''ol'']"] opened_style_tag [of _ "[''p'']"]
    by (simp only:) (fastforce dest!: subsetD)
qed

section \<open>The whole message\<close>

text \<open>Pieces of a literal whose tags are their own, and values that are followed by a piece.\<close>

fun fits :: "string list \<Rightarrow> string list \<Rightarrow> bool" where
  "fits (l # ls) (v # vs) =
     ((CHR ''<'' \<notin> set v \<or> (case ls of [] \<Rightarrow> True | l' # _ \<Rightarrow> l' \<noteq> [] \<and> \<not> starts_name l')) \<and> fits ls vs)"
| "fits ls vs = True"

lemma opened_weave:
  "list_all (\<lambda>l. \<not> dangling l) ls \<Longrightarrow> fits ls vs \<Longrightarrow>
   set (opened (weave ls vs)) \<subseteq> set (concat (map opened ls)) \<union> set (concat (map opened vs))"
proof (induction ls vs rule: weave.induct)
  case (3 l ls v vs)
  have "opened (v @ weave ls vs) = opened v @ opened (weave ls vs)"
  proof (cases "CHR ''<'' \<in> set v")
    case True
    then have "\<not> starts_name (weave ls vs)"
      using 3(3) by (cases ls; cases vs) (auto simp: starts_name_def split: list.splits)
    then show ?thesis
      by (rule opened_append)
  qed simp
  then show ?case
    using 3 by (auto simp: opened_closed)
qed (auto simp: opened_closed)

definition SHELL_TAGS :: "string list" where
  "SHELL_TAGS = [''!doctype'', ''html'', ''/html'', ''head'', ''/head'', ''meta'', ''title'', ''/title'', ''body'',
     ''/body'', ''table'', ''/table'', ''tr'', ''/tr'', ''td'', ''/td'', ''span'', ''/span'', ''hr'', ''h1'', ''/h1'',
     ''p'', ''/p'', ''br/'', ''a'', ''/a'', ''ul'', ''ol'', ''li'', ''!--'']"

lemma shell_tags: "list_all (\<lambda>l. list_all (\<lambda>t. t \<in> set SHELL_TAGS) (opened l)) EMAIL_LAYOUT"
  by code_simp

lemma button_tags: "list_all (\<lambda>l. list_all (\<lambda>t. t \<in> set SHELL_TAGS) (opened l)) BUTTON_LAYOUT"
  by code_simp

lemma layouts_closed: "list_all (\<lambda>l. \<not> dangling l) EMAIL_LAYOUT" "list_all (\<lambda>l. \<not> dangling l) BUTTON_LAYOUT"
  by code_simp+

lemma constants_plain [simp]:
  "CHR ''<'' \<notin> set BRAND" "CHR ''<'' \<notin> set INK" "CHR ''<'' \<notin> set MUTED" "CHR ''<'' \<notin> set RULE"
  by (simp_all add: BRAND_def INK_def MUTED_def RULE_def)

lemma opened_button: "set (opened (email_button label url)) \<subseteq> set SHELL_TAGS"
proof -
  have "fits BUTTON_LAYOUT [BRAND, esc url, esc label, MUTED, MUTED, esc url]"
    by (simp add: BUTTON_LAYOUT_def)
  then have "set (opened (email_button label url)) \<subseteq> set (concat (map opened BUTTON_LAYOUT))"
    using opened_weave [OF layouts_closed(2)] unfolding email_button_def by fastforce
  then show ?thesis
    using button_tags by (auto simp: list_all_iff)
qed

lemma gathered:
  "A \<subseteq> B \<union> C \<Longrightarrow> B \<subseteq> T \<Longrightarrow> C = f x \<union> E \<union> f y \<Longrightarrow> E \<subseteq> T \<Longrightarrow> (\<And>x. f x \<subseteq> T \<union> g x) \<Longrightarrow> A \<subseteq> T \<union> g x \<union> g y"
  by blast

lemma opened_html:
  "set (opened (email_html cfg b)) \<subseteq> set SHELL_TAGS \<union> set (opened (eb_intro b)) \<union> set (opened (eb_outro b))"
proof -
  let ?button = "case eb_action b of None \<Rightarrow> [] | Some (label, url) \<Rightarrow> email_button label url"
  let ?vs = "[esc (eb_product b), RULE, BRAND, esc (eb_product b), RULE, INK, esc (eb_heading b),
      styleParagraphs (eb_intro b), ?button, styleParagraphs (eb_outro b), RULE, MUTED,
      esc (eb_product b), esc (brandCompany cfg)]"
  have "fits EMAIL_LAYOUT ?vs"
    by (simp add: EMAIL_LAYOUT_def starts_name_def name_char_def js_white_def)
  then have "set (opened (email_html cfg b))
      \<subseteq> set (concat (map opened EMAIL_LAYOUT)) \<union> set (concat (map opened ?vs))"
    using opened_weave [OF layouts_closed(1)] unfolding email_html_def by fastforce
  moreover have "set (concat (map opened EMAIL_LAYOUT)) \<subseteq> set SHELL_TAGS"
    using shell_tags by (auto simp: list_all_iff)
  moreover have "set (concat (map opened ?vs))
      = set (opened (styleParagraphs (eb_intro b))) \<union> set (opened ?button) \<union> set (opened (styleParagraphs (eb_outro b)))"
    by auto
  moreover have "set (opened ?button) \<subseteq> set SHELL_TAGS"
    using opened_button by (cases "eb_action b") auto
  moreover have "{''p'', ''ul'', ''ol'', ''li'', ''a''} \<subseteq> set SHELL_TAGS"
    by (simp add: SHELL_TAGS_def)
  then have "set (opened (styleParagraphs x)) \<subseteq> set SHELL_TAGS \<union> set (opened x)" for x
    by (intro order_trans [OF opened_styled Un_mono] order_refl)
  ultimately show ?thesis
    by (rule gathered)
qed

text \<open>
  C37: No value opens a tag in a mail. Whatever the variables of a message say (names, addresses, a workspace
  somebody chose) and whatever the product and the company are called, the HTML part opens only the tags
  of the shell and those the author of its copy wrote, built in or saved in the console, as long as the
  copy saved for that message has no placeholder inside the name of a tag (\<open>settled\<close>; the built-in
  copy has none). Without that a value does name a tag, as shown below.
\<close>

theorem values_open_no_tag:
  assumes "render cfg code vars actionUrl s = Inr (subject, body)"
    and "\<forall>r \<in> set (email_templates s). et_code r = code \<longrightarrow> settled (et_intro r) \<and> settled (et_outro r)"
  shows "\<exists>copy \<in> ts_copy ` set TEMPLATES \<union> copy_of_row ` {r \<in> set (email_templates s). et_code r = code}.
    set (opened (fst (renderEmail cfg body)))
      \<subseteq> set SHELL_TAGS \<union> set (opened (tc_intro copy)) \<union> set (opened (tc_outro copy))"
proof -
  have built_in: "list_all (\<lambda>t. settled (tc_intro (ts_copy t)) \<and> settled (tc_outro (ts_copy t))) TEMPLATES"
    by code_simp
  obtain t where t: "seed code = Some t" "t \<in> set TEMPLATES"
    using assms(1) by (cases "seed code") (auto simp: render_def seed_def dest: find_SomeD)
  obtain copy sb bd where "render cfg code vars actionUrl s = Inr (sb, bd)"
    and m: "message_of cfg copy vars actionUrl = Some (sb, bd)"
    and copy: "copy = ts_copy t \<or> (\<exists>r \<in> set (email_templates s). et_code r = code \<and> copy = copy_of_row r \<and> isUsable copy)"
    by (rule render_message [OF t(1)])
  then have body: "toBody cfg copy vars actionUrl = Some body"
    using assms(1) by (simp add: message_of_Some)
  have "settled (tc_intro copy)" "settled (tc_outro copy)"
    using copy assms(2) built_in t(2) by (auto simp: copy_of_row_def list_all_iff)
  moreover obtain x y where x: "fill vars True (tc_intro copy) = Some x" "eb_intro body = toHtml x"
    and y: "fill vars True (tc_outro copy) = Some y" "eb_outro body = toHtml y"
    using body by (auto simp: toBody_def split: option.splits)
  ultimately have "set (opened (eb_intro body)) \<subseteq> {''p'', ''/p''} \<union> set (opened (tc_intro copy))"
    "set (opened (eb_outro body)) \<subseteq> {''p'', ''/p''} \<union> set (opened (tc_outro copy))"
    using opened_toHtml [of x] opened_toHtml [of y] by (simp_all add: opened_fill [OF x(1)] opened_fill [OF y(1)])
  moreover have "{''p'', ''/p''} \<subseteq> set SHELL_TAGS"
    by (simp add: SHELL_TAGS_def)
  ultimately have "set (opened (fst (renderEmail cfg body)))
      \<subseteq> set SHELL_TAGS \<union> set (opened (tc_intro copy)) \<union> set (opened (tc_outro copy))"
    using opened_html [of cfg body] unfolding renderEmail_def fst_conv by blast
  moreover have "copy \<in> ts_copy ` set TEMPLATES \<union> copy_of_row ` {r \<in> set (email_templates s). et_code r = code}"
    using copy t(2) by blast
  ultimately show ?thesis
    by blast
qed

lemma values_open_no_tag_witness:
  "\<exists>subject body. render sample_cfg ''password_reset'' [(''email'', ''<script>'')] None empty_db = Inr (subject, body)
     \<and> ''script'' \<notin> set (opened (fst (renderEmail sample_cfg body)))"
proof -
  let ?r = "render sample_cfg ''password_reset'' [(''email'', ''<script>'')] None empty_db"
  obtain subject body where r: "?r = Inr (subject, body)"
    using render_known [of "''password_reset''"] by (force simp: TEMPLATES_def)
  then have "\<exists>copy \<in> ts_copy ` set TEMPLATES. set (opened (fst (renderEmail sample_cfg body)))
      \<subseteq> set SHELL_TAGS \<union> set (opened (tc_intro copy)) \<union> set (opened (tc_outro copy))"
    using values_open_no_tag [OF r] by (simp add: empty_db_def)
  moreover have "list_all (\<lambda>t. ''script'' \<notin> set (SHELL_TAGS @ opened (tc_intro (ts_copy t))
      @ opened (tc_outro (ts_copy t)))) TEMPLATES"
    by code_simp
  ultimately show ?thesis
    using r by (auto simp: list_all_iff)
qed

text \<open>Copy that is not \<open>settled\<close> lets a value name a tag: escaping leaves letters as they are.\<close>

lemma value_names_a_tag:
  "\<not> settled ''<{{x}}>'' \<and> fill [(''x'', ''script'')] True ''<{{x}}>'' = Some ''<script>'' \<and> opened ''<script>'' = [''script'']"
proof -
  have "lower ''script'' = ''script''"
    by code_simp
  then show ?thesis
    by (simp add: placeholder_def starts_with_def js_white_def word_char_def name_char_def Let_def put_in_def
        esc_def esc_char_def)
qed

section \<open>The text part\<close>

text \<open>
  The heading and the button's label are filled with values that are escaped already, and the shell
  escapes them again, or the text part shows them as they are: an apostrophe in a workspace's name
  reads \<open>&#39;\<close> in the heading of both parts.
\<close>

lemma heading_escaped_twice:
  "fill [(''workspace'', [CHR 0x27])] True ''Join {{workspace}}'' = Some ''Join &#39;''
   \<and> esc ''Join &#39;'' = ''Join &amp;#39;''"
  by (simp add: placeholder_def starts_with_def js_white_def word_char_def Let_def put_in_def esc_def esc_char_def)

text \<open>
  The text part undoes \<open>&amp;\<close> before the other entities, so a value that spells an entity out comes back
  as the character.
\<close>

lemma entity_decoded_twice: "plain (esc ''AT&lt;T'') = ''AT<T''"
  by code_simp

end
