(* ===== verification/Policy.thy ===== *)
theory Policy
  imports Prelude
begin

text \<open>
  The password policy: \<open>platform/src/core/password-policy.ts\<close> and the template's copy of it,
  \<open>templates/next/src/lib/auth/password-policy.ts\<close>. Both run the same steps; they differ in one word
  of the blocklist and in one character of the class of trailing characters that is stripped, so the
  steps are stated once, over the list and the class.
\<close>

section \<open>The rules\<close>

definition PASSWORD_MIN_LENGTH :: nat where "PASSWORD_MIN_LENGTH = 12"
definition PASSWORD_MAX_BYTES :: nat where "PASSWORD_MAX_BYTES = 72"
definition MAX_SEQUENCE_RUN :: nat where "MAX_SEQUENCE_RUN = 4"

definition SEQUENCES :: "string list" where
  "SEQUENCES = [''0123456789'', ''abcdefghijklmnopqrstuvwxyz'', ''qwertyuiop'', ''asdfghjkl'', ''zxcvbnm'']"

text \<open>The chunks of \<open>n\<close> characters of a string, at every position.\<close>

fun chunks :: "nat \<Rightarrow> string \<Rightarrow> string list" where
  "chunks n [] = (if n = 0 then [[]] else [])"
| "chunks n (c # s) = (if n \<le> length (c # s) then take n (c # s) # chunks n s else [])"

definition isSequential :: "string \<Rightarrow> bool" where
  "isSequential candidate =
     list_ex (\<lambda>sq. list_ex (\<lambda>chunk. js_includes sq chunk \<or> js_includes (rev sq) chunk)
       (chunks (MAX_SEQUENCE_RUN + 1) candidate)) SEQUENCES"

definition shared_blocklist :: "string list" where
  "shared_blocklist =
     [''password'', ''password1'', ''password123'', ''passw0rd'', ''letmein'', ''welcome'', ''welcome1'',
      ''qwerty'', ''qwerty123'', ''iloveyou'', ''admin'', ''administrator'', ''changeme'', ''abc123'',
      ''111111'', ''123456'', ''1234567'', ''12345678'', ''123456789'', ''1234567890'', ''monkey'', ''dragon'',
      ''sunshine'', ''princess'', ''football'', ''baseball'', ''trustno1'', ''evoplatform'']"

definition COMMON_PASSWORDS :: "string list" where
  "COMMON_PASSWORDS = shared_blocklist @ [''evomedia'']"

definition TEMPLATE_COMMON_PASSWORDS :: "string list" where
  "TEMPLATE_COMMON_PASSWORDS = shared_blocklist @ [''evoapp'']"

text \<open>The characters of \<open>[0-9!@#$%^&*()\-_=+.,?/\\|[\]{}<>;:'"`~ ]\<close>; the template's class has no
  backslash.\<close>

definition template_suffix_class :: "char \<Rightarrow> bool" where
  "template_suffix_class c \<longleftrightarrow> c \<in> set (''0123456789!@#$%^&*()-_=+.,?/|[]{}<>;:`~ '' @ [CHR 0x27, CHR 0x22])"

definition suffix_class :: "char \<Rightarrow> bool" where
  "suffix_class c \<longleftrightarrow> template_suffix_class c \<or> c = CHR 0x5C"

definition strip_suffix :: "(char \<Rightarrow> bool) \<Rightarrow> string \<Rightarrow> string" where
  "strip_suffix cls s = rev (dropWhile cls (rev s))"

text \<open>The substitutions, one after the other. No replacement is itself replaced, so one pass does.\<close>

definition unleet_char :: "char \<Rightarrow> char" where
  "unleet_char c =
     (if c = CHR ''@'' then CHR ''a'' else if c = CHR ''0'' then CHR ''o'' else if c = CHR ''1'' then CHR ''i''
      else if c = CHR ''3'' then CHR ''e'' else if c = CHR ''$'' then CHR ''s'' else if c = CHR ''5'' then CHR ''s''
      else if c = CHR ''!'' then CHR ''i'' else if c = CHR ''4'' then CHR ''a'' else if c = CHR ''7'' then CHR ''t''
      else c)"

definition common_password :: "string list \<Rightarrow> (char \<Rightarrow> bool) \<Rightarrow> string \<Rightarrow> bool" where
  "common_password blocked cls password =
     (let candidate = lower (trim password);
          trimmed = strip_suffix cls candidate;
          unleet = map unleet_char trimmed
      in candidate = [] \<or> candidate \<in> set blocked
         \<or> (trimmed \<noteq> [] \<and> trimmed \<in> set blocked)
         \<or> (unleet \<noteq> [] \<and> unleet \<in> set blocked)
         \<or> card (set candidate) = 1)"

definition password_problem :: "string list \<Rightarrow> (char \<Rightarrow> bool) \<Rightarrow> string \<Rightarrow> string option" where
  "password_problem blocked cls password =
     (if password = [] then Some ''Password is required''
      else if length password < PASSWORD_MIN_LENGTH
      then Some (''Password must be at least '' @ show_int (int PASSWORD_MIN_LENGTH) @ '' characters'')
      else if PASSWORD_MAX_BYTES < utf8_bytes password
      then Some (''Password must be '' @ show_int (int PASSWORD_MAX_BYTES) @ '' characters or fewer'')
      else if isSequential (lower (trim password))
      then Some (''Avoid runs of more than '' @ show_int (int MAX_SEQUENCE_RUN)
             @ '' characters in a row (like abcde or 12345)'')
      else if common_password blocked cls password
      then Some ''That password is too common''
      else None)"

definition isCommon :: "string \<Rightarrow> bool" where
  "isCommon = common_password COMMON_PASSWORDS suffix_class"

definition validatePassword :: "string \<Rightarrow> string option" where
  "validatePassword = password_problem COMMON_PASSWORDS suffix_class"

definition template_validatePassword :: "string \<Rightarrow> string option" where
  "template_validatePassword = password_problem TEMPLATE_COMMON_PASSWORDS template_suffix_class"

definition meetsPasswordPolicy :: "string \<Rightarrow> bool" where
  "meetsPasswordPolicy pw \<longleftrightarrow> validatePassword pw = None"

section \<open>Lemmas\<close>

lemma password_problem_None:
  "password_problem blocked cls pw = None \<longleftrightarrow>
   PASSWORD_MIN_LENGTH \<le> length pw \<and> utf8_bytes pw \<le> PASSWORD_MAX_BYTES
   \<and> \<not> isSequential (lower (trim pw)) \<and> \<not> common_password blocked cls pw"
  by (auto simp: password_problem_def PASSWORD_MIN_LENGTH_def)

lemma lower_append: "lower (xs @ ys) = lower xs @ lower ys"
  by (simp add: lower_def)

lemma dropWhile_rev_solid:
  "w \<noteq> [] \<Longrightarrow> \<not> P (last w) \<Longrightarrow> \<forall>x \<in> set q. P x \<Longrightarrow> dropWhile P (rev q @ rev w) = rev w"
proof -
  assume a: "w \<noteq> []" "\<not> P (last w)" "\<forall>x \<in> set q. P x"
  have "dropWhile P (rev q @ rev w) = dropWhile P (rev w)"
    by (rule dropWhile_append2) (use a(3) in simp)
  also have "\<dots> = rev w"
    by (rule dropWhile_fixed) (use a in \<open>simp add: hd_rev\<close>)
  finally show ?thesis .
qed

lemma trim_append_solid:
  assumes "w \<noteq> []" and "\<not> js_white (hd w)" and "\<not> js_white (last w)"
  shows "\<exists>q. trim (w @ p) = w @ q \<and> set q \<subseteq> set p"
proof -
  have "dropWhile js_white (w @ p) = w @ p"
    using assms(1,2) by (cases w) auto
  then have t: "trim (w @ p) = rev (dropWhile js_white (rev p @ rev w))"
    by (simp add: trim_def)
  show ?thesis
  proof (cases "\<forall>x \<in> set (rev p). js_white x")
    case True
    then have "dropWhile js_white (rev p @ rev w) = rev w"
      using assms(1,3) by (simp add: dropWhile_rev_solid)
    then show ?thesis
      using t by auto
  next
    case False
    then have "dropWhile js_white (rev p @ rev w) = dropWhile js_white (rev p) @ rev w"
      by (auto intro: dropWhile_append1)
    then show ?thesis
      using t by (auto dest: set_dropWhileD)
  qed
qed

lemma strip_suffix_append:
  assumes "w \<noteq> []" and "\<not> cls (last w)" and "\<forall>c \<in> set q. cls c"
  shows "strip_suffix cls (w @ q) = w"
  using assms by (simp add: strip_suffix_def dropWhile_rev_solid)

text \<open>White space that \<open>trim\<close> leaves inside is in the class only as the blank; lower case keeps the
  class of a padding of digits and symbols.\<close>

lemma lower_char_suffix: "suffix_class c \<Longrightarrow> lower_char c = c"
  unfolding suffix_class_def template_suffix_class_def lower_char_def Let_def by auto

lemma lower_char_white: "js_white c \<Longrightarrow> lower_char c = c"
  unfolding js_white_def lower_char_def Let_def by auto

lemma common_words_solid:
  "w \<in> set COMMON_PASSWORDS \<Longrightarrow> w \<noteq> [] \<and> (\<forall>c \<in> set w. \<not> js_white c)"
proof -
  have "list_all (\<lambda>w. w \<noteq> [] \<and> list_all (\<lambda>c. \<not> js_white c) w) COMMON_PASSWORDS"
    by code_simp
  then show "w \<in> set COMMON_PASSWORDS \<Longrightarrow> w \<noteq> [] \<and> (\<forall>c \<in> set w. \<not> js_white c)"
    by (auto simp: list_all_iff)
qed

lemma common_password_padded:
  assumes "w \<in> set COMMON_PASSWORDS" and "\<not> suffix_class (last w)" and "lower v = w"
    and "\<forall>c \<in> set p. suffix_class c"
  shows "isCommon (v @ p)"
proof -
  have w: "w \<noteq> []" "\<forall>c \<in> set w. \<not> js_white c"
    using common_words_solid [OF assms(1)] by simp_all
  have v: "v \<noteq> []"
    using assms(3) w(1) by auto
  have solid: "c \<in> set v \<Longrightarrow> \<not> js_white c" for c
    using assms(3) w(2) lower_char_white [of c] by (force simp: lower_def)
  obtain q where q: "trim (v @ p) = v @ q" "set q \<subseteq> set p"
    using trim_append_solid [OF v, of p] solid v by auto
  have low: "lower q = q"
    using q(2) assms(4) by (auto simp: lower_def intro!: map_idI lower_char_suffix)
  have "strip_suffix suffix_class (lower (trim (v @ p))) = w"
    unfolding q(1) lower_append low assms(3)
    by (rule strip_suffix_append) (use w assms(2,4) q(2) in auto)
  then show ?thesis
    using assms(1) w(1) by (simp add: isCommon_def common_password_def Let_def)
qed

section \<open>Properties\<close>

text \<open>
  Padding a blocked word does not help. A blocked word that ends in a letter, in any mix of
  case, followed by any run of digits and symbols, is refused whatever the length it reaches.
\<close>

theorem padded_common_word_rejected:
  assumes "w \<in> set COMMON_PASSWORDS" and "\<not> suffix_class (last w)" and "lower v = w"
    and "\<forall>c \<in> set p. suffix_class c"
  shows "validatePassword (v @ p) \<noteq> None"
  using common_password_padded [OF assms]
  by (simp add: validatePassword_def isCommon_def password_problem_None)

lemma padded_common_word_rejected_witness:
  "validatePassword (''PassWord'' @ ''2026!?2026'') \<noteq> None"
  by (rule padded_common_word_rejected [of "''password''"]) code_simp+

text \<open>
  Padding does help when the blocked word itself ends in a digit. The padding is stripped
  together with the digit, so what is looked up is no longer the blocked word: three listed words
  pass once they are padded with exclamation marks.
\<close>

theorem padded_digit_word_accepted:
  "list_all (\<lambda>w. w \<in> set COMMON_PASSWORDS \<and> validatePassword (w @ replicate 6 (CHR ''!'')) = None)
     [''abc123'', ''111111''] \<and> validatePassword (''trustno1'' @ ''!!!!'') = None"
  by code_simp

text \<open>
  The template's policy is not in step with the platform's. A blocked word padded with
  backslashes passes in the template and is refused by the platform.
\<close>

theorem template_policy_differs:
  "template_validatePassword (''dragon'' @ replicate 8 (CHR 0x5C)) = None
   \<and> validatePassword (''dragon'' @ replicate 8 (CHR 0x5C)) \<noteq> None"
  by code_simp

end
