(* ===== verification/Lifecycle.thy ===== *)
theory Lifecycle
  imports Store
begin

text \<open>
  The life of a row that is deleted in two steps. Accounts, apps and tenants share one contract: a
  first delete only dates the row (\<open>deletedAt\<close>), restoring clears the date again, and the erasure
  (\<open>purge\<close>) is refused until the first step has been taken, "so a single mistaken click can never
  destroy data". The locale states the contract over any such table; the theories of the three
  components interpret it on their handlers.
\<close>

text \<open>A result whose value is mapped, its error kept.\<close>

definition res_map :: "('a \<Rightarrow> 'b) \<Rightarrow> 'a res \<Rightarrow> 'b res" where
  "res_map f r = (case r of Inl e \<Rightarrow> Inl e | Inr x \<Rightarrow> Inr (f x))"

lemma res_map_simps [simp]: "res_map f (Inl e) = Inl e" "res_map f (Inr x) = Inr (f x)"
  by (simp_all add: res_map_def)

lemma res_map_Inl_iff [simp]: "res_map f r = Inl e \<longleftrightarrow> r = Inl e"
  by (cases r) auto

lemma res_map_Inr_iff: "res_map f r = Inr y \<longleftrightarrow> (\<exists>x. r = Inr x \<and> y = f x)"
  by (cases r) auto

text \<open>
  \<open>row\<close> looks a row up by its id, \<open>mark\<close> reads its date and \<open>set_mark\<close> writes it. The three
  operations take the id and the time.
\<close>

locale soft_delete =
  fixes row :: "string \<Rightarrow> db \<Rightarrow> 'r option"
    and mark :: "'r \<Rightarrow> time option"
    and set_mark :: "time option \<Rightarrow> 'r \<Rightarrow> 'r"
    and remove :: "string \<Rightarrow> time \<Rightarrow> db \<Rightarrow> 'x res \<times> db"
    and restore :: "string \<Rightarrow> time \<Rightarrow> db \<Rightarrow> 'x res \<times> db"
    and purge :: "string \<Rightarrow> time \<Rightarrow> db \<Rightarrow> 'y res \<times> db"
  assumes mark_set: "mark (set_mark m r) = m"
    and set_set: "set_mark m (set_mark m' r) = set_mark m r"
    and set_same: "set_mark (mark r) r = r"
    and remove_ok: "remove i now s = (Inr x, s') \<Longrightarrow>
          \<exists>r. row i s = Some r \<and> row i s' = Some (set_mark (Some now) r)"
    and restore_deleted: "row i s = Some r \<Longrightarrow> mark r \<noteq> None \<Longrightarrow>
          \<exists>x s'. restore i now s = (Inr x, s') \<and> row i s' = Some (set_mark None r)"
    and purge_deleted: "row i s = Some r \<Longrightarrow> mark r \<noteq> None \<Longrightarrow>
          \<exists>y s'. purge i now s = (Inr y, s') \<and> row i s' = None"
    and purge_live: "row i s = Some r \<Longrightarrow> mark r = None \<Longrightarrow> \<exists>e. purge i now s = (Inl e, s)"
    and purge_missing: "row i s = None \<Longrightarrow> \<exists>e. purge i now s = (Inl e, s)"
begin

text \<open>Restoring undoes a delete.\<close>

lemma remove_restore:
  assumes "remove i now s = (Inr x, s1)" and "row i s = Some r" and "mark r = None"
  shows "\<exists>x s2. restore i later s1 = (Inr x, s2) \<and> row i s2 = row i s"
proof -
  have "row i s1 = Some (set_mark (Some now) r)"
    using remove_ok [OF assms(1)] assms(2) by auto
  from restore_deleted [OF this] show ?thesis
    using assms(2,3) set_same [of r] by (auto simp: mark_set set_set)
qed

text \<open>Erasure succeeds exactly on a row that has been deleted before, and then the row is gone.\<close>

lemma purge_iff:
  "(\<exists>y s'. purge i now s = (Inr y, s')) \<longleftrightarrow> (\<exists>r. row i s = Some r \<and> mark r \<noteq> None)"
proof (cases "row i s")
  case None
  then show ?thesis
    using purge_missing [of i s now] by auto
next
  case (Some r)
  then show ?thesis
    using purge_live [OF Some, of now] purge_deleted [OF Some, of now] by (cases "mark r") auto
qed

lemma purge_cases:
  assumes "purge i now s = (r, s')"
  shows "case r of
      Inl _ \<Rightarrow> s' = s
    | Inr _ \<Rightarrow> (\<exists>r. row i s = Some r \<and> mark r \<noteq> None) \<and> row i s' = None"
proof (cases "row i s")
  case None
  then show ?thesis
    using purge_missing [of i s now] assms by auto
next
  case (Some r')
  then show ?thesis
    using purge_live [OF Some, of now] purge_deleted [OF Some, of now] assms
    by (cases "mark r'") auto
qed

lemma remove_then_purge:
  assumes "remove i now s = (Inr x, s1)"
  shows "\<exists>y s2. purge i later s1 = (Inr y, s2) \<and> row i s2 = None"
proof -
  obtain r where "row i s1 = Some (set_mark (Some now) r)"
    using remove_ok [OF assms] by auto
  from purge_deleted [OF this] show ?thesis
    by (simp add: mark_set)
qed

end

end
