(* ===== verification/Users.thy ===== *)
theory Users
  imports Auth Policy Lifecycle
begin

text \<open>
  Accounts as the console manages them: \<open>platform/src/users/users.service.ts\<close>, the first-boot
  administrator (\<open>platform/src/core/bootstrap-admin.service.ts\<close>) and the retention sweep
  (\<open>platform/src/core/retention.service.ts\<close>).

  The locale \<open>keeps_admin\<close> is the promise that a component never takes the last platform
  administrator away; the operations of this theory are interpreted in it, the members' and the
  recovery flows' in theirs.
\<close>

section \<open>What the API shows of an account\<close>

record user_view =
  uv_id :: string
  uv_tenantId :: "string option"
  uv_email :: string
  uv_name :: "string option"
  uv_firstName :: "string option"
  uv_lastName :: "string option"
  uv_phone :: "string option"
  uv_isPlatformAdmin :: bool
  uv_isTenantAdmin :: bool
  uv_emailVerifiedAt :: "time option"
  uv_createdAt :: time
  uv_deletedAt :: "time option"
  uv_roles :: "(string \<times> string \<times> string) list"

definition PUBLIC_FIELDS :: "db \<Rightarrow> user \<Rightarrow> user_view" where
  "PUBLIC_FIELDS s u = \<lparr>uv_id = u_id u, uv_tenantId = u_tenantId u, uv_email = u_email u,
     uv_name = u_name u, uv_firstName = u_firstName u, uv_lastName = u_lastName u,
     uv_phone = u_phone u, uv_isPlatformAdmin = u_isPlatformAdmin u,
     uv_isTenantAdmin = u_isTenantAdmin u, uv_emailVerifiedAt = u_emailVerifiedAt u,
     uv_createdAt = u_createdAt u, uv_deletedAt = u_deletedAt u,
     uv_roles = map (\<lambda>r. (r_id r, r_name r, r_appId r)) (roles_of s (u_id u))\<rparr>"

text \<open>\<open>tenantId\<close> absent lists every account, \<open>null\<close> the platform's own, a value that tenant's.\<close>

definition user_list :: "string option option \<Rightarrow> bool \<Rightarrow> db \<Rightarrow> user_view list" where
  "user_list tenantId includeDeleted s =
     map (PUBLIC_FIELDS s) (sort_key u_createdAt
       (filter (\<lambda>u. (case tenantId of None \<Rightarrow> True | Some t \<Rightarrow> u_tenantId u = t)
          \<and> (includeDeleted \<or> u_deletedAt u = None)) (users s)))"

definition user_get :: "string \<Rightarrow> db \<Rightarrow> user res" where
  "user_get i s = (case user_by_id s i of None \<Rightarrow> Inl (NotFound ''User not found'') | Some u \<Rightarrow> Inr u)"

section \<open>Names\<close>

definition fullName :: "string option \<Rightarrow> string option \<Rightarrow> string option" where
  "fullName fname lname =
     non_empty (trim (join '' '' (filter (\<lambda>x. x \<noteq> []) (List.map_filter id [fname, lname]))))"

section \<open>Create and update\<close>

record create_user_dto =
  cu_tenantId :: "string option"
  cu_email :: string
  cu_password :: string
  cu_firstName :: "string option"
  cu_lastName :: "string option"
  cu_name :: "string option"
  cu_phone :: "string option"
  cu_isPlatformAdmin :: "bool option"
  cu_isTenantAdmin :: "bool option"

definition user_create ::
  "env \<Rightarrow> create_user_dto \<Rightarrow> string \<Rightarrow> time \<Rightarrow> db \<Rightarrow> user_view res \<times> db" where
  "user_create env dto newId now s =
     (let email = lower (cu_email dto) in
      if user_by_email s (cu_tenantId dto) email \<noteq> None
      then (Inl (Conflict ''A user with that email already exists''), s)
      else let name = (if truthy (cu_firstName dto) \<or> truthy (cu_lastName dto)
                 then fullName (cu_firstName dto) (cu_lastName dto) else cu_name dto);
               u = \<lparr>u_id = newId, u_tenantId = cu_tenantId dto, u_email = email,
                    u_passwordHash = bcrypt_hash env (cu_password dto), u_name = name,
                    u_firstName = cu_firstName dto, u_lastName = cu_lastName dto,
                    u_phone = cu_phone dto,
                    u_isPlatformAdmin = nullish (cu_isPlatformAdmin dto) False,
                    u_isTenantAdmin = nullish (cu_isTenantAdmin dto) False,
                    u_emailVerifiedAt = Some now, u_createdAt = now, u_deletedAt = None\<rparr>
           in case insert_user u s of
                (Inl e, s1) \<Rightarrow> (Inl e, s1)
              | (Inr _, s1) \<Rightarrow>
                  (Inr (PUBLIC_FIELDS s1 u), record_event ''user.created''
                     (no_meta\<lparr>am_tenantId := cu_tenantId dto, am_userId := Some newId\<rparr>) now s1))"

record update_user_dto =
  uu_email :: "string option"
  uu_password :: "string option"
  uu_firstName :: "string option"
  uu_lastName :: "string option"
  uu_name :: "string option"
  uu_phone :: "string option"
  uu_isPlatformAdmin :: "bool option"
  uu_isTenantAdmin :: "bool option"

text \<open>A live platform administrator.\<close>

definition live_admin :: "user \<Rightarrow> bool" where
  "live_admin u \<longleftrightarrow> u_isPlatformAdmin u \<and> u_deletedAt u = None"

definition assertNotLastPlatformAdmin :: "user \<Rightarrow> db \<Rightarrow> unit res" where
  "assertNotLastPlatformAdmin u s =
     (if \<not> u_isPlatformAdmin u \<or> u_deletedAt u \<noteq> None then Inr ()
      else if count_where (\<lambda>v. live_admin v \<and> u_id v \<noteq> u_id u) (users s) = 0
      then Inl (Conflict ''This is the last platform admin'')
      else Inr ())"

text \<open>\<open>user.update\<close> of one row.\<close>

definition set_user :: "string \<Rightarrow> (user \<Rightarrow> user) \<Rightarrow> db \<Rightarrow> db" where
  "set_user i f s = s\<lparr>users := upd_where (\<lambda>u. u_id u = i) f (users s)\<rparr>"

text \<open>A field that a DTO carries replaces the column, one it does not leaves it.\<close>

definition set_field :: "'a option \<Rightarrow> 'a option \<Rightarrow> 'a option" where
  "set_field new old = or_else new old"

definition updated_name :: "update_user_dto \<Rightarrow> user \<Rightarrow> string option option" where
  "updated_name dto existing =
     (if uu_firstName dto \<noteq> None \<or> uu_lastName dto \<noteq> None
      then Some (fullName (or_else (uu_firstName dto) (u_firstName existing))
             (or_else (uu_lastName dto) (u_lastName existing)))
      else map_option Some (uu_name dto))"

definition user_changes ::
  "env \<Rightarrow> update_user_dto \<Rightarrow> user \<Rightarrow> user \<Rightarrow> user" where
  "user_changes env dto existing u =
     u\<lparr>u_firstName := set_field (uu_firstName dto) (u_firstName u),
       u_lastName := set_field (uu_lastName dto) (u_lastName u),
       u_phone := set_field (uu_phone dto) (u_phone u),
       u_name := nullish (updated_name dto existing) (u_name u),
       u_email := set_if (map_option lower (uu_email dto)) (u_email u),
       u_isPlatformAdmin := set_if (uu_isPlatformAdmin dto) (u_isPlatformAdmin u),
       u_isTenantAdmin := set_if (uu_isTenantAdmin dto) (u_isTenantAdmin u),
       u_passwordHash := (if truthy (uu_password dto)
         then bcrypt_hash env (the (uu_password dto)) else u_passwordHash u)\<rparr>"

definition revoke_and_note :: "string \<Rightarrow> string option \<Rightarrow> string \<Rightarrow> time \<Rightarrow> db \<Rightarrow> db" where
  "revoke_and_note i tenantId reason now s =
     (let count = count_where (live_token_of i) (refresh_tokens s); s1 = revoke_sessions i now s
      in if 0 < count
         then record_event ''auth.sessions_revoked''
                (no_meta\<lparr>am_tenantId := tenantId, am_userId := Some i,
                   am_detail := Some (JObj [(''count'', JNum (int count)),
                     (''reason'', JStr reason)])\<rparr>) now s1
         else s1)"

definition email_changed :: "update_user_dto \<Rightarrow> user \<Rightarrow> bool" where
  "email_changed dto existing =
     (case uu_email dto of None \<Rightarrow> False | Some e \<Rightarrow> lower e \<noteq> u_email existing)"

definition user_update ::
  "env \<Rightarrow> string \<Rightarrow> update_user_dto \<Rightarrow> time \<Rightarrow> db \<Rightarrow> user_view res \<times> db" where
  "user_update env i dto now s =
     (case user_get i s of
        Inl e \<Rightarrow> (Inl e, s)
      | Inr existing \<Rightarrow>
          if email_changed dto existing
             \<and> find (\<lambda>u. u_tenantId u = u_tenantId existing \<and> Some (u_email u) = map_option lower (uu_email dto)
                  \<and> u_id u \<noteq> i) (users s) \<noteq> None
          then (Inl (Conflict ''A user with that email already exists''), s)
          else case (if uu_isPlatformAdmin dto = Some False
                     then assertNotLastPlatformAdmin existing s else Inr ()) of
            Inl e \<Rightarrow> (Inl e, s)
          | Inr _ \<Rightarrow>
            (let s1 = set_user i (user_changes env dto existing) s;
                 s2 = (if truthy (uu_password dto) \<or> uu_isPlatformAdmin dto = Some False
                   then revoke_and_note i (u_tenantId existing)
                          (if truthy (uu_password dto) then ''password_changed'' else ''admin_demoted'')
                          now s1
                   else s1);
                 s3 = (if email_changed dto existing
                   then record_event ''user.email_changed''
                          (no_meta\<lparr>am_tenantId := u_tenantId existing, am_userId := Some i,
                             am_detail := Some (JObj [(''from'', JStr (u_email existing)),
                               (''to'', json_opt JStr (map_option lower (uu_email dto)))])\<rparr>) now s2
                   else s2)
             in (Inr (PUBLIC_FIELDS s1 (user_changes env dto existing existing)), s3)))"

section \<open>Delete, restore, purge and roles\<close>

definition user_remove :: "string \<Rightarrow> time \<Rightarrow> db \<Rightarrow> user_view res \<times> db" where
  "user_remove i now s =
     (case user_get i s of
        Inl e \<Rightarrow> (Inl e, s)
      | Inr existing \<Rightarrow>
        (case assertNotLastPlatformAdmin existing s of
           Inl e \<Rightarrow> (Inl e, s)
         | Inr _ \<Rightarrow>
           (let s1 = set_user i (\<lambda>u. u\<lparr>u_deletedAt := Some now\<rparr>) s
            in (Inr (PUBLIC_FIELDS s1 (existing\<lparr>u_deletedAt := Some now\<rparr>)),
                record_event ''user.deleted'' (no_meta\<lparr>am_userId := Some i\<rparr>) now s1))))"

definition user_restore :: "string \<Rightarrow> db \<Rightarrow> user_view res \<times> db" where
  "user_restore i s =
     (case user_get i s of
        Inl e \<Rightarrow> (Inl e, s)
      | Inr existing \<Rightarrow>
        (let s1 = set_user i (\<lambda>u. u\<lparr>u_deletedAt := None\<rparr>) s
         in (Inr (PUBLIC_FIELDS s1 (existing\<lparr>u_deletedAt := None\<rparr>)), s1)))"

definition user_purge :: "string \<Rightarrow> time \<Rightarrow> db \<Rightarrow> unit res \<times> db" where
  "user_purge i now s =
     (case user_by_id s i of
        None \<Rightarrow> (Inl (NotFound ''User not found''), s)
      | Some u \<Rightarrow>
          if u_deletedAt u = None
          then (Inl (Conflict ''Purge requires the user to be soft-deleted first''), s)
          else let s1 = s\<lparr>audit_events := upd_where (\<lambda>e. ae_userId e = Some i)
                     (\<lambda>e. e\<lparr>ae_userId := None\<rparr>) (audit_events s)\<rparr>;
                   s2 = delete_users (\<lambda>v. u_id v = i) s1
               in (Inr (), record_event ''user.purged'' (no_meta\<lparr>am_tenantId := u_tenantId u\<rparr>) now s2))"

definition user_setRoles :: "string \<Rightarrow> string list \<Rightarrow> db \<Rightarrow> user_view res \<times> db" where
  "user_setRoles i roleIds s =
     (case user_get i s of
        Inl e \<Rightarrow> (Inl e, s)
      | Inr u \<Rightarrow>
          if \<not> distinct roleIds then (Inl (PrismaError ''P2002''), s)
          else if list_ex (\<lambda>r. role_by_id s r = None) roleIds then (Inl (PrismaError ''P2003''), s)
          else let s1 = s\<lparr>user_roles := del_where (\<lambda>ur. ur_userId ur = i) (user_roles s)
                     @ map (\<lambda>r. \<lparr>ur_userId = i, ur_roleId = r\<rparr>) roleIds\<rparr>
               in (Inr (PUBLIC_FIELDS s1 u), s1))"

section \<open>The first administrator\<close>

definition bootstrap_run ::
  "env \<Rightarrow> config \<Rightarrow> string \<Rightarrow> time \<Rightarrow> db \<Rightarrow> (bool \<times> string) res \<times> db" where
  "bootstrap_run env cfg newId now s =
     (let email = bootstrapAdminEmail cfg; password = bootstrapAdminPassword cfg in
      if \<not> truthy email \<or> \<not> truthy password then (Inr (False, ''not configured''), s)
      else if 0 < count_where live_admin (users s) then (Inr (False, ''admin exists''), s)
      else if validatePassword (the password) \<noteq> None then (Inr (False, ''weak password''), s)
      else (case insert_user
              \<lparr>u_id = newId, u_tenantId = None, u_email = lower (the email),
               u_passwordHash = bcrypt_hash env (the password), u_name = None, u_firstName = None,
               u_lastName = None, u_phone = None, u_isPlatformAdmin = True,
               u_isTenantAdmin = False, u_emailVerifiedAt = Some now, u_createdAt = now,
               u_deletedAt = None\<rparr> s of
              (Inl e, s1) \<Rightarrow> (Inl e, s1)
            | (Inr _, s1) \<Rightarrow>
                (Inr (True, ''created''), record_event ''admin.bootstrapped''
                   (no_meta\<lparr>am_userId := Some newId,
                      am_detail := Some (JObj [(''email'', JStr (the email))])\<rparr>) now s1)))"

section \<open>Retention\<close>

text \<open>The counts of deleted audit events and refresh tokens.\<close>

definition retention_sweep :: "config \<Rightarrow> time \<Rightarrow> db \<Rightarrow> (nat \<times> nat) \<times> db" where
  "retention_sweep cfg now s =
     (let oldEvent = (\<lambda>e. 0 < retentionAuditDays cfg
             \<and> ae_createdAt e < now - retentionAuditDays cfg * day_ms);
          cutoff = now - retentionTokenDays cfg * day_ms;
          oldToken = (\<lambda>t. 0 < retentionTokenDays cfg
             \<and> (past (rt_revokedAt t) cutoff \<or> rt_expiresAt t < cutoff))
      in ((count_where oldEvent (audit_events s), count_where oldToken (refresh_tokens s)),
          s\<lparr>audit_events := del_where oldEvent (audit_events s),
            refresh_tokens := del_where oldToken (refresh_tokens s)\<rparr>))"

section \<open>Keeping an administrator\<close>

definition has_admin :: "db \<Rightarrow> bool" where
  "has_admin s \<longleftrightarrow> unique_on u_id (users s) \<and> (\<exists>u \<in> set (users s). live_admin u)"

lemma has_admin_cong: "users s' = users s \<Longrightarrow> has_admin s' = has_admin s"
  by (simp add: has_admin_def)

lemma has_admin_set_user:
  assumes "has_admin s" and "\<And>u. u_id (f u) = u_id u"
    and "(\<forall>u \<in> set (users s). u_id u = i \<longrightarrow> live_admin u \<longrightarrow> live_admin (f u))
      \<or> (\<exists>v \<in> set (users s). live_admin v \<and> u_id v \<noteq> i)"
  shows "has_admin (set_user i f s)"
proof -
  obtain u where u: "u \<in> set (users s)" "live_admin u"
    using assms(1) by (auto simp: has_admin_def)
  have "\<exists>w \<in> set (users s). live_admin (if u_id w = i then f w else w)"
    using assms(3) u by (auto split: if_splits)
  then show ?thesis
    using assms(1,2) by (simp add: has_admin_def set_user_def unique_on_upd_where bex_upd_where)
qed

lemma has_admin_insert:
  "insert_user u s = (r, s') \<Longrightarrow> has_admin s \<Longrightarrow> has_admin s'"
  by (auto simp: insert_user_def has_admin_def unique_on_append_one split: if_splits)

lemma assertNotLastPlatformAdmin_ok:
  assumes "assertNotLastPlatformAdmin u s = Inr x" and "live_admin u"
  shows "\<exists>v \<in> set (users s). live_admin v \<and> u_id v \<noteq> u_id u"
  using assms by (auto simp: assertNotLastPlatformAdmin_def live_admin_def count_where_0 split: if_splits)

lemma user_get_ok: "user_get i s = Inr u \<longleftrightarrow> user_by_id s i = Some u"
  by (auto simp: user_get_def split: option.splits)

lemma user_by_id_unique:
  "unique_on u_id (users s) \<Longrightarrow> user_by_id s i = Some u \<Longrightarrow> v \<in> set (users s) \<Longrightarrow> u_id v = i \<Longrightarrow> v = u"
  by (auto dest!: user_by_idD intro: unique_on_eqD)

lemma revoke_and_note_fields [simp]:
  "users (revoke_and_note i t reason now s) = users s"
  by (simp add: revoke_and_note_def Let_def)

lemma user_create_admin:
  "user_create env dto newId now s = (r, s') \<Longrightarrow> has_admin s \<Longrightarrow> has_admin s'"
  by (auto simp: user_create_def Let_def split: if_splits prod.splits sum.splits
      dest!: has_admin_insert intro: has_admin_cong [THEN iffD2, rotated])

lemma user_update_cases:
  assumes "user_update env i dto now s = (r, s')"
  obtains e where "r = Inl e" "s' = s"
  | existing where "user_by_id s i = Some existing"
    "users s' = users (set_user i (user_changes env dto existing) s)"
    "uu_isPlatformAdmin dto = Some False \<Longrightarrow> assertNotLastPlatformAdmin existing s = Inr ()"
  using assms
  by (auto simp: user_update_def Let_def user_get_ok split: if_splits sum.splits)

lemma user_update_admin:
  assumes "user_update env i dto now s = (r, s')" and "has_admin s"
  shows "has_admin s'"
  using assms(1)
proof (cases rule: user_update_cases)
  case (2 existing)
  have ex: "existing \<in> set (users s)" "u_id existing = i"
    using 2(1) by (auto dest: user_by_idD)
  have "has_admin (set_user i (user_changes env dto existing) s)"
  proof (rule has_admin_set_user [OF assms(2)])
    show "u_id (user_changes env dto existing u) = u_id u" for u
      by (simp add: user_changes_def)
    show "(\<forall>u \<in> set (users s). u_id u = i \<longrightarrow> live_admin u \<longrightarrow>
          live_admin (user_changes env dto existing u))
      \<or> (\<exists>v \<in> set (users s). live_admin v \<and> u_id v \<noteq> i)"
    proof (cases "uu_isPlatformAdmin dto = Some False \<and> live_admin existing")
      case True
      then have "assertNotLastPlatformAdmin existing s = Inr ()"
        by (intro 2(3)) simp
      from assertNotLastPlatformAdmin_ok [OF this] True
      obtain v where "v \<in> set (users s)" "live_admin v" "u_id v \<noteq> u_id existing"
        by auto
      then show ?thesis
        using ex(2) by (intro disjI2 bexI [of _ v]) simp_all
    next
      case False
      have only: "u \<in> set (users s) \<Longrightarrow> u_id u = i \<Longrightarrow> u = existing" for u
        using assms(2) 2(1) user_by_id_unique unfolding has_admin_def by blast
      then show ?thesis
        using False
        by (cases "uu_isPlatformAdmin dto") (auto simp: user_changes_def live_admin_def)
    qed
  qed
  then show ?thesis
    using 2(2) has_admin_cong by blast
qed (use assms(2) in simp)

lemma user_remove_admin:
  assumes "user_remove i now s = (r, s')" and "has_admin s"
  shows "has_admin s'"
proof (cases "user_by_id s i")
  case (Some u)
  have u: "u \<in> set (users s)" "u_id u = i"
    using Some by (auto dest: user_by_idD)
  show ?thesis
  proof (cases "assertNotLastPlatformAdmin u s")
    case (Inr x)
    have only: "v \<in> set (users s) \<Longrightarrow> u_id v = i \<Longrightarrow> v = u" for v
      using assms(2) Some user_by_id_unique unfolding has_admin_def by blast
    have "(\<forall>v \<in> set (users s). u_id v = i \<longrightarrow> live_admin v \<longrightarrow> live_admin (v\<lparr>u_deletedAt := Some now\<rparr>))
      \<or> (\<exists>v \<in> set (users s). live_admin v \<and> u_id v \<noteq> i)"
      using assertNotLastPlatformAdmin_ok [OF Inr] only u(2) by (cases "live_admin u") blast+
    then have "has_admin (set_user i (\<lambda>u. u\<lparr>u_deletedAt := Some now\<rparr>) s)"
      by (intro has_admin_set_user [OF assms(2)]) simp_all
    then show ?thesis
      using assms(1) Some Inr has_admin_cong [of s' "set_user i (\<lambda>u. u\<lparr>u_deletedAt := Some now\<rparr>) s"]
      by (auto simp: user_remove_def user_get_def Let_def)
  qed (use assms Some in \<open>auto simp: user_remove_def user_get_def\<close>)
qed (use assms in \<open>auto simp: user_remove_def user_get_def\<close>)

lemma user_restore_admin:
  "user_restore i s = (r, s') \<Longrightarrow> has_admin s \<Longrightarrow> has_admin s'"
  by (auto simp: user_restore_def user_get_def Let_def live_admin_def split: option.splits
      intro!: has_admin_set_user)

lemma user_purge_admin:
  assumes "user_purge i now s = (r, s')" and "has_admin s"
  shows "has_admin s'"
proof (cases "user_by_id s i")
  case (Some u)
  show ?thesis
  proof (cases "u_deletedAt u = None")
    case False
    obtain w where w: "w \<in> set (users s)" "live_admin w"
      using assms(2) by (auto simp: has_admin_def)
    have "u_id w \<noteq> i"
      using user_by_id_unique [of s i u w] assms(2) Some w False
      by (auto simp: has_admin_def live_admin_def)
    moreover have "users s' = del_where (\<lambda>v. u_id v = i) (users s)"
      using assms(1) Some False by (auto simp: user_purge_def Let_def)
    ultimately show ?thesis
      using assms(2) w by (auto simp: has_admin_def unique_on_del_where)
  qed (use assms Some in \<open>auto simp: user_purge_def\<close>)
qed (use assms in \<open>auto simp: user_purge_def\<close>)

lemma user_setRoles_admin:
  "user_setRoles i ids s = (r, s') \<Longrightarrow> has_admin s \<Longrightarrow> has_admin s'"
  by (auto simp: user_setRoles_def Let_def has_admin_def split: sum.splits if_splits)

lemma bootstrap_run_admin:
  "bootstrap_run env cfg newId now s = (r, s') \<Longrightarrow> has_admin s \<Longrightarrow> has_admin s'"
  by (auto simp: bootstrap_run_def Let_def has_admin_def count_where_pos split: if_splits)

section \<open>The interface of what may change accounts\<close>

text \<open>
  A component that starts with an administrator who can sign in leaves one. The lemma about runs is
  proved once and holds for every component that is interpreted in the locale.
\<close>

locale keeps_admin =
  fixes step :: "'i \<Rightarrow> db \<Rightarrow> 'r \<times> db"
  assumes keeps: "has_admin s \<Longrightarrow> step i s = (r, s') \<Longrightarrow> has_admin s'"
begin

lemma keeps_snd: "has_admin s \<Longrightarrow> has_admin (snd (step i s))"
  by (rule keeps [of s i "fst (step i s)"]) simp_all

lemma run_keeps: "has_admin s \<Longrightarrow> has_admin (fold (\<lambda>i s. snd (step i s)) is s)"
  by (induction "is" arbitrary: s) (auto intro: keeps_snd)

end

text \<open>The requests the console makes on accounts, each at its time.\<close>

datatype user_op =
    UCreate create_user_dto string
  | UUpdate string update_user_dto
  | URemove string
  | URestore string
  | UPurge string
  | USetRoles string "string list"

definition user_step :: "env \<Rightarrow> user_op \<times> time \<Rightarrow> db \<Rightarrow> unit res \<times> db" where
  "user_step env op_now s =
     (case op_now of (op, now) \<Rightarrow>
        (case op of
           UCreate dto i \<Rightarrow> apfst (res_map (\<lambda>_. ())) (user_create env dto i now s)
         | UUpdate i dto \<Rightarrow> apfst (res_map (\<lambda>_. ())) (user_update env i dto now s)
         | URemove i \<Rightarrow> apfst (res_map (\<lambda>_. ())) (user_remove i now s)
         | URestore i \<Rightarrow> apfst (res_map (\<lambda>_. ())) (user_restore i s)
         | UPurge i \<Rightarrow> user_purge i now s
         | USetRoles i ids \<Rightarrow> apfst (res_map (\<lambda>_. ())) (user_setRoles i ids s)))"

lemma user_step_admin:
  assumes "has_admin s" and "user_step env i s = (r, s')"
  shows "has_admin s'"
proof (cases i)
  case (Pair op now)
  show ?thesis
  proof (cases op)
    case (UCreate dto j)
    then show ?thesis
      using assms Pair
      by (cases "user_create env dto j now s") (auto simp: user_step_def intro: user_create_admin)
  next
    case (UUpdate j dto)
    then show ?thesis
      using assms Pair
      by (cases "user_update env j dto now s") (auto simp: user_step_def intro: user_update_admin)
  next
    case (URemove j)
    then show ?thesis
      using assms Pair
      by (cases "user_remove j now s") (auto simp: user_step_def intro: user_remove_admin)
  next
    case (URestore j)
    then show ?thesis
      using assms Pair
      by (cases "user_restore j s") (auto simp: user_step_def intro: user_restore_admin)
  next
    case (UPurge j)
    then show ?thesis
      using assms Pair by (auto simp: user_step_def intro: user_purge_admin)
  next
    case (USetRoles j ids)
    then show ?thesis
      using assms Pair
      by (cases "user_setRoles j ids s") (auto simp: user_step_def intro: user_setRoles_admin)
  qed
qed

interpretation console_users: keeps_admin "user_step env" for env
  by unfold_locales (rule user_step_admin)

interpretation bootstrap: keeps_admin "\<lambda>(newId, now). bootstrap_run env cfg newId now" for env cfg
  by unfold_locales (auto split: prod.splits intro: bootstrap_run_admin)

section \<open>Sessions of a changed account\<close>

lemma live_tokens_revoked [simp]: "live_tokens uid (revoke_sessions uid now s) = {}"
  using revoke_sessions_none_live [of uid now s] by (auto simp: live_tokens_def)

lemma live_tokens_revoke_and_note [simp]: "live_tokens i (revoke_and_note i t reason now s) = {}"
  by (simp add: revoke_and_note_def Let_def)

lemma user_update_revokes:
  assumes "user_update env i dto now s = (Inr v, s')"
    and "truthy (uu_password dto) \<or> uu_isPlatformAdmin dto = Some False"
  shows "live_tokens i s' = {}"
  using assms by (auto simp: user_update_def Let_def split: sum.splits if_splits)

section \<open>The life of an account\<close>

text \<open>An id in the table and its row, after an update of that row.\<close>

lemma user_by_id_set_user:
  "user_by_id s i = Some u \<Longrightarrow> (\<And>v. u_id (f v) = u_id v) \<Longrightarrow>
   user_by_id (set_user i f s) i = Some (f u)"
  by (auto simp: user_by_id_def set_user_def find_upd_where dest: find_SomeD)

lemma user_by_id_cong: "users s' = users s \<Longrightarrow> user_by_id s' = user_by_id s"
  by (simp add: user_by_id_def fun_eq_iff)

interpretation accounts: soft_delete "\<lambda>i s. user_by_id s i" u_deletedAt
    "\<lambda>m u. u\<lparr>u_deletedAt := m\<rparr>" user_remove "\<lambda>i now. user_restore i" user_purge
proof unfold_locales
  show "\<exists>r. user_by_id s i = Some r \<and> user_by_id s' i = Some (r\<lparr>u_deletedAt := Some now\<rparr>)"
    if "user_remove i now s = (Inr x, s')" for i now s x s'
    using that
    by (auto simp: user_remove_def user_get_def Let_def user_by_id_set_user split: option.splits sum.splits)
  show "\<exists>x s'. user_restore i s = (Inr x, s') \<and> user_by_id s' i = Some (r\<lparr>u_deletedAt := None\<rparr>)"
    if "user_by_id s i = Some r" for i s r
    using that by (simp add: user_restore_def user_get_def Let_def user_by_id_set_user)
  show "\<exists>y s'. user_purge i now s = (Inr y, s') \<and> user_by_id s' i = None"
    if "user_by_id s i = Some r" "u_deletedAt r \<noteq> None" for i now s r
    using that by (auto simp: user_purge_def Let_def) (simp add: user_by_id_def find_del_where)
qed (auto simp: user_purge_def Let_def)

section \<open>Properties\<close>

definition sample_admin :: user where
  "sample_admin = sample_user\<lparr>u_id := ''root'', u_tenantId := None, u_email := ''root@x'',
     u_isPlatformAdmin := True\<rparr>"

definition sample_admin_db :: db where
  "sample_admin_db = sample_db\<lparr>users := [sample_user, sample_admin]\<rparr>"

definition no_change :: update_user_dto where
  "no_change = \<lparr>uu_email = None, uu_password = None, uu_firstName = None, uu_lastName = None,
     uu_name = None, uu_phone = None, uu_isPlatformAdmin = None, uu_isTenantAdmin = None\<rparr>"

text \<open>
  C28: The console cannot be locked out through the accounts it manages. From any database with a
  live platform administrator, no sequence of creating, editing, deleting, restoring, purging and
  re-roling accounts reaches one without.
\<close>

theorem console_keeps_platform_admin:
  assumes "has_admin s"
  shows "has_admin (fold (\<lambda>op s. snd (user_step env op s)) ops s)"
  by (rule console_users.run_keeps [OF assms])

lemma console_keeps_platform_admin_witness:
  "has_admin (fold (\<lambda>op s. snd (user_step sample_env op s))
     [(URemove ''root'', 5), (UUpdate ''root'' (no_change\<lparr>uu_isPlatformAdmin := Some False\<rparr>), 6)]
     sample_admin_db)"
  by (rule console_keeps_platform_admin) code_simp

text \<open>
  A new password and a demotion end every session. After an update that sets a password or takes
  the platform administrator's flag away, no refresh token of the account is live.
\<close>

theorem password_change_ends_sessions:
  assumes "user_update env i dto now s = (Inr v, s')"
    and "truthy (uu_password dto) \<or> uu_isPlatformAdmin dto = Some False"
  shows "live_tokens i s' = {}"
  by (rule user_update_revokes [OF assms])

lemma password_change_ends_sessions_witness:
  "live_tokens ''u1'' sample_db \<noteq> {} \<and> live_tokens ''u1''
     (snd (user_update sample_env ''u1'' (no_change\<lparr>uu_password := Some ''new''\<rparr>) 5 sample_db)) = {}"
proof -
  let ?r = "user_update sample_env ''u1'' (no_change\<lparr>uu_password := Some ''new''\<rparr>) 5 sample_db"
  have "is_ok (fst ?r)" "sample_token \<in> live_tokens ''u1'' sample_db"
    by code_simp+
  then obtain v s' where r: "?r = (Inr v, s')"
    by (blast elim: is_ok_fstE)
  moreover have "truthy (uu_password (no_change\<lparr>uu_password := Some ''new''\<rparr>))"
    by code_simp
  ultimately show ?thesis
    using password_change_ends_sessions [OF r] \<open>sample_token \<in> live_tokens ''u1'' sample_db\<close> by auto
qed

text \<open>
  Bootstrapping is inert once there is an administrator and never weak. A run that creates an
  account found no live administrator, took a password that meets the policy, and made exactly one
  platform-level administrator; any other run leaves the database as it was.
\<close>

theorem bootstrap_only_first_admin:
  assumes "bootstrap_run env cfg newId now s = (r, s')"
  shows "s' = s \<or> ((\<forall>u \<in> set (users s). \<not> live_admin u)
     \<and> validatePassword (the (bootstrapAdminPassword cfg)) = None
     \<and> (\<exists>u. users s' = users s @ [u] \<and> live_admin u \<and> u_tenantId u = None))"
  using assms
  by (auto simp: bootstrap_run_def Let_def count_where_pos live_admin_def split: if_splits
      sum.splits prod.splits dest: insert_user_Inl insert_user_Inr)

lemma bootstrap_only_first_admin_witness:
  "\<exists>u. users (snd (bootstrap_run sample_env (sample_cfg\<lparr>bootstrapAdminEmail := Some ''Root@x'',
        bootstrapAdminPassword := Some ''correct horse battery''\<rparr>) ''root'' 5 sample_db))
      = users sample_db @ [u] \<and> live_admin u"
proof -
  let ?r = "bootstrap_run sample_env (sample_cfg\<lparr>bootstrapAdminEmail := Some ''Root@x'',
        bootstrapAdminPassword := Some ''correct horse battery''\<rparr>) ''root'' 5 sample_db"
  have "length (users (snd ?r)) = 2" "length (users sample_db) = 1"
    by code_simp+
  then have "snd ?r \<noteq> sample_db"
    by auto
  then show ?thesis
    using bootstrap_only_first_admin [of sample_env _ _ _ sample_db, OF prod.collapse [symmetric]]
    by blast
qed

text \<open>
  The retention sweep never ends a session. Every refresh token that refresh would still accept
  at the time of the sweep, unrevoked and unexpired, is kept, and so is every account.
\<close>

theorem retention_keeps_live_tokens:
  "users (snd (retention_sweep cfg now s)) = users s
   \<and> filter (\<lambda>t. rt_revokedAt t = None \<and> now \<le> rt_expiresAt t)
       (refresh_tokens (snd (retention_sweep cfg now s)))
     = filter (\<lambda>t. rt_revokedAt t = None \<and> now \<le> rt_expiresAt t) (refresh_tokens s)"
proof -
  have "0 < retentionTokenDays cfg \<Longrightarrow> 0 < retentionTokenDays cfg * day_ms"
    by (simp add: day_ms_def)
  then show ?thesis
    by (simp add: retention_sweep_def Let_def, intro filter_del_where_other) auto
qed

end
