(* ===== verification/Limits.thy ===== *)
theory Limits
  imports Prelude "HOL-Library.AList"
begin

text \<open>
  The in-memory rate limiters. \<open>rateLimit\<close> is the template's sliding window
  (\<open>templates/next/src/lib/rateLimit.ts\<close>), \<open>allowSend\<close> and \<open>sendAllowed\<close> the platform's
  fixed-window mail limiter (\<open>platform/src/auth/account-flows.service.ts\<close>).

  The locale \<open>window_limiter\<close> states what a sliding-window limiter does with the timestamps it keeps
  and proves, once, that no interval of the window's length sees more than the cap admitted. It is
  interpreted here on \<open>rateLimit\<close> and, in the e-mail component, on the two quotas of an app.
  A module-level \<open>Map\<close> is the explicit state of its functions; \<open>Date.now()\<close> is an argument.
\<close>

section \<open>The interface of a sliding-window limiter\<close>

text \<open>The times at which a sequence of requests was admitted, of those that share the budget \<open>mine\<close>,
  and how many of a list of times lie in the interval of length \<open>w\<close> that ends at \<open>T\<close>.\<close>

fun admitted :: "('r \<Rightarrow> 's \<Rightarrow> bool \<times> 's) \<Rightarrow> ('r \<Rightarrow> int) \<Rightarrow> ('r \<Rightarrow> bool) \<Rightarrow> 'r list \<Rightarrow> 's \<Rightarrow> int list" where
  "admitted step at mine [] s = []"
| "admitted step at mine (r # rs) s =
     (case step r s of (b, s') \<Rightarrow>
        (if b \<and> mine r then [at r] else []) @ admitted step at mine rs s')"

definition in_window :: "int \<Rightarrow> int \<Rightarrow> int list \<Rightarrow> nat" where
  "in_window w T ts = length (filter (\<lambda>t. T - w < t \<and> t \<le> T) ts)"

text \<open>
  \<open>step r s\<close> decides on the request \<open>r\<close> made at \<open>at r\<close>. \<open>mine\<close> picks the requests that share one
  budget, \<open>inv\<close> is what the state always satisfies, \<open>hits s\<close> are the admitted timestamps the state remembers for it. The laws speak of the
  hits still inside the window at the time of the request, since older ones may be forgotten.
\<close>

locale window_limiter =
  fixes step :: "'r \<Rightarrow> 's \<Rightarrow> bool \<times> 's"
    and at :: "'r \<Rightarrow> int"
    and mine :: "'r \<Rightarrow> bool"
    and hits :: "'s \<Rightarrow> int list"
    and inv :: "'s \<Rightarrow> bool"
    and window :: int
    and cap :: nat
  assumes window_pos: "0 < window"
    and inv_step: "inv s \<Longrightarrow> step r s = (b, s') \<Longrightarrow> inv s'"
    and admit: "inv s \<Longrightarrow> mine r \<Longrightarrow> step r s = (True, s') \<Longrightarrow>
      length (filter (\<lambda>t. at r - window < t) (hits s)) < cap
      \<and> filter (\<lambda>t. at r - window < t) (hits s')
          = filter (\<lambda>t. at r - window < t) (hits s) @ [at r]"
    and refuse: "inv s \<Longrightarrow> mine r \<Longrightarrow> step r s = (False, s') \<Longrightarrow>
      filter (\<lambda>t. at r - window < t) (hits s') = filter (\<lambda>t. at r - window < t) (hits s)"
    and others: "inv s \<Longrightarrow> \<not> mine r \<Longrightarrow> step r s = (b, s') \<Longrightarrow>
      filter (\<lambda>t. at r - window < t) (hits s') = filter (\<lambda>t. at r - window < t) (hits s)"
begin

lemma filter_later:
  "a \<le> b \<Longrightarrow> filter (\<lambda>t. a - window < t) xs = filter (\<lambda>t. a - window < t) ys \<Longrightarrow>
   filter (\<lambda>t. b - window < t) xs = filter (\<lambda>t. b - window < t) ys"
proof -
  assume ab: "a \<le> b" and eq: "filter (\<lambda>t. a - window < t) xs = filter (\<lambda>t. a - window < t) ys"
  have "filter (\<lambda>t. b - window < t) zs
      = filter (\<lambda>t. b - window < t) (filter (\<lambda>t. a - window < t) zs)" for zs
    using ab by (auto intro: filter_cong)
  from this [of xs] this [of ys] eq show ?thesis
    by (simp only:)
qed

text \<open>One more admission keeps every interval within the cap.\<close>

lemma in_window_snoc:
  assumes bound: "\<And>T. in_window window T hist \<le> cap"
    and room: "length (filter (\<lambda>t. a - window < t) hist) < cap"
  shows "in_window window T (hist @ [a]) \<le> cap"
proof (cases "T - window < a \<and> a \<le> T")
  case True
  have "in_window window T hist
      = length (filter (\<lambda>t. T - window < t \<and> t \<le> T) (filter (\<lambda>t. a - window < t) hist))"
    unfolding in_window_def filter_filter
    by (rule arg_cong [where f = length], rule filter_cong) (use True in auto)
  also have "\<dots> \<le> length (filter (\<lambda>t. a - window < t) hist)"
    by (rule length_filter_le)
  finally have "in_window window T hist \<le> length (filter (\<lambda>t. a - window < t) hist)" .
  with room True show ?thesis
    by (simp add: in_window_def)
next
  case False
  with bound [of T] show ?thesis
    by (auto simp: in_window_def)
qed

lemma in_window_run:
  assumes "inv s" and "sorted (map at rs)" and "\<forall>r \<in> set rs. now \<le> at r"
    and "filter (\<lambda>t. now - window < t) (hits s) = filter (\<lambda>t. now - window < t) hist"
    and "\<And>T. in_window window T hist \<le> cap"
  shows "in_window window T (hist @ admitted step at mine rs s) \<le> cap"
  using assms
proof (induction rs arbitrary: s hist now T)
  case (Cons r rs)
  obtain b s' where st: "step r s = (b, s')"
    by (cases "step r s")
  define a where "a = at r"
  have le: "now \<le> a" "\<forall>r' \<in> set rs. a \<le> at r'" "sorted (map at rs)"
    using Cons.prems by (auto simp: a_def)
  have inv': "inv s'"
    using inv_step Cons.prems(1) st by blast
  have rec: "filter (\<lambda>t. a - window < t) (hits s) = filter (\<lambda>t. a - window < t) hist"
    using filter_later [OF le(1) Cons.prems(4)] .
  show ?case
  proof (cases "b \<and> mine r")
    case True
    have room: "length (filter (\<lambda>t. a - window < t) hist) < cap"
      and new: "filter (\<lambda>t. a - window < t) (hits s') = filter (\<lambda>t. a - window < t) (hist @ [a])"
      using admit [of s r s'] Cons.prems(1) True st rec window_pos by (simp_all add: a_def)
    have "in_window window T ((hist @ [a]) @ admitted step at mine rs s') \<le> cap"
      by (rule Cons.IH [OF inv' le(3,2) new]) (rule in_window_snoc [OF Cons.prems(5) room])
    with True st show ?thesis
      by (simp add: a_def)
  next
    case False
    then have "filter (\<lambda>t. a - window < t) (hits s') = filter (\<lambda>t. a - window < t) hist"
      using refuse [of s r s'] others [of s r b s'] Cons.prems(1) st rec by (cases "mine r") (auto simp: a_def)
    from Cons.IH [OF inv' le(3,2) this Cons.prems(5)] show ?thesis
      using False st by auto
  qed
qed simp

text \<open>The limiter's promise: from an empty log, with requests in the order of their times, no
  interval of the window's length has more than \<open>cap\<close> admitted requests.\<close>

theorem window_bound:
  assumes "inv s" and "sorted (map at rs)" and "hits s = []"
  shows "in_window window T (admitted step at mine rs s) \<le> cap"
proof (cases rs)
  case Nil
  then show ?thesis
    by (simp add: in_window_def)
next
  case (Cons r rs')
  have "in_window window T ([] @ admitted step at mine rs s) \<le> cap"
    by (rule in_window_run [of s rs "at r"]) (use assms Cons in \<open>auto simp: in_window_def\<close>)
  then show ?thesis
    by simp
qed

end

section \<open>The template's sliding window\<close>

text \<open>The \<open>Map\<close> is an association list: \<open>AList.update\<close> replaces a key in place and appends a new
  one, as \<open>Map.set\<close> does.\<close>

type_synonym hit_log = "(string \<times> time list) list"

definition hits_of :: "string \<Rightarrow> hit_log \<Rightarrow> time list" where
  "hits_of key buckets = (case map_of buckets key of None \<Rightarrow> [] | Some v \<Rightarrow> v)"

definition rateLimit ::
  "string \<Rightarrow> nat \<Rightarrow> int \<Rightarrow> time \<Rightarrow> hit_log \<Rightarrow> bool \<times> hit_log" where
  "rateLimit key mx windowMs now buckets =
     (let cutoff = now - windowMs;
          hits = filter (\<lambda>t. cutoff < t) (hits_of key buckets)
      in if mx \<le> length hits
         then (False, AList.update key hits buckets)
         else let buckets1 = AList.update key (hits @ [now]) buckets;
                  buckets2 = (if 10000 < length buckets1
                    then filter (\<lambda>(k, v). \<not> list_all (\<lambda>t. t \<le> cutoff) v) buckets1
                    else buckets1)
              in (True, buckets2))"

lemma hits_of_update [simp]:
  "hits_of k (AList.update key v buckets) = (if k = key then v else hits_of k buckets)"
  by (simp add: hits_of_def update_conv)

lemma filter_hits_of_purge:
  assumes "distinct (map fst buckets)"
  shows "filter (\<lambda>t. cutoff < t)
           (hits_of k (filter (\<lambda>(k, v). \<not> list_all (\<lambda>t. t \<le> cutoff) v) buckets))
         = filter (\<lambda>t. cutoff < t) (hits_of k buckets)"
  using assms
proof (induction buckets)
  case (Cons b bs)
  obtain k' v where b: "b = (k', v)"
    by (cases b)
  show ?case
  proof (cases "list_all (\<lambda>t. t \<le> cutoff) v")
    case True
    have "k' = k \<Longrightarrow> map_of (filter (\<lambda>(k, v). \<not> list_all (\<lambda>t. t \<le> cutoff) v) bs) k = None"
      using Cons.prems b by (auto simp: map_of_eq_None_iff)
    moreover have "filter (\<lambda>t. cutoff < t) v = []"
      using True by (auto simp: filter_empty_conv list_all_iff)
    ultimately show ?thesis
      using Cons b True by (auto simp: hits_of_def)
  qed (use Cons b in \<open>auto simp: hits_of_def\<close>)
qed simp

text \<open>The keys of the map stay distinct.\<close>

lemma rateLimit_distinct:
  "distinct (map fst buckets) \<Longrightarrow> distinct (map fst (snd (rateLimit key mx w now buckets)))"
  by (auto simp: rateLimit_def Let_def distinct_map_filter distinct_update)

text \<open>All callers use one window of 15 minutes; a request is its time and its key.\<close>

definition LIMIT_WINDOW :: int where
  "LIMIT_WINDOW = 15 * 60000"

definition limit_step :: "nat \<Rightarrow> time \<times> string \<Rightarrow> hit_log \<Rightarrow> bool \<times> hit_log" where
  "limit_step mx r buckets = rateLimit (snd r) mx LIMIT_WINDOW (fst r) buckets"

lemma limit_step_recent:
  assumes "distinct (map fst s)" and "limit_step mx r s = (b, s')"
  shows "filter (\<lambda>t. fst r - LIMIT_WINDOW < t) (hits_of k s')
    = filter (\<lambda>t. fst r - LIMIT_WINDOW < t) (hits_of k s) @ (if b \<and> snd r = k then [fst r] else [])"
  using assms
  by (auto simp: limit_step_def rateLimit_def Let_def LIMIT_WINDOW_def filter_hits_of_purge
      distinct_update split: if_splits)

lemma limit_step_admits:
  "limit_step mx r s = (b, s') \<Longrightarrow>
   b \<longleftrightarrow> length (filter (\<lambda>t. fst r - LIMIT_WINDOW < t) (hits_of (snd r) s)) < mx"
  by (auto simp: limit_step_def rateLimit_def Let_def split: if_splits)

interpretation rl: window_limiter "limit_step mx" fst "\<lambda>r. snd r = k" "hits_of k"
  "\<lambda>s. distinct (map fst s)" LIMIT_WINDOW mx for mx k
proof unfold_locales
  show "0 < LIMIT_WINDOW"
    by (simp add: LIMIT_WINDOW_def)
qed (auto simp: limit_step_recent dest: limit_step_admits,
     metis limit_step_def rateLimit_distinct snd_conv)

section \<open>The platform's fixed-window limiter\<close>

text \<open>A bucket is its count and the time it resets at.\<close>

type_synonym send_buckets = "string \<rightharpoonup> nat \<times> time"

definition SEND_WINDOW :: int where "SEND_WINDOW = 15 * 60000"

definition allowSend :: "string \<Rightarrow> nat \<Rightarrow> time \<Rightarrow> send_buckets \<Rightarrow> bool \<times> send_buckets" where
  "allowSend key mx now buckets =
     (case buckets key of
        None \<Rightarrow> (True, buckets(key \<mapsto> (1, now + SEND_WINDOW)))
      | Some (count, resetAt) \<Rightarrow>
          if resetAt < now then (True, buckets(key \<mapsto> (1, now + SEND_WINDOW)))
          else (count + 1 \<le> mx, buckets(key \<mapsto> (count + 1, resetAt))))"

definition PER_ADDRESS :: nat where "PER_ADDRESS = 20"
definition PER_CLIENT :: nat where "PER_CLIENT = 5"

text \<open>\<open>a && b\<close> evaluates \<open>b\<close>, and so charges the client's bucket, only when \<open>a\<close> held. The bucket
  of the address is charged by then.\<close>

definition sendAllowed ::
  "string \<Rightarrow> string \<Rightarrow> string option \<Rightarrow> time \<Rightarrow> send_buckets \<Rightarrow> bool \<times> send_buckets" where
  "sendAllowed kind email ip now buckets =
     (let client = (if truthy ip then the ip else ''unknown'')
      in case allowSend (kind @ '':'' @ email) PER_ADDRESS now buckets of
           (False, buckets1) \<Rightarrow> (False, buckets1)
         | (True, buckets1) \<Rightarrow>
             allowSend (kind @ '':'' @ client @ '':'' @ email) PER_CLIENT now buckets1)"

text \<open>The answers to a sequence of requests for one mailbox, each with its client and time.\<close>

fun send_run :: "string \<Rightarrow> string \<Rightarrow> (string option \<times> time) list \<Rightarrow> send_buckets \<Rightarrow> bool list \<times> send_buckets" where
  "send_run kind email [] s = ([], s)"
| "send_run kind email ((ip, now) # rs) s =
     (case sendAllowed kind email ip now s of (b, s1) \<Rightarrow>
        (case send_run kind email rs s1 of (bs, s2) \<Rightarrow> (b # bs, s2)))"

text \<open>A sequence of calls for one key, and how many of them were allowed.\<close>

fun allow_run :: "string \<Rightarrow> nat \<Rightarrow> time list \<Rightarrow> send_buckets \<Rightarrow> nat" where
  "allow_run key mx [] s = 0"
| "allow_run key mx (now # ts) s = (case allowSend key mx now s of (b, s') \<Rightarrow>
     (if b then 1 else 0) + allow_run key mx ts s')"

text \<open>While its bucket is open, a key gets what is left of its maximum.\<close>

lemma allow_run_open:
  "s key = Some (n, e) \<Longrightarrow> \<forall>t \<in> set ts. t \<le> e \<Longrightarrow> allow_run key mx ts s \<le> mx - n"
proof (induction ts arbitrary: s n)
  case (Cons t ts)
  have "allowSend key mx t s = (n + 1 \<le> mx, s(key \<mapsto> (n + 1, e)))"
    using Cons.prems by (simp add: allowSend_def)
  moreover have "allow_run key mx ts (s(key \<mapsto> (n + 1, e))) \<le> mx - (n + 1)"
    using Cons.prems by (intro Cons.IH) auto
  ultimately show ?case
    by auto
qed simp

text \<open>In an interval of one window's length the bucket resets at most once, so a key gets at most
  twice its maximum: the price of a fixed window over a sliding one.\<close>

lemma allow_run_reset:
  assumes "s key = None \<or> (\<exists>n e. s key = Some (n, e) \<and> e < t)"
    and "0 < mx" and "\<forall>t' \<in> set ts. t' \<le> t + SEND_WINDOW"
  shows "allow_run key mx (t # ts) s \<le> mx"
proof -
  have "allowSend key mx t s = (True, s(key \<mapsto> (1, t + SEND_WINDOW)))"
    using assms(1) by (auto simp: allowSend_def)
  moreover have "allow_run key mx ts (s(key \<mapsto> (1, t + SEND_WINDOW))) \<le> mx - 1"
    by (rule allow_run_open) (use assms in auto)
  ultimately show ?thesis
    using assms(2) by simp
qed

lemma allow_run_window:
  assumes "sorted ts" and "\<forall>t \<in> set ts. T \<le> t \<and> t \<le> T + SEND_WINDOW" and "0 < mx"
  shows "s key = Some (n, e) \<Longrightarrow> allow_run key mx ts s \<le> (mx - n) + mx"
    and "s key = None \<Longrightarrow> allow_run key mx ts s \<le> mx"
proof -
  have late: "sorted (t # us) \<Longrightarrow> \<forall>t' \<in> set (t # us). T \<le> t' \<and> t' \<le> T + SEND_WINDOW \<Longrightarrow>
      s key = None \<or> (\<exists>n e. s key = Some (n, e) \<and> e < t) \<Longrightarrow>
      allow_run key mx (t # us) s \<le> mx" for t us s
    by (rule allow_run_reset) (use assms(3) in auto)
  show "s key = None \<Longrightarrow> allow_run key mx ts s \<le> mx"
    using assms(1,2) late by (cases ts) auto
  show "s key = Some (n, e) \<Longrightarrow> allow_run key mx ts s \<le> (mx - n) + mx"
    using assms(1,2)
  proof (induction ts arbitrary: s n)
    case (Cons t us)
    show ?case
    proof (cases "e < t")
      case True
      then show ?thesis
        using late [of t us s] Cons.prems by fastforce
    next
      case False
      then have "allowSend key mx t s = (n + 1 \<le> mx, s(key \<mapsto> (n + 1, e)))"
        using Cons.prems by (simp add: allowSend_def)
      moreover have "allow_run key mx us (s(key \<mapsto> (n + 1, e))) \<le> (mx - (n + 1)) + mx"
        using Cons.prems by (intro Cons.IH) auto
      ultimately show ?thesis
        by auto
    qed
  qed simp
qed

section \<open>Properties\<close>

text \<open>
  The template's limiter never admits more than its maximum for a key in any 15-minute
  interval, whatever requests for other keys come in between and however often the table is purged.
\<close>

theorem rateLimit_window_bound:
  assumes "sorted (map fst reqs)"
  shows "in_window LIMIT_WINDOW T (admitted (limit_step mx) fst (\<lambda>r. snd r = k) reqs []) \<le> mx"
  by (rule rl.window_bound) (use assms in \<open>simp_all add: hits_of_def\<close>)

lemma rateLimit_window_bound_witness:
  "in_window LIMIT_WINDOW 30 (admitted (limit_step 2) fst (\<lambda>r. snd r = ''a'')
     [(10, ''a''), (15, ''b''), (20, ''a''), (30, ''a'')] []) \<le> 2
   \<and> admitted (limit_step 2) fst (\<lambda>r. snd r = ''a'')
     [(10, ''a''), (15, ''b''), (20, ''a''), (30, ''a'')] [] = [10, 20]"
  using rateLimit_window_bound
    [of "[(10, ''a''), (15, ''b''), (20, ''a''), (30, ''a'')]" 30 2 "''a''"]
  by (simp add: limit_step_def rateLimit_def hits_of_def LIMIT_WINDOW_def)

text \<open>
  One client can use up an address's whole budget. Its requests past its own share send nothing
  but are still charged to the address: of 20 requests 5 are sent, and the owner of the mailbox,
  asking from elsewhere in the same window, is refused. The comment above \<open>sendAllowed\<close> says the
  per-client bucket prevents this.
\<close>

theorem one_client_exhausts_address:
  "(case send_run ''reset'' ''o@x'' (replicate 20 (Some ''1'', 0)) Map.empty of
      (bs, s) \<Rightarrow> bs = replicate 5 True @ replicate 15 False
        \<and> fst (sendAllowed ''reset'' ''o@x'' (Some ''2'') 1 s) = False)"
  by (simp add: sendAllowed_def allowSend_def SEND_WINDOW_def PER_ADDRESS_def PER_CLIENT_def
      numeral_eq_Suc)

end
