(* ===== verification/Email.thy ===== *)
theory Email
  imports Auth Limits Email_Template
begin

text \<open>
  Sending mail, \<open>platform/src/email/email.service.ts\<close>: which relay a message uses, the gate and the
  quota of an app that sends one, and the relay settings. nodemailer's transport is \<open>relay_send\<close> of
  the environment. The quota's two module-level maps are the state \<open>quota_state\<close>; messages the
  platform sends itself do not touch it.
\<close>

section \<open>Relays\<close>

definition decrypted :: "env \<Rightarrow> string option \<Rightarrow> string option res" where
  "decrypted env enc =
     (if truthy enc then (case decrypt_secret env (the enc) of
        None \<Rightarrow> Inl (UncaughtError ''decrypt'') | Some pw \<Rightarrow> Inr (Some pw))
      else Inr None)"

definition resolved_of :: "env \<Rightarrow> smtp_config \<Rightarrow> resolved_smtp res" where
  "resolved_of env c =
     (case decrypted env (sm_passwordEnc c) of
        Inl e \<Rightarrow> Inl e
      | Inr pw \<Rightarrow> Inr \<lparr>rs_host = sm_host c, rs_port = sm_port c, rs_secure = sm_secure c,
          rs_username = sm_username c, rs_password = pw, rs_fromAddress = sm_fromAddress c\<rparr>)"

definition smtp_of :: "string option \<Rightarrow> db \<Rightarrow> smtp_config option" where
  "smtp_of tenantId s = find (\<lambda>c. sm_tenantId c = tenantId) (smtp_configs s)"

definition resolveConfig :: "env \<Rightarrow> config \<Rightarrow> string option \<Rightarrow> db \<Rightarrow> resolved_smtp res" where
  "resolveConfig env cfg tenantId s =
     (case (if truthy tenantId then smtp_of tenantId s else None) of
        Some own \<Rightarrow> resolved_of env own
      | None \<Rightarrow>
        (case smtp_of None s of
           Some fallback \<Rightarrow> resolved_of env fallback
         | None \<Rightarrow>
           (case smtpFallback cfg of
              Some r \<Rightarrow> Inr r
            | None \<Rightarrow> Inl (ServiceUnavailable ''No SMTP configuration available''))))"

section \<open>Sending\<close>

record send_dto =
  sd_fromName :: "string option"
  sd_tenantId :: "string option"
  sd_to :: string
  sd_subject :: string
  sd_content :: mail_content

text \<open>The part of \<open>send\<close> after the caller's checks.\<close>

definition deliver ::
  "env \<Rightarrow> config \<Rightarrow> send_dto \<Rightarrow> string option \<Rightarrow> time \<Rightarrow> db \<Rightarrow> string res \<times> db" where
  "deliver env cfg dto callingClient now s =
     (case resolveConfig env cfg (sd_tenantId dto) s of
        Inl e \<Rightarrow> (Inl e, s)
      | Inr smtp \<Rightarrow>
          (let m = \<lparr>m_host = rs_host smtp, m_from = rs_fromAddress smtp,
                 m_fromName = (if truthy (sd_fromName dto) then sd_fromName dto else None),
                 m_to = sd_to dto, m_subject = sd_subject dto, m_content = sd_content dto\<rparr>
           in case relay_send env smtp m of
                Inl e \<Rightarrow> (Inl e, s)
              | Inr messageId \<Rightarrow>
                  (Inr messageId, record_event ''email.sent''
                     (no_meta\<lparr>am_tenantId := sd_tenantId dto, am_appClientId := callingClient,
                        am_detail := Some (JObj [(''to'', JStr (sd_to dto)),
                          (''subject'', JStr (sd_subject dto))])\<rparr>) now
                     (s\<lparr>outbox := outbox s @ [m]\<rparr>))))"

record quota_state =
  sendWindows :: "string \<Rightarrow> time list"
  breachNoted :: "string \<Rightarrow> time option"

definition no_sends :: quota_state where
  "no_sends = \<lparr>sendWindows = (\<lambda>_. []), breachNoted = (\<lambda>_. None)\<rparr>"

definition assertQuota ::
  "config \<Rightarrow> app \<Rightarrow> time \<Rightarrow> quota_state \<times> db \<Rightarrow> unit res \<times> (quota_state \<times> db)" where
  "assertQuota cfg app now qs =
     (case qs of (q, s) \<Rightarrow>
        (let sends = filter (\<lambda>t. now - day_ms < t) (sendWindows q (a_id app));
             lastMinute = length (filter (\<lambda>t. now - minute_ms < t) sends)
         in if emailAppPerMin cfg \<le> lastMinute \<or> emailAppPerDay cfg \<le> length sends
            then let noted = nullish (breachNoted q (a_id app)) 0;
                     qs1 = (if minute_ms < now - noted
                       then (q\<lparr>breachNoted := (breachNoted q)(a_id app := Some now)\<rparr>,
                             record_event ''email.quota_exceeded''
                               (no_meta\<lparr>am_appClientId := Some (a_clientId app),
                                  am_detail := Some (JObj
                                    [(''lastMinute'', JNum (int lastMinute)),
                                     (''lastDay'', JNum (int (length sends))),
                                     (''perMin'', JNum (int (emailAppPerMin cfg))),
                                     (''perDay'', JNum (int (emailAppPerDay cfg)))])\<rparr>) now s)
                       else (q, s))
                 in (Inl (TooManyRequests ''Email quota exceeded for this app''), qs1)
            else (Inr (), (q\<lparr>sendWindows := (sendWindows q)(a_id app := sends @ [now])\<rparr>, s))))"

definition send ::
  "env \<Rightarrow> config \<Rightarrow> send_dto \<Rightarrow> app option \<Rightarrow> time \<Rightarrow> quota_state \<times> db \<Rightarrow>
   string res \<times> (quota_state \<times> db)" where
  "send env cfg dto callingApp now qs =
     (case callingApp of
        None \<Rightarrow> (case deliver env cfg dto None now (snd qs) of (r, s1) \<Rightarrow> (r, (fst qs, s1)))
      | Some app \<Rightarrow>
          if truthy (sd_tenantId dto)
             \<and> access_of (snd qs) (the (sd_tenantId dto)) (a_id app) = None
          then (Inl (Forbidden ''App is not enabled for this workspace''), qs)
          else (case assertQuota cfg app now qs of
                  (Inl e, qs1) \<Rightarrow> (Inl e, qs1)
                | (Inr _, qs1) \<Rightarrow>
                    (case deliver env cfg dto (Some (a_clientId app)) now (snd qs1) of
                       (r, s1) \<Rightarrow> (r, (fst qs1, s1)))))"

section \<open>Relay settings\<close>

text \<open>\<open>mask\<close>: the settings without the password, and whether there is one.\<close>

definition mask :: "smtp_config \<Rightarrow> smtp_config \<times> bool" where
  "mask c = (c\<lparr>sm_passwordEnc := None\<rparr>, truthy (sm_passwordEnc c))"

record upsert_smtp_dto =
  us_tenantId :: "string option"
  us_host :: string
  us_port :: int
  us_secure :: bool
  us_username :: "string option"
  us_password :: "string option"
  us_fromAddress :: string

definition upsertConfig ::
  "env \<Rightarrow> upsert_smtp_dto \<Rightarrow> string \<Rightarrow> db \<Rightarrow> (smtp_config \<times> bool) res \<times> db" where
  "upsertConfig env dto newId s =
     (let row = (\<lambda>i. \<lparr>sm_id = i, sm_tenantId = us_tenantId dto, sm_host = us_host dto,
             sm_port = us_port dto, sm_secure = us_secure dto, sm_username = us_username dto,
             sm_passwordEnc = (if truthy (us_password dto)
               then Some (encrypt_secret env (the (us_password dto))) else None),
             sm_fromAddress = us_fromAddress dto\<rparr>)
      in case smtp_of (us_tenantId dto) s of
           Some existing \<Rightarrow>
             (Inr (mask (row (sm_id existing))),
              s\<lparr>smtp_configs := upd_where (\<lambda>c. sm_id c = sm_id existing)
                  (\<lambda>c. row (sm_id existing)) (smtp_configs s)\<rparr>)
         | None \<Rightarrow>
             if (case us_tenantId dto of None \<Rightarrow> False | Some t \<Rightarrow> tenant_by_id s t = None)
             then (Inl (PrismaError ''P2003''), s)
             else (Inr (mask (row newId)), s\<lparr>smtp_configs := smtp_configs s @ [row newId]\<rparr>))"

definition getConfig :: "string option \<Rightarrow> db \<Rightarrow> (smtp_config \<times> bool) option" where
  "getConfig tenantId s = map_option mask (smtp_of tenantId s)"

section \<open>Lemmas\<close>

lemma deliver_Inl: "deliver env cfg dto c now s = (Inl e, s') \<Longrightarrow> s' = s"
  by (auto simp: deliver_def Let_def split: sum.splits)

lemma deliver_fields [simp]:
  "users (snd (deliver env cfg dto c now s)) = users s"
  "tenants (snd (deliver env cfg dto c now s)) = tenants s"
  "apps (snd (deliver env cfg dto c now s)) = apps s"
  "app_tenants (snd (deliver env cfg dto c now s)) = app_tenants s"
  "prices (snd (deliver env cfg dto c now s)) = prices s"
  "roles (snd (deliver env cfg dto c now s)) = roles s"
  "user_roles (snd (deliver env cfg dto c now s)) = user_roles s"
  "refresh_tokens (snd (deliver env cfg dto c now s)) = refresh_tokens s"
  "invites (snd (deliver env cfg dto c now s)) = invites s"
  "passkeys (snd (deliver env cfg dto c now s)) = passkeys s"
  "smtp_configs (snd (deliver env cfg dto c now s)) = smtp_configs s"
  "email_templates (snd (deliver env cfg dto c now s)) = email_templates s"
  by (simp_all add: deliver_def Let_def split: sum.split)

text \<open>Messages leave only through the relay the resolution order picks.\<close>

lemma deliver_Inr:
  assumes "deliver env cfg dto c now s = (Inr i, s')"
  shows "\<exists>smtp m. resolveConfig env cfg (sd_tenantId dto) s = Inr smtp
    \<and> outbox s' = outbox s @ [m] \<and> m_from m = rs_fromAddress smtp \<and> m_host m = rs_host smtp
    \<and> m_to m = sd_to dto"
  using assms by (auto simp: deliver_def Let_def split: sum.splits)

definition quota_step ::
  "config \<Rightarrow> app \<times> time \<Rightarrow> quota_state \<times> db \<Rightarrow> bool \<times> (quota_state \<times> db)" where
  "quota_step cfg r qs = apfst is_ok (assertQuota cfg (fst r) (snd r) qs)"

lemma assertQuota_windows:
  assumes "assertQuota cfg app now (q, s) = (r, (q', s'))"
  shows "sendWindows q' = (if is_ok r then (sendWindows q)(a_id app :=
      filter (\<lambda>t. now - day_ms < t) (sendWindows q (a_id app)) @ [now]) else sendWindows q)"
  using assms by (auto simp: assertQuota_def Let_def split: if_splits)

lemma filter_minute_day:
  "filter (\<lambda>t. now - minute_ms < t) (filter (\<lambda>t. now - day_ms < t) xs)
   = filter (\<lambda>t. now - minute_ms < t) xs"
  by (auto simp: minute_ms_def day_ms_def intro!: filter_cong)

lemma assertQuota_room:
  assumes "assertQuota cfg app now (q, s) = (Inr x, qs)"
  shows "length (filter (\<lambda>t. now - minute_ms < t) (sendWindows q (a_id app))) < emailAppPerMin cfg
    \<and> length (filter (\<lambda>t. now - day_ms < t) (sendWindows q (a_id app))) < emailAppPerDay cfg"
  using assms
  by (auto simp: assertQuota_def Let_def filter_minute_day not_le simp del: filter_filter
      split: if_splits)

lemma quota_step_cases:
  assumes "quota_step cfg r qs = (b, qs')"
  obtains q s q' s' res where "qs = (q, s)" "qs' = (q', s')" "b = is_ok res"
    "assertQuota cfg (fst r) (snd r) (q, s) = (res, (q', s'))"
  using assms
  by (cases qs; cases "assertQuota cfg (fst r) (snd r) qs") (auto simp: quota_step_def)

lemma quota_step_admit:
  assumes "quota_step cfg r qs = (True, qs')" and "a_id (fst r) = aid"
  shows "length (filter (\<lambda>t. snd r - minute_ms < t) (sendWindows (fst qs) aid)) < emailAppPerMin cfg
    \<and> length (filter (\<lambda>t. snd r - day_ms < t) (sendWindows (fst qs) aid)) < emailAppPerDay cfg
    \<and> sendWindows (fst qs') aid
        = filter (\<lambda>t. snd r - day_ms < t) (sendWindows (fst qs) aid) @ [snd r]"
  using assms(1)
proof (cases rule: quota_step_cases)
  case (1 q s q' s' res)
  then obtain x where "res = Inr x"
    by (cases res) auto
  with 1 show ?thesis
    using assertQuota_room [of cfg "fst r" "snd r" q s x "(q', s')"]
      assertQuota_windows [of cfg "fst r" "snd r" q s res q' s'] assms(2)
    by simp
qed

lemma quota_step_keep:
  assumes "quota_step cfg r qs = (b, qs')" and "\<not> b \<or> a_id (fst r) \<noteq> aid"
  shows "sendWindows (fst qs') aid = sendWindows (fst qs) aid"
  using assms(1)
proof (cases rule: quota_step_cases)
  case (1 q s q' s' res)
  then show ?thesis
    using assertQuota_windows [of cfg "fst r" "snd r" q s res q' s'] assms(2) by auto
qed

text \<open>Both quotas are sliding windows over the same log.\<close>

interpretation per_minute: window_limiter "quota_step cfg" snd "\<lambda>r. a_id (fst r) = aid"
  "\<lambda>qs. sendWindows (fst qs) aid" "\<lambda>_. True" minute_ms "emailAppPerMin cfg" for cfg aid
proof
  show "0 < minute_ms"
    by (simp add: minute_ms_def)
next
  fix qs qs' :: "quota_state \<times> db" and r
  assume "a_id (fst r) = aid" "quota_step cfg r qs = (True, qs')"
  from quota_step_admit [OF this(2,1)]
  show "length (filter (\<lambda>t. snd r - minute_ms < t) (sendWindows (fst qs) aid)) < emailAppPerMin cfg
    \<and> filter (\<lambda>t. snd r - minute_ms < t) (sendWindows (fst qs') aid)
        = filter (\<lambda>t. snd r - minute_ms < t) (sendWindows (fst qs) aid) @ [snd r]"
    by (simp add: filter_minute_day del: filter_filter) (simp add: minute_ms_def)
qed (simp_all add: quota_step_keep)

interpretation per_day: window_limiter "quota_step cfg" snd "\<lambda>r. a_id (fst r) = aid"
  "\<lambda>qs. sendWindows (fst qs) aid" "\<lambda>_. True" day_ms "emailAppPerDay cfg" for cfg aid
proof
  show "0 < day_ms"
    by (simp add: day_ms_def)
next
  fix qs qs' :: "quota_state \<times> db" and r
  assume "a_id (fst r) = aid" "quota_step cfg r qs = (True, qs')"
  from quota_step_admit [OF this(2,1)]
  show "length (filter (\<lambda>t. snd r - day_ms < t) (sendWindows (fst qs) aid)) < emailAppPerDay cfg
    \<and> filter (\<lambda>t. snd r - day_ms < t) (sendWindows (fst qs') aid)
        = filter (\<lambda>t. snd r - day_ms < t) (sendWindows (fst qs) aid) @ [snd r]"
    by (simp add: day_ms_def)
qed (simp_all add: quota_step_keep)

section \<open>Properties\<close>

text \<open>
  An app's mail is bounded. However its sends are spread and whatever other apps send, no minute
  sees more of them admitted than the quota per minute, and no day more than the quota per day.
\<close>

theorem app_mail_quota:
  assumes "sorted (map snd reqs)"
  shows "in_window minute_ms T (admitted (quota_step cfg) snd (\<lambda>r. a_id (fst r) = aid) reqs (no_sends, s))
      \<le> emailAppPerMin cfg
    \<and> in_window day_ms T (admitted (quota_step cfg) snd (\<lambda>r. a_id (fst r) = aid) reqs (no_sends, s))
      \<le> emailAppPerDay cfg"
  by (intro conjI per_minute.window_bound per_day.window_bound) (use assms in \<open>simp_all add: no_sends_def\<close>)

lemma app_mail_quota_witness:
  "in_window minute_ms 3 (admitted (quota_step sample_cfg) snd (\<lambda>r. a_id (fst r) = ''a1'')
      [(sample_app, 1), (sample_app, 2), (sample_app, 3)] (no_sends, empty_db)) \<le> 2
   \<and> admitted (quota_step sample_cfg) snd (\<lambda>r. a_id (fst r) = ''a1'')
      [(sample_app, 1), (sample_app, 2), (sample_app, 3)] (no_sends, empty_db) = [1, 2]"
proof
  have "emailAppPerMin sample_cfg = 2"
    by (simp add: sample_cfg_def)
  moreover have "sorted (map snd [(sample_app, 1), (sample_app, 2), (sample_app, 3 :: int)])"
    by simp
  ultimately show "in_window minute_ms 3 (admitted (quota_step sample_cfg) snd (\<lambda>r. a_id (fst r) = ''a1'')
      [(sample_app, 1), (sample_app, 2), (sample_app, 3)] (no_sends, empty_db)) \<le> 2"
    using app_mail_quota [of _ 3 sample_cfg "''a1''" empty_db] by metis
  show "admitted (quota_step sample_cfg) snd (\<lambda>r. a_id (fst r) = ''a1'')
      [(sample_app, 1), (sample_app, 2), (sample_app, 3)] (no_sends, empty_db) = [1, 2]"
    by code_simp
qed

text \<open>
  An app cannot speak for a workspace it has no grant for. A message an app sends in a
  workspace's name is refused, unsent and uncharged, unless that workspace has a grant for the app;
  and whoever sends, the sender's address and the relay are those the platform resolves, never the
  caller's.
\<close>

theorem app_mail_confined:
  assumes "send env cfg dto (Some app) now (q, s) = (Inr i, (q', s'))"
  shows "(truthy (sd_tenantId dto) \<longrightarrow> access_of s (the (sd_tenantId dto)) (a_id app) \<noteq> None)
    \<and> (\<exists>smtp m. resolveConfig env cfg (sd_tenantId dto) s = Inr smtp \<and> outbox s' = outbox s @ [m]
         \<and> m_from m = rs_fromAddress smtp \<and> m_host m = rs_host smtp)"
proof -
  obtain x q1 s1 where q: "assertQuota cfg app now (q, s) = (Inr x, (q1, s1))"
    "deliver env cfg dto (Some (a_clientId app)) now s1 = (Inr i, s')"
    and g: "truthy (sd_tenantId dto) \<longrightarrow> access_of s (the (sd_tenantId dto)) (a_id app) \<noteq> None"
    using assms by (auto simp: send_def split: if_splits sum.splits prod.splits)
  have "s1 = s"
    using q(1) by (auto simp: assertQuota_def Let_def split: if_splits)
  then show ?thesis
    using g deliver_Inr [OF q(2)] by blast
qed

definition sample_mail :: send_dto where
  "sample_mail = \<lparr>sd_fromName = None, sd_tenantId = Some ''t1'', sd_to = ''b@x'', sd_subject = ''Hi'',
     sd_content = Authored (Some ''text'') None\<rparr>"

lemma app_mail_confined_witness:
  "\<exists>i q' s'. send sample_env sample_cfg sample_mail (Some sample_app) 5 (no_sends, sample_db)
       = (Inr i, (q', s')) \<and> (\<exists>m. outbox s' = [m])"
proof -
  let ?r = "send sample_env sample_cfg sample_mail (Some sample_app) 5 (no_sends, sample_db)"
  have "is_ok (fst ?r)" "outbox sample_db = []"
    by code_simp+
  then obtain i qs' where r: "?r = (Inr i, qs')"
    by (blast elim: is_ok_fstE)
  obtain q' s' where "qs' = (q', s')"
    by (cases qs')
  then show ?thesis
    using app_mail_confined [of sample_env sample_cfg sample_mail sample_app 5 no_sends sample_db i q' s']
      r \<open>outbox sample_db = []\<close> by auto
qed

end
