(* ===== verification/Account_Flows.thy ===== *)
theory Account_Flows
  imports Users Email
begin

text \<open>
  The flows nobody is signed in for: email verification, the list of one's workspaces and the
  password reset (\<open>platform/src/auth/account-flows.service.ts\<close>), the product a message speaks for
  (\<open>product.ts\<close>) and self-service signup (\<open>signup.service.ts\<close>). The module-level \<open>buckets\<close> of the
  mail limiter are the state \<open>send_buckets\<close> of \<open>Limits\<close>, passed along with the database. The em dash
  of the workspace list, which is outside Latin-1, is the code unit \<open>0x97\<close>; the order
  \<open>localeCompare\<close> gives slugs is an argument.
\<close>

section \<open>The product\<close>

record product =
  pr_name :: string
  pr_signInUrl :: string

definition PLATFORM :: "config \<Rightarrow> product" where
  "PLATFORM cfg = \<lparr>pr_name = platformName cfg, pr_signInUrl = publicBaseUrl cfg @ ''/''\<rparr>"

text \<open>The field of a JSON object, \<open>None\<close> for anything that is not an object.\<close>

definition json_field :: "json option \<Rightarrow> string \<Rightarrow> json option" where
  "json_field j k = (case j of Some (JObj kvs) \<Rightarrow> map_of kvs k | _ \<Rightarrow> None)"

definition brandName :: "json option \<Rightarrow> string" where
  "brandName brand =
     (case json_field (json_field brand ''product'') ''name'' of Some (JStr n) \<Rightarrow> trim n | _ \<Rightarrow> [])"

definition capitalised :: "string \<Rightarrow> string" where
  "capitalised w = (case w of [] \<Rightarrow> [] | c # cs \<Rightarrow> upper_char c # cs)"

definition titleize :: "string \<Rightarrow> string" where
  "titleize slug = join '' '' (map capitalised
     (words_of (\<lambda>c. c = CHR ''-'' \<or> c = CHR ''_'' \<or> js_white c) slug))"

definition is_http :: "string \<Rightarrow> bool" where
  "is_http u = (starts_with (lower u) ''http://'' \<or> starts_with (lower u) ''https://'')"

definition product_of_app :: "config \<Rightarrow> app \<Rightarrow> product" where
  "product_of_app cfg app =
     \<lparr>pr_name = (if brandName (a_brand app) \<noteq> [] then brandName (a_brand app)
        else if truthy (map_option trim (a_displayName app)) then trim (the (a_displayName app))
        else titleize (a_name app)),
      pr_signInUrl = nullish (find is_http (a_callbackUrls app)) (pr_signInUrl (PLATFORM cfg))\<rparr>"

definition resolveProduct :: "config \<Rightarrow> string option \<Rightarrow> db \<Rightarrow> product" where
  "resolveProduct cfg clientId s =
     (if \<not> truthy clientId then PLATFORM cfg
      else (case live_app_by_client s (the clientId) of
              None \<Rightarrow> PLATFORM cfg | Some app \<Rightarrow> product_of_app cfg app))"

section \<open>Finding the account\<close>

record email_flow_dto =
  ef_tenantSlug :: "string option"
  ef_email :: string
  ef_clientId :: "string option"

definition findByEmail :: "email_flow_dto \<Rightarrow> db \<Rightarrow> user option" where
  "findByEmail input s =
     (let email = lower (ef_email input) in
      if truthy (ef_tenantSlug input) then
        (case live_tenant_by_slug s (the (ef_tenantSlug input)) of
           None \<Rightarrow> None
         | Some t \<Rightarrow> live_user_by_email s (Some (tn_id t)) email)
      else (case live_user_by_email s None email of
              Some u \<Rightarrow> Some u
            | None \<Rightarrow>
                (case take 2 (filter (\<lambda>u. u_email u = email \<and> u_deletedAt u = None \<and> u_isPlatformAdmin u)
                   (users s)) of
                   [u] \<Rightarrow> Some u
                 | _ \<Rightarrow> None)))"

section \<open>Email verification\<close>

definition VERIFY_TTL_SEC :: int where "VERIFY_TTL_SEC = 24 * 3600"
definition RESET_TTL_SEC :: int where "RESET_TTL_SEC = 30 * 60"

definition blank_line :: string where "blank_line = [CHR 0x0A, CHR 0x0A]"

definition verification_mail :: "user \<Rightarrow> string \<Rightarrow> send_dto" where
  "verification_mail u link =
     \<lparr>sd_fromName = None, sd_tenantId = u_tenantId u, sd_to = u_email u,
      sd_subject = ''Verify your email address'',
      sd_content = Authored
        (Some (''Confirm this is your email address to activate your account:'' @ blank_line @ link
           @ blank_line @ ''The link is valid for 24 hours. If you didn't create this account, ignore this email.''))
        (Some (''<p>Confirm this is your email address to activate your account:</p><p><a href=\"'' @ link
           @ ''\">Verify my email</a></p><p>The link is valid for 24 hours. If you didn't create this account, ignore this email.</p>''))\<rparr>"

definition sendVerification ::
  "env \<Rightarrow> config \<Rightarrow> email_flow_dto \<Rightarrow> string option \<Rightarrow> time \<Rightarrow> send_buckets \<times> db \<Rightarrow>
   unit res \<times> (send_buckets \<times> db)" where
  "sendVerification env cfg input ip now bs =
     (case bs of (b, s) \<Rightarrow>
        (case findByEmail input s of
           None \<Rightarrow> (Inr (), (b, s))
         | Some u \<Rightarrow>
             if u_emailVerifiedAt u \<noteq> None then (Inr (), (b, s))
             else (case sendAllowed ''verify'' (u_email u) ip now b of
               (False, b1) \<Rightarrow> (Inr (), (b1, s))
             | (True, b1) \<Rightarrow>
                 (let token = jwt_sign env [(''purpose'', JStr ''email_verify''), (''sub'', JStr (u_id u))]
                        VERIFY_TTL_SEC now;
                      link = publicBaseUrl cfg @ ''/auth/verify?token='' @ uri_encode env token
                  in case deliver env cfg (verification_mail u link) None now s of
                       (Inl e, s1) \<Rightarrow> (Inl e, (b1, s1))
                     | (Inr _, s1) \<Rightarrow> (Inr (), (b1, record_event ''auth.verification_sent''
                         (no_meta\<lparr>am_tenantId := u_tenantId u, am_userId := Some (u_id u)\<rparr>) now s1))))))"

definition invalid_link :: http_error where
  "invalid_link = BadRequest ''Invalid or expired link''"

text \<open>The subject of claims with the given purpose, where it is a string.\<close>

definition subject_for :: "string \<Rightarrow> claims \<Rightarrow> string option" where
  "subject_for purpose c =
     (if map_of c ''purpose'' \<noteq> Some (JStr purpose) then None
      else (case map_of c ''sub'' of Some (JStr i) \<Rightarrow> Some i | _ \<Rightarrow> None))"

definition confirmVerification :: "env \<Rightarrow> string \<Rightarrow> time \<Rightarrow> db \<Rightarrow> unit res \<times> db" where
  "confirmVerification env token now s =
     (case Option.bind (jwt_verify env now token) (subject_for ''email_verify'') of
        None \<Rightarrow> (Inl invalid_link, s)
      | Some i \<Rightarrow>
        (case user_by_id s i of
           None \<Rightarrow> (Inl invalid_link, s)
         | Some u \<Rightarrow>
             if u_deletedAt u \<noteq> None then (Inl invalid_link, s)
             else if u_emailVerifiedAt u = None
             then (Inr (), record_event ''auth.email_verified''
                    (no_meta\<lparr>am_tenantId := u_tenantId u, am_userId := Some (u_id u)\<rparr>) now
                    (set_user (u_id u) (\<lambda>v. v\<lparr>u_emailVerifiedAt := Some now\<rparr>) s))
             else (Inr (), s)))"

section \<open>The workspaces of an address\<close>

definition workspaces_of :: "(string \<Rightarrow> 'k::linorder) \<Rightarrow> user list \<Rightarrow> db \<Rightarrow> tenant list" where
  "workspaces_of collation us s =
     sort_key (collation \<circ> tn_slug)
       (filter (\<lambda>t. tn_deletedAt t = None) (List.map_filter (tenant_of s) us))"

definition listWorkspaces ::
  "env \<Rightarrow> config \<Rightarrow> (string \<Rightarrow> 'k::linorder) \<Rightarrow> string \<Rightarrow> string option \<Rightarrow> string option \<Rightarrow> time \<Rightarrow>
   send_buckets \<times> db \<Rightarrow> unit res \<times> (send_buckets \<times> db)" where
  "listWorkspaces env cfg collation rawEmail clientId ip now bs =
     (case bs of (b, s) \<Rightarrow>
        (let email = lower rawEmail;
             us = filter (\<lambda>u. u_email u = email \<and> u_deletedAt u = None \<and> u_tenantId u \<noteq> None) (users s);
             ts = workspaces_of collation us s
         in if ts = [] then (Inr (), (b, s))
            else (case sendAllowed ''workspaces'' email ip now b of
               (False, b1) \<Rightarrow> (Inr (), (b1, s))
             | (True, b1) \<Rightarrow>
                 (let lines = join [CHR 0x0A]
                        (map (\<lambda>t. tn_slug t @ '' '' @ em_dash @ '' '' @ tn_name t) ts);
                      product = resolveProduct cfg clientId s
                  in case render cfg ''workspace_list''
                            [(''productName'', pr_name product), (''workspaces'', lines),
                             (''signInUrl'', pr_signInUrl product)] (Some (pr_signInUrl product)) s of
                       Inl e \<Rightarrow> (Inl e, (b1, s))
                     | Inr (subject, body) \<Rightarrow>
                       (case deliver env cfg \<lparr>sd_fromName = Some (pr_name product), sd_tenantId = None,
                               sd_to = email, sd_subject = subject, sd_content = Templated body\<rparr>
                               None now s of
                          (Inl e, s1) \<Rightarrow> (Inl e, (b1, s1))
                        | (Inr _, s1) \<Rightarrow> (Inr (), (b1, record_event ''auth.workspaces_listed''
                            (no_meta\<lparr>am_userId := map_option u_id
                               (case us of [] \<Rightarrow> None | u # _ \<Rightarrow> Some u)\<rparr>) now s1)))))))"

section \<open>Password reset\<close>

definition resetSecret :: "env \<Rightarrow> config \<Rightarrow> user \<Rightarrow> string" where
  "resetSecret env cfg u =
     hmac_hex env (secretKey cfg) (''reset:'' @ u_id u @ '':'' @ u_passwordHash u)"

definition reset_claims :: "user \<Rightarrow> string option \<Rightarrow> claims" where
  "reset_claims u clientId =
     [(''purpose'', JStr ''password_reset''), (''sub'', JStr (u_id u))]
     @ (if truthy clientId then [(''app'', JStr (the clientId))] else [])"

definition requestReset ::
  "env \<Rightarrow> config \<Rightarrow> email_flow_dto \<Rightarrow> string option \<Rightarrow> time \<Rightarrow> send_buckets \<times> db \<Rightarrow>
   unit res \<times> (send_buckets \<times> db)" where
  "requestReset env cfg input ip now bs =
     (case bs of (b, s) \<Rightarrow>
        (case findByEmail input s of
           None \<Rightarrow> (Inr (), (b, s))
         | Some u \<Rightarrow>
           (case sendAllowed ''reset'' (u_email u) ip now b of
               (False, b1) \<Rightarrow> (Inr (), (b1, s))
             | (True, b1) \<Rightarrow>
                 (let product = resolveProduct cfg (ef_clientId input) s;
                      token = hmac_sign env (resetSecret env cfg u) (reset_claims u (ef_clientId input))
                        RESET_TTL_SEC now;
                      link = publicBaseUrl cfg @ ''/auth/reset-page?token='' @ uri_encode env token
                  in case render cfg ''password_reset''
                            [(''productName'', pr_name product), (''email'', u_email u),
                             (''expiryMinutes'', show_int (RESET_TTL_SEC div 60))] (Some link) s of
                       Inl e \<Rightarrow> (Inl e, (b1, s))
                     | Inr (subject, body) \<Rightarrow>
                       (case deliver env cfg \<lparr>sd_fromName = Some (pr_name product),
                               sd_tenantId = u_tenantId u, sd_to = u_email u, sd_subject = subject,
                               sd_content = Templated body\<rparr> None now s of
                          (Inl e, s1) \<Rightarrow> (Inl e, (b1, s1))
                        | (Inr _, s1) \<Rightarrow> (Inr (), (b1, record_event ''auth.reset_requested''
                            (no_meta\<lparr>am_tenantId := u_tenantId u, am_userId := Some (u_id u),
                               am_appClientId := ef_clientId input\<rparr>) now s1)))))))"

definition productForResetToken :: "env \<Rightarrow> config \<Rightarrow> string \<Rightarrow> db \<Rightarrow> product" where
  "productForResetToken env cfg token s =
     resolveProduct cfg
       (case Option.bind (jwt_decode env token) (\<lambda>c. map_of c ''app'') of Some (JStr c) \<Rightarrow> Some c | _ \<Rightarrow> None) s"

definition resetPassword ::
  "env \<Rightarrow> config \<Rightarrow> string \<Rightarrow> string \<Rightarrow> time \<Rightarrow> db \<Rightarrow> unit res \<times> db" where
  "resetPassword env cfg token password now s =
     (case Option.bind (jwt_decode env token) (subject_for ''password_reset'') of
        None \<Rightarrow> (Inl invalid_link, s)
      | Some i \<Rightarrow>
        (case user_by_id s i of
           None \<Rightarrow> (Inl invalid_link, s)
         | Some u \<Rightarrow>
             if u_deletedAt u \<noteq> None then (Inl invalid_link, s)
             else if \<not> hmac_verify env (resetSecret env cfg u) now token then (Inl invalid_link, s)
             else let s1 = set_user (u_id u) (\<lambda>v. v\<lparr>u_passwordHash := bcrypt_hash env password,
                        u_emailVerifiedAt := Some (nullish (u_emailVerifiedAt u) now)\<rparr>) s;
                      s2 = revoke_sessions (u_id u) now s1
                  in (Inr (), record_event ''auth.password_reset''
                        (no_meta\<lparr>am_tenantId := u_tenantId u, am_userId := Some (u_id u)\<rparr>) now s2)))"

section \<open>Signup\<close>

definition slug_char :: "char \<Rightarrow> bool" where
  "slug_char c = (let n = of_char c :: nat in (48 \<le> n \<and> n \<le> 57) \<or> (97 \<le> n \<and> n \<le> 122))"

text \<open>\<open>replace(/[^a-z0-9]+/g, '-')\<close>: a run of other characters becomes one dash.\<close>

fun dash_runs :: "bool \<Rightarrow> string \<Rightarrow> string" where
  "dash_runs inRun [] = []"
| "dash_runs inRun (c # s) =
     (if slug_char c then c # dash_runs False s
      else if inRun then dash_runs True s else CHR ''-'' # dash_runs True s)"

definition strip_dashes :: "string \<Rightarrow> string" where
  "strip_dashes s =
     (let d = dropWhile (\<lambda>c. c = CHR ''-'') s in rev (dropWhile (\<lambda>c. c = CHR ''-'') (rev d)))"

definition slugify :: "string \<Rightarrow> string" where
  "slugify name = take 40 (strip_dashes (dash_runs False (lower name)))"

definition issueSignupLink :: "env \<Rightarrow> config \<Rightarrow> int \<Rightarrow> time \<Rightarrow> string \<times> string \<times> time" where
  "issueSignupLink env cfg expiresInHours now =
     (let ttlSec = max 1 (expiresInHours * 3600);
          token = jwt_sign env [(''purpose'', JStr ''signup_link'')] ttlSec now
      in (token, publicBaseUrl cfg @ ''/auth/signup?inviteToken='' @ uri_encode env token,
          now + ttlSec * 1000))"

definition assertSignupAllowed :: "env \<Rightarrow> config \<Rightarrow> string option \<Rightarrow> time \<Rightarrow> unit res" where
  "assertSignupAllowed env cfg inviteToken now =
     (case signupMode cfg of
        Open \<Rightarrow> Inr ()
      | InviteOnly \<Rightarrow>
          if \<not> truthy inviteToken then Inl (Forbidden ''Signups are by invitation'')
          else (case jwt_verify env now (the inviteToken) of
                  None \<Rightarrow> Inl (Forbidden ''Signup link is invalid or has expired'')
                | Some c \<Rightarrow> if map_of c ''purpose'' \<noteq> Some (JStr ''signup_link'')
                    then Inl (Forbidden ''Signup link is invalid or has expired'') else Inr ())
      | Closed \<Rightarrow> Inl (Forbidden ''Signups are closed''))"

record signup_dto =
  su_company :: string
  su_slug :: "string option"
  su_email :: string
  su_password :: string
  su_firstName :: "string option"
  su_lastName :: "string option"
  su_clientId :: string
  su_inviteToken :: "string option"

text \<open>The slug a signup asks for; \<open>hex\<close> is the drawn suffix.\<close>

definition slug_taken :: "string \<Rightarrow> http_error" where
  "slug_taken slug = Conflict (''Workspace name \"'' @ slug @ ''\" is already taken'')"

definition signup_slug :: "signup_dto \<Rightarrow> string \<Rightarrow> db \<Rightarrow> string res" where
  "signup_slug dto hex s =
     (if truthy (su_slug dto) then
        (if tenant_by_slug s (the (su_slug dto)) \<noteq> None then Inl (slug_taken (the (su_slug dto)))
         else Inr (the (su_slug dto)))
      else (let slug = (if slugify (su_company dto) \<noteq> [] then slugify (su_company dto) else ''workspace'')
            in Inr (if tenant_by_slug s slug \<noteq> None then take 34 slug @ ''-'' @ hex else slug)))"

text \<open>The rows of the transaction; the drawn ids are the tenant's and the founder's.\<close>

definition founded_tenant :: "signup_dto \<Rightarrow> string \<Rightarrow> string \<Rightarrow> time \<Rightarrow> tenant" where
  "founded_tenant dto slug tid now =
     \<lparr>tn_id = tid, tn_slug = slug, tn_name = su_company dto, tn_plan = ''free'', tn_status = TActive,
      tn_profile = no_profile, tn_stripeCustomerId = None, tn_graceUntil = None, tn_createdAt = now,
      tn_deletedAt = None\<rparr>"

definition founder :: "env \<Rightarrow> signup_dto \<Rightarrow> string \<Rightarrow> string \<Rightarrow> time \<Rightarrow> user" where
  "founder env dto tid uid now =
     \<lparr>u_id = uid, u_tenantId = Some tid, u_email = lower (su_email dto),
      u_passwordHash = bcrypt_hash env (su_password dto),
      u_name = fullName (su_firstName dto) (su_lastName dto), u_firstName = su_firstName dto,
      u_lastName = su_lastName dto, u_phone = None, u_isPlatformAdmin = False,
      u_isTenantAdmin = True, u_emailVerifiedAt = None, u_createdAt = now, u_deletedAt = None\<rparr>"

definition signup_create ::
  "env \<Rightarrow> config \<Rightarrow> signup_dto \<Rightarrow> app \<Rightarrow> string \<Rightarrow> string \<Rightarrow> string \<Rightarrow> time \<Rightarrow> db \<Rightarrow> tenant res \<times> db" where
  "signup_create env cfg dto app slug tid uid now s =
     (let t = founded_tenant dto slug tid now;
          grant = \<lparr>at_tenantId = tid, at_appId = a_id app, at_status = Trial, at_plan = ''free'',
            at_trialEndsAt = Some (now + signupTrialDays cfg * day_ms), at_graceUntil = None,
            at_stripeSubscriptionId = None, at_createdAt = now\<rparr>
      in case insert_tenant t s of
           (Inl e, _) \<Rightarrow> (Inl e, s)
         | (Inr _, s1) \<Rightarrow>
           (case insert_user (founder env dto tid uid now) s1 of
              (Inl e, _) \<Rightarrow> (Inl e, s)
            | (Inr _, s2) \<Rightarrow>
              (case insert_app_tenant grant s2 of
                 (Inl e, _) \<Rightarrow> (Inl e, s)
               | (Inr _, s3) \<Rightarrow> (Inr t, s3))))"

definition signup ::
  "env \<Rightarrow> config \<Rightarrow> signup_dto \<Rightarrow> string option \<Rightarrow> string \<times> string \<times> string \<Rightarrow> time \<Rightarrow>
   send_buckets \<times> db \<Rightarrow> (string \<times> time) res \<times> (send_buckets \<times> db)" where
  "signup env cfg dto ip dr now bs =
     (case (bs, dr) of ((b, s), (tid, uid, hex)) \<Rightarrow>
        (case assertSignupAllowed env cfg (su_inviteToken dto) now of
           Inl e \<Rightarrow> (Inl e, (b, s))
         | Inr _ \<Rightarrow>
           (case live_app_by_client s (su_clientId dto) of
              None \<Rightarrow> (Inl (BadRequest ''Unknown app''), (b, s))
            | Some app \<Rightarrow>
              (case signup_slug dto hex s of
                 Inl e \<Rightarrow> (Inl e, (b, s))
               | Inr slug \<Rightarrow>
                 (case signup_create env cfg dto app slug tid uid now s of
                    (Inl e, s1) \<Rightarrow>
                      (Inl (if e = PrismaError ''P2002'' then slug_taken slug else e), (b, s1))
                  | (Inr t, s1) \<Rightarrow>
                    (case sendVerification env cfg \<lparr>ef_tenantSlug = Some (tn_slug t),
                            ef_email = lower (su_email dto), ef_clientId = None\<rparr> None now (b, s1) of
                       (Inl e, bs2) \<Rightarrow> (Inl e, bs2)
                     | (Inr _, (b2, s2)) \<Rightarrow>
                       (let trialEndsAt = now + signupTrialDays cfg * day_ms
                        in (Inr (tn_slug t, trialEndsAt), (b2, record_event ''auth.signup''
                              (no_meta\<lparr>am_tenantId := Some (tn_id t),
                                 am_appClientId := Some (su_clientId dto), am_ip := ip,
                                 am_detail := Some (JObj [(''slug'', JStr (tn_slug t)),
                                   (''email'', JStr (lower (su_email dto))),
                                   (''trialEndsAt'', JDate trialEndsAt)])\<rparr>) now s2)))))))))"

section \<open>Who a request finds, and what it sends\<close>

lemma findByEmailD:
  assumes "findByEmail input s = Some u"
  shows "u \<in> set (users s) \<and> u_deletedAt u = None \<and> u_email u = lower (ef_email input)"
proof -
  have two: "set xs \<subseteq> A \<Longrightarrow> take 2 xs = [v] \<Longrightarrow> v \<in> A" for xs A and v :: user
    by (metis in_set_takeD list.set_intros(1) subsetD)
  show ?thesis
    using assms two [of "filter (\<lambda>u. u_email u = lower (ef_email input) \<and> u_deletedAt u = None
        \<and> u_isPlatformAdmin u) (users s)"
        "{u \<in> set (users s). u_deletedAt u = None \<and> u_email u = lower (ef_email input)}" u]
    by (auto simp: findByEmail_def Let_def split: if_splits option.splits list.splits
        dest!: live_user_by_emailD)
qed

lemma resolveProduct_cases:
  obtains "resolveProduct cfg clientId s = PLATFORM cfg"
  | app where "app \<in> set (apps s)" "a_deletedAt app = None" "Some (a_clientId app) = clientId"
      "resolveProduct cfg clientId s = product_of_app cfg app"
proof (cases "truthy clientId")
  case True
  then obtain c where c: "clientId = Some c" "c \<noteq> []"
    by (cases clientId) auto
  show thesis
  proof (cases "live_app_by_client s c")
    case (Some app)
    then show thesis
      using live_app_by_clientD [OF Some] c by (intro that(2) [of app]) (simp_all add: resolveProduct_def)
  qed (use c that(1) in \<open>simp add: resolveProduct_def\<close>)
qed (use that(1) in \<open>simp add: resolveProduct_def\<close>)

lemma product_url:
  "pr_signInUrl (product_of_app cfg app) = pr_signInUrl (PLATFORM cfg)
   \<or> pr_signInUrl (product_of_app cfg app) \<in> set (a_callbackUrls app)
      \<and> is_http (pr_signInUrl (product_of_app cfg app))"
  by (cases "find is_http (a_callbackUrls app)") (auto simp: product_of_app_def dest: find_SomeD)

text \<open>A step that leaves the tables of accounts, workspaces, grants and sessions alone.\<close>

definition accounts_same :: "db \<Rightarrow> db \<Rightarrow> bool" where
  "accounts_same s s' \<longleftrightarrow> users s' = users s \<and> tenants s' = tenants s \<and> apps s' = apps s
     \<and> app_tenants s' = app_tenants s \<and> refresh_tokens s' = refresh_tokens s
     \<and> user_roles s' = user_roles s"

lemma accounts_same_refl [simp]: "accounts_same s s"
  by (simp add: accounts_same_def)

lemma accounts_same_record [simp]: "accounts_same s (record_event a m n s') = accounts_same s s'"
  by (simp add: accounts_same_def)

lemma accounts_same_deliver:
  "deliver env cfg dto c now s = (r, s') \<Longrightarrow> accounts_same s s'"
  using deliver_fields [of env cfg dto c now s] by (simp add: accounts_same_def)

lemma outbox_deliver:
  "deliver env cfg dto c now s = (r, s') \<Longrightarrow> outbox s' = outbox s \<or>
   (\<exists>m. outbox s' = outbox s @ [m] \<and> m_to m = sd_to dto
     \<and> m_fromName m = (if truthy (sd_fromName dto) then sd_fromName dto else None))"
  by (auto simp: deliver_def Let_def split: sum.splits)

text \<open>The tables are untouched, and at most one message goes out, to \<open>dest\<close> in the name \<open>fromName\<close>.\<close>

definition one_mail :: "string \<Rightarrow> string option \<Rightarrow> db \<Rightarrow> db \<Rightarrow> bool" where
  "one_mail dest fromName s s' \<longleftrightarrow> accounts_same s s' \<and> (outbox s' = outbox s \<or>
     (\<exists>m. outbox s' = outbox s @ [m] \<and> m_to m = dest
       \<and> m_fromName m = (if truthy fromName then fromName else None)))"

lemma one_mail_refl [simp]: "one_mail dest n s s"
  by (simp add: one_mail_def)

lemma one_mail_record [simp]: "one_mail dest n s (record_event a m now s') = one_mail dest n s s'"
  by (simp add: one_mail_def)

lemma one_mail_deliver:
  "deliver env cfg dto c now s = (r, s') \<Longrightarrow> one_mail (sd_to dto) (sd_fromName dto) s s'"
  using accounts_same_deliver outbox_deliver unfolding one_mail_def by blast

lemma sendVerification_mail:
  assumes "sendVerification env cfg input ip now (b, s) = (r, (b', s'))"
  shows "s' = s \<or> (\<exists>u. findByEmail input s = Some u \<and> one_mail (u_email u) None s s')"
  using assms
  by (auto simp: sendVerification_def Let_def verification_mail_def split: option.splits if_splits
      prod.splits bool.splits sum.splits dest!: one_mail_deliver)

lemma requestReset_mail:
  assumes "requestReset env cfg input ip now (b, s) = (r, (b', s'))"
  shows "s' = s \<or> (\<exists>u. findByEmail input s = Some u
     \<and> one_mail (u_email u) (Some (pr_name (resolveProduct cfg (ef_clientId input) s))) s s')"
  using assms
  by (auto simp: requestReset_def Let_def split: option.splits if_splits
      prod.splits bool.splits sum.splits dest!: one_mail_deliver)

lemma listWorkspaces_mail:
  assumes "listWorkspaces env cfg collation email clientId ip now (b, s) = (r, (b', s'))"
  shows "one_mail (lower email) (Some (pr_name (resolveProduct cfg clientId s))) s s'"
  using assms
  by (auto simp: listWorkspaces_def Let_def split: if_splits
      prod.splits bool.splits sum.splits dest!: one_mail_deliver)

section \<open>The answers while mail works\<close>

definition mail_works :: "env \<Rightarrow> config \<Rightarrow> db \<Rightarrow> bool" where
  "mail_works env cfg s \<longleftrightarrow> (\<forall>tid. is_ok (resolveConfig env cfg tid s))
     \<and> (\<forall>smtp m. is_ok (relay_send env smtp m))"

lemma deliver_works: "mail_works env cfg s \<Longrightarrow> is_ok (fst (deliver env cfg dto c now s))"
  by (auto simp: mail_works_def deliver_def Let_def is_ok_iff split: sum.splits) (metis sum.distinct(1))+

lemma deliver_worksD: "mail_works env cfg s \<Longrightarrow> deliver env cfg dto c now s \<noteq> (Inl e, s')"
  using deliver_works [of env cfg s dto c now] by auto

lemma render_flow [simp]:
  "render cfg ''password_reset'' vars url s \<noteq> Inl e" "render cfg ''workspace_list'' vars url s \<noteq> Inl e"
proof -
  have "''password_reset'' \<in> set (map ts_code TEMPLATES)" "''workspace_list'' \<in> set (map ts_code TEMPLATES)"
    by code_simp+
  then show "render cfg ''password_reset'' vars url s \<noteq> Inl e" "render cfg ''workspace_list'' vars url s \<noteq> Inl e"
    using render_known by (metis sum.distinct(1))+
qed

lemma recovery_ok:
  assumes "mail_works env cfg s"
  shows "fst (sendVerification env cfg input ip now (b, s)) = Inr ()"
    and "fst (requestReset env cfg input ip now (b, s)) = Inr ()"
    and "fst (listWorkspaces env cfg collation email clientId ip now (b, s)) = Inr ()"
  using deliver_worksD [OF assms]
  by (auto simp: sendVerification_def requestReset_def listWorkspaces_def Let_def
      split: option.split prod.split bool.split sum.split)

section \<open>What a reset changes\<close>

lemma resetPassword_Inl: "resetPassword env cfg token pw now s = (Inl e, s') \<Longrightarrow> s' = s \<and> e = invalid_link"
  by (auto simp: resetPassword_def Let_def split: option.splits if_splits)

lemma resetPassword_Inr:
  assumes "resetPassword env cfg token pw now s = (Inr x, s')"
  obtains i u m where "Option.bind (jwt_decode env token) (subject_for ''password_reset'') = Some i"
    "user_by_id s i = Some u" "u_id u = i" "u_deletedAt u = None"
    "hmac_verify env (resetSecret env cfg u) now token"
    "s' = record_event ''auth.password_reset'' m now (revoke_sessions i now
       (set_user i (\<lambda>v. v\<lparr>u_passwordHash := bcrypt_hash env pw,
          u_emailVerifiedAt := Some (nullish (u_emailVerifiedAt u) now)\<rparr>) s))"
  using assms
  by (auto simp: resetPassword_def Let_def split: option.splits if_splits dest: user_by_idD)

text \<open>A link is accepted only while the account has the password hash it was accepted for before.\<close>

lemma reset_bound_to_password:
  assumes key: "\<And>k k' t t'. hmac_verify env k t token \<Longrightarrow> hmac_verify env k' t' token \<Longrightarrow> k = k'"
    and digest: "\<And>m m'. hmac_hex env (secretKey cfg) m = hmac_hex env (secretKey cfg) m' \<Longrightarrow> m = m'"
    and "resetPassword env cfg token pw now s = (Inr x, s1)"
    and "resetPassword env cfg token pw' later s2 = (Inr y, s3)"
  shows "\<exists>i u u2. Option.bind (jwt_decode env token) (subject_for ''password_reset'') = Some i
    \<and> user_by_id s i = Some u \<and> user_by_id s2 i = Some u2 \<and> u_passwordHash u2 = u_passwordHash u"
  using assms(3)
proof (rule resetPassword_Inr)
  fix i u
  assume u: "Option.bind (jwt_decode env token) (subject_for ''password_reset'') = Some i"
    "user_by_id s i = Some u" "u_id u = i" "hmac_verify env (resetSecret env cfg u) now token"
  show ?thesis
    using assms(4)
  proof (rule resetPassword_Inr)
    fix i2 u2
    assume u2: "Option.bind (jwt_decode env token) (subject_for ''password_reset'') = Some i2"
      "user_by_id s2 i2 = Some u2" "u_id u2 = i2" "hmac_verify env (resetSecret env cfg u2) later token"
    have "resetSecret env cfg u = resetSecret env cfg u2"
      by (rule key [OF u(4) u2(4)])
    then have "''reset:'' @ u_id u @ '':'' @ u_passwordHash u = ''reset:'' @ u_id u2 @ '':'' @ u_passwordHash u2"
      unfolding resetSecret_def by (rule digest)
    then show ?thesis
      using u u2 by auto
  qed
qed

section \<open>The slug of a signup\<close>

definition slug_ok :: "string \<Rightarrow> bool" where
  "slug_ok s \<longleftrightarrow> s \<noteq> [] \<and> slug_char (hd s) \<and> list_all (\<lambda>c. slug_char c \<or> c = CHR ''-'') s"

lemma dash_runs_chars: "list_all (\<lambda>c. slug_char c \<or> c = CHR ''-'') (dash_runs r s)"
  by (induction r s rule: dash_runs.induct) auto

lemma list_all_dropWhile: "list_all P s \<Longrightarrow> list_all P (dropWhile Q s)"
  by (induction s) auto

lemma strip_dashes_chars: "list_all P s \<Longrightarrow> list_all P (strip_dashes s)"
  by (simp add: strip_dashes_def Let_def list_all_dropWhile)

lemma rev_dropWhile_rev_prefix: "\<exists>zs. xs = rev (dropWhile P (rev xs)) @ zs"
  by (metis rev_append rev_rev_ident takeWhile_dropWhile_id)

lemma strip_dashes_hd:
  assumes "strip_dashes s \<noteq> []"
  shows "hd (strip_dashes s) \<noteq> CHR ''-''"
proof -
  define d where "d = dropWhile (\<lambda>c. c = CHR ''-'') s"
  obtain zs where "d = strip_dashes s @ zs"
    using rev_dropWhile_rev_prefix [of d] by (auto simp: strip_dashes_def d_def Let_def)
  then have "hd d = hd (strip_dashes s)" "d \<noteq> []"
    using assms by auto
  then show ?thesis
    using hd_dropWhile [of "\<lambda>c. c = CHR ''-''" s] by (simp add: d_def)
qed

lemma slugify_ok:
  assumes "slugify name \<noteq> []"
  shows "slug_ok (slugify name) \<and> length (slugify name) \<le> 40"
proof -
  let ?d = "strip_dashes (dash_runs False (lower name))"
  have d: "?d \<noteq> []" "hd (slugify name) = hd ?d"
    using assms by (auto simp: slugify_def hd_take)
  have all: "list_all (\<lambda>c. slug_char c \<or> c = CHR ''-'') ?d"
    by (rule strip_dashes_chars [OF dash_runs_chars])
  then have "slug_char (hd ?d)"
    using d(1) strip_dashes_hd [OF d(1)] by (auto simp: list_all_iff)
  moreover have "list_all (\<lambda>c. slug_char c \<or> c = CHR ''-'') (slugify name)"
    using all by (auto simp: slugify_def list_all_iff dest: in_set_takeD)
  ultimately show ?thesis
    using assms d(2) by (simp add: slug_ok_def slugify_def)
qed

lemma slug_ok_suffix:
  assumes "slug_ok s" and "list_all slug_char hex" and "0 < n"
  shows "slug_ok (take n s @ ''-'' @ hex)"
  using assms by (cases n; cases s) (auto simp: slug_ok_def list_all_iff dest: in_set_takeD)

lemma workspace_slug_ok: "slug_ok ''workspace''"
  by code_simp

lemma signup_slug_ok:
  assumes "signup_slug dto hex s = Inr slug" and "\<not> truthy (su_slug dto)"
    and "list_all slug_char hex" and "length hex = 4"
  shows "slug_ok slug \<and> length slug \<le> 40"
proof -
  define base where "base = (if slugify (su_company dto) \<noteq> [] then slugify (su_company dto) else ''workspace'')"
  have base: "slug_ok base \<and> length base \<le> 40"
    using slugify_ok [of "su_company dto"] workspace_slug_ok by (simp add: base_def)
  have "slug = (if tenant_by_slug s base \<noteq> None then take 34 base @ ''-'' @ hex else base)"
    using assms(1,2) by (auto simp: signup_slug_def base_def Let_def)
  then show ?thesis
    using base slug_ok_suffix [of base hex 34] assms(3,4) by auto
qed

section \<open>Administrators survive the public flows\<close>

datatype public_flow =
    FSendVerification email_flow_dto "string option"
  | FConfirm string
  | FRequestReset email_flow_dto "string option"
  | FReset string string
  | FSignup signup_dto "string option" "string \<times> string \<times> string"

text \<open>One public request at a time; the limiter's state comes in with it and goes out with the answer.\<close>

definition flow_step ::
  "env \<Rightarrow> config \<Rightarrow> public_flow \<times> send_buckets \<times> time \<Rightarrow> db \<Rightarrow> (bool \<times> send_buckets) \<times> db" where
  "flow_step env cfg i s =
     (case i of (op, b, now) \<Rightarrow>
        (case op of
           FSendVerification input ip \<Rightarrow>
             (case sendVerification env cfg input ip now (b, s) of (r, (b', s')) \<Rightarrow> ((is_ok r, b'), s'))
         | FConfirm token \<Rightarrow> (case confirmVerification env token now s of (r, s') \<Rightarrow> ((is_ok r, b), s'))
         | FRequestReset input ip \<Rightarrow>
             (case requestReset env cfg input ip now (b, s) of (r, (b', s')) \<Rightarrow> ((is_ok r, b'), s'))
         | FReset token pw \<Rightarrow> (case resetPassword env cfg token pw now s of (r, s') \<Rightarrow> ((is_ok r, b), s'))
         | FSignup dto ip dr \<Rightarrow>
             (case signup env cfg dto ip dr now (b, s) of (r, (b', s')) \<Rightarrow> ((is_ok r, b'), s'))))"

lemma one_mail_users: "one_mail dest n s s' \<Longrightarrow> users s' = users s"
  by (simp add: one_mail_def accounts_same_def)

lemma sendVerification_users:
  "sendVerification env cfg input ip now (b, s) = (r, (b', s')) \<Longrightarrow> users s' = users s"
  by (auto dest!: sendVerification_mail one_mail_users)

lemma requestReset_users:
  "requestReset env cfg input ip now (b, s) = (r, (b', s')) \<Longrightarrow> users s' = users s"
  by (auto dest!: requestReset_mail one_mail_users)

lemma has_admin_same_flags:
  assumes "has_admin s" and "\<And>u. u_id (f u) = u_id u" and "\<And>u. live_admin (f u) = live_admin u"
  shows "has_admin (set_user i f s)"
  by (rule has_admin_set_user [OF assms(1,2)]) (simp add: assms(3))

lemma confirmVerification_admin:
  "confirmVerification env token now s = (r, s') \<Longrightarrow> has_admin s \<Longrightarrow> has_admin s'"
  by (auto simp: confirmVerification_def live_admin_def has_admin_cong [OF record_event_fields(2)]
      split: option.splits if_splits intro!: has_admin_same_flags)

lemma resetPassword_admin:
  assumes "resetPassword env cfg token pw now s = (r, s')" and "has_admin s"
  shows "has_admin s'"
proof (cases r)
  case (Inr x)
  show ?thesis
    using assms(1) [unfolded Inr]
  proof (rule resetPassword_Inr)
    fix i u m
    assume "s' = record_event ''auth.password_reset'' m now (revoke_sessions i now
       (set_user i (\<lambda>v. v\<lparr>u_passwordHash := bcrypt_hash env pw,
          u_emailVerifiedAt := Some (nullish (u_emailVerifiedAt u) now)\<rparr>) s))"
    then have "users s' = users (set_user i (\<lambda>v. v\<lparr>u_passwordHash := bcrypt_hash env pw,
          u_emailVerifiedAt := Some (nullish (u_emailVerifiedAt u) now)\<rparr>) s)"
      by simp
    moreover have "has_admin (set_user i (\<lambda>v. v\<lparr>u_passwordHash := bcrypt_hash env pw,
          u_emailVerifiedAt := Some (nullish (u_emailVerifiedAt u) now)\<rparr>) s)"
      by (rule has_admin_same_flags [OF assms(2)]) (simp_all add: live_admin_def)
    ultimately show ?thesis
      using has_admin_cong by blast
  qed
qed (use assms resetPassword_Inl in fastforce)

lemma signup_create_users:
  assumes "signup_create env cfg dto app slug tid uid now s = (r, s')"
  shows "case r of Inl _ \<Rightarrow> s' = s
    | Inr t \<Rightarrow> t = founded_tenant dto slug tid now \<and> tenants s' = tenants s @ [t]
        \<and> slug \<notin> tn_slug ` set (tenants s) \<and> tid \<notin> tn_id ` set (tenants s)
        \<and> users s' = users s @ [founder env dto tid uid now] \<and> uid \<notin> u_id ` set (users s)
        \<and> apps s' = apps s \<and> (\<exists>g. app_tenants s' = app_tenants s @ [g] \<and> at_tenantId g = tid
             \<and> at_appId g = a_id app \<and> at_status g = Trial
             \<and> at_trialEndsAt g = Some (now + signupTrialDays cfg * day_ms))"
  using assms
  by (auto simp: signup_create_def Let_def insert_tenant_def insert_user_def insert_app_tenant_def
      founder_def founded_tenant_def split: if_splits option.splits)

lemma signup_cases:
  assumes "signup env cfg dto ip dr now (b, s) = (r, (b', s'))"
  obtains (refused) e where "r = Inl e" "b' = b" "s' = s"
  | (created) app slug t s1 tid uid hex where "assertSignupAllowed env cfg (su_inviteToken dto) now = Inr ()"
      "live_app_by_client s (su_clientId dto) = Some app" "dr = (tid, uid, hex)"
      "signup_slug dto hex s = Inr slug" "signup_create env cfg dto app slug tid uid now s = (Inr t, s1)"
      "accounts_same s1 s'" "\<And>v. r = Inr v \<Longrightarrow> v = (slug, now + signupTrialDays cfg * day_ms)"
proof -
  obtain tid uid hex where dr: "dr = (tid, uid, hex)"
    by (cases dr)
  show thesis
  proof (cases "\<exists>app slug t s1. assertSignupAllowed env cfg (su_inviteToken dto) now = Inr ()
      \<and> live_app_by_client s (su_clientId dto) = Some app \<and> signup_slug dto hex s = Inr slug
      \<and> signup_create env cfg dto app slug tid uid now s = (Inr t, s1)")
    case False
    then have "\<exists>e. r = Inl e \<and> b' = b \<and> s' = s"
      using assms dr signup_create_users [of env cfg dto _ _ tid uid now s]
      by (fastforce simp: signup_def split: sum.splits option.splits prod.splits)
    then show thesis
      using refused by blast
  next
    case True
    then obtain app slug t s1 where h: "assertSignupAllowed env cfg (su_inviteToken dto) now = Inr ()"
      "live_app_by_client s (su_clientId dto) = Some app" "signup_slug dto hex s = Inr slug"
      "signup_create env cfg dto app slug tid uid now s = (Inr t, s1)"
      by blast
    have t: "tn_slug t = slug"
      using signup_create_users [OF h(4)] by (simp add: founded_tenant_def)
    obtain r2 b2 s2 where v: "sendVerification env cfg \<lparr>ef_tenantSlug = Some (tn_slug t),
        ef_email = lower (su_email dto), ef_clientId = None\<rparr> None now (b, s1) = (r2, (b2, s2))"
      by (metis prod.collapse)
    have "accounts_same s1 s2"
      using sendVerification_mail [OF v] by (auto simp: one_mail_def)
    moreover have "s' = s2 \<or> (\<exists>m. s' = record_event ''auth.signup'' m now s2)"
      and "\<And>w. r = Inr w \<Longrightarrow> w = (slug, now + signupTrialDays cfg * day_ms)"
      using assms dr h v t by (auto simp: signup_def Let_def split: sum.splits)
    ultimately show thesis
      using created [OF h(1,2) dr h(3,4)] by auto
  qed
qed

lemma signup_admin:
  assumes "signup env cfg dto ip dr now (b, s) = (r, (b', s'))" and "has_admin s"
  shows "has_admin s'"
  using assms(1)
proof (cases rule: signup_cases)
  case (created app slug t s1 tid uid hex)
  then have "users s' = users s @ [founder env dto tid uid now]" "uid \<notin> u_id ` set (users s)"
    using signup_create_users [OF created(5)] by (simp_all add: accounts_same_def)
  then show ?thesis
    using assms(2) by (auto simp: has_admin_def unique_on_append_one founder_def)
qed (use assms(2) in simp)

interpretation public_flows: keeps_admin "flow_step env cfg" for env cfg
proof
  fix s s' :: db and i and r :: "bool \<times> send_buckets"
  assume a: "has_admin s" "flow_step env cfg i s = (r, s')"
  obtain op b now where i: "i = (op, b, now)"
    by (cases i)
  show "has_admin s'"
  proof (cases op)
    case (FSendVerification input ip)
    obtain r1 b1 s1 where v: "sendVerification env cfg input ip now (b, s) = (r1, (b1, s1))"
      by (metis prod.collapse)
    then have "s' = s1"
      using a(2) i FSendVerification by (simp add: flow_step_def)
    then show ?thesis
      using sendVerification_users [OF v] has_admin_cong a(1) by blast
  next
    case (FConfirm token)
    obtain r1 s1 where v: "confirmVerification env token now s = (r1, s1)"
      by (metis prod.collapse)
    then have "s' = s1"
      using a(2) i FConfirm by (simp add: flow_step_def)
    then show ?thesis
      using confirmVerification_admin [OF v a(1)] by simp
  next
    case (FRequestReset input ip)
    obtain r1 b1 s1 where v: "requestReset env cfg input ip now (b, s) = (r1, (b1, s1))"
      by (metis prod.collapse)
    then have "s' = s1"
      using a(2) i FRequestReset by (simp add: flow_step_def)
    then show ?thesis
      using requestReset_users [OF v] has_admin_cong a(1) by blast
  next
    case (FReset token pw)
    obtain r1 s1 where v: "resetPassword env cfg token pw now s = (r1, s1)"
      by (metis prod.collapse)
    then have "s' = s1"
      using a(2) i FReset by (simp add: flow_step_def)
    then show ?thesis
      using resetPassword_admin [OF v a(1)] by simp
  next
    case (FSignup dto ip dr)
    obtain r1 b1 s1 where v: "signup env cfg dto ip dr now (b, s) = (r1, (b1, s1))"
      by (metis prod.collapse)
    then have "s' = s1"
      using a(2) i FSignup by (simp add: flow_step_def)
    then show ?thesis
      using signup_admin [OF v a(1)] by simp
  qed
qed

section \<open>Properties\<close>

definition sample_reset :: string where
  "sample_reset = ''kreset:u1:bpw''"

definition sample_signup :: signup_dto where
  "sample_signup = \<lparr>su_company = ''Big Co.'', su_slug = None, su_email = ''Boss@big'',
     su_password = ''pw2'', su_firstName = Some ''Bo'', su_lastName = None, su_clientId = ''swag'',
     su_inviteToken = None\<rparr>"

text \<open>The account a reset link names.\<close>

definition named_by :: "env \<Rightarrow> string \<Rightarrow> string option" where
  "named_by env token = Option.bind (jwt_decode env token) (subject_for ''password_reset'')"

lemma reset_refused_later:
  assumes "\<And>k k' t t'. hmac_verify env k t token \<Longrightarrow> hmac_verify env k' t' token \<Longrightarrow> k = k'"
    and "\<And>m m'. hmac_hex env (secretKey cfg) m = hmac_hex env (secretKey cfg) m' \<Longrightarrow> m = m'"
    and "resetPassword env cfg token pw now s = (Inr (), s')"
    and "\<And>i u u2. named_by env token = Some i \<Longrightarrow> user_by_id s i = Some u \<Longrightarrow> user_by_id s2 i = Some u2 \<Longrightarrow>
      u_passwordHash u2 \<noteq> u_passwordHash u"
  shows "resetPassword env cfg token pw' later s2 = (Inl invalid_link, s2)"
proof (cases "resetPassword env cfg token pw' later s2")
  case (Pair r s3)
  show ?thesis
  proof (cases r)
    case (Inl e)
    then show ?thesis
      using Pair resetPassword_Inl [of env cfg token pw' later s2 e s3] by simp
  next
    case (Inr y)
    have "\<exists>i u u2. Option.bind (jwt_decode env token) (subject_for ''password_reset'') = Some i
        \<and> user_by_id s i = Some u \<and> user_by_id s2 i = Some u2 \<and> u_passwordHash u2 = u_passwordHash u"
      by (rule reset_bound_to_password [OF assms(1,2) assms(3) Pair [unfolded Inr]]) assumption+
    then show ?thesis
      using assms(4) unfolding named_by_def by blast
  qed
qed

lemma reset_sets_hash:
  assumes "resetPassword env cfg token pw now s = (Inr (), s')" and "named_by env token = Some i"
    and "user_by_id s i = Some u" and "user_by_id s' i = Some u'"
  shows "u_passwordHash u' = bcrypt_hash env pw"
  using assms(1)
proof (rule resetPassword_Inr)
  fix i2 and u2 :: user and m
  let ?f = "\<lambda>v. v\<lparr>u_passwordHash := bcrypt_hash env pw,
      u_emailVerifiedAt := Some (nullish (u_emailVerifiedAt u2) now)\<rparr>"
  assume h: "Option.bind (jwt_decode env token) (subject_for ''password_reset'') = Some i2"
    "s' = record_event ''auth.password_reset'' m now (revoke_sessions i2 now (set_user i2 ?f s))"
  then have "i2 = i"
    using assms(2) by (simp add: named_by_def)
  then have "user_by_id s' i = Some (?f u)"
    using h(2) user_by_id_set_user [OF assms(3), of ?f] by (simp add: user_by_id_def)
  then show ?thesis
    using assms(4) by simp
qed

text \<open>
  C30: A reset link works once. If a signature determines the secret that made it and digests of
  different texts differ, then a link that has reset a password is refused, with nothing changed, at
  every later moment at which the account does not have the password hash of before the reset, whatever
  was done in between; and it is right after the reset, unless hashing the new password gave a hash
  already stored. (Bcrypt draws a salt, so that a hash does not come back.)
\<close>

theorem reset_link_single_use:
  assumes "\<And>k k' t t'. hmac_verify env k t token \<Longrightarrow> hmac_verify env k' t' token \<Longrightarrow> k = k'"
    and "\<And>m m'. hmac_hex env (secretKey cfg) m = hmac_hex env (secretKey cfg) m' \<Longrightarrow> m = m'"
    and "resetPassword env cfg token pw now s = (Inr (), s')"
  shows "((\<forall>i u u2. named_by env token = Some i \<and> user_by_id s i = Some u \<and> user_by_id s2 i = Some u2
          \<longrightarrow> u_passwordHash u2 \<noteq> u_passwordHash u)
        \<longrightarrow> resetPassword env cfg token pw' later s2 = (Inl invalid_link, s2))
    \<and> (bcrypt_hash env pw \<notin> u_passwordHash ` set (users s)
        \<longrightarrow> resetPassword env cfg token pw' later s' = (Inl invalid_link, s'))"
proof (intro conjI impI)
  assume "\<forall>i u u2. named_by env token = Some i \<and> user_by_id s i = Some u \<and> user_by_id s2 i = Some u2
      \<longrightarrow> u_passwordHash u2 \<noteq> u_passwordHash u"
  then show "resetPassword env cfg token pw' later s2 = (Inl invalid_link, s2)"
    by (intro reset_refused_later [OF assms]) blast+
next
  assume fresh: "bcrypt_hash env pw \<notin> u_passwordHash ` set (users s)"
  have "u_passwordHash u2 \<noteq> u_passwordHash u"
    if "named_by env token = Some i" "user_by_id s i = Some u" "user_by_id s' i = Some u2" for i u u2
    using reset_sets_hash [OF assms(3) that] fresh user_by_idD [OF that(2)] by (metis image_eqI)
  then show "resetPassword env cfg token pw' later s' = (Inl invalid_link, s')"
    by (intro reset_refused_later [OF assms]) blast+
qed

text \<open>The database after the link was used, and after a second reset with a new link.\<close>

definition reset_once :: db where
  "reset_once = snd (resetPassword sample_env sample_cfg sample_reset ''new'' 5 sample_db)"

definition reset_twice :: db where
  "reset_twice = snd (resetPassword sample_env sample_cfg ''kreset:u1:bnew'' ''third'' 6 reset_once)"

lemma reset_link_single_use_witness:
  "is_ok (fst (resetPassword sample_env sample_cfg sample_reset ''new'' 5 sample_db))
   \<and> resetPassword sample_env sample_cfg sample_reset ''again'' 7 reset_once = (Inl invalid_link, reset_once)
   \<and> resetPassword sample_env sample_cfg sample_reset ''again'' 7 reset_twice = (Inl invalid_link, reset_twice)"
proof -
  let ?r = "resetPassword sample_env sample_cfg sample_reset ''new'' 5 sample_db"
  have ok: "is_ok (fst ?r)"
    by code_simp
  then have r: "?r = (Inr (), reset_once)"
    by (auto simp: reset_once_def elim: is_ok_fstE)
  have fresh: "bcrypt_hash sample_env ''new'' \<notin> u_passwordHash ` set (users sample_db)"
    by code_simp
  have laws: "\<And>k k' t t'. hmac_verify sample_env k t sample_reset \<Longrightarrow>
      hmac_verify sample_env k' t' sample_reset \<Longrightarrow> k = k'"
    "\<And>m m'. hmac_hex sample_env (secretKey sample_cfg) m = hmac_hex sample_env (secretKey sample_cfg) m' \<Longrightarrow> m = m'"
    by (simp_all add: sample_env_def)
  have single: "((\<forall>i u u2. named_by sample_env sample_reset = Some i \<and> user_by_id sample_db i = Some u
          \<and> user_by_id reset_twice i = Some u2 \<longrightarrow> u_passwordHash u2 \<noteq> u_passwordHash u)
        \<longrightarrow> resetPassword sample_env sample_cfg sample_reset ''again'' 7 reset_twice = (Inl invalid_link, reset_twice))
    \<and> (bcrypt_hash sample_env ''new'' \<notin> u_passwordHash ` set (users sample_db)
        \<longrightarrow> resetPassword sample_env sample_cfg sample_reset ''again'' 7 reset_once = (Inl invalid_link, reset_once))"
    by (rule reset_link_single_use [OF _ _ r]) (fact laws)+
  have "named_by sample_env sample_reset = Some ''u1''" "map_option u_passwordHash (user_by_id sample_db ''u1'') = Some ''bpw''"
    "map_option u_passwordHash (user_by_id reset_twice ''u1'') = Some ''bthird''"
    by code_simp+
  then show ?thesis
    using single fresh ok by auto
qed

text \<open>
  C31: A reset changes one account and ends its sessions. After a successful reset the account has the
  new password and a verified mailbox and none of its refresh tokens is live; every other account,
  and every other account's tokens, are as they were. A refused reset changes nothing.
\<close>

theorem reset_ends_sessions:
  assumes "resetPassword env cfg token pw now s = (r, s')"
  shows "case r of
      Inl _ \<Rightarrow> s' = s
    | Inr _ \<Rightarrow> (\<exists>i u. user_by_id s i = Some u \<and> u_deletedAt u = None \<and> live_tokens i s' = {}
        \<and> (\<exists>u'. user_by_id s' i = Some u' \<and> u_passwordHash u' = bcrypt_hash env pw
             \<and> u_emailVerifiedAt u' \<noteq> None)
        \<and> filter (\<lambda>v. u_id v \<noteq> i) (users s') = filter (\<lambda>v. u_id v \<noteq> i) (users s)
        \<and> (\<forall>j. j \<noteq> i \<longrightarrow> filter (\<lambda>t. rt_userId t = j) (refresh_tokens s')
             = filter (\<lambda>t. rt_userId t = j) (refresh_tokens s)))"
proof (cases r)
  case (Inr x)
  show ?thesis
    using assms [unfolded Inr]
  proof (rule resetPassword_Inr)
    fix i and u :: user and m
    let ?f = "\<lambda>v. v\<lparr>u_passwordHash := bcrypt_hash env pw,
        u_emailVerifiedAt := Some (nullish (u_emailVerifiedAt u) now)\<rparr>"
    assume h: "user_by_id s i = Some u" "u_deletedAt u = None"
      "s' = record_event ''auth.password_reset'' m now (revoke_sessions i now (set_user i ?f s))"
    have "user_by_id s' i = Some (?f u)"
      using h(3) user_by_id_set_user [OF h(1), of ?f] by (simp add: user_by_id_def)
    moreover have "filter (\<lambda>v. u_id v \<noteq> i) (users s') = filter (\<lambda>v. u_id v \<noteq> i) (users s)"
      by (simp add: h(3) set_user_def filter_upd_where_other)
    moreover have "filter (\<lambda>t. rt_userId t = j) (refresh_tokens s')
        = filter (\<lambda>t. rt_userId t = j) (refresh_tokens s)" if "j \<noteq> i" for j
      using revoke_sessions_others [OF that] by (simp add: h(3) set_user_def)
    moreover have "live_tokens i s' = {}"
      by (simp add: h(3))
    ultimately show ?thesis
      using Inr h(1,2) by (simp, intro exI [of _ i] exI [of _ u]) simp
  qed
qed (use assms resetPassword_Inl in fastforce)

lemma reset_ends_sessions_witness:
  "live_tokens ''u1'' sample_db \<noteq> {} \<and> (\<exists>i. live_tokens i
     (snd (resetPassword sample_env sample_cfg sample_reset ''new'' 5 sample_db)) = {})"
proof -
  have "is_ok (fst (resetPassword sample_env sample_cfg sample_reset ''new'' 5 sample_db))"
    "sample_token \<in> live_tokens ''u1'' sample_db"
    by code_simp+
  then show ?thesis
    using reset_ends_sessions [OF prod.collapse [symmetric],
        of sample_env sample_cfg sample_reset "''new''" 5 sample_db]
    by (auto simp: is_ok_iff)
qed

text \<open>
  Recovery mail goes to the mailbox it is about and speaks for a registered product. A request
  for a reset touches no account, workspace, grant or session and sends at most one message, to the
  address of the live account it asks about, under the platform's name or a registered, live app's;
  the link a user is sent home to is the platform's or a callback URL of that app.
\<close>

theorem recovery_mail_confined:
  assumes "requestReset env cfg input ip now (b, s) = (r, (b', s'))"
  shows "accounts_same s s'
     \<and> (outbox s' = outbox s \<or> (\<exists>m u. outbox s' = outbox s @ [m] \<and> u \<in> set (users s)
          \<and> u_deletedAt u = None \<and> u_email u = lower (ef_email input) \<and> m_to m = u_email u
          \<and> m_fromName m = non_empty (pr_name (resolveProduct cfg (ef_clientId input) s))))
     \<and> (resolveProduct cfg (ef_clientId input) s = PLATFORM cfg
        \<or> (\<exists>app \<in> set (apps s). a_deletedAt app = None \<and> Some (a_clientId app) = ef_clientId input
             \<and> resolveProduct cfg (ef_clientId input) s = product_of_app cfg app
             \<and> (pr_signInUrl (product_of_app cfg app) = pr_signInUrl (PLATFORM cfg)
                \<or> pr_signInUrl (product_of_app cfg app) \<in> set (a_callbackUrls app))))"
proof -
  have "accounts_same s s' \<and> (outbox s' = outbox s \<or> (\<exists>m u. outbox s' = outbox s @ [m] \<and> u \<in> set (users s)
          \<and> u_deletedAt u = None \<and> u_email u = lower (ef_email input) \<and> m_to m = u_email u
          \<and> m_fromName m = non_empty (pr_name (resolveProduct cfg (ef_clientId input) s))))"
    using requestReset_mail [OF assms] findByEmailD [of input s]
    by (auto simp: one_mail_def non_empty_def split: if_splits)
  moreover have "resolveProduct cfg (ef_clientId input) s = PLATFORM cfg
        \<or> (\<exists>app \<in> set (apps s). a_deletedAt app = None \<and> Some (a_clientId app) = ef_clientId input
             \<and> resolveProduct cfg (ef_clientId input) s = product_of_app cfg app
             \<and> (pr_signInUrl (product_of_app cfg app) = pr_signInUrl (PLATFORM cfg)
                \<or> pr_signInUrl (product_of_app cfg app) \<in> set (a_callbackUrls app)))"
    by (rule resolveProduct_cases [of cfg "ef_clientId input" s]) (use product_url in blast)+
  ultimately show ?thesis
    by blast
qed

lemma recovery_mail_confined_witness:
  "accounts_same sample_db (snd (snd (requestReset sample_env sample_cfg
     \<lparr>ef_tenantSlug = Some ''acme'', ef_email = ''A@x'', ef_clientId = Some ''swag''\<rparr> None 5
     (Map.empty, sample_db))))"
proof -
  let ?r = "requestReset sample_env sample_cfg
     \<lparr>ef_tenantSlug = Some ''acme'', ef_email = ''A@x'', ef_clientId = Some ''swag''\<rparr> None 5 (Map.empty, sample_db)"
  obtain r b' s' where "?r = (r, (b', s'))"
    by (metis prod.collapse)
  with recovery_mail_confined [OF this] show ?thesis
    by simp
qed

text \<open>
  C40: The answers do not tell whether an account exists. While the relay is configured and takes
  messages, a request for a verification mail, for a reset or for the list of workspaces gets the
  same answer for every address, every client and every state of the limiter.
\<close>

theorem recovery_answers_alike:
  assumes "mail_works env cfg s"
  shows "fst (sendVerification env cfg input ip now (b, s)) = Inr ()
     \<and> fst (requestReset env cfg input ip now (b, s)) = Inr ()
     \<and> fst (listWorkspaces env cfg collation email clientId ip now (b, s)) = Inr ()"
  using recovery_ok [OF assms] by blast

lemma recovery_answers_alike_witness:
  "mail_works sample_env sample_cfg sample_db
   \<and> fst (requestReset sample_env sample_cfg
       \<lparr>ef_tenantSlug = Some ''acme'', ef_email = ''a@x'', ef_clientId = None\<rparr> None 5 (Map.empty, sample_db))
     = fst (requestReset sample_env sample_cfg
       \<lparr>ef_tenantSlug = Some ''acme'', ef_email = ''nobody@x'', ef_clientId = None\<rparr> None 5 (Map.empty, sample_db))"
proof -
  have "mail_works sample_env sample_cfg sample_db"
    by (simp add: mail_works_def resolveConfig_def smtp_of_def sample_env_def sample_cfg_def
        sample_db_def empty_db_def)
  from this recovery_answers_alike [OF this, THEN conjunct2, THEN conjunct1] show ?thesis
    by metis
qed



text \<open>
  A derived workspace name is one the console would accept. Where the founder names no slug, the
  one derived from the company, or the fallback with its suffix of four letters and digits, starts
  with a letter or digit, holds only letters, digits and dashes, and has at most 40 characters.
\<close>

theorem derived_slug_wellformed:
  assumes "signup_slug dto hex s = Inr slug" and "\<not> truthy (su_slug dto)"
    and "list_all slug_char hex" and "length hex = 4"
  shows "slug_ok slug \<and> length slug \<le> 40"
  by (rule signup_slug_ok [OF assms])

lemma derived_slug_wellformed_witness:
  "signup_slug sample_signup ''00af'' sample_db = Inr ''big-co'' \<and> slug_ok ''big-co''"
proof -
  have s: "signup_slug sample_signup ''00af'' sample_db = Inr ''big-co''" "list_all slug_char ''00af''"
    "\<not> truthy (su_slug sample_signup)"
    by code_simp+
  with derived_slug_wellformed [OF s(1,3,2)] show ?thesis
    by simp
qed

section \<open>Observations\<close>

text \<open>The cut to 40 characters comes after the dashes at the ends are removed, so it can leave one.\<close>

lemma slug_may_end_in_dash:
  "slugify (replicate 39 (CHR ''a'') @ '' b'') = replicate 39 (CHR ''a'') @ ''-''"
  by code_simp

text \<open>
  The flows answer alike only while mail works. Without a relay, a request for an address that has
  an account fails and one for an address that has none does not.
\<close>

lemma broken_mail_tells_accounts_apart:
  "let cfg = sample_cfg\<lparr>smtpFallback := None\<rparr>;
       ask = (\<lambda>email. is_ok (fst (sendVerification sample_env cfg
         \<lparr>ef_tenantSlug = Some ''acme'', ef_email = email, ef_clientId = None\<rparr> None 5
         (Map.empty, sample_db\<lparr>users := [sample_user\<lparr>u_emailVerifiedAt := None\<rparr>]\<rparr>))))
   in \<not> ask ''a@x'' \<and> ask ''nobody@x''"
  by code_simp

end
