(* ===== verification/Auth_Pages.thy ===== *)
theory Auth_Pages
  imports Email_Layout Account_Flows Policy
begin

text \<open>
  The pages that the links of the platform's mail land on, \<open>platform/src/auth/auth-pages.ts\<close>, and the
  routes that serve them: \<open>verifyPage\<close> and \<open>resetPage\<close> of \<open>auth.controller.ts\<close>, \<open>acceptPage\<close> of
  \<open>tenant/invite-accept.controller.ts\<close>. A template literal is woven from its texts, as in
  \<open>Email_Layout\<close>. What the scripts of the pages do with a form is not modelled.
\<close>

section \<open>Parts\<close>

definition SHELL_STYLE :: string where
  \<open>SHELL_STYLE = ''
  :root { color-scheme: light; }
  body { margin: 0; min-height: 100vh; display: grid; place-items: center;
    background: #cfe0f0; font-family: system-ui, "Segoe UI", sans-serif; color: #14304a; }
  .card { background: #c3d7f0; border: 1px solid #9fbadd; border-radius: 10px;
    padding: 28px 34px; max-width: 420px; text-align: center;
    box-shadow: 0 2px 10px rgba(0, 51, 102, 0.12); }
  /* Names the product above the heading: someone who arrived from a reset
     email needs to see which product this page belongs to before typing a
     password into it (#103). */
  .brand { font-size: 13px; font-weight: 700; letter-spacing: .02em;
    text-transform: none; color: #1d4067; margin: 0 0 14px;
    padding-bottom: 10px; border-bottom: 1px solid #9fbadd; }
  h1 { font-size: 20px; margin: 0 0 10px; color: #003366; }
  p { font-size: 14px; line-height: 1.5; margin: 0 0 8px; }
  .err { color: #a33; min-height: 18px; font-size: 13px; }
  input { width: 100%; box-sizing: border-box; margin: 6px 0; padding: 9px 10px;
    border: 1px solid #9fbadd; border-radius: 6px; font-size: 14px; }
  button { width: 100%; margin-top: 10px; padding: 10px; border: 0; border-radius: 6px;
    background: #336699; color: #fff; font-size: 14px; font-weight: 600; cursor: pointer; }
  button:hover { background: #003366; }
  /* Password field with an inline show/hide toggle, mirroring the console. */
  .pw-field { position: relative; }
  .pw-field input { padding-right: 40px; }
  .pw-field button.pw-toggle { position: absolute; right: 2px; top: 6px; bottom: 6px;
    width: 34px; margin: 0; padding: 0; display: flex; align-items: center;
    justify-content: center; background: none; border: 0; border-radius: 6px;
    color: #4a6b8a; cursor: pointer; }
  .pw-field button.pw-toggle:hover { background: none; color: #003366; }
  .pw-field button.pw-toggle:focus-visible { outline: 2px solid #336699; outline-offset: 1px; }
  a.cta { display: block; margin-top: 14px; padding: 10px; border-radius: 6px;
    background: #336699; color: #fff; font-size: 14px; font-weight: 600;
    text-decoration: none; }
  a.cta:hover { background: #003366; }
''\<close>

definition EYE :: string where
  \<open>EYE = ''<svg width="16" height="16" viewBox="0 0 24 24" fill="none" stroke="currentColor" stroke-width="2" stroke-linecap="round" stroke-linejoin="round"><path d="M1 12s4-8 11-8 11 8 11 8-4 8-11 8-11-8-11-8z"/><circle cx="12" cy="12" r="3"/></svg>''\<close>

definition PASSWORD_FIELD :: "string list" where
  \<open>PASSWORD_FIELD = [
''<div class="pw-field">
      <input id="'',
''" type="password" placeholder="'',
''" autocomplete="new-password" required />
      <button type="button" class="pw-toggle" data-pw-toggle aria-label="Show password">'',
''</button>
    </div>'']\<close>

definition passwordField :: "string \<Rightarrow> string \<Rightarrow> string" where
  "passwordField i hint = weave PASSWORD_FIELD [i, hint, EYE]"

definition PAGE_SCRIPT :: string where
  \<open>PAGE_SCRIPT = ''<script src="/auth-pages.js"></script>''\<close>

definition escapeHtml :: "string \<Rightarrow> string" where
  "escapeHtml value = esc value"

definition CTA :: "string list" where
  \<open>CTA = [
''<a class="cta" href="'',
''">Go to sign in</a>'']\<close>

definition signInButton :: "config \<Rightarrow> string" where
  "signInButton cfg = weave CTA [escapeHtml (publicBaseUrl cfg @ ''/'')]"

text \<open>Pages take the platform's name where they are given no product.\<close>

definition PAGE :: "string list" where
  \<open>PAGE = [
''<!doctype html><html lang="en"><head><meta charset="utf-8"/>
<meta name="viewport" content="width=device-width, initial-scale=1"/>
<meta name="robots" content="noindex"/><title>'',
''</title>
<style>'',
''</style></head><body><div class="card">
<p class="brand">'',
''</p>'',
''</div></body></html>'']\<close>

definition html_page :: "string \<Rightarrow> string \<Rightarrow> string" where
  "html_page body product = weave PAGE [escapeHtml product, SHELL_STYLE, escapeHtml product, body]"

definition PASSWORD_RULES_TEXT :: string where
  "PASSWORD_RULES_TEXT = ''At least '' @ show_int (int PASSWORD_MIN_LENGTH)
     @ '' characters. Longer is stronger '' @ em_dash @ '' a phrase of a few words works well, and spaces are allowed. ''
     @ ''No special-character requirements. Avoid common passwords and runs like abcde or 12345.''"

section \<open>Pages\<close>

definition VERIFIED :: "string list" where
  \<open>VERIFIED = [
''<h1>Email verified</h1>
         <p>Your account is active.</p>
         '']\<close>

definition NOT_VERIFIED :: string where
  \<open>NOT_VERIFIED = ''<h1>Link invalid or expired</h1>
         <p>This verification link no longer works. Request a new one from the
         sign-in screen, or ask your administrator.</p>''\<close>

definition verifyResultPage :: "config \<Rightarrow> bool \<Rightarrow> string" where
  "verifyResultPage cfg ok =
     html_page (if ok then weave VERIFIED [signInButton cfg] else NOT_VERIFIED) (platformName cfg)"

definition RESET_FORM :: "string list" where
  \<open>RESET_FORM = [
''
    <h1>Set a new password</h1>
    <p>'',
''</p>
    <form id="f" data-flow="reset" data-token="'',
''" data-min="'',
''" data-signin-url="'',
''">
      '',
''
      '',
''
      <p class="err" id="err"></p>
      <button type="submit">Reset password</button>
    </form>
    '']\<close>

definition resetFormPage :: "string \<Rightarrow> product \<Rightarrow> string" where
  "resetFormPage token product =
     html_page (weave RESET_FORM
       [PASSWORD_RULES_TEXT, escapeHtml token, show_int (int PASSWORD_MIN_LENGTH),
        escapeHtml (pr_signInUrl product), passwordField ''pw'' ''New password'',
        passwordField ''pw2'' ''Confirm new password'', PAGE_SCRIPT]) (pr_name product)"

definition RESET_INVALID :: string where
  \<open>RESET_INVALID = ''<h1>Link invalid or expired</h1>
    <p>Reset links work once and expire after 30 minutes. Request a new one
    from the sign-in screen.</p>''\<close>

definition resetInvalidPage :: "config \<Rightarrow> string" where
  "resetInvalidPage cfg = html_page RESET_INVALID (platformName cfg)"

definition INVITE_FORM :: "string list" where
  \<open>INVITE_FORM = [
''
    <h1>Create your account</h1>
    <p>Choose a password. '',
''</p>
    <form id="f" data-flow="invite" data-token="'',
''" data-min="'',
''" data-signin-url="'',
''">
      <input id="fn" type="text" placeholder="First name" autocomplete="given-name" />
      <input id="ln" type="text" placeholder="Last name" autocomplete="family-name" />
      '',
''
      '',
''
      <p class="err" id="err"></p>
      <button type="submit">Create account</button>
    </form>
    '']\<close>

definition inviteAcceptPage :: "config \<Rightarrow> string \<Rightarrow> string" where
  "inviteAcceptPage cfg token =
     html_page (weave INVITE_FORM
       [PASSWORD_RULES_TEXT, escapeHtml token, show_int (int PASSWORD_MIN_LENGTH),
        escapeHtml (publicBaseUrl cfg @ ''/''), passwordField ''pw'' ''Password'',
        passwordField ''pw2'' ''Confirm password'', PAGE_SCRIPT]) (platformName cfg)"

definition INVITE_INVALID :: string where
  \<open>INVITE_INVALID = ''<h1>Invite invalid or expired</h1>
    <p>Invites work once and expire after 24 hours. Ask your workspace admin
    to send a fresh one.</p>''\<close>

definition inviteInvalidPage :: "config \<Rightarrow> string" where
  "inviteInvalidPage cfg = html_page INVITE_INVALID (platformName cfg)"

section \<open>Routes\<close>

text \<open>\<open>/^[\w-]+\.[\w-]+\.[\w-]+$/\<close> and \<open>/^[\w-]{40,64}$/\<close>.\<close>

definition url_char :: "char \<Rightarrow> bool" where
  "url_char c \<longleftrightarrow> word_char c \<or> c = CHR ''-''"

definition JWT_SHAPE :: "string \<Rightarrow> bool" where
  "JWT_SHAPE s = (case split_at (\<lambda>c. c = CHR ''.'') s of
     [a, b, c] \<Rightarrow> list_all (\<lambda>w. w \<noteq> [] \<and> list_all url_char w) [a, b, c] | _ \<Rightarrow> False)"

definition TOKEN_SHAPE :: "string \<Rightarrow> bool" where
  "TOKEN_SHAPE s \<longleftrightarrow> 40 \<le> length s \<and> length s \<le> 64 \<and> list_all url_char s"

definition verifyPage :: "env \<Rightarrow> config \<Rightarrow> string option \<Rightarrow> time \<Rightarrow> db \<Rightarrow> string \<times> db" where
  "verifyPage env cfg token now s =
     (case token of
        Some t \<Rightarrow>
          if t \<noteq> [] \<and> JWT_SHAPE t then
            (case confirmVerification env t now s of (r, s1) \<Rightarrow> (verifyResultPage cfg (is_ok r), s1))
          else (verifyResultPage cfg False, s)
      | None \<Rightarrow> (verifyResultPage cfg False, s))"

definition resetPage :: "env \<Rightarrow> config \<Rightarrow> string option \<Rightarrow> db \<Rightarrow> string" where
  "resetPage env cfg token s =
     (case token of
        Some t \<Rightarrow> if t \<noteq> [] \<and> JWT_SHAPE t then resetFormPage t (productForResetToken env cfg t s)
          else resetInvalidPage cfg
      | None \<Rightarrow> resetInvalidPage cfg)"

definition acceptPage :: "config \<Rightarrow> string option \<Rightarrow> string" where
  "acceptPage cfg token =
     (case token of
        Some t \<Rightarrow> if t \<noteq> [] \<and> TOKEN_SHAPE t then inviteAcceptPage cfg t else inviteInvalidPage cfg
      | None \<Rightarrow> inviteInvalidPage cfg)"

section \<open>No value opens a tag in a page\<close>

definition PAGE_TAGS :: "string list" where
  "PAGE_TAGS = [''!doctype'', ''html'', ''/html'', ''head'', ''/head'', ''meta'', ''title'', ''/title'', ''style'',
     ''/style'', ''body'', ''/body'', ''div'', ''/div'', ''h1'', ''/h1'', ''p'', ''/p'', ''a'', ''/a'', ''form'', ''/form'',
     ''input'', ''button'', ''/button'', ''svg'', ''/svg'', ''path'', ''circle'', ''script'', ''/script'']"

abbreviation own_tags :: "string \<Rightarrow> bool" where
  "own_tags s \<equiv> list_all (\<lambda>t. t \<in> set PAGE_TAGS) (opened s)"

abbreviation own_literal :: "string list \<Rightarrow> bool" where
  "own_literal ls \<equiv> list_all (\<lambda>l. \<not> dangling l \<and> own_tags l) ls"

lemma literal_password_field: "own_literal PASSWORD_FIELD"
  by code_simp

lemma literal_cta: "own_literal CTA"
  by code_simp

lemma literal_page: "own_literal PAGE"
  by code_simp

lemma literal_verified: "own_literal VERIFIED"
  by code_simp

lemma literal_reset_form: "own_literal RESET_FORM"
  by code_simp

lemma literal_invite_form: "own_literal INVITE_FORM"
  by code_simp

lemmas own_literals = literal_password_field literal_cta literal_page literal_verified literal_reset_form literal_invite_form

lemma own_style: "CHR ''<'' \<notin> set SHELL_STYLE"
  by (simp add: SHELL_STYLE_def)

lemma own_texts:
  "own_tags EYE" "own_tags PAGE_SCRIPT" "own_tags NOT_VERIFIED" "own_tags RESET_INVALID" 
  "own_tags INVITE_INVALID"
  by code_simp+

lemma own_weave:
  assumes "own_literal ls" and "fits ls vs" and "list_all own_tags vs"
  shows "own_tags (weave ls vs)"
proof -
  have "set (opened (weave ls vs)) \<subseteq> set (concat (map opened ls)) \<union> set (concat (map opened vs))"
    using assms(1,2) by (intro opened_weave) (auto simp: list_all_iff)
  then show ?thesis
    using assms(1,3) by (fastforce simp: list_all_iff)
qed

lemma own_plain [simp]: "CHR ''<'' \<notin> set s \<Longrightarrow> own_tags s"
  by simp

lemma min_length_text: "show_int (int PASSWORD_MIN_LENGTH) = ''12''"
proof -
  have "(char_of (49::nat) :: char) = CHR ''1''" "(char_of (50::nat) :: char) = CHR ''2''"
    by code_simp+
  then show ?thesis
    by (simp add: PASSWORD_MIN_LENGTH_def show_int_def digits_of.simps)
qed

lemma lt_parts [simp]:
  "CHR ''<'' \<notin> set (escapeHtml v)" "CHR ''<'' \<notin> set (show_int (int PASSWORD_MIN_LENGTH))"
  "CHR ''<'' \<notin> set PASSWORD_RULES_TEXT"
  by (simp_all add: escapeHtml_def min_length_text PASSWORD_RULES_TEXT_def em_dash_def)

lemma own_field: "CHR ''<'' \<notin> set i \<Longrightarrow> CHR ''<'' \<notin> set hint \<Longrightarrow> own_tags (passwordField i hint)"
  unfolding passwordField_def
  by (rule own_weave [OF own_literals(1)])
     (simp_all add: PASSWORD_FIELD_def own_texts starts_name_def name_char_def)

lemma own_button: "own_tags (signInButton cfg)"
  unfolding signInButton_def
  by (rule own_weave [OF own_literals(2)]) (simp_all add: CTA_def)

lemma own_page: "own_tags body \<Longrightarrow> own_tags (html_page body product)"
  unfolding html_page_def
  by (rule own_weave [OF own_literals(3)]) (simp_all add: PAGE_def own_style starts_name_def name_char_def)

lemma own_verify: "own_tags (verifyResultPage cfg ok)"
proof -
  have "own_tags (weave VERIFIED [signInButton cfg])"
    by (rule own_weave [OF own_literals(4)]) (simp_all add: VERIFIED_def own_button)
  then show ?thesis
    unfolding verifyResultPage_def by (intro own_page) (simp add: own_texts)
qed

lemma own_reset_form: "own_tags (resetFormPage token product)"
  unfolding resetFormPage_def
  by (intro own_page own_weave [OF own_literals(5)])
     (simp_all add: RESET_FORM_def own_field own_texts starts_name_def name_char_def js_white_def)

lemma own_invite_form: "own_tags (inviteAcceptPage cfg token)"
  unfolding inviteAcceptPage_def
  by (intro own_page own_weave [OF own_literals(6)])
     (simp_all add: INVITE_FORM_def own_field own_texts starts_name_def name_char_def js_white_def)

lemma own_invalid: "own_tags (resetInvalidPage cfg)" "own_tags (inviteInvalidPage cfg)"
  unfolding resetInvalidPage_def inviteInvalidPage_def by (intro own_page own_texts)+

text \<open>
  Whatever is in a link, and whatever products are called, the pages behind the links of the platform's
  mail open only their own tags. The form for a new password names the platform or an app that is
  registered, and leads to that app: a forged token can only choose among them.
\<close>

theorem pages_open_no_tag:
  "list_all (\<lambda>page. set (opened page) \<subseteq> set PAGE_TAGS)
     [fst (verifyPage env cfg token now s), resetPage env cfg token s, acceptPage cfg token]
   \<and> (resetPage env cfg token s = resetInvalidPage cfg
      \<or> (\<exists>t p. token = Some t \<and> resetPage env cfg token s = resetFormPage t p
           \<and> (p = PLATFORM cfg \<or> (\<exists>app \<in> set (apps s). p = product_of_app cfg app))))"
proof
  have own: "set (opened page) \<subseteq> set PAGE_TAGS" if "own_tags page" for page
    using that by (auto simp: list_all_iff)
  have "own_tags (fst (verifyPage env cfg token now s))"
    by (simp add: verifyPage_def own_verify split: option.split prod.split)
  moreover have "own_tags (resetPage env cfg token s)"
    by (simp add: resetPage_def own_reset_form own_invalid split: option.split)
  moreover have "own_tags (acceptPage cfg token)"
    by (simp add: acceptPage_def own_invite_form own_invalid split: option.split)
  ultimately show "list_all (\<lambda>page. set (opened page) \<subseteq> set PAGE_TAGS)
     [fst (verifyPage env cfg token now s), resetPage env cfg token s, acceptPage cfg token]"
    using own by simp
  have "p = PLATFORM cfg \<or> (\<exists>app \<in> set (apps s). p = product_of_app cfg app)"
    if "p = productForResetToken env cfg t s" for p t
    using that by (auto simp: productForResetToken_def resolveProduct_def live_app_by_client_def
        dest: find_SomeD split: option.splits if_splits)
  then show "resetPage env cfg token s = resetInvalidPage cfg
      \<or> (\<exists>t p. token = Some t \<and> resetPage env cfg token s = resetFormPage t p
           \<and> (p = PLATFORM cfg \<or> (\<exists>app \<in> set (apps s). p = product_of_app cfg app)))"
    by (auto simp: resetPage_def split: option.split)
qed

end
