(* ===== verification/Billing.thy ===== *)
theory Billing
  imports Auth
begin

text \<open>
  Stripe billing, \<open>platform/src/billing/billing.service.ts\<close> and \<open>billing.controller.ts\<close>. Each
  (tenant, app) pair has its own grant row (\<open>app_tenant\<close>), which webhook events drive.

  Stripe's client library is the record \<open>stripe_api\<close>, an argument that is \<open>None\<close> where
  \<open>STRIPE_SECRET_KEY\<close> is unset; \<open>url_origin\<close> stands for \<open>new URL(u).origin\<close>, \<open>None\<close> where the
  constructor throws. The objects of an event carry the fields the service reads. The state a
  handler leaves is the database; what it asks of Stripe is visible in the request it builds.
\<close>

section \<open>Stripe's objects\<close>

record subscription =
  su_id :: string
  su_status :: string
  su_metaTenantId :: "string option"
  su_metaAppId :: "string option"
  su_priceId :: "string option" \<comment> \<open>of the first item\<close>

text \<open>A reference to a subscription is its id or the expanded object.\<close>

datatype stripe_ref = RefId string | RefObject string

record invoice_event =
  in_subscription :: "stripe_ref option"
  in_parentSubscription :: "stripe_ref option"

record checkout_session =
  cs_id :: string
  cs_mode :: string
  cs_paymentStatus :: string
  cs_metaTenantId :: "string option"
  cs_metaAppId :: "string option"
  cs_metaTier :: "string option"

datatype stripe_event =
    SubscriptionCreated subscription
  | SubscriptionUpdated subscription
  | SubscriptionDeleted subscription
  | InvoicePaid invoice_event
  | InvoicePaymentFailed invoice_event
  | CheckoutCompleted checkout_session
  | OtherEvent string

text \<open>The product of a price: its bare id, or the expanded product with its name, or a deleted one.\<close>

datatype stripe_product = ProductId string | ProductObject string "string option" | DeletedProduct string

record stripe_price =
  sp_active :: bool
  sp_product :: stripe_product
  sp_unitAmount :: "int option"
  sp_currency :: string
  sp_recurring :: "(string \<times> int) option"
  sp_livemode :: bool

record price_facts =
  pf_stripeProductId :: string
  pf_productName :: string
  pf_unitAmount :: int
  pf_currency :: string
  pf_interval :: string
  pf_intervalCount :: int
  pf_livemode :: bool

record checkout_request =
  cr_mode :: string
  cr_customer :: string
  cr_price :: string
  cr_quantity :: int
  cr_successUrl :: string
  cr_cancelUrl :: string
  cr_metaTenantId :: string
  cr_metaAppId :: string
  cr_metaAppClientId :: string
  cr_metaTier :: string
  cr_metaOnSession :: bool \<comment> \<open>else on the subscription\<close>
  cr_trialPeriodDays :: "int option"

record stripe_api =
  create_customer :: "string \<Rightarrow> string \<Rightarrow> string \<Rightarrow> string res" \<comment> \<open>name, tenant id, slug\<close>
  create_checkout :: "checkout_request \<Rightarrow> string res"
  create_portal :: "string \<Rightarrow> string \<Rightarrow> string res" \<comment> \<open>customer, return url\<close>
  retrieve_price :: "string \<Rightarrow> stripe_price option"
  construct_event :: "string \<Rightarrow> string \<Rightarrow> string \<Rightarrow> stripe_event option" \<comment> \<open>body, signature, secret\<close>

definition ONCE :: string where "ONCE = ''once''"

text \<open>Of the refusal of \<open>describePrice\<close> without a key the first sentence is kept.\<close>

definition requireStripe :: "stripe_api option \<Rightarrow> stripe_api res" where
  "requireStripe stripe = (case stripe of
      None \<Rightarrow> Inl (ServiceUnavailable ''Billing is not configured (STRIPE_SECRET_KEY unset)'')
    | Some api \<Rightarrow> Inr api)"

definition describePrice :: "stripe_api option \<Rightarrow> string \<Rightarrow> price_facts res" where
  "describePrice stripe priceId =
     (case stripe of
        None \<Rightarrow> Inl (ServiceUnavailable ''Cannot read a price while STRIPE_SECRET_KEY is unset.'')
      | Some api \<Rightarrow>
        (case retrieve_price api priceId of
           None \<Rightarrow> Inl (BadRequest (''Stripe has no price \"'' @ priceId @ ''\"''))
         | Some p \<Rightarrow>
             if \<not> sp_active p
             then Inl (BadRequest (''Stripe price \"'' @ priceId @ ''\" is archived, so checkout would fail''))
             else Inr \<lparr>pf_stripeProductId = (case sp_product p of
                         ProductId i \<Rightarrow> i | ProductObject i _ \<Rightarrow> i | DeletedProduct i \<Rightarrow> i),
                       pf_productName = (case sp_product p of
                         ProductObject _ n \<Rightarrow> nullish n [] | _ \<Rightarrow> []),
                       pf_unitAmount = nullish (sp_unitAmount p) 0,
                       pf_currency = sp_currency p,
                       pf_interval = nullish (map_option fst (sp_recurring p)) ONCE,
                       pf_intervalCount = nullish (map_option snd (sp_recurring p)) 1,
                       pf_livemode = sp_livemode p\<rparr>))"

section \<open>What an app sells\<close>

text \<open>Ordered by \<open>sortOrder\<close>, then \<open>unitAmount\<close>: two stable sorts, the last key first.\<close>

definition listPrices :: "config \<Rightarrow> string \<Rightarrow> db \<Rightarrow> app_price list" where
  "listPrices cfg appId s =
     sort_key p_sortOrder (sort_key p_unitAmount
       (filter (\<lambda>p. p_appId p = appId \<and> p_sellable p
            \<and> (stripeMode cfg \<noteq> Unset \<longrightarrow> p_livemode p = (stripeMode cfg = Live)))
         (prices s)))"

section \<open>Who may transact, and where to\<close>

definition requireRelationship :: "string \<Rightarrow> app \<Rightarrow> db \<Rightarrow> app_tenant res" where
  "requireRelationship tenantId app s =
     (case access_of s tenantId (a_id app) of
        None \<Rightarrow> Inl (Forbidden ''App is not enabled for this workspace'')
      | Some access \<Rightarrow> Inr access)"

definition assertRedirectAllowed ::
  "(string \<Rightarrow> string option) \<Rightarrow> string \<Rightarrow> app \<Rightarrow> unit res" where
  "assertRedirectAllowed url_origin url app =
     (case url_origin url of
        None \<Rightarrow> Inl (BadRequest (''Invalid redirect URL \"'' @ url @ ''\"''))
      | Some origin \<Rightarrow>
          if list_ex (\<lambda>cb. url_origin cb = Some origin) (a_callbackUrls app) then Inr ()
          else Inl (BadRequest (''Redirect origin '' @ origin
                 @ '' is not registered as a callback URL for this app'')))"

section \<open>Entitlement\<close>

record entitlement_view =
  en_enabled :: bool
  en_status :: "app_tenant_status option"
  en_plan :: "string option"
  en_trialEndsAt :: "time option"
  en_graceUntil :: "time option"
  en_daysLeft :: "int option"

definition deadline_of :: "app_tenant \<Rightarrow> time option" where
  "deadline_of a = (case at_status a of
      Trial \<Rightarrow> at_trialEndsAt a | PastDue \<Rightarrow> at_graceUntil a | _ \<Rightarrow> None)"

definition entitlement :: "string \<Rightarrow> app \<Rightarrow> time \<Rightarrow> db \<Rightarrow> entitlement_view" where
  "entitlement tenantId app now s =
     (case access_of s tenantId (a_id app) of
        None \<Rightarrow> \<lparr>en_enabled = False, en_status = None, en_plan = None, en_trialEndsAt = None,
                 en_graceUntil = None, en_daysLeft = None\<rparr>
      | Some a \<Rightarrow>
          (let trialExpired = (at_status a = Trial \<and> past (at_trialEndsAt a) now);
               graceExpired = (at_status a = PastDue \<and> past (at_graceUntil a) now);
               enabled = (at_status a \<noteq> Suspended \<and> \<not> trialExpired \<and> \<not> graceExpired);
               daysLeft = (case deadline_of a of None \<Rightarrow> None
                 | Some d \<Rightarrow> Some (max 0 (ceil_div (d - now) day_ms)))
           in \<lparr>en_enabled = enabled, en_status = Some (at_status a), en_plan = Some (at_plan a),
               en_trialEndsAt = at_trialEndsAt a, en_graceUntil = at_graceUntil a,
               en_daysLeft = daysLeft\<rparr>))"

section \<open>Checkout and portal\<close>

text \<open>\<open>prisma.tenant.update\<close> of one column of one row.\<close>

definition set_customer :: "string \<Rightarrow> string \<Rightarrow> db \<Rightarrow> db" where
  "set_customer tenantId customer s =
     s\<lparr>tenants := upd_where (\<lambda>t. tn_id t = tenantId)
        (\<lambda>t. t\<lparr>tn_stripeCustomerId := Some customer\<rparr>) (tenants s)\<rparr>"

definition ensureCustomer :: "stripe_api option \<Rightarrow> string \<Rightarrow> db \<Rightarrow> string res \<times> db" where
  "ensureCustomer stripe tenantId s =
     (case tenant_by_id s tenantId of
        None \<Rightarrow> (Inl (NotFound ''Tenant not found''), s)
      | Some t \<Rightarrow>
          if tn_deletedAt t \<noteq> None then (Inl (NotFound ''Tenant not found''), s)
          else if truthy (tn_stripeCustomerId t) then (Inr (the (tn_stripeCustomerId t)), s)
          else (case requireStripe stripe of
                  Inl e \<Rightarrow> (Inl e, s)
                | Inr api \<Rightarrow>
                  (case create_customer api (tn_name t) (tn_id t) (tn_slug t) of
                     Inl e \<Rightarrow> (Inl e, s)
                   | Inr customer \<Rightarrow> (Inr customer, set_customer (tn_id t) customer s))))"

definition mode_name :: "stripe_mode \<Rightarrow> string" where
  "mode_name m = (case m of Test \<Rightarrow> ''test'' | Live \<Rightarrow> ''live'' | Unset \<Rightarrow> ''unset'')"

definition assertPriceMode :: "config \<Rightarrow> app_price \<Rightarrow> unit res" where
  "assertPriceMode cfg p =
     (if stripeMode cfg = Unset then Inr ()
      else if p_livemode p \<noteq> (stripeMode cfg = Live)
      then Inl (BadRequest (''Price \"'' @ p_stripePriceId p @ ''\" is a ''
             @ (if p_livemode p then ''live'' else ''test'') @ '' price, but this deployment is running ''
             @ mode_name (stripeMode cfg) @ '' keys. Register the '' @ mode_name (stripeMode cfg)
             @ '' price for this tier.''))
      else Inr ())"

record checkout_dto =
  ck_tenantId :: string
  ck_priceId :: "string option"
  ck_tier :: "string option"
  ck_interval :: "string option"
  ck_intervalCount :: "int option"
  ck_quantity :: "int option"
  ck_successUrl :: string
  ck_cancelUrl :: string

definition with_mode :: "config \<Rightarrow> app_price \<Rightarrow> app_price res" where
  "with_mode cfg p = (case assertPriceMode cfg p of Inl e \<Rightarrow> Inl e | Inr _ \<Rightarrow> Inr p)"

definition resolvePrice :: "config \<Rightarrow> checkout_dto \<Rightarrow> app \<Rightarrow> db \<Rightarrow> app_price res" where
  "resolvePrice cfg dto app s =
     (let ps = filter (\<lambda>p. p_appId p = a_id app) (prices s)
      in if ps = [] then Inl (BadRequest ''This app has no Stripe prices configured'')
         else if truthy (ck_priceId dto) then
           (case find (\<lambda>p. Some (p_stripePriceId p) = ck_priceId dto) ps of
              None \<Rightarrow> Inl (BadRequest ''priceId is not one of this app's registered prices'')
            | Some p \<Rightarrow> with_mode cfg p)
         else if truthy (ck_tier dto) then
           (let interval = nullish (ck_interval dto) ''month''; n = nullish (ck_intervalCount dto) 1
            in case find (\<lambda>p. Some (p_tier p) = ck_tier dto \<and> p_interval p = interval
                      \<and> p_intervalCount p = n) ps of
                 None \<Rightarrow> Inl (BadRequest (''This app has no \"'' @ the (ck_tier dto)
                   @ ''\" price billed every '' @ show_int n @ '' '' @ interval))
               | Some p \<Rightarrow> with_mode cfg p)
         else if 1 < length ps
         then Inl (BadRequest ''Specify tier (or priceId): this app sells more than one price'')
         else with_mode cfg (hd ps))"

definition checkout_request_of :: "checkout_dto \<Rightarrow> app \<Rightarrow> app_price \<Rightarrow> string \<Rightarrow> checkout_request" where
  "checkout_request_of dto app p customer =
     (let once = (p_interval p = ONCE)
      in \<lparr>cr_mode = (if once then ''payment'' else ''subscription''), cr_customer = customer,
          cr_price = p_stripePriceId p, cr_quantity = nullish (ck_quantity dto) 1,
          cr_successUrl = ck_successUrl dto, cr_cancelUrl = ck_cancelUrl dto,
          cr_metaTenantId = ck_tenantId dto, cr_metaAppId = a_id app,
          cr_metaAppClientId = a_clientId app, cr_metaTier = p_tier p, cr_metaOnSession = once,
          cr_trialPeriodDays =
            (if \<not> once \<and> 0 < p_trialDays p then Some (p_trialDays p) else None)\<rparr>)"

text \<open>Everything of \<open>checkout\<close> up to the call of Stripe, and the call.\<close>

definition checkout_prepare ::
  "config \<Rightarrow> stripe_api option \<Rightarrow> (string \<Rightarrow> string option) \<Rightarrow> checkout_dto \<Rightarrow> app \<Rightarrow> db \<Rightarrow>
   checkout_request res \<times> db" where
  "checkout_prepare cfg stripe url_origin dto app s =
     (case resolvePrice cfg dto app s of
        Inl e \<Rightarrow> (Inl e, s)
      | Inr p \<Rightarrow>
        (case requireRelationship (ck_tenantId dto) app s of
           Inl e \<Rightarrow> (Inl e, s)
         | Inr _ \<Rightarrow>
           (case assertRedirectAllowed url_origin (ck_successUrl dto) app of
              Inl e \<Rightarrow> (Inl e, s)
            | Inr _ \<Rightarrow>
              (case assertRedirectAllowed url_origin (ck_cancelUrl dto) app of
                 Inl e \<Rightarrow> (Inl e, s)
               | Inr _ \<Rightarrow>
                 (case ensureCustomer stripe (ck_tenantId dto) s of
                    (Inl e, s1) \<Rightarrow> (Inl e, s1)
                  | (Inr customer, s1) \<Rightarrow> (Inr (checkout_request_of dto app p customer), s1))))))"

definition checkout ::
  "config \<Rightarrow> stripe_api option \<Rightarrow> (string \<Rightarrow> string option) \<Rightarrow> checkout_dto \<Rightarrow> app \<Rightarrow> db \<Rightarrow>
   string res \<times> db" where
  "checkout cfg stripe url_origin dto app s =
     (case checkout_prepare cfg stripe url_origin dto app s of
        (Inl e, s1) \<Rightarrow> (Inl e, s1)
      | (Inr req, s1) \<Rightarrow>
        (case requireStripe stripe of
           Inl e \<Rightarrow> (Inl e, s1)
         | Inr api \<Rightarrow> (create_checkout api req, s1)))"

definition portal ::
  "stripe_api option \<Rightarrow> (string \<Rightarrow> string option) \<Rightarrow> string \<Rightarrow> string \<Rightarrow> app \<Rightarrow> db \<Rightarrow>
   string res \<times> db" where
  "portal stripe url_origin tenantId returnUrl app s =
     (case requireRelationship tenantId app s of
        Inl e \<Rightarrow> (Inl e, s)
      | Inr _ \<Rightarrow>
        (case assertRedirectAllowed url_origin returnUrl app of
           Inl e \<Rightarrow> (Inl e, s)
         | Inr _ \<Rightarrow>
           (case ensureCustomer stripe tenantId s of
              (Inl e, s1) \<Rightarrow> (Inl e, s1)
            | (Inr customer, s1) \<Rightarrow>
              (case requireStripe stripe of
                 Inl e \<Rightarrow> (Inl e, s1)
               | Inr api \<Rightarrow> (create_portal api customer returnUrl, s1)))))"

section \<open>The webhook\<close>

definition verifyAndParseEvent ::
  "stripe_api option \<Rightarrow> string option \<Rightarrow> string option \<Rightarrow> string option \<Rightarrow> stripe_event res" where
  "verifyAndParseEvent stripe rawBody signature secret =
     (if \<not> truthy secret then Inl (ServiceUnavailable ''Billing webhook is not configured'')
      else if rawBody = None \<or> \<not> truthy signature
      then Inl (BadRequest ''Invalid webhook signature'')
      else (case stripe of
              None \<Rightarrow> Inl (BadRequest ''Invalid webhook signature'')
            | Some api \<Rightarrow>
              (case construct_event api (the rawBody) (the signature) (the secret) of
                 None \<Rightarrow> Inl (BadRequest ''Invalid webhook signature'')
               | Some ev \<Rightarrow> Inr ev)))"

definition ref_id :: "stripe_ref \<Rightarrow> string" where
  "ref_id r = (case r of RefId i \<Rightarrow> i | RefObject i \<Rightarrow> i)"

definition invoiceSubscriptionId :: "invoice_event \<Rightarrow> string option" where
  "invoiceSubscriptionId iv =
     map_option ref_id (or_else (in_subscription iv) (in_parentSubscription iv))"

definition accessBySubscriptionId :: "string option \<Rightarrow> db \<Rightarrow> app_tenant option" where
  "accessBySubscriptionId subId s = (if truthy subId then access_by_sub s (the subId) else None)"

definition tierOf :: "subscription \<Rightarrow> db \<Rightarrow> string option" where
  "tierOf sub s =
     (if truthy (su_priceId sub)
      then map_option p_tier (find (\<lambda>p. Some (p_stripePriceId p) = su_priceId sub) (prices s))
      else None)"

definition graceDeadline :: "config \<Rightarrow> time \<Rightarrow> time" where
  "graceDeadline cfg now = now + stripeGraceDays cfg * day_ms"

definition acknowledgeOrphan ::
  "string \<Rightarrow> string option \<Rightarrow> string option \<Rightarrow> string \<Rightarrow> time \<Rightarrow> db \<Rightarrow> bool res \<times> db" where
  "acknowledgeOrphan subId tenantId appId stripeStatus now s =
     (Inr False, record_event ''billing.orphan_subscription''
        (no_meta\<lparr>am_detail := Some (JObj
           [(''stripeSubscriptionId'', JStr subId), (''tenantId'', json_opt JStr tenantId),
            (''appId'', json_opt JStr appId), (''stripeStatus'', JStr stripeStatus)])\<rparr>) now s)"

text \<open>\<open>appTenant.update\<close> on one key. Setting a subscription id another row holds breaks its unique
  index.\<close>

definition update_access :: "string \<Rightarrow> string \<Rightarrow> (app_tenant \<Rightarrow> app_tenant) \<Rightarrow> db \<Rightarrow> db" where
  "update_access tid aid f s = s\<lparr>app_tenants := upd_where (at_key tid aid) f (app_tenants s)\<rparr>"

definition sub_taken :: "string \<Rightarrow> app_tenant \<Rightarrow> db \<Rightarrow> bool" where
  "sub_taken sub a s = (\<exists>b \<in> set (app_tenants s). at_stripeSubscriptionId b = Some sub
     \<and> \<not> at_key (at_tenantId a) (at_appId a) b)"

text \<open>\<open>switch\<close> on the subscription's status: the grant's new status and deadline.\<close>

definition synced_status :: "config \<Rightarrow> subscription \<Rightarrow> app_tenant option \<Rightarrow> time \<Rightarrow>
    app_tenant_status \<times> time option" where
  "synced_status cfg sub access now =
     (if su_status sub = ''active'' \<or> su_status sub = ''trialing'' then (Active, None)
      else if su_status sub = ''past_due''
      then (PastDue, Some (nullish (Option.bind access at_graceUntil) (graceDeadline cfg now)))
      else (Suspended, None))"

definition status_name :: "app_tenant_status \<Rightarrow> string" where
  "status_name st = (case st of Trial \<Rightarrow> ''TRIAL'' | Active \<Rightarrow> ''ACTIVE'' | PastDue \<Rightarrow> ''PAST_DUE''
      | Suspended \<Rightarrow> ''SUSPENDED'')"

definition record_synced :: "subscription \<Rightarrow> app_tenant \<Rightarrow> time \<Rightarrow> db \<Rightarrow> bool res \<times> db" where
  "record_synced sub access now s =
     (Inr True, record_event ''billing.subscription_synced''
        (no_meta\<lparr>am_tenantId := Some (at_tenantId access),
           am_detail := Some (JObj [(''appId'', JStr (at_appId access)),
             (''stripeStatus'', JStr (su_status sub)),
             (''status'', JStr (status_name (at_status access))), (''plan'', JStr (at_plan access))])\<rparr>) now s)"

definition sync_create ::
  "subscription \<Rightarrow> app_tenant_status \<Rightarrow> time option \<Rightarrow> string option \<Rightarrow> time \<Rightarrow> db \<Rightarrow> bool res \<times> db" where
  "sync_create sub status graceUntil tier now s =
     (if \<not> truthy (su_metaTenantId sub) \<or> \<not> truthy (su_metaAppId sub) then (Inr False, s)
      else let row = \<lparr>at_tenantId = the (su_metaTenantId sub), at_appId = the (su_metaAppId sub),
                      at_status = status, at_plan = (if truthy tier then the tier else ''free''),
                      at_trialEndsAt = None, at_graceUntil = graceUntil,
                      at_stripeSubscriptionId = Some (su_id sub), at_createdAt = now\<rparr>
           in case insert_app_tenant row s of
                (Inl e, s1) \<Rightarrow>
                  if e = PrismaError ''P2003''
                  then acknowledgeOrphan (su_id sub) (su_metaTenantId sub) (su_metaAppId sub)
                         (su_status sub) now s1
                  else (Inl e, s1)
              | (Inr _, s1) \<Rightarrow> record_synced sub row now s1)"

definition sync_update ::
  "subscription \<Rightarrow> app_tenant \<Rightarrow> app_tenant_status \<Rightarrow> time option \<Rightarrow> string option \<Rightarrow> time \<Rightarrow> db \<Rightarrow>
   bool res \<times> db" where
  "sync_update sub access status graceUntil tier now s =
     (if truthy (at_stripeSubscriptionId access) \<and> at_stripeSubscriptionId access \<noteq> Some (su_id sub)
         \<and> status = Suspended
      then (Inr True, s)
      else if sub_taken (su_id sub) access s then (Inl (PrismaError ''P2002''), s)
      else let f = (\<lambda>a. a\<lparr>at_status := status, at_graceUntil := graceUntil,
                      at_stripeSubscriptionId := Some (su_id sub), at_trialEndsAt := None,
                      at_plan := (if truthy tier then the tier else at_plan a)\<rparr>)
           in record_synced sub (f access) now
                (update_access (at_tenantId access) (at_appId access) f s))"

text \<open>The row an event is about: by the metadata stamped at checkout, else by subscription id.\<close>

definition routed_access :: "subscription \<Rightarrow> db \<Rightarrow> app_tenant option" where
  "routed_access sub s =
     (if truthy (su_metaTenantId sub) \<and> truthy (su_metaAppId sub)
      then access_of s (the (su_metaTenantId sub)) (the (su_metaAppId sub))
      else accessBySubscriptionId (Some (su_id sub)) s)"

definition syncSubscription :: "config \<Rightarrow> subscription \<Rightarrow> time \<Rightarrow> db \<Rightarrow> bool res \<times> db" where
  "syncSubscription cfg sub now s =
     (let access = routed_access sub s;
          (status, graceUntil) = synced_status cfg sub access now;
          tier = tierOf sub s
      in case access of
           None \<Rightarrow> sync_create sub status graceUntil tier now s
         | Some a \<Rightarrow> sync_update sub a status graceUntil tier now s)"

definition onInvoicePaid :: "invoice_event \<Rightarrow> time \<Rightarrow> db \<Rightarrow> bool res \<times> db" where
  "onInvoicePaid iv now s =
     (case accessBySubscriptionId (invoiceSubscriptionId iv) s of
        None \<Rightarrow> (Inr False, s)
      | Some a \<Rightarrow>
          if at_status a = PastDue
          then (Inr True, record_event ''billing.payment_recovered''
                  (no_meta\<lparr>am_tenantId := Some (at_tenantId a),
                     am_detail := Some (JObj [(''appId'', JStr (at_appId a))])\<rparr>) now
                  (update_access (at_tenantId a) (at_appId a)
                     (\<lambda>x. x\<lparr>at_status := Active, at_graceUntil := None\<rparr>) s))
          else (Inr True, s))"

definition onPaymentFailed :: "config \<Rightarrow> invoice_event \<Rightarrow> time \<Rightarrow> db \<Rightarrow> bool res \<times> db" where
  "onPaymentFailed cfg iv now s =
     (case accessBySubscriptionId (invoiceSubscriptionId iv) s of
        None \<Rightarrow> (Inr False, s)
      | Some a \<Rightarrow>
          (Inr True, record_event ''billing.payment_failed''
             (no_meta\<lparr>am_tenantId := Some (at_tenantId a),
                am_detail := Some (JObj [(''appId'', JStr (at_appId a)),
                  (''graceDays'', JNum (stripeGraceDays cfg))])\<rparr>) now
             (update_access (at_tenantId a) (at_appId a)
                (\<lambda>x. x\<lparr>at_status := PastDue,
                   at_graceUntil := Some (nullish (at_graceUntil a) (graceDeadline cfg now))\<rparr>) s)))"

definition upsertPurchase ::
  "string \<Rightarrow> string \<Rightarrow> string option \<Rightarrow> time \<Rightarrow> db \<Rightarrow> unit res \<times> db" where
  "upsertPurchase tid aid tier now s =
     (case access_of s tid aid of
        Some _ \<Rightarrow> (Inr (), update_access tid aid
          (\<lambda>x. x\<lparr>at_status := Active, at_graceUntil := None, at_trialEndsAt := None,
             at_plan := (if truthy tier then the tier else at_plan x)\<rparr>) s)
      | None \<Rightarrow> insert_app_tenant
          \<lparr>at_tenantId = tid, at_appId = aid, at_status = Active,
           at_plan = (if truthy tier then the tier else ''free''), at_trialEndsAt = None,
           at_graceUntil = None, at_stripeSubscriptionId = None, at_createdAt = now\<rparr> s)"

definition onCheckoutCompleted :: "checkout_session \<Rightarrow> time \<Rightarrow> db \<Rightarrow> bool res \<times> db" where
  "onCheckoutCompleted cs now s =
     (if cs_mode cs \<noteq> ''payment'' \<or> cs_paymentStatus cs \<noteq> ''paid'' then (Inr False, s)
      else if \<not> truthy (cs_metaTenantId cs) \<or> \<not> truthy (cs_metaAppId cs) then (Inr False, s)
      else (case upsertPurchase (the (cs_metaTenantId cs)) (the (cs_metaAppId cs))
               (cs_metaTier cs) now s of
              (Inl e, s1) \<Rightarrow>
                if e = PrismaError ''P2003''
                then acknowledgeOrphan (cs_id cs) (cs_metaTenantId cs) (cs_metaAppId cs)
                       ''checkout_paid'' now s1
                else (Inl e, s1)
            | (Inr _, s1) \<Rightarrow>
                (Inr True, record_event ''billing.purchase_completed''
                   (no_meta\<lparr>am_tenantId := cs_metaTenantId cs,
                      am_detail := Some (JObj [(''appId'', json_opt JStr (cs_metaAppId cs)),
                        (''plan'', json_opt JStr (cs_metaTier cs)), (''mode'', JStr ''payment'')])\<rparr>)
                   now s1)))"

definition handleEvent :: "config \<Rightarrow> stripe_event \<Rightarrow> time \<Rightarrow> db \<Rightarrow> bool res \<times> db" where
  "handleEvent cfg ev now s =
     (case ev of
        SubscriptionCreated sub \<Rightarrow> syncSubscription cfg sub now s
      | SubscriptionUpdated sub \<Rightarrow> syncSubscription cfg sub now s
      | SubscriptionDeleted sub \<Rightarrow> syncSubscription cfg sub now s
      | InvoicePaid iv \<Rightarrow> onInvoicePaid iv now s
      | InvoicePaymentFailed iv \<Rightarrow> onPaymentFailed cfg iv now s
      | CheckoutCompleted cs \<Rightarrow> onCheckoutCompleted cs now s
      | OtherEvent _ \<Rightarrow> (Inr False, s))"

text \<open>The controller's route: signature first, then the event.\<close>

definition webhook ::
  "config \<Rightarrow> stripe_api option \<Rightarrow> string option \<Rightarrow> string option \<Rightarrow> time \<Rightarrow> db \<Rightarrow> bool res \<times> db" where
  "webhook cfg stripe rawBody signature now s =
     (case verifyAndParseEvent stripe rawBody signature (stripeWebhookSecret cfg) of
        Inl e \<Rightarrow> (Inl e, s)
      | Inr ev \<Rightarrow> handleEvent cfg ev now s)"

section \<open>What an event does to the grants\<close>

text \<open>The change of a grant: its key stays, a grant past due has a deadline and keeps the one it had,
  and a new subscription id is one no other grant holds.\<close>

definition sound_change :: "app_tenant \<Rightarrow> db \<Rightarrow> (app_tenant \<Rightarrow> app_tenant) \<Rightarrow> bool" where
  "sound_change a s f \<longleftrightarrow>
     (\<forall>x. at_tenantId (f x) = at_tenantId x \<and> at_appId (f x) = at_appId x)
     \<and> (\<forall>x. at_status (f x) = PastDue \<longrightarrow> at_graceUntil (f x) \<noteq> None)
     \<and> (\<forall>x g. at_graceUntil a = Some g \<longrightarrow> at_status (f x) = PastDue \<longrightarrow> at_graceUntil (f x) = Some g)
     \<and> (\<forall>x. at_stripeSubscriptionId (f x) = at_stripeSubscriptionId x
          \<or> (\<exists>sub. at_stripeSubscriptionId (f x) = Some sub \<and> \<not> sub_taken sub a s))"

definition sound_row :: "app_tenant \<Rightarrow> db \<Rightarrow> bool" where
  "sound_row row s \<longleftrightarrow> access_of s (at_tenantId row) (at_appId row) = None
     \<and> (at_status row = PastDue \<longrightarrow> at_graceUntil row \<noteq> None)
     \<and> (\<forall>sub. at_stripeSubscriptionId row = Some sub \<longrightarrow> access_by_sub s sub = None)"

text \<open>The three things an event can do to the table of grants.\<close>

definition grant_effect :: "db \<Rightarrow> db \<Rightarrow> bool" where
  "grant_effect s s' \<longleftrightarrow> app_tenants s' = app_tenants s
     \<or> (\<exists>a f. a \<in> set (app_tenants s) \<and> sound_change a s f
          \<and> app_tenants s' = upd_where (at_key (at_tenantId a) (at_appId a)) f (app_tenants s))
     \<or> (\<exists>row. sound_row row s \<and> app_tenants s' = app_tenants s @ [row])"

lemma grant_effect_same: "app_tenants s' = app_tenants s \<Longrightarrow> grant_effect s s'"
  by (simp add: grant_effect_def)

lemma grant_effect_update:
  "a \<in> set (app_tenants s) \<Longrightarrow> sound_change a s f \<Longrightarrow>
   grant_effect s (record_event x m n (update_access (at_tenantId a) (at_appId a) f s))"
  by (auto simp: grant_effect_def update_access_def)

lemma grant_effect_update_access:
  "a \<in> set (app_tenants s) \<Longrightarrow> sound_change a s f \<Longrightarrow>
   grant_effect s (update_access (at_tenantId a) (at_appId a) f s)"
  by (auto simp: grant_effect_def update_access_def)

lemma grant_effect_insert:
  "insert_app_tenant row s = (Inr x, s1) \<Longrightarrow> (at_status row = PastDue \<longrightarrow> at_graceUntil row \<noteq> None) \<Longrightarrow>
   app_tenants s' = app_tenants s1 \<Longrightarrow> grant_effect s s'"
  by (auto simp: grant_effect_def insert_app_tenant_def sound_row_def split: if_splits option.splits)

lemma routed_access_in: "routed_access sub s = Some a \<Longrightarrow> a \<in> set (app_tenants s)"
  by (auto simp: routed_access_def accessBySubscriptionId_def dest: access_ofD access_by_subD
      split: if_splits)

lemma accessBySubscriptionId_in:
  "accessBySubscriptionId x s = Some a \<Longrightarrow> a \<in> set (app_tenants s)"
  by (auto simp: accessBySubscriptionId_def dest: access_by_subD split: if_splits)

lemma synced_status_PastDue:
  "synced_status cfg sub access now = (st, g) \<Longrightarrow> st = PastDue \<Longrightarrow>
   g \<noteq> None \<and> (\<forall>a d. access = Some a \<longrightarrow> at_graceUntil a = Some d \<longrightarrow> g = Some d)"
  by (auto simp: synced_status_def split: if_splits)

lemma sync_create_effect:
  assumes "sync_create sub st g tier now s = (r, s')" and "st = PastDue \<longrightarrow> g \<noteq> None"
  shows "grant_effect s s'"
proof (cases "truthy (su_metaTenantId sub) \<and> truthy (su_metaAppId sub)")
  case True
  let ?row = "\<lparr>at_tenantId = the (su_metaTenantId sub), at_appId = the (su_metaAppId sub),
                      at_status = st, at_plan = (if truthy tier then the tier else ''free''),
                      at_trialEndsAt = None, at_graceUntil = g,
                      at_stripeSubscriptionId = Some (su_id sub), at_createdAt = now\<rparr>"
  obtain r1 s1 where ins: "insert_app_tenant ?row s = (r1, s1)"
    by (cases "insert_app_tenant ?row s")
  show ?thesis
  proof (cases r1)
    case (Inl e)
    then show ?thesis
      using assms True ins insert_app_tenant_Inl [of ?row s e s1]
      by (auto simp: sync_create_def acknowledgeOrphan_def intro!: grant_effect_same split: if_splits)
  next
    case (Inr x)
    then show ?thesis
      using assms True ins
      by (auto simp: sync_create_def record_synced_def intro: grant_effect_insert)
  qed
qed (use assms in \<open>auto simp: sync_create_def grant_effect_same\<close>)

lemma sync_update_effect:
  assumes "sync_update sub a st g tier now s = (r, s')" and "a \<in> set (app_tenants s)"
    and "st = PastDue \<longrightarrow> g \<noteq> None"
    and "\<forall>d. at_graceUntil a = Some d \<longrightarrow> st = PastDue \<longrightarrow> g = Some d"
  shows "grant_effect s s'"
proof -
  have "sub_taken (su_id sub) a s \<or> sound_change a s
      (\<lambda>a. a\<lparr>at_status := st, at_graceUntil := g, at_stripeSubscriptionId := Some (su_id sub),
           at_trialEndsAt := None, at_plan := (if truthy tier then the tier else at_plan a)\<rparr>)"
    using assms(3,4) by (auto simp: sound_change_def)
  then show ?thesis
    using assms(1,2)
    by (auto simp: sync_update_def Let_def record_synced_def
        intro: grant_effect_same grant_effect_update split: if_splits)
qed

lemma syncSubscription_effect:
  assumes "syncSubscription cfg sub now s = (r, s')"
  shows "grant_effect s s'"
proof (cases "synced_status cfg sub (routed_access sub s) now")
  case (Pair st g)
  note st = synced_status_PastDue [OF Pair]
  show ?thesis
  proof (cases "routed_access sub s")
    case None
    then show ?thesis
      using assms Pair st by (auto simp: syncSubscription_def Let_def intro: sync_create_effect)
  next
    case (Some a)
    then show ?thesis
      using assms Pair st
      by (auto simp: syncSubscription_def Let_def intro!: sync_update_effect
          dest: routed_access_in)
  qed
qed

lemma onInvoicePaid_effect:
  assumes "onInvoicePaid iv now s = (r, s')"
  shows "grant_effect s s'"
  using assms
  by (auto simp: onInvoicePaid_def sound_change_def intro: grant_effect_same
      intro!: grant_effect_update dest: accessBySubscriptionId_in split: option.splits if_splits)

lemma onPaymentFailed_effect:
  assumes "onPaymentFailed cfg iv now s = (r, s')"
  shows "grant_effect s s'"
  using assms
  by (auto simp: onPaymentFailed_def sound_change_def intro: grant_effect_same
      intro!: grant_effect_update dest: accessBySubscriptionId_in split: option.splits if_splits)

lemma upsertPurchase_effect:
  assumes "upsertPurchase tid aid tier now s = (r, s')"
  shows "grant_effect s s'"
proof (cases "access_of s tid aid")
  case None
  let ?row = "\<lparr>at_tenantId = tid, at_appId = aid, at_status = Active,
           at_plan = (if truthy tier then the tier else ''free''), at_trialEndsAt = None,
           at_graceUntil = None, at_stripeSubscriptionId = None, at_createdAt = now\<rparr>"
  show ?thesis
  proof (cases r)
    case (Inl e)
    then show ?thesis
      using assms None insert_app_tenant_Inl [of ?row s e s']
      by (auto simp: upsertPurchase_def intro: grant_effect_same)
  next
    case (Inr x)
    then show ?thesis
      using assms None grant_effect_insert [of ?row s x s' s']
      by (auto simp: upsertPurchase_def)
  qed
next
  case (Some a)
  then have a: "a \<in> set (app_tenants s)" "at_tenantId a = tid" "at_appId a = aid"
    by (auto dest: access_ofD)
  then show ?thesis
    using assms Some grant_effect_update_access [of a s
        "\<lambda>x. x\<lparr>at_status := Active, at_graceUntil := None, at_trialEndsAt := None,
             at_plan := (if truthy tier then the tier else at_plan x)\<rparr>"]
    by (simp add: upsertPurchase_def sound_change_def)
qed

lemma onCheckoutCompleted_effect:
  assumes "onCheckoutCompleted cs now s = (r, s')"
  shows "grant_effect s s'"
proof (cases "upsertPurchase (the (cs_metaTenantId cs)) (the (cs_metaAppId cs)) (cs_metaTier cs) now s")
  case (Pair r1 s1)
  have "grant_effect s s1"
    using upsertPurchase_effect [OF Pair] .
  then have "grant_effect s (record_event x m n s1)" for x m n
    by (simp add: grant_effect_def)
  with \<open>grant_effect s s1\<close> assms Pair show ?thesis
    by (auto simp: onCheckoutCompleted_def acknowledgeOrphan_def intro: grant_effect_same
        split: if_splits sum.splits)
qed

lemma handleEvent_effect:
  "handleEvent cfg ev now s = (r, s') \<Longrightarrow> grant_effect s s'"
  by (auto simp: handleEvent_def intro: syncSubscription_effect onInvoicePaid_effect
      onPaymentFailed_effect onCheckoutCompleted_effect grant_effect_same split: stripe_event.splits)

section \<open>Invariant and frame\<close>

definition grant_key :: "app_tenant \<Rightarrow> string \<times> string" where
  "grant_key a = (at_tenantId a, at_appId a)"

lemma at_key_grant_key: "at_key (at_tenantId a) (at_appId a) b \<longleftrightarrow> grant_key b = grant_key a"
  by (auto simp: at_key_def grant_key_def)

definition grants_ok :: "app_tenant list \<Rightarrow> bool" where
  "grants_ok rows \<longleftrightarrow> unique_on grant_key rows
     \<and> (\<forall>a \<in> set rows. \<forall>b \<in> set rows. at_stripeSubscriptionId a \<noteq> None \<longrightarrow>
          at_stripeSubscriptionId a = at_stripeSubscriptionId b \<longrightarrow> grant_key a = grant_key b)
     \<and> (\<forall>a \<in> set rows. at_status a = PastDue \<longrightarrow> at_graceUntil a \<noteq> None)"

lemma grants_ok_append:
  assumes "grants_ok (app_tenants s)" and "sound_row row s"
  shows "grants_ok (app_tenants s @ [row])"
proof -
  have k: "grant_key row \<notin> grant_key ` set (app_tenants s)"
    using assms(2) by (auto simp: sound_row_def access_of_def find_None_iff at_key_def grant_key_def)
  have sub: "at_stripeSubscriptionId row \<noteq> None \<Longrightarrow> a \<in> set (app_tenants s) \<Longrightarrow>
      at_stripeSubscriptionId a \<noteq> at_stripeSubscriptionId row" for a
    using assms(2) by (auto simp: sound_row_def access_by_sub_def find_None_iff)
  show ?thesis
    unfolding grants_ok_def
  proof (intro conjI)
    show "unique_on grant_key (app_tenants s @ [row])"
      using assms(1) k by (simp add: grants_ok_def unique_on_append_one)
    show "\<forall>a \<in> set (app_tenants s @ [row]). \<forall>b \<in> set (app_tenants s @ [row]).
        at_stripeSubscriptionId a \<noteq> None \<longrightarrow>
        at_stripeSubscriptionId a = at_stripeSubscriptionId b \<longrightarrow> grant_key a = grant_key b"
      using assms(1) sub by (fastforce simp: grants_ok_def)
    show "\<forall>a \<in> set (app_tenants s @ [row]). at_status a = PastDue \<longrightarrow> at_graceUntil a \<noteq> None"
      using assms by (auto simp: grants_ok_def sound_row_def)
  qed
qed

lemma grants_ok_update:
  assumes "grants_ok (app_tenants s)" and "a \<in> set (app_tenants s)" and "sound_change a s f"
  shows "grants_ok (upd_where (at_key (at_tenantId a) (at_appId a)) f (app_tenants s))"
proof -
  let ?P = "at_key (at_tenantId a) (at_appId a)"
  have key: "grant_key (f x) = grant_key x" for x
    using assms(3) by (simp add: sound_change_def grant_key_def)
  have grace: "at_status (f x) = PastDue \<longrightarrow> at_graceUntil (f x) \<noteq> None" for x
    using assms(3) by (auto simp: sound_change_def)
  have sub: "at_stripeSubscriptionId (f x) = at_stripeSubscriptionId x
      \<or> (\<forall>b \<in> set (app_tenants s). at_stripeSubscriptionId b = at_stripeSubscriptionId (f x) \<longrightarrow> ?P b)"
    for x
    using assms(3) by (auto simp: sound_change_def sub_taken_def)
  have old: "x \<in> set (app_tenants s) \<Longrightarrow> y \<in> set (app_tenants s) \<Longrightarrow>
      at_stripeSubscriptionId x \<noteq> None \<Longrightarrow>
      at_stripeSubscriptionId x = at_stripeSubscriptionId y \<Longrightarrow> grant_key x = grant_key y" for x y
    using assms(1) unfolding grants_ok_def by blast
  have "grant_key x = grant_key y"
    if x: "x \<in> set (app_tenants s)" and y: "y \<in> set (app_tenants s)"
      and ne: "at_stripeSubscriptionId (if ?P x then f x else x) \<noteq> None"
      and eq: "at_stripeSubscriptionId (if ?P x then f x else x)
        = at_stripeSubscriptionId (if ?P y then f y else y)" for x y
  proof (cases "?P x"; cases "?P y")
    assume "?P x" "?P y"
    then show ?thesis
      by (simp add: at_key_grant_key)
  next
    assume P: "?P x" "\<not> ?P y"
    then have e: "at_stripeSubscriptionId (f x) = at_stripeSubscriptionId y"
      "at_stripeSubscriptionId (f x) \<noteq> None"
      using eq ne by simp_all
    from sub [of x] show ?thesis
    proof
      assume "at_stripeSubscriptionId (f x) = at_stripeSubscriptionId x"
      then show ?thesis
        using old [OF x y] e by metis
    next
      assume "\<forall>b \<in> set (app_tenants s).
        at_stripeSubscriptionId b = at_stripeSubscriptionId (f x) \<longrightarrow> ?P b"
      from bspec [OF this y] show ?thesis
        using P e by metis
    qed
  next
    assume P: "\<not> ?P x" "?P y"
    then have e: "at_stripeSubscriptionId (f y) = at_stripeSubscriptionId x"
      "at_stripeSubscriptionId x \<noteq> None"
      using eq ne by simp_all
    from sub [of y] show ?thesis
    proof
      assume "at_stripeSubscriptionId (f y) = at_stripeSubscriptionId y"
      then show ?thesis
        using old [OF x y] e by metis
    next
      assume "\<forall>b \<in> set (app_tenants s).
        at_stripeSubscriptionId b = at_stripeSubscriptionId (f y) \<longrightarrow> ?P b"
      from bspec [OF this x] show ?thesis
        using P e by metis
    qed
  next
    assume "\<not> ?P x" "\<not> ?P y"
    then show ?thesis
      using old [OF x y] ne eq by simp
  qed
  note subs = this
  have k: "grant_key (if ?P x then f x else x) = grant_key x" for x
    by (simp add: key)
  show ?thesis
    unfolding grants_ok_def ball_upd_where k
  proof (intro conjI ballI impI)
    show "unique_on grant_key (upd_where ?P f (app_tenants s))"
      using assms(1) by (simp add: grants_ok_def unique_on_upd_where key)
  next
    fix x
    assume "x \<in> set (app_tenants s)" "at_status (if ?P x then f x else x) = PastDue"
    then show "at_graceUntil (if ?P x then f x else x) \<noteq> None"
      using assms(1) grace unfolding grants_ok_def by (metis (full_types))
  qed (rule subs)
qed

lemma grants_ok_effect: "grant_effect s s' \<Longrightarrow> grants_ok (app_tenants s) \<Longrightarrow> grants_ok (app_tenants s')"
  by (auto simp: grant_effect_def grants_ok_append grants_ok_update)

text \<open>An event writes grants and the audit trail, nothing else.\<close>

definition only_grants :: "db \<Rightarrow> db \<Rightarrow> bool" where
  "only_grants s s' \<longleftrightarrow>
     tenants s' = tenants s \<and> users s' = users s \<and> apps s' = apps s \<and> prices s' = prices s
     \<and> roles s' = roles s \<and> user_roles s' = user_roles s \<and> refresh_tokens s' = refresh_tokens s
     \<and> invites s' = invites s \<and> passkeys s' = passkeys s \<and> smtp_configs s' = smtp_configs s
     \<and> email_templates s' = email_templates s \<and> outbox s' = outbox s"

lemma only_grants_refl [simp]: "only_grants s s"
  by (simp add: only_grants_def)

lemma only_grants_record_event [simp]: "only_grants s (record_event x m n s') = only_grants s s'"
  by (simp add: only_grants_def)

lemma only_grants_update_access [simp]: "only_grants s (update_access tid aid f s)"
  by (simp add: only_grants_def update_access_def)

lemma only_grants_insert: "insert_app_tenant row s = (r, s') \<Longrightarrow> only_grants s s'"
  by (auto simp: insert_app_tenant_def only_grants_def split: if_splits)

lemma upsertPurchase_frame: "upsertPurchase tid aid tier now s = (r, s') \<Longrightarrow> only_grants s s'"
  by (auto simp: upsertPurchase_def split: option.splits dest: only_grants_insert)

lemma syncSubscription_frame: "syncSubscription cfg sub now s = (r, s') \<Longrightarrow> only_grants s s'"
  by (auto simp: syncSubscription_def sync_create_def sync_update_def acknowledgeOrphan_def
      record_synced_def Let_def split: option.splits if_splits prod.splits sum.splits
      dest: only_grants_insert)

lemma handleEvent_frame: "handleEvent cfg ev now s = (r, s') \<Longrightarrow> only_grants s s'"
  by (auto simp: handleEvent_def onInvoicePaid_def onPaymentFailed_def onCheckoutCompleted_def
      acknowledgeOrphan_def split: stripe_event.splits option.splits if_splits prod.splits sum.splits
      dest: syncSubscription_frame upsertPurchase_frame)

section \<open>Redelivery\<close>

lemma access_of_update:
  "(\<And>x. at_tenantId (f x) = at_tenantId x \<and> at_appId (f x) = at_appId x) \<Longrightarrow>
   access_of (update_access tid aid f s) tid aid = map_option f (access_of s tid aid)"
  unfolding access_of_def update_access_def
  by (simp, subst find_upd_where) (auto simp: at_key_def option.map_comp find_Some_iff intro: option.map_cong)

text \<open>The grant an event was routed to, after the event updated it.\<close>

lemma access_by_sub_update_same:
  "(\<And>x. at_stripeSubscriptionId (f x) = at_stripeSubscriptionId x) \<Longrightarrow>
   access_by_sub (update_access tid aid f s) sub
     = map_option (\<lambda>x. if at_key tid aid x then f x else x) (access_by_sub s sub)"
  by (simp add: access_by_sub_def update_access_def find_upd_where)

lemma accessBySubscriptionId_update_same:
  assumes "\<And>x. at_stripeSubscriptionId (f x) = at_stripeSubscriptionId x"
    and "accessBySubscriptionId x s = Some a"
  shows "accessBySubscriptionId x
      (record_event n m t (update_access (at_tenantId a) (at_appId a) f s)) = Some (f a)"
  using assms
  by (auto simp: accessBySubscriptionId_def access_by_sub_update_same at_key_def split: if_splits)

lemma onInvoicePaid_again:
  assumes "onInvoicePaid iv now s = (r, s')"
  shows "onInvoicePaid iv now' s' = (r, s')"
proof (cases "accessBySubscriptionId (invoiceSubscriptionId iv) s")
  case (Some a)
  note again = accessBySubscriptionId_update_same [OF _ Some,
      of "\<lambda>x. x\<lparr>at_status := Active, at_graceUntil := None\<rparr>"]
  show ?thesis
    using assms Some by (auto simp: onInvoicePaid_def again split: if_splits)
qed (use assms in \<open>auto simp: onInvoicePaid_def\<close>)

lemma onPaymentFailed_again:
  assumes "onPaymentFailed cfg iv now s = (r, s')"
  shows "app_tenants (snd (onPaymentFailed cfg iv now' s')) = app_tenants s'"
proof (cases "accessBySubscriptionId (invoiceSubscriptionId iv) s")
  case (Some a)
  let ?f = "\<lambda>x. x\<lparr>at_status := PastDue,
      at_graceUntil := Some (nullish (at_graceUntil a) (graceDeadline cfg now))\<rparr>"
  note again = accessBySubscriptionId_update_same [OF _ Some, of ?f]
  have s': "s' = record_event ''billing.payment_failed''
      (no_meta\<lparr>am_tenantId := Some (at_tenantId a),
         am_detail := Some (JObj [(''appId'', JStr (at_appId a)),
           (''graceDays'', JNum (stripeGraceDays cfg))])\<rparr>) now
      (update_access (at_tenantId a) (at_appId a) ?f s)"
    using assms Some by (simp add: onPaymentFailed_def)
  have "accessBySubscriptionId (invoiceSubscriptionId iv) s' = Some (?f a)"
    unfolding s' by (rule again) simp
  moreover have "app_tenants s' = upd_where (at_key (at_tenantId a) (at_appId a)) ?f (app_tenants s)"
    by (simp add: s' update_access_def)
  moreover have "upd_where (at_key (at_tenantId a) (at_appId a)) ?f
      (upd_where (at_key (at_tenantId a) (at_appId a)) ?f (app_tenants s))
      = upd_where (at_key (at_tenantId a) (at_appId a)) ?f (app_tenants s)"
    by (rule upd_where_twice) (simp add: at_key_def)
  ultimately show ?thesis
    by (simp add: onPaymentFailed_def update_access_def)
qed (use assms in \<open>auto simp: onPaymentFailed_def\<close>)

lemma access_of_inserted:
  "insert_app_tenant row s = (Inr x, s1) \<Longrightarrow>
   access_of s1 (at_tenantId row) (at_appId row) = Some row"
  by (auto simp: insert_app_tenant_def access_of_def find_append at_key_def split: if_splits)

lemma upd_where_inserted:
  "insert_app_tenant row s = (Inr x, s1) \<Longrightarrow> f row = row \<Longrightarrow>
   upd_where (at_key (at_tenantId row) (at_appId row)) f (app_tenants s1) = app_tenants s1"
  by (rule upd_where_id)
     (auto simp: insert_app_tenant_def access_of_def find_None_iff split: if_splits)

lemma upsertPurchase_again:
  assumes "upsertPurchase tid aid tier now s = (Inr x, s1)" and "app_tenants s' = app_tenants s1"
  shows "fst (upsertPurchase tid aid tier now' s') = Inr ()
    \<and> app_tenants (snd (upsertPurchase tid aid tier now' s')) = app_tenants s'"
proof (cases "access_of s tid aid")
  case (Some a)
  let ?f = "\<lambda>x. x\<lparr>at_status := Active, at_graceUntil := None, at_trialEndsAt := None,
      at_plan := (if truthy tier then the tier else at_plan x)\<rparr>"
  have s1: "s1 = update_access tid aid ?f s"
    using assms(1) Some by (simp add: upsertPurchase_def)
  then have "access_of s' tid aid = Some (?f a)"
    using access_of_update [of ?f tid aid s] Some assms(2) by (simp add: access_of_def)
  moreover have "upd_where (at_key tid aid) ?f (app_tenants s1) = app_tenants s1"
    unfolding s1 update_access_def by (simp, rule upd_where_twice) (simp add: at_key_def)
  ultimately show ?thesis
    using assms(2) by (simp add: upsertPurchase_def update_access_def)
next
  case None
  let ?row = "\<lparr>at_tenantId = tid, at_appId = aid, at_status = Active,
           at_plan = (if truthy tier then the tier else ''free''), at_trialEndsAt = None,
           at_graceUntil = None, at_stripeSubscriptionId = None, at_createdAt = now\<rparr>"
  have ins: "insert_app_tenant ?row s = (Inr x, s1)"
    using assms(1) None by (simp add: upsertPurchase_def)
  have "access_of s' tid aid = Some ?row"
    using access_of_inserted [OF ins] assms(2) by (simp add: access_of_def)
  then show ?thesis
    using upd_where_inserted [OF ins, of "\<lambda>x. x\<lparr>at_status := Active, at_graceUntil := None,
        at_trialEndsAt := None, at_plan := (if truthy tier then the tier else at_plan x)\<rparr>"] assms(2)
    by (simp add: upsertPurchase_def update_access_def)
qed

lemma synced_status_again:
  "synced_status cfg sub acc now = (st, g) \<Longrightarrow> at_graceUntil x = g \<Longrightarrow>
   synced_status cfg sub (Some x) now' = (st, g)"
  by (cases "at_graceUntil x") (auto simp: synced_status_def split: if_splits)

lemma synced_status_fst: "fst (synced_status cfg sub acc now) = fst (synced_status cfg sub acc' now')"
  by (simp add: synced_status_def)

lemma routed_access_cong: "app_tenants s' = app_tenants s \<Longrightarrow> routed_access sub s' = routed_access sub s"
  by (simp add: routed_access_def accessBySubscriptionId_def access_of_def access_by_sub_def)

lemma sub_taken_cong: "app_tenants s' = app_tenants s \<Longrightarrow> sub_taken x a s' = sub_taken x a s"
  by (simp add: sub_taken_def)

lemma insert_app_tenant_fails:
  assumes "insert_app_tenant row s = (Inl e, s1)" and "only_grants s s'"
    and "app_tenants s' = app_tenants s" and "at_tenantId row' = at_tenantId row"
    and "at_appId row' = at_appId row"
    and "at_stripeSubscriptionId row' = at_stripeSubscriptionId row"
  shows "insert_app_tenant row' s' = (Inl e, s')"
proof -
  have "access_of s' = access_of s" "access_by_sub s' = access_by_sub s"
    "tenant_by_id s' = tenant_by_id s" "app_by_id s' = app_by_id s"
    using assms(2,3) by (simp_all add: query_simps only_grants_def fun_eq_iff)
  then show ?thesis
    using assms(1,4-6)
    by (cases "at_stripeSubscriptionId row") (auto simp: insert_app_tenant_def split: if_splits)
qed

text \<open>The grant the event was routed to is the one it is routed to again.\<close>

lemma routed_access_after:
  assumes "unique_on grant_key (app_tenants s)" and "routed_access sub s = Some a"
    and "\<not> sub_taken (su_id sub) a s"
    and f: "\<And>x. at_tenantId (f x) = at_tenantId x \<and> at_appId (f x) = at_appId x
      \<and> at_stripeSubscriptionId (f x) = Some (su_id sub)"
    and s': "app_tenants s' = upd_where (at_key (at_tenantId a) (at_appId a)) f (app_tenants s)"
  shows "routed_access sub s' = Some (f a)"
proof (cases "truthy (su_metaTenantId sub) \<and> truthy (su_metaAppId sub)")
  case True
  then have "access_of s (the (su_metaTenantId sub)) (the (su_metaAppId sub)) = Some a"
    using assms(2) by (simp add: routed_access_def)
  moreover from this have "at_tenantId a = the (su_metaTenantId sub)" "at_appId a = the (su_metaAppId sub)"
    by (auto dest: access_ofD)
  moreover have "access_of s' (at_tenantId a) (at_appId a)
      = access_of (update_access (at_tenantId a) (at_appId a) f s) (at_tenantId a) (at_appId a)"
    using s' by (simp add: access_of_def update_access_def)
  ultimately show ?thesis
    using True f access_of_update [of f] by (simp add: routed_access_def)
next
  case False
  then have sub: "su_id sub \<noteq> []" "access_by_sub s (su_id sub) = Some a"
    using assms(2) by (auto simp: routed_access_def accessBySubscriptionId_def split: if_splits)
  then have a: "a \<in> set (app_tenants s)" "at_stripeSubscriptionId a = Some (su_id sub)"
    by (auto dest: access_by_subD)
  have "at_stripeSubscriptionId r = Some (su_id sub)"
    if "r \<in> set (app_tenants s)" "at_key (at_tenantId a) (at_appId a) r" for r
    using unique_on_eqD [OF assms(1) that(1) a(1)] that(2) a(2) by (simp add: at_key_grant_key)
  then have "access_by_sub s' (su_id sub) = Some (f a)"
    using sub(2) f unfolding access_by_sub_def s'
    by (subst find_upd_where_in) (auto simp: at_key_def)
  then show ?thesis
    using False sub(1) by (auto simp: routed_access_def accessBySubscriptionId_def)
qed

lemma sync_update_again:
  assumes "unique_on grant_key (app_tenants s)" and "routed_access sub s = Some a"
    and "synced_status cfg sub (Some a) now = (st, g)"
    and "sync_update sub a st g (tierOf sub s) now s = (r, s')"
  shows "app_tenants (snd (syncSubscription cfg sub now' s')) = app_tenants s'"
proof -
  let ?old = "truthy (at_stripeSubscriptionId a) \<and> at_stripeSubscriptionId a \<noteq> Some (su_id sub)
      \<and> st = Suspended"
  let ?f = "\<lambda>a. a\<lparr>at_status := st, at_graceUntil := g, at_stripeSubscriptionId := Some (su_id sub),
      at_trialEndsAt := None, at_plan := (if truthy (tierOf sub s) then the (tierOf sub s) else at_plan a)\<rparr>"
  show ?thesis
  proof (cases "?old \<or> sub_taken (su_id sub) a s")
    case True
    then have "s' = s"
      using assms(4) by (auto simp: sync_update_def split: if_splits)
    moreover obtain g' where "synced_status cfg sub (Some a) now' = (st, g')"
      using synced_status_fst [of cfg sub "Some a" now "Some a" now'] assms(3)
      by (cases "synced_status cfg sub (Some a) now'") simp
    ultimately show ?thesis
      using True assms(2) by (auto simp: syncSubscription_def Let_def sync_update_def)
  next
    case False
    then have s': "s' = snd (record_synced sub (?f a) now
        (update_access (at_tenantId a) (at_appId a) ?f s))"
      using assms(4) by (auto simp: sync_update_def Let_def split: if_splits)
    then have rows: "app_tenants s' = upd_where (at_key (at_tenantId a) (at_appId a)) ?f (app_tenants s)"
      and tier: "tierOf sub s' = tierOf sub s"
      by (simp_all add: record_synced_def update_access_def tierOf_def)
    have acc: "routed_access sub s' = Some (?f a)"
      by (rule routed_access_after [OF assms(1,2) _ _ rows]) (use False in auto)
    have st: "synced_status cfg sub (Some (?f a)) now' = (st, g)"
      by (rule synced_status_again [OF assms(3)]) simp
    have "\<not> sub_taken (su_id sub) (?f a) s'"
      using False by (auto simp: sub_taken_def rows in_upd_where at_key_def split: if_splits)
    then have "app_tenants (snd (syncSubscription cfg sub now' s'))
        = upd_where (at_key (at_tenantId a) (at_appId a)) ?f (app_tenants s')"
      by (simp add: syncSubscription_def Let_def acc st tier sync_update_def record_synced_def
          update_access_def)
    also have "\<dots> = app_tenants s'"
      unfolding rows by (rule upd_where_twice) (simp add: at_key_def)
    finally show ?thesis .
  qed
qed

lemma sync_create_again:
  assumes "routed_access sub s = None" and "synced_status cfg sub None now = (st, g)"
    and "sync_create sub st g (tierOf sub s) now s = (r, s')"
  shows "app_tenants (snd (syncSubscription cfg sub now' s')) = app_tenants s'"
proof (cases "truthy (su_metaTenantId sub) \<and> truthy (su_metaAppId sub)")
  case False
  then have "s' = s"
    using assms(3) by (auto simp: sync_create_def split: if_splits)
  then show ?thesis
    using False assms(1) by (auto simp: syncSubscription_def sync_create_def split: prod.split)
next
  case True
  let ?row = "\<lambda>g now. \<lparr>at_tenantId = the (su_metaTenantId sub), at_appId = the (su_metaAppId sub),
      at_status = st, at_plan = (if truthy (tierOf sub s) then the (tierOf sub s) else ''free''),
      at_trialEndsAt = None, at_graceUntil = g, at_stripeSubscriptionId = Some (su_id sub),
      at_createdAt = now\<rparr>"
  obtain r1 s1 where ins: "insert_app_tenant (?row g now) s = (r1, s1)"
    by (cases "insert_app_tenant (?row g now) s")
  have frame: "only_grants s s'" and tier: "tierOf sub s' = tierOf sub s"
    using syncSubscription_frame [of cfg sub now s r s'] assms
    by (simp_all add: syncSubscription_def only_grants_def tierOf_def)
  show ?thesis
  proof (cases r1)
    case (Inl e)
    then have rows: "app_tenants s' = app_tenants s"
      using insert_app_tenant_Inl [of "?row g now" s e s1] ins assms(3) True
      by (auto simp: sync_create_def acknowledgeOrphan_def split: if_splits)
    obtain g' where st: "synced_status cfg sub None now' = (st, g')"
      using synced_status_fst [of cfg sub None now None now'] assms(2)
      by (cases "synced_status cfg sub None now'") simp
    have "insert_app_tenant (?row g' now') s' = (Inl e, s')"
      by (rule insert_app_tenant_fails [OF ins [unfolded Inl] frame rows]) simp_all
    moreover have "routed_access sub s' = None"
      using assms(1) routed_access_cong [OF rows] by simp
    ultimately show ?thesis
      using st True tier by (simp add: syncSubscription_def sync_create_def acknowledgeOrphan_def)
  next
    case (Inr x)
    note ins' = ins [unfolded Inr]
    have rows: "app_tenants s' = app_tenants s1"
      using ins' assms(3) True by (auto simp: sync_create_def record_synced_def)
    have acc: "routed_access sub s' = Some (?row g now)"
      using access_of_inserted [OF ins'] True rows by (simp add: routed_access_def access_of_def)
    have st: "synced_status cfg sub (Some (?row g now)) now' = (st, g)"
      by (rule synced_status_again [OF assms(2)]) simp
    have "\<not> sub_taken (su_id sub) (?row g now) s'"
      using ins' rows
      by (auto simp: sub_taken_def insert_app_tenant_def access_by_sub_def find_None_iff at_key_def
          split: if_splits)
    then show ?thesis
      using upd_where_inserted [OF ins', of "\<lambda>a. a\<lparr>at_status := st, at_graceUntil := g,
          at_stripeSubscriptionId := Some (su_id sub), at_trialEndsAt := None,
          at_plan := (if truthy (tierOf sub s) then the (tierOf sub s) else at_plan a)\<rparr>"] rows
      by (simp add: syncSubscription_def Let_def acc st tier sync_update_def record_synced_def
          update_access_def)
  qed
qed

lemma syncSubscription_again:
  assumes "unique_on grant_key (app_tenants s)" and "syncSubscription cfg sub now s = (r, s')"
  shows "app_tenants (snd (syncSubscription cfg sub now' s')) = app_tenants s'"
proof (cases "synced_status cfg sub (routed_access sub s) now")
  case (Pair st g)
  then show ?thesis
    using assms sync_create_again [of sub s cfg now st g r s' now']
      sync_update_again [of s sub _ cfg now st g r s' now']
    by (cases "routed_access sub s") (simp_all add: syncSubscription_def)
qed

lemma onCheckoutCompleted_again:
  assumes "onCheckoutCompleted cs now s = (r, s')"
  shows "app_tenants (snd (onCheckoutCompleted cs now' s')) = app_tenants s'"
proof (cases "cs_mode cs = ''payment'' \<and> cs_paymentStatus cs = ''paid''
    \<and> truthy (cs_metaTenantId cs) \<and> truthy (cs_metaAppId cs)")
  case True
  let ?up = "upsertPurchase (the (cs_metaTenantId cs)) (the (cs_metaAppId cs)) (cs_metaTier cs)"
  obtain r1 s1 where up: "?up now s = (r1, s1)"
    by (cases "?up now s")
  show ?thesis
  proof (cases r1)
    case (Inr x)
    then have rows: "app_tenants s' = app_tenants s1"
      using assms True up by (auto simp: onCheckoutCompleted_def)
    obtain r2 s2 where up2: "?up now' s' = (r2, s2)"
      by (cases "?up now' s'")
    then have "r2 = Inr ()" "app_tenants s2 = app_tenants s'"
      using upsertPurchase_again [OF up [unfolded Inr] rows, of now'] by simp_all
    then show ?thesis
      using up2 True by (simp add: onCheckoutCompleted_def)
  next
    case (Inl e)
    have none: "access_of s (the (cs_metaTenantId cs)) (the (cs_metaAppId cs)) = None"
      using up Inl by (auto simp: upsertPurchase_def split: option.splits)
    then have s1: "s1 = s"
      using up Inl insert_app_tenant_Inl by (auto simp: upsertPurchase_def)
    then have rows: "app_tenants s' = app_tenants s" and frame: "only_grants s s'"
      using assms up Inl True
      by (auto simp: onCheckoutCompleted_def acknowledgeOrphan_def split: if_splits)
    have "?up now' s' = (Inl e, s')"
      using none up Inl rows
      by (auto simp: upsertPurchase_def access_of_def intro: insert_app_tenant_fails [OF _ frame rows])
    then show ?thesis
      using True by (simp add: onCheckoutCompleted_def acknowledgeOrphan_def)
  qed
qed (use assms in \<open>auto simp: onCheckoutCompleted_def\<close>)

section \<open>The interface of what writes grants\<close>

text \<open>
  Whatever drives grants through \<open>grant_effect\<close> keeps them in order over any sequence of its steps:
  one grant per pair, one grant per subscription, and a deadline on every grant past due. The
  webhook is one such driver; a deadline it set is never moved while the grant stays past due.
\<close>

locale grant_driver =
  fixes drive :: "'e \<Rightarrow> time \<Rightarrow> db \<Rightarrow> 'r \<times> db"
  assumes effect: "drive e now s = (r, s') \<Longrightarrow> grant_effect s s'"
begin

fun drive_all :: "('e \<times> time) list \<Rightarrow> db \<Rightarrow> db" where
  "drive_all [] s = s"
| "drive_all ((e, now) # es) s = drive_all es (snd (drive e now s))"

lemma grant_effect_drive: "grant_effect s (snd (drive e now s))"
  by (rule effect [of e now s "fst (drive e now s)"]) simp

lemma drive_all_ok: "grants_ok (app_tenants s) \<Longrightarrow> grants_ok (app_tenants (drive_all es s))"
proof (induction es arbitrary: s)
  case (Cons x es)
  then show ?case
    by (cases x) (auto intro: grants_ok_effect grant_effect_drive)
qed simp

lemma deadline_kept:
  assumes "grants_ok (app_tenants s)" and "drive e now s = (r, s')"
    and "a \<in> set (app_tenants s)" and "at_graceUntil a = Some g"
    and "b \<in> set (app_tenants s')" and "grant_key b = grant_key a" and "at_status b = PastDue"
    and "at_status a = PastDue"
  shows "at_graceUntil b = Some g"
proof -
  have u: "unique_on grant_key (app_tenants s)"
    using assms(1) by (simp add: grants_ok_def)
  consider (same) "app_tenants s' = app_tenants s"
    | (update) c f where "c \<in> set (app_tenants s)" "sound_change c s f"
        "app_tenants s' = upd_where (at_key (at_tenantId c) (at_appId c)) f (app_tenants s)"
    | (insert) row where "sound_row row s" "app_tenants s' = app_tenants s @ [row]"
    using effect [OF assms(2)] unfolding grant_effect_def by blast
  then show ?thesis
  proof cases
    case same
    then show ?thesis
      using unique_on_eqD [OF u _ assms(3)] assms(4-6) by auto
  next
    case update
    obtain x where x: "x \<in> set (app_tenants s)"
      "b = (if at_key (at_tenantId c) (at_appId c) x then f x else x)"
      using assms(5) update(3) by (auto simp: in_upd_where)
    have key: "grant_key (f x) = grant_key x"
      using update(2) by (simp add: sound_change_def grant_key_def)
    then have "grant_key b = grant_key x"
      by (simp add: x(2))
    then have "x = a"
      by (intro unique_on_eqD [OF u x(1) assms(3)]) (simp add: assms(6))
    show ?thesis
    proof (cases "at_key (at_tenantId c) (at_appId c) x")
      case True
      then have "x = c"
        using unique_on_eqD [OF u x(1) update(1)] by (simp add: at_key_grant_key)
      then show ?thesis
        using update(2) True x(2) \<open>x = a\<close> assms(4,7) by (auto simp: sound_change_def)
    qed (use x(2) \<open>x = a\<close> assms(4) in simp)
  next
    case insert
    then have "b \<noteq> row"
      using assms(3,6) by (auto simp: sound_row_def access_of_def find_None_iff at_key_def grant_key_def)
    then show ?thesis
      using insert(2) unique_on_eqD [OF u _ assms(3)] assms(4-6) by auto
  qed
qed

text \<open>A step touches the grant of one pair at most.\<close>

lemma one_pair:
  assumes "drive e now s = (r, s')"
  shows "\<exists>k. (\<forall>k'. k' \<noteq> k \<longrightarrow>
    filter (\<lambda>a. grant_key a = k') (app_tenants s') = filter (\<lambda>a. grant_key a = k') (app_tenants s))"
  using effect [OF assms] unfolding grant_effect_def
proof (elim disjE exE conjE)
  fix c f
  assume c: "sound_change c s f"
    "app_tenants s' = upd_where (at_key (at_tenantId c) (at_appId c)) f (app_tenants s)"
  have "k' \<noteq> grant_key c \<Longrightarrow>
    filter (\<lambda>a. grant_key a = k') (app_tenants s') = filter (\<lambda>a. grant_key a = k') (app_tenants s)" for k'
    unfolding c(2) by (rule filter_upd_where_other)
      (use c(1) in \<open>auto simp: sound_change_def grant_key_def at_key_def\<close>)
  then show ?thesis
    by blast
next
  fix row
  assume "app_tenants s' = app_tenants s @ [row]"
  then show ?thesis
    by (intro exI [of _ "grant_key row"]) simp
qed simp

end

interpretation stripe_events: grant_driver "handleEvent cfg" for cfg
  by unfold_locales (rule handleEvent_effect)

definition handleEvents :: "config \<Rightarrow> (stripe_event \<times> time) list \<Rightarrow> db \<Rightarrow> db" where
  "handleEvents cfg evs s = fold (\<lambda>(ev, now) s. snd (handleEvent cfg ev now s)) evs s"

lemma drive_all_handleEvents: "stripe_events.drive_all cfg evs s = handleEvents cfg evs s"
  by (induction evs arbitrary: s) (auto simp: handleEvents_def)

section \<open>Lemmas for checkout\<close>

lemma assertRedirectAllowed_ok:
  "assertRedirectAllowed url_origin url app = Inr x \<longleftrightarrow>
   (\<exists>cb \<in> set (a_callbackUrls app). url_origin url \<noteq> None \<and> url_origin cb = url_origin url)"
  by (auto simp: assertRedirectAllowed_def list_ex_iff split: option.splits)

lemma with_mode_ok:
  "with_mode cfg p = Inr q \<longleftrightarrow>
   q = p \<and> (stripeMode cfg \<noteq> Unset \<longrightarrow> p_livemode p = (stripeMode cfg = Live))"
  by (cases "stripeMode cfg") (auto simp: with_mode_def assertPriceMode_def)

lemma resolvePrice_ok:
  assumes "resolvePrice cfg dto app s = Inr p"
  shows "p \<in> set (prices s) \<and> p_appId p = a_id app
    \<and> (stripeMode cfg \<noteq> Unset \<longrightarrow> p_livemode p = (stripeMode cfg = Live))
    \<and> (truthy (ck_priceId dto) \<longrightarrow> Some (p_stripePriceId p) = ck_priceId dto)
    \<and> (\<not> truthy (ck_priceId dto) \<longrightarrow> truthy (ck_tier dto) \<longrightarrow> Some (p_tier p) = ck_tier dto
         \<and> p_interval p = nullish (ck_interval dto) ''month''
         \<and> p_intervalCount p = nullish (ck_intervalCount dto) 1)"
proof -
  let ?ps = "filter (\<lambda>p. p_appId p = a_id app) (prices s)"
  have ne: "?ps \<noteq> []" and "p \<in> set ?ps"
    using assms
    by (auto simp: resolvePrice_def Let_def with_mode_ok split: if_splits option.splits
        dest: find_SomeD hd_in_set)
  then show ?thesis
    using assms
    by (auto simp: resolvePrice_def Let_def with_mode_ok split: if_splits option.splits
        dest: find_SomeD)
qed

lemma checkout_prepare_ok:
  assumes "checkout_prepare cfg stripe url_origin dto app s = (Inr req, s')"
  obtains p customer where "resolvePrice cfg dto app s = Inr p"
    "access_of s (ck_tenantId dto) (a_id app) \<noteq> None"
    "assertRedirectAllowed url_origin (ck_successUrl dto) app = Inr ()"
    "assertRedirectAllowed url_origin (ck_cancelUrl dto) app = Inr ()"
    "ensureCustomer stripe (ck_tenantId dto) s = (Inr customer, s')"
    "req = checkout_request_of dto app p customer"
  using assms
  by (auto simp: checkout_prepare_def requireRelationship_def split: sum.splits option.splits
      prod.splits)

section \<open>A paying workspace\<close>

definition sample_price :: app_price where
  "sample_price = \<lparr>p_id = ''p1'', p_appId = ''a1'', p_stripePriceId = ''price_1'', p_tier = ''pro'',
     p_stripeProductId = ''prod_1'', p_productName = ''Swag'', p_livemode = False, p_unitAmount = 1000,
     p_currency = ''usd'', p_interval = ''month'', p_intervalCount = 1, p_sellable = True,
     p_trialDays = 0, p_sortOrder = 0\<rparr>"

definition sample_sub :: "string \<Rightarrow> subscription" where
  "sample_sub status = \<lparr>su_id = ''sub_1'', su_status = status, su_metaTenantId = Some ''t1'',
     su_metaAppId = Some ''a1'', su_priceId = Some ''price_1''\<rparr>"

definition sample_invoice :: invoice_event where
  "sample_invoice = \<lparr>in_subscription = None, in_parentSubscription = Some (RefId ''sub_1'')\<rparr>"

definition sample_billing :: db where
  "sample_billing = sample_db\<lparr>prices := [sample_price],
     app_tenants := [sample_grant\<lparr>at_stripeSubscriptionId := Some ''sub_1''\<rparr>]\<rparr>"

definition sample_checkout :: checkout_dto where
  "sample_checkout = \<lparr>ck_tenantId = ''t1'', ck_priceId = None, ck_tier = Some ''pro'', ck_interval = None,
     ck_intervalCount = None, ck_quantity = None, ck_successUrl = ''https://swag.example/ok'',
     ck_cancelUrl = ''https://swag.example/no''\<rparr>"

text \<open>An origin function that serves the sample: the scheme and host, 20 characters.\<close>

definition sample_origin :: "string \<Rightarrow> string option" where
  "sample_origin u = (if starts_with u ''https://'' then Some (take 20 u) else None)"

definition sample_stripe :: stripe_api where
  "sample_stripe = \<lparr>create_customer = (\<lambda>n t sl. Inr ''cus_1''), create_checkout = (\<lambda>r. Inr ''url''),
     create_portal = (\<lambda>c u. Inr ''url''), retrieve_price = (\<lambda>p. None),
     construct_event = (\<lambda>b sig sec. None)\<rparr>"

lemma sample_billing_ok: "grants_ok (app_tenants sample_billing)"
  by code_simp

section \<open>Properties\<close>



text \<open>
  The countdown an app shows is right. \<open>daysLeft\<close> is never negative, a workspace locked out by
  its deadline reads zero, and a positive count \<open>d\<close> means that the deadline is more than \<open>d - 1\<close> and
  at most \<open>d\<close> days away.
\<close>

theorem days_left_bounds:
  assumes "access_of s tid (a_id app) = Some a" and "deadline_of a = Some dl"
    and "en_daysLeft (entitlement tid app now s) = Some d"
  shows "0 \<le> d \<and> dl \<le> now + d * day_ms \<and> (0 < d \<longleftrightarrow> now < dl)
    \<and> (0 < d \<longrightarrow> now + (d - 1) * day_ms < dl)
    \<and> (\<not> en_enabled (entitlement tid app now s) \<longrightarrow> d = 0)"
proof -
  have d: "d = max 0 (ceil_div (dl - now) day_ms)"
    using assms by (simp add: entitlement_def Let_def)
  have day: "0 < day_ms"
    by (simp add: day_ms_def)
  note b = ceil_div_bounds [OF day, of "dl - now"] ceil_div_pos_iff [OF day, of "dl - now"]
  have pos: "0 < d \<longleftrightarrow> now < dl"
    using b(3) by (auto simp: d max_def)
  have lock: "\<not> en_enabled (entitlement tid app now s) \<longrightarrow> dl < now"
    using assms(1,2) by (auto simp: entitlement_def Let_def deadline_of_def
        split: app_tenant_status.splits)
  show ?thesis
  proof (cases "now < dl")
    case True
    then have "d = ceil_div (dl - now) day_ms" "0 < d"
      using b(3) pos by (simp_all add: d max_def)
    then show ?thesis
      using b(1,2) True lock by (auto simp: algebra_simps)
  next
    case False
    then have "d = 0"
      using pos d by linarith
    then show ?thesis
      using False by simp
  qed
qed

lemma days_left_bounds_witness:
  "\<exists>d. en_daysLeft (entitlement ''t1'' sample_app 10
      (sample_billing\<lparr>app_tenants := [sample_grant\<lparr>at_status := Trial,
          at_trialEndsAt := Some 86400011\<rparr>]\<rparr>)) = Some d \<and> 0 < d \<and> 10 + (d - 1) * day_ms < 86400011"
proof -
  let ?g = "sample_grant\<lparr>at_status := Trial, at_trialEndsAt := Some 86400011\<rparr>"
  let ?s = "sample_billing\<lparr>app_tenants := [?g]\<rparr>"
  have "access_of ?s ''t1'' (a_id sample_app) = Some ?g" "deadline_of ?g = Some 86400011"
    by code_simp+
  moreover have "en_daysLeft (entitlement ''t1'' sample_app 10 ?s) = Some 2"
    by code_simp
  ultimately show ?thesis
    using days_left_bounds [of ?s "''t1''" sample_app ?g 86400011 10 2] by auto
qed

text \<open>
  C36: Stripe may deliver an event again. Handling the same event a second time, at any later moment,
  leaves every grant as the first delivery left it: no deadline moves and no plan or status flips.
\<close>

theorem webhook_redelivery_idempotent:
  assumes "unique_on grant_key (app_tenants s)" and "handleEvent cfg ev now s = (r, s')"
  shows "app_tenants (snd (handleEvent cfg ev now' s')) = app_tenants s'"
  using assms onInvoicePaid_again
  by (auto simp: handleEvent_def intro: syncSubscription_again onPaymentFailed_again
      onCheckoutCompleted_again split: stripe_event.splits)

lemma webhook_redelivery_idempotent_witness:
  "app_tenants (snd (handleEvent sample_cfg (SubscriptionUpdated (sample_sub ''past_due'')) 99
      (snd (handleEvent sample_cfg (SubscriptionUpdated (sample_sub ''past_due'')) 10 sample_billing))))
   = app_tenants
      (snd (handleEvent sample_cfg (SubscriptionUpdated (sample_sub ''past_due'')) 10 sample_billing))"
proof -
  have "unique_on grant_key (app_tenants sample_billing)"
    using sample_billing_ok by (simp add: grants_ok_def)
  then show ?thesis
    by (rule webhook_redelivery_idempotent) (rule prod.collapse [symmetric])
qed

text \<open>
  C26: Any sequence of webhook events keeps the grants in order: one row per workspace and app, no
  subscription driving two rows, and no row past due without a deadline.
\<close>

theorem webhook_keeps_grants_ok:
  assumes "grants_ok (app_tenants s)"
  shows "grants_ok (app_tenants (handleEvents cfg evs s))"
  using stripe_events.drive_all_ok [OF assms, of cfg evs] by (simp add: drive_all_handleEvents)

lemma webhook_keeps_grants_ok_witness:
  "grants_ok (app_tenants (handleEvents sample_cfg
     [(SubscriptionUpdated (sample_sub ''past_due''), 10), (InvoicePaid sample_invoice, 20)]
     sample_billing))"
  by (rule webhook_keeps_grants_ok) (rule sample_billing_ok)

text \<open>
  A webhook event touches the grant of one workspace and app at most, and nothing else in the
  database but the audit trail: one app's lapse never reaches another app or another workspace.
\<close>

theorem webhook_touches_one_pair:
  assumes "handleEvent cfg ev now s = (r, s')"
  shows "only_grants s s' \<and> (\<exists>k. \<forall>k'. k' \<noteq> k \<longrightarrow>
    filter (\<lambda>a. grant_key a = k') (app_tenants s') = filter (\<lambda>a. grant_key a = k') (app_tenants s))"
  using handleEvent_frame [OF assms] stripe_events.one_pair [OF assms] by blast

lemma webhook_touches_one_pair_witness:
  "only_grants sample_billing (snd (handleEvent sample_cfg (InvoicePaid sample_invoice) 10 sample_billing))"
  using webhook_touches_one_pair [OF prod.collapse [symmetric]] by blast

text \<open>
  A grace window is never extended. A grant that is past due before and after an event keeps the
  deadline it had, however often payment fails.
\<close>

theorem grace_never_extended:
  assumes "grants_ok (app_tenants s)" and "handleEvent cfg ev now s = (r, s')"
    and "a \<in> set (app_tenants s)" and "at_status a = PastDue" and "at_graceUntil a = Some g"
    and "b \<in> set (app_tenants s')" and "grant_key b = grant_key a" and "at_status b = PastDue"
  shows "at_graceUntil b = Some g"
  by (rule stripe_events.deadline_kept [OF assms(1,2,3,5,6,7,8,4)])

lemma grace_never_extended_witness:
  "\<forall>b \<in> set (app_tenants (snd (handleEvent sample_cfg (InvoicePaymentFailed sample_invoice) 500
     (sample_billing\<lparr>app_tenants := [sample_grant\<lparr>at_stripeSubscriptionId := Some ''sub_1'',
        at_status := PastDue, at_graceUntil := Some 100\<rparr>]\<rparr>)))). at_graceUntil b = Some 100"
proof
  let ?a = "sample_grant\<lparr>at_stripeSubscriptionId := Some ''sub_1'', at_status := PastDue,
      at_graceUntil := Some 100\<rparr>"
  let ?s = "sample_billing\<lparr>app_tenants := [?a]\<rparr>"
  let ?s' = "snd (handleEvent sample_cfg (InvoicePaymentFailed sample_invoice) 500 ?s)"
  fix b
  assume b: "b \<in> set (app_tenants ?s')"
  have "\<forall>b \<in> set (app_tenants ?s'). grant_key b = grant_key ?a \<and> at_status b = PastDue"
    "grants_ok (app_tenants ?s)" "?a \<in> set (app_tenants ?s)"
    by code_simp+
  then show "at_graceUntil b = Some 100"
    using grace_never_extended [of ?s sample_cfg "InvoicePaymentFailed sample_invoice" 500
        "fst (handleEvent sample_cfg (InvoicePaymentFailed sample_invoice) 500 ?s)" ?s' ?a 100 b] b
    by simp
qed

text \<open>
  The end of a replaced subscription does not lock out a customer who upgraded. An event of a
  subscription that does not own the grant and would suspend it (canceled, unpaid, paused, ...) is
  acknowledged and changes nothing.
\<close>

theorem stale_subscription_ignored:
  assumes "access_of s tid aid = Some a" and "su_metaTenantId sub = Some tid"
    and "su_metaAppId sub = Some aid" and "tid \<noteq> []" and "aid \<noteq> []"
    and "at_stripeSubscriptionId a = Some owner" and "owner \<noteq> []" and "owner \<noteq> su_id sub"
    and "su_status sub \<notin> {''active'', ''trialing'', ''past_due''}"
  shows "handleEvent cfg (SubscriptionUpdated sub) now s = (Inr True, s)
    \<and> handleEvent cfg (SubscriptionDeleted sub) now s = (Inr True, s)"
  using assms by (simp add: handleEvent_def syncSubscription_def routed_access_def synced_status_def
      sync_update_def)

lemma stale_subscription_ignored_witness:
  "handleEvent sample_cfg (SubscriptionDeleted ((sample_sub ''canceled'')\<lparr>su_id := ''sub_0''\<rparr>)) 10
     sample_billing = (Inr True, sample_billing)"
proof -
  let ?a = "sample_grant\<lparr>at_stripeSubscriptionId := Some ''sub_1''\<rparr>"
  have "access_of sample_billing ''t1'' ''a1'' = Some ?a"
    by code_simp
  from stale_subscription_ignored [OF this, of "(sample_sub ''canceled'')\<lparr>su_id := ''sub_0''\<rparr>"
      "''sub_1''" sample_cfg 10]
  show ?thesis
    by (simp add: sample_sub_def)
qed

text \<open>
  A paid invoice lifts a grant out of past due and does nothing else. Every grant that was not
  past due, one an administrator suspended above all, is the same afterwards, and no grant comes out
  of it other than unchanged or active without a deadline.
\<close>

theorem invoice_paid_only_lifts_past_due:
  assumes "unique_on grant_key (app_tenants s)"
    and "handleEvent cfg (InvoicePaid iv) now s = (r, s')"
  shows "list_all2 (\<lambda>a b. b = a \<or> at_status a = PastDue
      \<and> b = a\<lparr>at_status := Active, at_graceUntil := None\<rparr>) (app_tenants s) (app_tenants s')"
proof (cases "accessBySubscriptionId (invoiceSubscriptionId iv) s")
  case (Some a)
  then have a: "a \<in> set (app_tenants s)"
    by (rule accessBySubscriptionId_in)
  have only: "x \<in> set (app_tenants s) \<Longrightarrow> at_key (at_tenantId a) (at_appId a) x \<Longrightarrow> x = a" for x
    using unique_on_eqD [OF assms(1) _ a] by (simp add: at_key_grant_key)
  show ?thesis
  proof (cases "at_status a = PastDue")
    case True
    then have "app_tenants s' = upd_where (at_key (at_tenantId a) (at_appId a))
        (\<lambda>x. x\<lparr>at_status := Active, at_graceUntil := None\<rparr>) (app_tenants s)"
      using assms(2) Some by (auto simp: handleEvent_def onInvoicePaid_def update_access_def)
    then show ?thesis
      using only True by (auto simp: upd_where_def list_all2_map2 intro!: list_all2_refl
          list.rel_refl_strong)
  next
    case False
    then show ?thesis
      using assms(2) Some by (auto simp: handleEvent_def onInvoicePaid_def intro: list.rel_refl)
  qed
qed (use assms(2) in \<open>auto simp: handleEvent_def onInvoicePaid_def intro: list.rel_refl\<close>)

lemma invoice_paid_only_lifts_past_due_witness:
  "list_all2 (\<lambda>a b. b = a \<or> at_status a = PastDue
      \<and> b = a\<lparr>at_status := Active, at_graceUntil := None\<rparr>) (app_tenants sample_billing)
    (app_tenants (snd (handleEvent sample_cfg (InvoicePaid sample_invoice) 10 sample_billing)))"
proof -
  have "unique_on grant_key (app_tenants sample_billing)"
    using sample_billing_ok by (simp add: grants_ok_def)
  then show ?thesis
    by (rule invoice_paid_only_lifts_past_due) (rule prod.collapse [symmetric])
qed

text \<open>
  A subscription that names a workspace or app the platform does not know is absorbed. The event
  is answered as not handled, so that Stripe does not retry it, no grant is written, and one audit
  row records it.
\<close>

theorem orphan_subscription_absorbed:
  assumes "su_metaTenantId sub = Some tid" and "su_metaAppId sub = Some aid"
    and "tid \<noteq> []" and "aid \<noteq> []" and "access_of s tid aid = None"
    and "tenant_by_id s tid = None \<or> app_by_id s aid = None"
    and "access_by_sub s (su_id sub) = None"
  shows "\<exists>e. fst (handleEvent cfg (SubscriptionCreated sub) now s) = Inr False
    \<and> app_tenants (snd (handleEvent cfg (SubscriptionCreated sub) now s)) = app_tenants s
    \<and> audit_events (snd (handleEvent cfg (SubscriptionCreated sub) now s)) = audit_events s @ [e]
    \<and> ae_action e = ''billing.orphan_subscription''"
  using assms
  by (auto simp: handleEvent_def syncSubscription_def routed_access_def sync_create_def
      insert_app_tenant_def acknowledgeOrphan_def record_event_def split: prod.splits)

lemma orphan_subscription_absorbed_witness:
  "fst (handleEvent sample_cfg (SubscriptionCreated ((sample_sub ''active'')
      \<lparr>su_metaTenantId := Some ''gone'', su_id := ''sub_9''\<rparr>)) 10 sample_billing) = Inr False"
proof -
  have "access_of sample_billing ''gone'' ''a1'' = None" "tenant_by_id sample_billing ''gone'' = None"
    "access_by_sub sample_billing ''sub_9'' = None"
    by code_simp+
  then show ?thesis
    using orphan_subscription_absorbed [of "(sample_sub ''active'')
      \<lparr>su_metaTenantId := Some ''gone'', su_id := ''sub_9''\<rparr>" "''gone''" "''a1''" sample_billing
      sample_cfg 10]
    by (simp add: sample_sub_def)
qed

text \<open>
  What a checkout asks Stripe for is safe. Its price is one registered for the calling app, of
  the mode the deployment runs in; the workspace already has a grant for that app; both redirect
  targets share an origin with a registered callback of the app; and the metadata that will route
  the webhook names that workspace, app and tier.
\<close>

theorem checkout_request_safe:
  assumes "checkout_prepare cfg stripe url_origin dto app s = (Inr req, s')"
  shows "(\<exists>p \<in> set (prices s). p_appId p = a_id app \<and> cr_price req = p_stripePriceId p
        \<and> cr_metaTier req = p_tier p \<and> (cr_mode req = ''payment'' \<longleftrightarrow> p_interval p = ONCE)
        \<and> (stripeMode cfg \<noteq> Unset \<longrightarrow> p_livemode p = (stripeMode cfg = Live)))
    \<and> access_of s (ck_tenantId dto) (a_id app) \<noteq> None
    \<and> (\<forall>url \<in> {cr_successUrl req, cr_cancelUrl req}. \<exists>cb \<in> set (a_callbackUrls app).
         url_origin url \<noteq> None \<and> url_origin cb = url_origin url)
    \<and> cr_metaTenantId req = ck_tenantId dto \<and> cr_metaAppId req = a_id app"
proof -
  obtain p customer where c: "resolvePrice cfg dto app s = Inr p"
    "access_of s (ck_tenantId dto) (a_id app) \<noteq> None"
    "assertRedirectAllowed url_origin (ck_successUrl dto) app = Inr ()"
    "assertRedirectAllowed url_origin (ck_cancelUrl dto) app = Inr ()"
    "req = checkout_request_of dto app p customer"
    using assms by (rule checkout_prepare_ok)
  have "cr_successUrl req = ck_successUrl dto" "cr_cancelUrl req = ck_cancelUrl dto"
    "cr_price req = p_stripePriceId p" "cr_metaTier req = p_tier p"
    "cr_metaTenantId req = ck_tenantId dto" "cr_metaAppId req = a_id app"
    "cr_mode req = ''payment'' \<longleftrightarrow> p_interval p = ONCE"
    using c(5) by (simp_all add: checkout_request_of_def Let_def)
  then show ?thesis
    using c(2-4) resolvePrice_ok [OF c(1)] by (auto simp: assertRedirectAllowed_ok)
qed

lemma checkout_request_safe_witness:
  "\<exists>req s'. checkout_prepare sample_cfg (Some sample_stripe) sample_origin sample_checkout sample_app
      sample_billing = (Inr req, s') \<and> cr_metaAppId req = ''a1''"
proof -
  have "is_ok (fst (checkout_prepare sample_cfg (Some sample_stripe) sample_origin sample_checkout
      sample_app sample_billing))"
    by code_simp
  then obtain req s' where c: "checkout_prepare sample_cfg (Some sample_stripe) sample_origin
      sample_checkout sample_app sample_billing = (Inr req, s')"
    by (rule is_ok_fstE)
  then show ?thesis
    using checkout_request_safe [OF c] by (simp add: sample_app_def)
qed

text \<open>
  A failed payment reopens a grant that an administrator suspended. It becomes past due with a
  fresh deadline, so the workspace may sign in again, and the next paid invoice makes it active,
  although the service's contract is that billing never revives a manual suspension.
\<close>

theorem failed_payment_reopens_suspended:
  "let s0 = sample_billing\<lparr>app_tenants := [sample_grant\<lparr>at_stripeSubscriptionId := Some ''sub_1'',
          at_status := Suspended\<rparr>]\<rparr>;
       s1 = snd (handleEvent sample_cfg (InvoicePaymentFailed sample_invoice) 10 s0);
       s2 = snd (handleEvent sample_cfg (InvoicePaid sample_invoice) 20 s1)
   in \<not> entitled s0 ''t1'' ''swag'' 9 \<and> entitled s1 ''t1'' ''swag'' 11
      \<and> map at_status (app_tenants s2) = [Active]"
  by code_simp

end
