(* ===== verification/Apps.thy ===== *)
theory Apps
  imports Billing Lifecycle
begin

text \<open>
  The registry of apps, \<open>platform/src/apps/apps.service.ts\<close>: registering, editing, deleting,
  restoring and erasing an app, rotating its secret, the prices it sells and the roles it defines.
  Ids and secrets are drawn by the caller of the model. The order in which Postgres sorts names is
  its collation, an argument of the one listing that sorts by name.
\<close>

section \<open>What the API shows of an app\<close>

record app_view =
  av_id :: string
  av_clientId :: string
  av_name :: string
  av_displayName :: "string option"
  av_callbackUrls :: "string list"
  av_brand :: "json option"
  av_autoEnroll :: bool
  av_createdAt :: time
  av_deletedAt :: "time option"
  av_roles :: "(string \<times> string \<times> string option) list"

definition app_public :: "db \<Rightarrow> app \<Rightarrow> app_view" where
  "app_public s a = \<lparr>av_id = a_id a, av_clientId = a_clientId a, av_name = a_name a,
     av_displayName = a_displayName a, av_callbackUrls = a_callbackUrls a, av_brand = a_brand a,
     av_autoEnroll = a_autoEnroll a, av_createdAt = a_createdAt a, av_deletedAt = a_deletedAt a,
     av_roles = map (\<lambda>r. (r_id r, r_name r, r_description r))
       (filter (\<lambda>r. r_appId r = a_id a) (roles s))\<rparr>"

definition app_list :: "bool \<Rightarrow> db \<Rightarrow> app_view list" where
  "app_list includeDeleted s =
     map (app_public s) (sort_key a_createdAt
       (filter (\<lambda>a. includeDeleted \<or> a_deletedAt a = None) (apps s)))"

definition app_get :: "string \<Rightarrow> db \<Rightarrow> app res" where
  "app_get i s = (case app_by_id s i of None \<Rightarrow> Inl (NotFound ''App not found'') | Some a \<Rightarrow> Inr a)"

section \<open>Delete, restore and erase\<close>

text \<open>\<open>app.update\<close> of one row.\<close>

definition set_app :: "string \<Rightarrow> (app \<Rightarrow> app) \<Rightarrow> db \<Rightarrow> db" where
  "set_app i f s = s\<lparr>apps := upd_where (\<lambda>a. a_id a = i) f (apps s)\<rparr>"

definition app_meta :: "string \<Rightarrow> json option \<Rightarrow> audit_meta" where
  "app_meta clientId detail = no_meta\<lparr>am_appClientId := Some clientId, am_detail := detail\<rparr>"

definition app_remove :: "string \<Rightarrow> time \<Rightarrow> db \<Rightarrow> app_view res \<times> db" where
  "app_remove i now s =
     (case app_get i s of
        Inl e \<Rightarrow> (Inl e, s)
      | Inr existing \<Rightarrow>
          if a_deletedAt existing \<noteq> None then (Inl (Conflict ''App is already deleted''), s)
          else (let s1 = set_app i (\<lambda>a. a\<lparr>a_deletedAt := Some now\<rparr>) s
                in (Inr (app_public s1 (existing\<lparr>a_deletedAt := Some now\<rparr>)),
                    record_event ''app.deleted'' (app_meta (a_clientId existing) None) now s1)))"

definition app_restore :: "string \<Rightarrow> time \<Rightarrow> db \<Rightarrow> app_view res \<times> db" where
  "app_restore i now s =
     (case app_get i s of
        Inl e \<Rightarrow> (Inl e, s)
      | Inr existing \<Rightarrow>
          if a_deletedAt existing = None then (Inl (Conflict ''App is not deleted''), s)
          else (let s1 = set_app i (\<lambda>a. a\<lparr>a_deletedAt := None\<rparr>) s
                in (Inr (app_public s1 (existing\<lparr>a_deletedAt := None\<rparr>)),
                    record_event ''app.restored'' (app_meta (a_clientId existing) None) now s1)))"

text \<open>The counts are those of roles and of tenant grants that went with the app.\<close>

definition app_purge :: "string \<Rightarrow> time \<Rightarrow> db \<Rightarrow> (nat \<times> nat) res \<times> db" where
  "app_purge i now s =
     (case app_get i s of
        Inl e \<Rightarrow> (Inl e, s)
      | Inr app \<Rightarrow>
          if a_deletedAt app = None
          then (Inl (Conflict ''Purge requires the app to be soft-deleted first''), s)
          else (let nroles = count_where (\<lambda>r. r_appId r = i) (roles s);
                    ntenants = count_where (\<lambda>g. at_appId g = i) (app_tenants s);
                    s1 = delete_app i s
                in (Inr (nroles, ntenants), record_event ''app.purged''
                      (no_meta\<lparr>am_detail := Some (JObj [(''name'', JStr (a_name app)),
                         (''clientId'', JStr (a_clientId app)), (''roles'', JNum (int nroles)),
                         (''tenants'', JNum (int ntenants))])\<rparr>) now s1)))"

section \<open>Register and edit\<close>

text \<open>\<open>app.create\<close>: id, client id and name are unique.\<close>

definition insert_app :: "app \<Rightarrow> db \<Rightarrow> unit res \<times> db" where
  "insert_app a s =
     (if a_id a \<in> a_id ` set (apps s) \<or> a_clientId a \<in> a_clientId ` set (apps s)
         \<or> a_name a \<in> a_name ` set (apps s)
      then (Inl (PrismaError ''P2002''), s)
      else (Inr (), s\<lparr>apps := apps s @ [a]\<rparr>))"

record create_app_dto =
  ca_name :: string
  ca_displayName :: "string option"
  ca_callbackUrls :: "string list option"
  ca_autoEnroll :: "bool option"

text \<open>The drawn values are the row's id, the random part of the client id and the client secret.\<close>

definition app_create ::
  "env \<Rightarrow> create_app_dto \<Rightarrow> string \<Rightarrow> string \<Rightarrow> string \<Rightarrow> time \<Rightarrow> db \<Rightarrow>
   (app_view \<times> string) res \<times> db" where
  "app_create env dto newId hex clientSecret now s =
     (if find (\<lambda>a. a_name a = ca_name dto) (apps s) \<noteq> None
      then (Inl (Conflict (''App \"'' @ ca_name dto @ ''\" already exists'')), s)
      else (let clientId = ''app_'' @ hex;
                a = \<lparr>a_id = newId, a_clientId = clientId,
                     a_clientSecretHash = bcrypt_hash env clientSecret, a_name = ca_name dto,
                     a_displayName = ca_displayName dto,
                     a_callbackUrls = nullish (ca_callbackUrls dto) [],
                     a_autoEnroll = nullish (ca_autoEnroll dto) True, a_brand = None,
                     a_createdAt = now, a_deletedAt = None\<rparr>
            in case insert_app a s of
                 (Inl e, s1) \<Rightarrow> (Inl e, s1)
               | (Inr _, s1) \<Rightarrow> (Inr (app_public s1 a, clientSecret), record_event ''app.created''
                   (app_meta clientId (Some (JObj [(''name'', JStr (ca_name dto))]))) now s1)))"

record update_app_dto =
  ua_name :: "string option"
  ua_displayName :: "string option"
  ua_callbackUrls :: "string list option"
  ua_autoEnroll :: "bool option"

definition app_changes :: "update_app_dto \<Rightarrow> app \<Rightarrow> app" where
  "app_changes dto a = a\<lparr>a_name := set_if (ua_name dto) (a_name a),
     a_displayName := or_else (ua_displayName dto) (a_displayName a),
     a_callbackUrls := set_if (ua_callbackUrls dto) (a_callbackUrls a),
     a_autoEnroll := set_if (ua_autoEnroll dto) (a_autoEnroll a)\<rparr>"

text \<open>The fields whose JSON text differs, each with its old and new value.\<close>

definition app_fields :: "app \<Rightarrow> (string \<times> json) list" where
  "app_fields a = [(''name'', JStr (a_name a)), (''displayName'', json_opt JStr (a_displayName a)),
     (''callbackUrls'', JArr (map JStr (a_callbackUrls a))), (''autoEnroll'', JBool (a_autoEnroll a))]"

definition changed_fields :: "(string \<times> json) list \<Rightarrow> (string \<times> json) list \<Rightarrow> (string \<times> json) list" where
  "changed_fields before updated =
     List.map_filter (\<lambda>((field, prev), (_, next)).
        if json_text prev \<noteq> json_text next
        then Some (field, JObj [(''from'', prev), (''to'', next)]) else None)
       (zip before updated)"

definition app_update :: "string \<Rightarrow> update_app_dto \<Rightarrow> time \<Rightarrow> db \<Rightarrow> app_view res \<times> db" where
  "app_update i dto now s =
     (case app_get i s of
        Inl e \<Rightarrow> (Inl e, s)
      | Inr before \<Rightarrow>
          if ua_name dto \<noteq> None
             \<and> find (\<lambda>a. Some (a_name a) = ua_name dto \<and> a_id a \<noteq> i) (apps s) \<noteq> None
          then (Inl (PrismaError ''P2002''), s)
          else (let s1 = set_app i (app_changes dto) s;
                    updated = app_changes dto before;
                    changes = changed_fields (app_fields before) (app_fields updated)
                in (Inr (app_public s1 updated),
                    if changes \<noteq> []
                    then record_event ''app.updated''
                           (app_meta (a_clientId before) (Some (JObj changes))) now s1
                    else s1)))"

definition rotateSecret ::
  "env \<Rightarrow> string \<Rightarrow> string \<Rightarrow> time \<Rightarrow> db \<Rightarrow> (string \<times> string) res \<times> db" where
  "rotateSecret env i clientSecret now s =
     (case app_get i s of
        Inl e \<Rightarrow> (Inl e, s)
      | Inr app \<Rightarrow>
          (Inr (a_clientId app, clientSecret),
           record_event ''app.secret_rotated'' (app_meta (a_clientId app) None) now
             (set_app i (\<lambda>a. a\<lparr>a_clientSecretHash := bcrypt_hash env clientSecret\<rparr>) s)))"

definition app_listTenants :: "string \<Rightarrow> db \<Rightarrow> (tenant \<times> app_tenant option) list res" where
  "app_listTenants i s =
     (case app_get i s of
        Inl e \<Rightarrow> Inl e
      | Inr _ \<Rightarrow> Inr (map (\<lambda>t. (t, access_of s (tn_id t) i))
          (sort_key tn_createdAt (filter (\<lambda>t. tn_deletedAt t = None) (tenants s)))))"

section \<open>Prices\<close>

definition app_listPrices :: "string \<Rightarrow> db \<Rightarrow> app_price list res" where
  "app_listPrices i s =
     (case app_get i s of
        Inl e \<Rightarrow> Inl e
      | Inr _ \<Rightarrow> Inr (sort_key p_sortOrder (sort_key p_unitAmount
          (filter (\<lambda>p. p_appId p = i) (prices s)))))"

record add_price_dto =
  ap_stripePriceId :: string
  ap_tier :: string
  ap_sortOrder :: "int option"

text \<open>The key of \<open>@@unique([appId, tier, interval, intervalCount])\<close>.\<close>

definition price_key :: "app_price \<Rightarrow> string \<times> string \<times> string \<times> int" where
  "price_key p = (p_appId p, p_tier p, p_interval p, p_intervalCount p)"

definition price_of_facts ::
  "string \<Rightarrow> string \<Rightarrow> add_price_dto \<Rightarrow> price_facts \<Rightarrow> app_price" where
  "price_of_facts newId appId dto f =
     \<lparr>p_id = newId, p_appId = appId, p_stripePriceId = ap_stripePriceId dto, p_tier = ap_tier dto,
      p_stripeProductId = pf_stripeProductId f, p_productName = pf_productName f,
      p_livemode = pf_livemode f, p_unitAmount = pf_unitAmount f, p_currency = pf_currency f,
      p_interval = pf_interval f, p_intervalCount = pf_intervalCount f, p_sellable = True,
      p_trialDays = 0, p_sortOrder = nullish (ap_sortOrder dto) 0\<rparr>"

definition addPrice ::
  "stripe_api option \<Rightarrow> string \<Rightarrow> add_price_dto \<Rightarrow> string \<Rightarrow> time \<Rightarrow> db \<Rightarrow> app_price res \<times> db" where
  "addPrice stripe appId dto newId now s =
     (case app_get appId s of
        Inl e \<Rightarrow> (Inl e, s)
      | Inr app \<Rightarrow>
        (case describePrice stripe (ap_stripePriceId dto) of
           Inl e \<Rightarrow> (Inl e, s)
         | Inr facts \<Rightarrow>
           (case find (\<lambda>p. p_stripePriceId p = ap_stripePriceId dto) (prices s) of
              Some owner \<Rightarrow>
                (Inl (Conflict
                   (if p_appId owner = appId
                    then ''That price is already registered for this app as \"'' @ p_tier owner @ ''\"''
                    else ''That price already belongs to \"''
                      @ nullish (map_option a_name (app_by_id s (p_appId owner))) [] @ ''\"'')), s)
            | None \<Rightarrow>
                if find (\<lambda>p. price_key p = (appId, ap_tier dto, pf_interval facts, pf_intervalCount facts))
                     (prices s) \<noteq> None
                then (Inl (Conflict (''This app already sells \"'' @ ap_tier dto @ ''\" every ''
                        @ show_int (pf_intervalCount facts) @ '' '' @ pf_interval facts)), s)
                else if newId \<in> p_id ` set (prices s) then (Inl (PrismaError ''P2002''), s)
                else let price = price_of_facts newId appId dto facts
                     in (Inr price, record_event ''app.price_added''
                           (app_meta (a_clientId app) (Some (JObj [(''tier'', JStr (p_tier price)),
                              (''stripePriceId'', JStr (p_stripePriceId price)),
                              (''interval'', JStr (p_interval price))]))) now
                           (s\<lparr>prices := prices s @ [price]\<rparr>)))))"

definition find_price :: "string \<Rightarrow> string \<Rightarrow> db \<Rightarrow> app_price res" where
  "find_price appId priceId s =
     (case find (\<lambda>p. p_id p = priceId) (prices s) of
        None \<Rightarrow> Inl (NotFound ''Price not found'')
      | Some p \<Rightarrow> if p_appId p \<noteq> appId then Inl (NotFound ''Price not found'') else Inr p)"

text \<open>The cached copy of Stripe's facts, in the order \<open>describePrice\<close> returns them.\<close>

definition price_facts_of :: "app_price \<Rightarrow> (string \<times> json) list" where
  "price_facts_of p = [(''stripeProductId'', JStr (p_stripeProductId p)),
     (''productName'', JStr (p_productName p)), (''unitAmount'', JNum (p_unitAmount p)),
     (''currency'', JStr (p_currency p)), (''interval'', JStr (p_interval p)),
     (''intervalCount'', JNum (p_intervalCount p)), (''livemode'', JBool (p_livemode p))]"

definition with_facts :: "price_facts \<Rightarrow> app_price \<Rightarrow> app_price" where
  "with_facts f p = p\<lparr>p_stripeProductId := pf_stripeProductId f, p_productName := pf_productName f,
     p_unitAmount := pf_unitAmount f, p_currency := pf_currency f, p_interval := pf_interval f,
     p_intervalCount := pf_intervalCount f, p_livemode := pf_livemode f\<rparr>"

text \<open>The changed facts as (field, old, new), which the code renders as one string each.\<close>

definition changed_facts :: "app_price \<Rightarrow> app_price \<Rightarrow> (string \<times> json \<times> json) list" where
  "changed_facts p q =
     List.map_filter (\<lambda>((k, a), (_, b)). if a \<noteq> b then Some (k, a, b) else None)
       (zip (price_facts_of p) (price_facts_of q))"

definition refreshPrice ::
  "stripe_api option \<Rightarrow> string \<Rightarrow> string \<Rightarrow> time \<Rightarrow> db \<Rightarrow>
   (app_price \<times> (string \<times> json \<times> json) list) res \<times> db" where
  "refreshPrice stripe appId priceId now s =
     (case app_get appId s of
        Inl e \<Rightarrow> (Inl e, s)
      | Inr app \<Rightarrow>
        (case find_price appId priceId s of
           Inl e \<Rightarrow> (Inl e, s)
         | Inr price \<Rightarrow>
           (case describePrice stripe (p_stripePriceId price) of
              Inl e \<Rightarrow> (Inl e, s)
            | Inr facts \<Rightarrow>
                if (pf_interval facts \<noteq> p_interval price \<or> pf_intervalCount facts \<noteq> p_intervalCount price)
                   \<and> (case find (\<lambda>q. price_key q = (appId, p_tier price, pf_interval facts,
                              pf_intervalCount facts)) (prices s) of
                        None \<Rightarrow> False | Some clash \<Rightarrow> p_id clash \<noteq> p_id price)
                then (Inl (Conflict (''Stripe bills \"'' @ p_stripePriceId price @ ''\" every ''
                        @ show_int (pf_intervalCount facts) @ '' '' @ pf_interval facts
                        @ '', which this app already sells \"'' @ p_tier price
                        @ ''\" at. Remove one of the two.'')), s)
                else let s1 = s\<lparr>prices := upd_where (\<lambda>p. p_id p = priceId) (with_facts facts) (prices s)\<rparr>;
                         updated = with_facts facts price;
                         changed = changed_facts price updated
                     in (Inr (updated, changed), record_event ''app.price_refreshed''
                           (app_meta (a_clientId app) (Some (JObj [(''tier'', JStr (p_tier price)),
                              (''stripePriceId'', JStr (p_stripePriceId price)),
                              (''changed'', JArr (map (\<lambda>(k, a, b). JArr [JStr k, a, b]) changed))]))) now s1))))"

definition removePrice :: "string \<Rightarrow> string \<Rightarrow> time \<Rightarrow> db \<Rightarrow> unit res \<times> db" where
  "removePrice appId priceId now s =
     (case app_get appId s of
        Inl e \<Rightarrow> (Inl e, s)
      | Inr app \<Rightarrow>
        (case find_price appId priceId s of
           Inl e \<Rightarrow> (Inl e, s)
         | Inr price \<Rightarrow>
             (Inr (), record_event ''app.price_removed''
                (app_meta (a_clientId app) (Some (JObj [(''tier'', JStr (p_tier price)),
                   (''stripePriceId'', JStr (p_stripePriceId price))]))) now
                (s\<lparr>prices := del_where (\<lambda>p. p_id p = priceId) (prices s)\<rparr>))))"

section \<open>Roles\<close>

definition role_key :: "role \<Rightarrow> string \<times> string" where
  "role_key r = (r_appId r, r_name r)"

definition addRole ::
  "string \<Rightarrow> string \<Rightarrow> string option \<Rightarrow> string \<Rightarrow> db \<Rightarrow> role res \<times> db" where
  "addRole appId name description newId s =
     (case app_get appId s of
        Inl e \<Rightarrow> (Inl e, s)
      | Inr _ \<Rightarrow>
          if find (\<lambda>r. role_key r = (appId, name)) (roles s) \<noteq> None
          then (Inl (Conflict (''Role \"'' @ name @ ''\" already exists for this app'')), s)
          else if newId \<in> r_id ` set (roles s) then (Inl (PrismaError ''P2002''), s)
          else let r = \<lparr>r_id = newId, r_appId = appId, r_name = name, r_description = description\<rparr>
               in (Inr r, s\<lparr>roles := roles s @ [r]\<rparr>))"

definition app_listRoles ::
  "(string \<Rightarrow> 'k::linorder) \<Rightarrow> string \<Rightarrow> db \<Rightarrow> role list res" where
  "app_listRoles collation appId s =
     (case app_get appId s of
        Inl e \<Rightarrow> Inl e
      | Inr _ \<Rightarrow> Inr (sort_key (collation \<circ> r_name) (filter (\<lambda>r. r_appId r = appId) (roles s))))"

definition find_role :: "string \<Rightarrow> string \<Rightarrow> db \<Rightarrow> role option" where
  "find_role appId roleId s = find (\<lambda>r. r_id r = roleId \<and> r_appId r = appId) (roles s)"

text \<open>A new name that is empty skips the handler's own check, not the unique index.\<close>

definition updateRole ::
  "string \<Rightarrow> string \<Rightarrow> string option \<Rightarrow> string option \<Rightarrow> time \<Rightarrow> db \<Rightarrow> role res \<times> db" where
  "updateRole appId roleId name description now s =
     (case find_role appId roleId s of
        None \<Rightarrow> (Inl (NotFound ''Role not found''), s)
      | Some role \<Rightarrow>
          if truthy name \<and> name \<noteq> Some (r_name role)
             \<and> find (\<lambda>r. role_key r = (appId, the name)) (roles s) \<noteq> None
          then (Inl (Conflict (''Role \"'' @ the name @ ''\" already exists for this app'')), s)
          else if name \<noteq> None
             \<and> find (\<lambda>r. role_key r = (appId, the name) \<and> r_id r \<noteq> roleId) (roles s) \<noteq> None
          then (Inl (PrismaError ''P2002''), s)
          else let f = (\<lambda>r. r\<lparr>r_name := set_if name (r_name r),
                        r_description := or_else description (r_description r)\<rparr>)
               in (Inr (f role), record_event ''app.role_renamed''
                     (no_meta\<lparr>am_detail := Some (JObj [(''from'', JStr (r_name role)),
                        (''to'', JStr (r_name (f role)))])\<rparr>) now
                     (s\<lparr>roles := upd_where (\<lambda>r. r_id r = roleId) f (roles s)\<rparr>)))"

definition removeRole :: "string \<Rightarrow> string \<Rightarrow> time \<Rightarrow> db \<Rightarrow> nat res \<times> db" where
  "removeRole appId roleId now s =
     (case find_role appId roleId s of
        None \<Rightarrow> (Inl (NotFound ''Role not found''), s)
      | Some role \<Rightarrow>
          (let assignmentsRemoved = count_where (\<lambda>ur. ur_roleId ur = roleId) (user_roles s)
           in (Inr assignmentsRemoved, record_event ''app.role_deleted''
                 (no_meta\<lparr>am_detail := Some (JObj [(''role'', JStr (r_name role)),
                    (''assignmentsRemoved'', JNum (int assignmentsRemoved))])\<rparr>) now
                 (delete_roles (\<lambda>r. r_id r = roleId) s))))"

section \<open>The life of an app\<close>

lemma app_get_ok: "app_get i s = Inr a \<longleftrightarrow> app_by_id s i = Some a"
  by (auto simp: app_get_def split: option.splits)

lemma app_by_id_set_app:
  "app_by_id s i = Some a \<Longrightarrow> (\<And>b. a_id (f b) = a_id b) \<Longrightarrow> app_by_id (set_app i f s) i = Some (f a)"
  by (auto simp: app_by_id_def set_app_def find_upd_where dest: find_SomeD)

lemma delete_app_fields [simp]:
  "apps (delete_app i s) = del_where (\<lambda>a. a_id a = i) (apps s)"
  "prices (delete_app i s) = del_where (\<lambda>p. p_appId p = i) (prices s)"
  "roles (delete_app i s) = del_where (\<lambda>r. r_appId r = i) (roles s)"
  "app_tenants (delete_app i s) = del_where (\<lambda>g. at_appId g = i) (app_tenants s)"
  "user_roles (delete_app i s) =
     del_where (\<lambda>ur. ur_roleId ur \<in> r_id ` {r \<in> set (roles s). r_appId r = i}) (user_roles s)"
  "tenants (delete_app i s) = tenants s"
  "users (delete_app i s) = users s"
  by (auto simp: delete_app_def delete_roles_def Let_def)

interpretation registry: soft_delete "\<lambda>i s. app_by_id s i" a_deletedAt
    "\<lambda>m a. a\<lparr>a_deletedAt := m\<rparr>" app_remove app_restore app_purge
proof unfold_locales
  show "\<exists>r. app_by_id s i = Some r \<and> app_by_id s' i = Some (r\<lparr>a_deletedAt := Some now\<rparr>)"
    if "app_remove i now s = (Inr x, s')" for i now s x s'
    using that
    by (auto simp: app_remove_def Let_def app_get_ok app_by_id_set_app split: sum.splits if_splits)
  show "\<exists>x s'. app_restore i now s = (Inr x, s') \<and> app_by_id s' i = Some (r\<lparr>a_deletedAt := None\<rparr>)"
    if "app_by_id s i = Some r" "a_deletedAt r \<noteq> None" for i now s r
    using that by (simp add: app_restore_def Let_def app_get_def app_by_id_set_app)
  show "\<exists>y s'. app_purge i now s = (Inr y, s') \<and> app_by_id s' i = None"
    if "app_by_id s i = Some r" "a_deletedAt r \<noteq> None" for i now s r
    using that by (auto simp: app_purge_def Let_def app_get_def) (simp add: app_by_id_def find_del_where)
qed (auto simp: app_purge_def app_get_def)

section \<open>A well-formed catalogue\<close>

definition catalogue_ok :: "db \<Rightarrow> bool" where
  "catalogue_ok s \<longleftrightarrow>
     unique_on a_id (apps s) \<and> unique_on a_clientId (apps s) \<and> unique_on a_name (apps s)
     \<and> unique_on p_id (prices s) \<and> unique_on p_stripePriceId (prices s) \<and> unique_on price_key (prices s)
     \<and> unique_on r_id (roles s) \<and> unique_on role_key (roles s)
     \<and> (\<forall>p \<in> set (prices s). p_appId p \<in> a_id ` set (apps s))
     \<and> (\<forall>r \<in> set (roles s). r_appId r \<in> a_id ` set (apps s))
     \<and> (\<forall>ur \<in> set (user_roles s). ur_roleId ur \<in> r_id ` set (roles s))"

lemma catalogue_ok_cong:
  "apps s' = apps s \<Longrightarrow> prices s' = prices s \<Longrightarrow> roles s' = roles s \<Longrightarrow> user_roles s' = user_roles s \<Longrightarrow>
   catalogue_ok s' = catalogue_ok s"
  by (simp add: catalogue_ok_def)

lemma catalogue_ok_record [simp]: "catalogue_ok (record_event a m now s) = catalogue_ok s"
  by (rule catalogue_ok_cong) simp_all

lemma catalogue_ok_set_app:
  assumes "catalogue_ok s" and "\<And>a. a_id (f a) = a_id a" and "\<And>a. a_clientId (f a) = a_clientId a"
    and "\<And>a b. a \<in> set (apps s) \<Longrightarrow> a_id a = i \<Longrightarrow> b \<in> set (apps s) \<Longrightarrow> a_id b \<noteq> i \<Longrightarrow>
           a_name b \<noteq> a_name (f a)"
  shows "catalogue_ok (set_app i f s)"
proof -
  have "a_id ` set (upd_where (\<lambda>a. a_id a = i) f (apps s)) = a_id ` set (apps s)"
    by (rule image_upd_where_same) (simp add: assms(2))
  moreover have "unique_on a_name (upd_where (\<lambda>a. a_id a = i) f (apps s))"
    by (rule unique_on_upd_one) (use assms(1,4) in \<open>auto simp: catalogue_ok_def\<close>)
  ultimately show ?thesis
    using assms(1-3) by (simp add: catalogue_ok_def set_app_def unique_on_upd_where)
qed

lemma catalogue_ok_set_app_name:
  assumes "catalogue_ok s" and "\<And>a. a_id (f a) = a_id a" and "\<And>a. a_clientId (f a) = a_clientId a"
    and "\<And>a. a_name (f a) = a_name a"
  shows "catalogue_ok (set_app i f s)"
  by (rule catalogue_ok_set_app)
     (use assms in \<open>auto simp: catalogue_ok_def dest: unique_on_eqD\<close>)

lemma catalogue_ok_role:
  assumes "catalogue_ok s" and "ur \<in> set (user_roles s)"
  shows "ur_roleId ur \<in> r_id ` set (roles s)"
  using assms unfolding catalogue_ok_def by blast

lemma catalogue_ok_delete_app:
  assumes "catalogue_ok s"
  shows "catalogue_ok (delete_app i s)"
proof -
  have "ur_roleId ur \<in> r_id ` {r \<in> set (roles s). r_appId r \<noteq> i}"
    if "ur \<in> set (user_roles s)" "ur_roleId ur \<notin> r_id ` {r \<in> set (roles s). r_appId r = i}" for ur
  proof -
    have role: "ur_roleId ur \<in> r_id ` set (roles s)"
      by (rule catalogue_ok_role [OF assms that(1)])
    obtain r where "r \<in> set (roles s)" "ur_roleId ur = r_id r"
      using role by auto
    then show ?thesis
      using that(2) by (cases "r_appId r = i") auto
  qed
  then show ?thesis
    using assms by (auto simp: catalogue_ok_def unique_on_del_where image_iff)
qed

lemma catalogue_ok_delete_role:
  assumes "catalogue_ok s"
  shows "catalogue_ok (delete_roles (\<lambda>r. r_id r = i) s)"
proof -
  have "ur_roleId ur \<in> r_id ` {r \<in> set (roles s). r_id r \<noteq> i}"
    if "ur \<in> set (user_roles s)" "ur_roleId ur \<notin> r_id ` set (filter (\<lambda>r. r_id r = i) (roles s))" for ur
  proof -
    have role: "ur_roleId ur \<in> r_id ` set (roles s)"
      by (rule catalogue_ok_role [OF assms that(1)])
    obtain r where "r \<in> set (roles s)" "ur_roleId ur = r_id r"
      using role by auto
    then show ?thesis
      using that(2) by (cases "r_id r = i") auto
  qed
  then show ?thesis
    using assms by (simp add: catalogue_ok_def delete_roles_def Let_def unique_on_del_where)
qed

lemma find_price_ok: "find_price appId i s = Inr p \<Longrightarrow> p \<in> set (prices s) \<and> p_id p = i \<and> p_appId p = appId"
  by (auto simp: find_price_def split: option.splits if_splits dest: find_SomeD)

lemma find_role_ok: "find_role appId i s = Some r \<Longrightarrow> r \<in> set (roles s) \<and> r_id r = i \<and> r_appId r = appId"
  unfolding find_role_def by (drule find_SomeD) simp

section \<open>The console's requests on the registry\<close>

datatype app_op =
    ACreate create_app_dto string string string
  | AUpdate string update_app_dto
  | ARemove string
  | ARestore string
  | APurge string
  | ARotateSecret string string
  | AAddPrice string add_price_dto string
  | ARefreshPrice string string
  | ARemovePrice string string
  | AAddRole string string "string option" string
  | AUpdateRole string string "string option" "string option"
  | ARemoveRole string string

definition app_step :: "env \<Rightarrow> stripe_api option \<Rightarrow> app_op \<times> time \<Rightarrow> db \<Rightarrow> unit res \<times> db" where
  "app_step env stripe op_now s =
     (case op_now of (op, now) \<Rightarrow>
        (case op of
           ACreate dto i h sec \<Rightarrow> apfst (res_map (\<lambda>_. ())) (app_create env dto i h sec now s)
         | AUpdate i dto \<Rightarrow> apfst (res_map (\<lambda>_. ())) (app_update i dto now s)
         | ARemove i \<Rightarrow> apfst (res_map (\<lambda>_. ())) (app_remove i now s)
         | ARestore i \<Rightarrow> apfst (res_map (\<lambda>_. ())) (app_restore i now s)
         | APurge i \<Rightarrow> apfst (res_map (\<lambda>_. ())) (app_purge i now s)
         | ARotateSecret i sec \<Rightarrow> apfst (res_map (\<lambda>_. ())) (rotateSecret env i sec now s)
         | AAddPrice i dto p \<Rightarrow> apfst (res_map (\<lambda>_. ())) (addPrice stripe i dto p now s)
         | ARefreshPrice i p \<Rightarrow> apfst (res_map (\<lambda>_. ())) (refreshPrice stripe i p now s)
         | ARemovePrice i p \<Rightarrow> removePrice i p now s
         | AAddRole i name d r \<Rightarrow> apfst (res_map (\<lambda>_. ())) (addRole i name d r s)
         | AUpdateRole i r name d \<Rightarrow> apfst (res_map (\<lambda>_. ())) (updateRole i r name d now s)
         | ARemoveRole i r \<Rightarrow> apfst (res_map (\<lambda>_. ())) (removeRole i r now s)))"

lemma app_create_catalogue:
  "catalogue_ok s \<Longrightarrow> catalogue_ok (snd (app_create env dto i h sec now s))"
  by (auto simp: app_create_def insert_app_def Let_def catalogue_ok_def unique_on_append_one)

lemma app_update_catalogue:
  assumes "catalogue_ok s"
  shows "catalogue_ok (snd (app_update i dto now s))"
proof -
  have free: "a_name b \<noteq> a_name (app_changes dto a)"
    if "\<not> (ua_name dto \<noteq> None \<and> find (\<lambda>a. Some (a_name a) = ua_name dto \<and> a_id a \<noteq> i) (apps s) \<noteq> None)"
      and ab: "a \<in> set (apps s)" "a_id a = i" "b \<in> set (apps s)" "a_id b \<noteq> i" for a b
  proof (cases "ua_name dto")
    case None
    have "unique_on a_name (apps s)"
      using assms by (simp add: catalogue_ok_def)
    then show ?thesis
      using None ab unique_on_eqD [of a_name "apps s" b a] by (auto simp: app_changes_def)
  next
    case (Some n)
    then show ?thesis
      using that(1) ab(3,4) by (auto simp: app_changes_def find_None_iff)
  qed
  have set_ok: "catalogue_ok (set_app i (app_changes dto) s)"
    if "\<not> (ua_name dto \<noteq> None \<and> find (\<lambda>a. Some (a_name a) = ua_name dto \<and> a_id a \<noteq> i) (apps s) \<noteq> None)"
    by (rule catalogue_ok_set_app [OF assms _ _ free [OF that]]) (simp_all add: app_changes_def)
  show ?thesis
    unfolding app_update_def Let_def using assms set_ok by (auto split: sum.split)
qed

lemma app_set_catalogue:
  assumes "catalogue_ok s"
  shows "catalogue_ok (snd (app_remove i now s))" "catalogue_ok (snd (app_restore i now s))"
    "catalogue_ok (snd (rotateSecret env i sec now s))"
proof -
  have mark: "catalogue_ok (set_app i (\<lambda>a. a\<lparr>a_deletedAt := m\<rparr>) s)" for m
    by (rule catalogue_ok_set_app_name [OF assms]) simp_all
  have secret: "catalogue_ok (set_app i (\<lambda>a. a\<lparr>a_clientSecretHash := h\<rparr>) s)" for h
    by (rule catalogue_ok_set_app_name [OF assms]) simp_all
  show "catalogue_ok (snd (app_remove i now s))" "catalogue_ok (snd (app_restore i now s))"
    "catalogue_ok (snd (rotateSecret env i sec now s))"
    using assms mark secret
    by (simp_all add: app_remove_def app_restore_def rotateSecret_def Let_def split: sum.split)
qed

lemma app_purge_catalogue:
  "catalogue_ok s \<Longrightarrow> catalogue_ok (snd (app_purge i now s))"
  by (simp add: app_purge_def Let_def catalogue_ok_delete_app split: sum.split)

lemma price_of_facts_simps [simp]:
  "p_id (price_of_facts i a dto f) = i"
  "p_appId (price_of_facts i a dto f) = a"
  "p_stripePriceId (price_of_facts i a dto f) = ap_stripePriceId dto"
  "price_key (price_of_facts i a dto f) = (a, ap_tier dto, pf_interval f, pf_intervalCount f)"
  by (simp_all add: price_of_facts_def price_key_def)

lemma addPrice_Inr:
  assumes "addPrice stripe appId dto newId now s = (Inr p, s')"
  obtains app facts where "app_by_id s appId = Some app"
    "describePrice stripe (ap_stripePriceId dto) = Inr facts"
    "p = price_of_facts newId appId dto facts"
    "prices s' = prices s @ [p]" "apps s' = apps s" "roles s' = roles s" "user_roles s' = user_roles s"
    "p_stripePriceId p \<notin> p_stripePriceId ` set (prices s)" "price_key p \<notin> price_key ` set (prices s)"
    "p_id p \<notin> p_id ` set (prices s)"
  using assms
  by (auto simp: addPrice_def Let_def app_get_ok find_key_None
      split: sum.splits option.splits if_splits)

lemma addPrice_Inl: "addPrice stripe appId dto newId now s = (Inl e, s') \<Longrightarrow> s' = s"
  by (auto simp: addPrice_def Let_def split: sum.splits option.splits if_splits)

lemma addPrice_catalogue:
  assumes "catalogue_ok s"
  shows "catalogue_ok (snd (addPrice stripe appId dto newId now s))"
proof (cases "addPrice stripe appId dto newId now s")
  case (Pair r s')
  show ?thesis
  proof (cases r)
    case (Inl e)
    then show ?thesis
      using Pair assms addPrice_Inl by fastforce
  next
    case (Inr p)
    then have "addPrice stripe appId dto newId now s = (Inr p, s')"
      using Pair by simp
    then show ?thesis
    proof (rule addPrice_Inr)
      fix app facts
      assume h: "app_by_id s appId = Some app" "p = price_of_facts newId appId dto facts"
        "prices s' = prices s @ [p]" "apps s' = apps s" "roles s' = roles s"
        "user_roles s' = user_roles s"
        "p_stripePriceId p \<notin> p_stripePriceId ` set (prices s)" "price_key p \<notin> price_key ` set (prices s)"
        "p_id p \<notin> p_id ` set (prices s)"
      then have "p_appId p \<in> a_id ` set (apps s)"
        by (auto dest: app_by_idD)
      then show ?thesis
        using assms h Pair by (simp add: catalogue_ok_def unique_on_append_one)
    qed
  qed
qed

text \<open>Refreshing keeps the key unique: the other row with the new key is refused, and a cadence that
  did not change keeps the old key.\<close>

lemma refreshPrice_catalogue:
  assumes "catalogue_ok s"
  shows "catalogue_ok (snd (refreshPrice stripe appId priceId now s))"
proof (cases "refreshPrice stripe appId priceId now s")
  case (Pair r s')
  show ?thesis
  proof (cases "s' = s \<or> (\<exists>e. r = Inl e)")
    case True
    then show ?thesis
      using Pair assms
      by (auto simp: refreshPrice_def Let_def split: sum.splits option.splits if_splits)
  next
    case False
    obtain app where a: "app_get appId s = Inr app"
      using Pair False by (cases "app_get appId s") (auto simp: refreshPrice_def)
    obtain price where p: "find_price appId priceId s = Inr price"
      using Pair False a by (cases "find_price appId priceId s") (auto simp: refreshPrice_def)
    obtain facts where f: "describePrice stripe (p_stripePriceId price) = Inr facts"
      using Pair False a p
      by (cases "describePrice stripe (p_stripePriceId price)") (auto simp: refreshPrice_def)
    let ?clash = "find (\<lambda>q. price_key q = (appId, p_tier price, pf_interval facts,
        pf_intervalCount facts)) (prices s)"
    have h: "pf_interval facts \<noteq> p_interval price \<or> pf_intervalCount facts \<noteq> p_intervalCount price \<Longrightarrow>
       (case ?clash of None \<Rightarrow> True | Some clash \<Rightarrow> p_id clash = p_id price)"
      using Pair False a p f
      by (cases ?clash) (auto simp: refreshPrice_def Let_def split: if_splits)
    have s': "prices s' = upd_where (\<lambda>p. p_id p = priceId) (with_facts facts) (prices s)"
      "apps s' = apps s" "roles s' = roles s" "user_roles s' = user_roles s"
      using Pair False a p f by (auto simp: refreshPrice_def Let_def split: if_splits)
    have price: "price \<in> set (prices s)" "p_id price = priceId" "p_appId price = appId"
      using find_price_ok [OF p] by simp_all
    have uniq: "unique_on p_id (prices s)" "unique_on price_key (prices s)"
      "unique_on p_stripePriceId (prices s)"
      using assms by (simp_all add: catalogue_ok_def)
    have "unique_on price_key (upd_where (\<lambda>p. p_id p = priceId) (with_facts facts) (prices s))"
    proof (rule unique_on_upd_one [OF uniq(2,1)], rule notI)
      fix p q
      assume pq: "p \<in> set (prices s)" "p_id p = priceId" "q \<in> set (prices s)" "p_id q \<noteq> priceId"
        "price_key q = price_key (with_facts facts p)"
      have "p = price"
        using unique_on_eqD [OF uniq(1) pq(1) price(1)] pq(2) price(2) by simp
      then have key: "price_key q = (appId, p_tier price, pf_interval facts, pf_intervalCount facts)"
        using pq(5) price(3) by (simp add: price_key_def with_facts_def)
      show False
      proof (cases "pf_interval facts \<noteq> p_interval price \<or> pf_intervalCount facts \<noteq> p_intervalCount price")
        case True
        have "find (\<lambda>q. price_key q = (appId, p_tier price, pf_interval facts, pf_intervalCount facts))
            (prices s) = Some q"
          using find_unique [OF uniq(2) pq(3)] key by simp
        then show False
          using h [OF True] pq(4) price(2) by simp
      next
        case False
        then have "price_key q = price_key price"
          using key price(3) by (simp add: price_key_def)
        then show False
          using unique_on_eqD [OF uniq(2) pq(3) price(1)] pq(4) price(2) by simp
      qed
    qed
    then show ?thesis
      using assms s' Pair
      by (simp add: catalogue_ok_def unique_on_upd_where ball_upd_where with_facts_def)
  qed
qed

lemma removePrice_catalogue:
  "catalogue_ok s \<Longrightarrow> catalogue_ok (snd (removePrice i p now s))"
  by (auto simp: removePrice_def catalogue_ok_def unique_on_del_where split: sum.split)

lemma role_key_make [simp]:
  "role_key \<lparr>r_id = i, r_appId = a, r_name = n, r_description = d\<rparr> = (a, n)"
  by (simp add: role_key_def)

lemma addRole_catalogue:
  assumes "catalogue_ok s"
  shows "catalogue_ok (snd (addRole i name d r s))"
  using assms
  by (auto simp: addRole_def Let_def catalogue_ok_def app_get_ok unique_on_append_one find_key_None
      split: sum.split dest: app_by_idD)

lemma updateRole_catalogue:
  assumes "catalogue_ok s"
  shows "catalogue_ok (snd (updateRole i r name d now s))"
proof (cases "find_role i r s")
  case (Some role)
  define f :: "role \<Rightarrow> role" where "f = (\<lambda>x. x\<lparr>r_name := set_if name (r_name x),
      r_description := or_else d (r_description x)\<rparr>)"
  have role: "role \<in> set (roles s)" "r_id role = r" "r_appId role = i"
    using find_role_ok [OF Some] by simp_all
  have uniq: "unique_on r_id (roles s)" "unique_on role_key (roles s)"
    using assms by (simp_all add: catalogue_ok_def)
  have "unique_on role_key (upd_where (\<lambda>x. r_id x = r) f (roles s))"
    if free: "name = None \<or> find (\<lambda>x. role_key x = (i, the name) \<and> r_id x \<noteq> r) (roles s) = None"
  proof (rule unique_on_upd_one [OF uniq(2,1)], rule notI)
    fix p q
    assume pq: "p \<in> set (roles s)" "r_id p = r" "q \<in> set (roles s)" "r_id q \<noteq> r"
      "role_key q = role_key (f p)"
    have p: "p = role"
      using unique_on_eqD [OF uniq(1) pq(1) role(1)] pq(2) role(2) by simp
    show False
    proof (cases name)
      case None
      then have "role_key q = role_key p"
        using pq(5) by (simp add: f_def role_key_def)
      then show False
        using unique_on_eqD [OF uniq(2) pq(3,1)] pq(2,4) by simp
    next
      case (Some n)
      then have "role_key q = (i, n)"
        using pq(5) p role(3) by (simp add: f_def role_key_def)
      then show False
        using free Some pq(3,4) by (auto simp: find_None_iff)
    qed
  qed
  moreover have "r_id ` set (upd_where (\<lambda>x. r_id x = r) f (roles s)) = r_id ` set (roles s)"
    by (rule image_upd_where_same) (simp add: f_def)
  ultimately have ok: "catalogue_ok (s\<lparr>roles := upd_where (\<lambda>x. r_id x = r) f (roles s)\<rparr>)"
    if "name = None \<or> find (\<lambda>x. role_key x = (i, the name) \<and> r_id x \<noteq> r) (roles s) = None"
    using assms that
    by (simp add: catalogue_ok_def unique_on_upd_where ball_upd_where f_def)
  show ?thesis
    using assms ok Some unfolding updateRole_def Let_def f_def [symmetric]
    by (cases name) auto
qed (use assms in \<open>simp add: updateRole_def\<close>)

lemma removeRole_catalogue:
  "catalogue_ok s \<Longrightarrow> catalogue_ok (snd (removeRole i r now s))"
  by (simp add: removeRole_def Let_def catalogue_ok_delete_role split: option.split)

lemmas app_catalogue = app_create_catalogue app_update_catalogue app_set_catalogue
  app_purge_catalogue addPrice_catalogue refreshPrice_catalogue removePrice_catalogue
  addRole_catalogue updateRole_catalogue removeRole_catalogue

lemma app_step_catalogue:
  assumes "catalogue_ok s"
  shows "catalogue_ok (snd (app_step env stripe op_now s))"
  using app_catalogue [OF assms]
  by (cases op_now; cases "fst op_now") (simp_all add: app_step_def)

section \<open>A deleted app\<close>

lemma live_app_by_client_removed:
  assumes "catalogue_ok s" and "app_by_id s i = Some a"
  shows "live_app_by_client (set_app i (\<lambda>a. a\<lparr>a_deletedAt := Some now\<rparr>) s) (a_clientId a) = None"
proof -
  have uniq: "unique_on a_clientId (apps s)" "a \<in> set (apps s)" "a_id a = i"
    using assms by (auto simp: catalogue_ok_def dest: app_by_idD)
  then have only: "a_id b = i" if "b \<in> set (apps s)" "a_clientId b = a_clientId a" for b
    using unique_on_eqD [OF uniq(1) that(1) uniq(2) that(2)] by simp
  have "\<not> (a_clientId x = a_clientId a \<and> a_deletedAt x = None)"
    if x: "x \<in> set (upd_where (\<lambda>a. a_id a = i) (\<lambda>a. a\<lparr>a_deletedAt := Some now\<rparr>) (apps s))" for x
  proof -
    obtain b where b: "b \<in> set (apps s)" "x = (if a_id b = i then b\<lparr>a_deletedAt := Some now\<rparr> else b)"
      using x by (auto simp: in_upd_where)
    show ?thesis
      using only [OF b(1)] b(2) by (cases "a_id b = i") auto
  qed
  then show ?thesis
    unfolding live_app_by_client_def set_app_def find_None_iff by simp
qed

lemma app_remove_Inr:
  assumes "app_remove i now s = (Inr v, s')"
  obtains a where "app_by_id s i = Some a" "a_deletedAt a = None" "av_clientId v = a_clientId a"
    "apps s' = apps (set_app i (\<lambda>a. a\<lparr>a_deletedAt := Some now\<rparr>) s)"
    "tenants s' = tenants s" "app_tenants s' = app_tenants s"
  using assms
  by (auto simp: app_remove_def Let_def app_get_ok app_public_def set_app_def split: sum.splits if_splits)

lemma app_remove_not_entitled:
  assumes "app_remove i now s = (Inr v, s')" and "catalogue_ok s"
  shows "\<not> entitled s' tid (av_clientId v) later"
  using assms(1)
proof (rule app_remove_Inr)
  fix a
  assume a: "app_by_id s i = Some a" "av_clientId v = a_clientId a"
    "apps s' = apps (set_app i (\<lambda>a. a\<lparr>a_deletedAt := Some now\<rparr>) s)"
  have "live_app_by_client s' (a_clientId a) = None"
    using live_app_by_client_removed [OF assms(2) a(1)] a(3) by (simp add: live_app_by_client_def)
  then show ?thesis
    by (simp add: entitled_def a(2))
qed

lemma app_remove_restore_apps:
  assumes "app_remove i now s = (Inr v, s1)" and "app_restore i later s1 = (Inr w, s2)"
    and "catalogue_ok s"
  shows "apps s2 = apps s \<and> app_tenants s2 = app_tenants s"
  using assms(1)
proof (rule app_remove_Inr)
  fix a
  assume a: "app_by_id s i = Some a" "a_deletedAt a = None"
    "apps s1 = apps (set_app i (\<lambda>a. a\<lparr>a_deletedAt := Some now\<rparr>) s)" "app_tenants s1 = app_tenants s"
  have "unique_on a_id (apps s)" "a \<in> set (apps s)" "a_id a = i"
    using assms(3) app_by_idD [OF a(1)] by (simp_all add: catalogue_ok_def)
  then have only: "b = a" if "b \<in> set (apps s)" "a_id b = i" for b
    using that unique_on_eqD by metis
  have at: "app_tenants s2 = app_tenants s1"
    using assms(2) by (auto simp: app_restore_def Let_def set_app_def split: sum.splits if_splits)
  have "apps s2 = upd_where (\<lambda>a. a_id a = i) (\<lambda>a. a\<lparr>a_deletedAt := None\<rparr>) (apps s1)"
    using assms(2)
    by (auto simp: app_restore_def Let_def set_app_def split: sum.splits if_splits)
  also have "\<dots> = upd_where (\<lambda>a. a_id a = i)
      ((\<lambda>a. a\<lparr>a_deletedAt := None\<rparr>) \<circ> (\<lambda>a. a\<lparr>a_deletedAt := Some now\<rparr>)) (apps s)"
    unfolding a(3) set_app_def by (simp add: upd_where_comp)
  also have "\<dots> = apps s"
  proof (rule upd_where_id)
    fix b
    assume "b \<in> set (apps s)" "a_id b = i"
    then have "b = a"
      by (rule only)
    then show "((\<lambda>a. a\<lparr>a_deletedAt := None\<rparr>) \<circ> (\<lambda>a. a\<lparr>a_deletedAt := Some now\<rparr>)) b = b"
      using a(2) by simp
  qed
  finally show ?thesis
    using at a(4) by simp
qed

section \<open>What an erased app leaves\<close>

lemma app_purge_Inr:
  assumes "app_purge i now s = (Inr v, s')"
  obtains a m where "app_by_id s i = Some a" "a_deletedAt a \<noteq> None"
    "s' = record_event ''app.purged'' m now (delete_app i s)"
  using assms by (auto simp: app_purge_def Let_def app_get_ok split: sum.splits if_splits)

section \<open>Properties\<close>

definition price_api :: stripe_api where
  "price_api = \<lparr>create_customer = (\<lambda>n i sl. Inr ''cus''), create_checkout = (\<lambda>r. Inr ''url''),
     create_portal = (\<lambda>c r. Inr ''url''),
     retrieve_price = (\<lambda>p. Some \<lparr>sp_active = True, sp_product = ProductObject ''prod'' (Some ''Pro''),
       sp_unitAmount = Some 4900, sp_currency = ''usd'', sp_recurring = Some (''month'', 1),
       sp_livemode = False\<rparr>),
     construct_event = (\<lambda>b sg sec. None)\<rparr>"

text \<open>
  C29: The catalogue stays well formed. No request on the registry, whatever it names and whatever
  Stripe answers, leaves two apps with one name or client id, a Stripe price registered twice, two
  prices of one app for the same tier and billing period, two roles of one app with one name, or a
  price, role or role assignment whose app or role is gone.
\<close>

theorem catalogue_preserved:
  assumes "catalogue_ok s"
  shows "catalogue_ok (fold (\<lambda>op s. snd (app_step env stripe op s)) ops s)"
  using assms by (induction ops arbitrary: s) (auto intro: app_step_catalogue)

lemma catalogue_preserved_witness:
  "catalogue_ok (fold (\<lambda>op s. snd (app_step sample_env (Some price_api) op s))
     [(AAddPrice ''a1'' \<lparr>ap_stripePriceId = ''price_1'', ap_tier = ''pro'', ap_sortOrder = None\<rparr> ''p1'', 5),
      (AAddPrice ''a1'' \<lparr>ap_stripePriceId = ''price_2'', ap_tier = ''pro'', ap_sortOrder = None\<rparr> ''p2'', 6),
      (ARemove ''a1'', 7), (APurge ''a1'', 8)] sample_db)"
  by (rule catalogue_preserved) code_simp

text \<open>
  Deleting an app stops every sign-in through it, and only that. Once the app is deleted, neither
  a password login nor a refresh opens a session of a workspace scoped to its client id, whatever
  the workspace's grant says; restoring it brings the registry and every grant back as they were.
\<close>

theorem removed_app_signs_nobody_in:
  assumes "app_remove i now s = (Inr v, s')" and "catalogue_ok s" and "unique_on tn_id (tenants s)"
    and "av_clientId v \<noteq> []"
  shows "(lg_clientId dto = Some (av_clientId v) \<longrightarrow>
       login env cfg dto ip dr later s' = (Inr ses, s2) \<longrightarrow> ss_tenant ses = None)
     \<and> (Option.bind (token_by_hash s' (sha256 env raw)) rt_appClientId = Some (av_clientId v) \<longrightarrow>
       refresh env cfg raw dr later s' = (Inr ses, s2) \<longrightarrow> ss_tenant ses = None)
     \<and> (\<exists>w s3. app_restore i later s' = (Inr w, s3) \<and> apps s3 = apps s \<and> app_tenants s3 = app_tenants s)"
proof (intro conjI impI)
  have uniq: "unique_on tn_id (tenants s')"
    using assms(1,3) by (auto elim: app_remove_Inr)
  note no = app_remove_not_entitled [OF assms(1,2)]
  show "ss_tenant ses = None"
    if "lg_clientId dto = Some (av_clientId v)" "login env cfg dto ip dr later s' = (Inr ses, s2)"
    using password.session_is_entitled [OF uniq, of env cfg "(dto, ip, dr)" later ses s2] that no assms(4)
    by (cases "ss_tenant ses") auto
  show "ss_tenant ses = None"
    if "Option.bind (token_by_hash s' (sha256 env raw)) rt_appClientId = Some (av_clientId v)"
      "refresh env cfg raw dr later s' = (Inr ses, s2)"
    using rotation.session_is_entitled [OF uniq, of env cfg "(raw, dr)" later ses s2] that no assms(4)
    by (cases "ss_tenant ses") auto
  obtain a where "app_by_id s i = Some a" "a_deletedAt a = None"
    using assms(1) by (rule app_remove_Inr)
  from registry.remove_restore [OF assms(1) this, of later]
  show "\<exists>w s3. app_restore i later s' = (Inr w, s3) \<and> apps s3 = apps s \<and> app_tenants s3 = app_tenants s"
    using app_remove_restore_apps [OF assms(1) _ assms(2)] by blast
qed

lemma removed_app_signs_nobody_in_witness:
  "\<exists>v s'. app_remove ''a1'' 5 sample_db = (Inr v, s') \<and> av_clientId v = ''swag''
     \<and> (\<exists>w s3. app_restore ''a1'' 9 s' = (Inr w, s3) \<and> apps s3 = apps sample_db)"
proof -
  let ?r = "app_remove ''a1'' 5 sample_db"
  have "is_ok (fst ?r)" "\<forall>v \<in> set_option (case fst ?r of Inl e \<Rightarrow> None | Inr v \<Rightarrow> Some v). av_clientId v = ''swag''"
    and ok: "catalogue_ok sample_db" "unique_on tn_id (tenants sample_db)"
    by code_simp+
  then obtain v s' where r: "?r = (Inr v, s')" "av_clientId v = ''swag''"
    by (auto elim!: is_ok_fstE)
  have "av_clientId v \<noteq> []"
    using r(2) by simp
  from removed_app_signs_nobody_in [OF r(1) ok this, of sample_login sample_env sample_cfg None undefined 9]
  show ?thesis
    using r by blast
qed

text \<open>
  Erasing an app is a second step and takes exactly what belongs to it. A purge succeeds only on
  an app that is already deleted; then no row of the app, its roles, their assignments, its prices
  or its grants is left, the rows of every other app are as they were, and a refused purge changes
  nothing.
\<close>

theorem app_purge_exact:
  assumes "app_purge i now s = (r, s')" and "catalogue_ok s"
  shows "case r of
      Inl _ \<Rightarrow> s' = s
    | Inr _ \<Rightarrow> (\<exists>a. app_by_id s i = Some a \<and> a_deletedAt a \<noteq> None) \<and> app_by_id s' i = None
        \<and> apps s' = filter (\<lambda>a. a_id a \<noteq> i) (apps s)
        \<and> prices s' = filter (\<lambda>p. p_appId p \<noteq> i) (prices s)
        \<and> app_tenants s' = filter (\<lambda>g. at_appId g \<noteq> i) (app_tenants s)
        \<and> roles s' = filter (\<lambda>x. r_appId x \<noteq> i) (roles s)
        \<and> (\<forall>ur. ur \<in> set (user_roles s') \<longleftrightarrow> ur \<in> set (user_roles s)
             \<and> (\<exists>x \<in> set (roles s). r_id x = ur_roleId ur \<and> r_appId x \<noteq> i))
        \<and> tenants s' = tenants s \<and> users s' = users s"
proof (cases r)
  case (Inr v)
  then have purged: "app_purge i now s = (Inr v, s')"
    using assms(1) by simp
  obtain a m where a: "app_by_id s i = Some a" "a_deletedAt a \<noteq> None"
    "s' = record_event ''app.purged'' m now (delete_app i s)"
    using purged by (rule app_purge_Inr)
  have roles: "ur_roleId ur \<notin> r_id ` {x \<in> set (roles s). r_appId x = i} \<longleftrightarrow>
      (\<exists>x \<in> set (roles s). r_id x = ur_roleId ur \<and> r_appId x \<noteq> i)"
    if "ur \<in> set (user_roles s)" for ur
    using catalogue_ok_role [OF assms(2) that] assms(2) unique_on_eqD [of r_id "roles s"]
    by (fastforce simp: catalogue_ok_def)
  have "app_by_id s' i = None"
    using registry.purge_cases [OF purged] by simp
  then show ?thesis
    using Inr a roles by (auto simp: del_where_def)
qed (use registry.purge_cases [OF assms(1)] in simp)

lemma app_purge_exact_witness:
  "app_purge ''a1'' 5 sample_db
     = (Inl (Conflict ''Purge requires the app to be soft-deleted first''), sample_db)
   \<and> app_by_id (snd (app_purge ''a1'' 6 (snd (app_remove ''a1'' 5 sample_db)))) ''a1'' = None"
proof -
  have ok: "catalogue_ok sample_db" "catalogue_ok (snd (app_remove ''a1'' 5 sample_db))"
    by code_simp+
  have "fst (app_purge ''a1'' 5 sample_db) = Inl (Conflict ''Purge requires the app to be soft-deleted first'')"
    "is_ok (fst (app_purge ''a1'' 6 (snd (app_remove ''a1'' 5 sample_db))))"
    by code_simp+
  then show ?thesis
    using app_purge_exact [OF prod.collapse [symmetric] ok(1), of "''a1''" 5]
      app_purge_exact [OF prod.collapse [symmetric] ok(2), of "''a1''" 6]
    by (auto simp: is_ok_iff intro: prod_eqI)
qed

end
