(* ===== verification/Brand.thy ===== *)
theory Brand
  imports Account_Flows Apps
begin

text \<open>
  The brand record an app is served, \<open>platform/src/apps/brand.service.ts\<close>: composing it from what an
  operator stored and from the registry's own names, and the two console operations.
\<close>

record brand_record =
  bd_name :: string
  bd_tagline :: "string option"
  bd_wordmark :: "(string \<times> string) option" \<comment> \<open>\<open>lead\<close> and \<open>accent\<close>\<close>
  bd_sections :: "(string \<times> json) list" \<comment> \<open>\<open>domains\<close>, \<open>email\<close>, \<open>repo\<close>, \<open>legal\<close>\<close>

definition brand_str :: "json option \<Rightarrow> string option" where
  "brand_str value = (case value of Some (JStr s) \<Rightarrow> non_empty (trim s) | _ \<Rightarrow> None)"

text \<open>A value that is an object and no array, as its fields.\<close>

definition json_object :: "json option \<Rightarrow> (string \<times> json) list option" where
  "json_object value = (case value of Some (JObj kvs) \<Rightarrow> Some kvs | _ \<Rightarrow> None)"

definition half :: "json option \<Rightarrow> string" where
  "half value = (case value of Some (JStr s) \<Rightarrow> s | _ \<Rightarrow> [])"

definition wordmark_of :: "(string \<times> json) list \<Rightarrow> (string \<times> string) option" where
  "wordmark_of product =
     (case json_object (map_of product ''wordmark'') of
        None \<Rightarrow> None
      | Some w \<Rightarrow> (let lead = half (map_of w ''lead''); accent = half (map_of w ''accent'')
          in if trim lead \<noteq> [] \<or> trim accent \<noteq> [] then Some (lead, accent) else None))"

definition SECTIONS :: "string list" where
  "SECTIONS = [''domains'', ''email'', ''repo'', ''legal'']"

definition sections_of :: "(string \<times> json) list \<Rightarrow> (string \<times> json) list" where
  "sections_of raw = concat (map (\<lambda>key. case json_object (map_of raw key) of
      None \<Rightarrow> [] | Some section \<Rightarrow> [(key, JObj section)]) SECTIONS)"

text \<open>\<open>str(displayName)\<close>: a nullish name is no string.\<close>

definition brand_compose :: "json option \<Rightarrow> string \<Rightarrow> string option \<Rightarrow> brand_record option" where
  "brand_compose stored slug displayName =
     (let raw = json_object stored;
          product = nullish (json_object (map_of (nullish raw []) ''product'')) [];
          display = brand_str (map_option JStr displayName);
          name = nullish (brand_str (map_of product ''name'')) (nullish display (titleize slug))
      in if raw = None \<and> display = None then None
         else Some \<lparr>bd_name = name, bd_tagline = brand_str (map_of product ''tagline''),
                bd_wordmark = wordmark_of product, bd_sections = sections_of (nullish raw [])\<rparr>)"

definition forClient :: "string \<Rightarrow> db \<Rightarrow> brand_record option" where
  "forClient clientId s =
     (case live_app_by_client s clientId of
        None \<Rightarrow> None
      | Some app \<Rightarrow> brand_compose (a_brand app) (a_name app) (a_displayName app))"

definition brand_get :: "string \<Rightarrow> db \<Rightarrow> (json option \<times> brand_record option) res" where
  "brand_get appId s =
     (case app_by_id s appId of
        None \<Rightarrow> Inl (NotFound ''App not found'')
      | Some app \<Rightarrow> Inr (a_brand app, brand_compose (a_brand app) (a_name app) (a_displayName app)))"

text \<open>\<open>None\<close> and \<open>JNull\<close> are the body's \<open>undefined\<close> and \<open>null\<close>; both clear the record.\<close>

definition brand_set :: "string \<Rightarrow> json option \<Rightarrow> string option \<Rightarrow> time \<Rightarrow> db \<Rightarrow> unit res \<times> db" where
  "brand_set appId brand actorId now s =
     (case app_by_id s appId of
        None \<Rightarrow> (Inl (NotFound ''App not found''), s)
      | Some _ \<Rightarrow>
        (let value = (case brand of None \<Rightarrow> Inr None | Some JNull \<Rightarrow> Inr None
               | Some (JObj kvs) \<Rightarrow> Inr (Some (JObj kvs))
               | _ \<Rightarrow> Inl (BadRequest ''Brand must be a JSON object''))
         in case value of
              Inl e \<Rightarrow> (Inl e, s)
            | Inr v \<Rightarrow> (Inr (), record_event ''app.brand_updated''
                (no_meta\<lparr>am_userId := actorId, am_detail := Some (JObj [(''appId'', JStr appId),
                   (''cleared'', JBool (v = None))])\<rparr>) now
                (set_app appId (\<lambda>a. a\<lparr>a_brand := v\<rparr>) s))))"

text \<open>What an app reads is served to its client credentials only.\<close>

definition brand_mine :: "env \<Rightarrow> string option \<Rightarrow> string option \<Rightarrow> db \<Rightarrow> brand_record option res" where
  "brand_mine env clientId clientSecret s =
     (case client_guard env clientId clientSecret s of
        Inl e \<Rightarrow> Inl e
      | Inr app \<Rightarrow> Inr (forClient (a_clientId app) s))"

section \<open>One name for a product\<close>

lemma brand_str_trim: "brand_str (Some (JStr s)) = non_empty (trim s)"
  by (simp add: brand_str_def)

lemma brand_name_cases:
  "brand_str (map_of (nullish (json_object (map_of (nullish (json_object b) []) ''product'')) []) ''name'')
    = non_empty (brandName b)"
  by (auto simp: brand_str_def json_object_def brandName_def json_field_def non_empty_def
      split: option.splits json.splits)

text \<open>
  Wherever a product is named it has one name: the brand an app is served carries the name that the
  platform's mail and pages for the app carry.
\<close>

theorem brand_and_mail_agree:
  assumes "brand_compose (a_brand app) (a_name app) (a_displayName app) = Some b"
  shows "bd_name b = pr_name (product_of_app cfg app)"
proof -
  have d: "brand_str (map_option JStr (a_displayName app))
      = (if truthy (map_option trim (a_displayName app)) then Some (trim (the (a_displayName app))) else None)"
    by (cases "a_displayName app") (auto simp: brand_str_def non_empty_def)
  show ?thesis
    using assms
    by (auto simp: brand_compose_def Let_def brand_name_cases product_of_app_def non_empty_def d
        split: if_splits)
qed

section \<open>A served brand is stable\<close>

text \<open>The JSON of a record, as it is sent and as an app's own file holds it.\<close>

definition brand_json :: "brand_record \<Rightarrow> json" where
  "brand_json b = JObj ((''product'', JObj ((''name'', JStr (bd_name b))
      # (case bd_tagline b of None \<Rightarrow> [] | Some t \<Rightarrow> [(''tagline'', JStr t)])
      @ (case bd_wordmark b of None \<Rightarrow> [] | Some (l, a) \<Rightarrow>
           [(''wordmark'', JObj [(''lead'', JStr l), (''accent'', JStr a)])])))
    # bd_sections b)"

lemma trim_fixed: "(s \<noteq> [] \<Longrightarrow> \<not> js_white (hd s) \<and> \<not> js_white (last s)) \<Longrightarrow> trim s = s"
proof (cases "s = []")
  case False
  assume "s \<noteq> [] \<Longrightarrow> \<not> js_white (hd s) \<and> \<not> js_white (last s)"
  then have "dropWhile js_white s = s" "dropWhile js_white (rev s) = rev s"
    using False by (auto intro!: dropWhile_fixed simp: hd_rev)
  then show ?thesis
    by (simp add: trim_def)
qed (simp add: trim_def)

lemma trim_ends: "trim s \<noteq> [] \<Longrightarrow> \<not> js_white (hd (trim s)) \<and> \<not> js_white (last (trim s))"
proof -
  let ?d = "dropWhile js_white s"
  let ?e = "dropWhile js_white (rev ?d)"
  assume "trim s \<noteq> []"
  then have e: "?e \<noteq> []"
    by (simp add: trim_def)
  then have "\<not> js_white (hd ?e)"
    using hd_dropWhile by blast
  moreover have "last ?e = last (rev ?d)"
    using e by (metis dropWhile_append3 last_appendR takeWhile_dropWhile_id)
  moreover have d: "?d \<noteq> []"
    using e by (cases ?d) (simp_all del: dropWhile_eq_Nil_conv)
  moreover have "\<not> js_white (hd ?d)"
    by (rule hd_dropWhile [OF d])
  ultimately show ?thesis
    using e by (simp add: trim_def hd_rev last_rev)
qed

lemma trim_trim [simp]: "trim (trim s) = trim s"
  using trim_ends by (intro trim_fixed) blast

lemma join_ends:
  assumes "\<And>w. w \<in> set ws \<Longrightarrow> w \<noteq> [] \<and> \<not> P (hd w) \<and> \<not> P (last w)" and "ws \<noteq> []"
  shows "join sep ws \<noteq> [] \<and> \<not> P (hd (join sep ws)) \<and> \<not> P (last (join sep ws))"
  using assms by (induction sep ws rule: join.induct) auto

lemma white_upper: "js_white (upper_char c) \<Longrightarrow> js_white c"
proof (rule ccontr)
  assume w: "js_white (upper_char c)" "\<not> js_white c"
  have "\<forall>x \<in> {CHR 0x09, CHR 0x0A, CHR 0x0B, CHR 0x0C, CHR 0x0D, CHR '' '', CHR 0xA0}.
      (of_char x :: nat) < 65 \<or> (of_char x :: nat) = 160"
    by simp
  then have "(of_char (upper_char c) :: nat) < 65 \<or> (of_char (upper_char c) :: nat) = 160"
    using w(1) unfolding js_white_def by blast
  moreover have "upper_char c \<noteq> c"
    using w by auto
  ultimately show False
    by (auto simp: upper_char_def Let_def split: if_splits)
qed

lemma trim_titleize [simp]: "trim (titleize slug) = titleize slug"
proof (rule trim_fixed)
  let ?p = "\<lambda>c. c = CHR ''-'' \<or> c = CHR ''_'' \<or> js_white c"
  have "w \<noteq> [] \<and> \<not> js_white (hd w) \<and> \<not> js_white (last w)"
    if "w \<in> set (map capitalised (words_of ?p slug))" for w
  proof -
    have "\<exists>v \<in> set (words_of ?p slug). w = capitalised v"
      using that by auto
    then obtain v where v: "w = capitalised v" "v \<in> set (split_at ?p slug)" "v \<noteq> []"
      unfolding words_of_def by auto
    have "\<not> js_white c" if "c \<in> set v" for c
      using split_at_chars [OF v(2) that] by blast
    then show ?thesis
      using v(1,3) white_upper by (cases v) (auto simp: capitalised_def)
  qed
  then show "\<not> js_white (hd (titleize slug)) \<and> \<not> js_white (last (titleize slug))" if "titleize slug \<noteq> []"
    using join_ends [of "map capitalised (words_of ?p slug)" js_white "'' ''"] that
    by (cases "words_of ?p slug = []") (auto simp: titleize_def)
qed

lemma json_object_simps: "json_object (Some (JObj x)) = Some x" "json_object None = None"
  by (simp_all add: json_object_def)

lemma sections_again: "sections_of ((''product'', p) # sections_of raw) = sections_of raw"
  by (cases "json_object (map_of raw ''domains'')"; cases "json_object (map_of raw ''email'')";
        cases "json_object (map_of raw ''repo'')"; cases "json_object (map_of raw ''legal'')")
      (simp_all add: sections_of_def SECTIONS_def json_object_simps)

text \<open>
  A brand that was served can be stored: composed again from the JSON that an app received, it is the
  same brand, so an app's own file and the registry do not drift apart by being copied into each other.
\<close>

theorem brand_roundtrip:
  assumes "brand_compose stored slug displayName = Some b"
  shows "brand_compose (Some (brand_json b)) slug displayName = Some b"
proof -
  let ?raw = "nullish (json_object stored) []"
  let ?product = "nullish (json_object (map_of ?raw ''product'')) []"
  have b: "bd_tagline b = brand_str (map_of ?product ''tagline'')" "bd_wordmark b = wordmark_of ?product"
    "bd_sections b = sections_of ?raw"
    "bd_name b = nullish (brand_str (map_of ?product ''name''))
       (nullish (brand_str (map_option JStr displayName)) (titleize slug))"
    using assms by (auto simp: brand_compose_def Let_def split: if_splits)
  have str: "brand_str v = Some x \<Longrightarrow> trim x = x \<and> x \<noteq> []" for v x
    by (auto simp: brand_str_def non_empty_def split: option.splits json.splits if_splits)
  have "trim (bd_name b) = bd_name b"
    using str by (cases "brand_str (map_of ?product ''name'')"; cases "brand_str (map_option JStr displayName)")
      (auto simp: b(4))
  moreover have "bd_name b = [] \<Longrightarrow> nullish (brand_str (map_option JStr displayName)) (titleize slug) = []"
    using str by (cases "brand_str (map_of ?product ''name'')") (auto simp: b(4))
  ultimately have name: "nullish (brand_str (Some (JStr (bd_name b))))
      (nullish (brand_str (map_option JStr displayName)) (titleize slug)) = bd_name b"
    by (auto simp: brand_str_def non_empty_def)
  have tag: "brand_str (map_option JStr (bd_tagline b)) = bd_tagline b"
  proof (cases "bd_tagline b")
    case (Some x)
    then have "trim x = x" "x \<noteq> []"
      using str b(1) by metis+
    then show ?thesis
      using Some by (simp add: brand_str_trim non_empty_def)
  qed (simp add: brand_str_def)
  have mark: "\<exists>l a. bd_wordmark b = Some (l, a) \<and> (trim l \<noteq> [] \<or> trim a \<noteq> [])" if "bd_wordmark b \<noteq> None"
    using that unfolding b(2) by (auto simp: wordmark_of_def Let_def split: option.splits if_splits)
  define fields where "fields = (''name'', JStr (bd_name b))
      # (case bd_tagline b of None \<Rightarrow> [] | Some t \<Rightarrow> [(''tagline'', JStr t)])
      @ (case bd_wordmark b of None \<Rightarrow> [] | Some (l, a) \<Rightarrow>
           [(''wordmark'', JObj [(''lead'', JStr l), (''accent'', JStr a)])])"
  have f: "map_of fields ''name'' = Some (JStr (bd_name b))"
    "map_of fields ''tagline'' = map_option JStr (bd_tagline b)"
    "wordmark_of fields = bd_wordmark b"
    using mark by (auto simp: fields_def wordmark_of_def json_object_def half_def Let_def split: option.splits)
  have j: "brand_json b = JObj ((''product'', JObj fields) # bd_sections b)"
    by (simp add: brand_json_def fields_def)
  have again: "sections_of ((''product'', JObj fields) # bd_sections b) = bd_sections b"
    unfolding b(3) by (rule sections_again)
  show ?thesis
    unfolding j
    by (simp add: brand_compose_def Let_def json_object_simps f name tag again)
qed

lemma brand_roundtrip_witness:
  "\<exists>b. brand_compose None ''swag-estimates'' (Some '' SWAG '') = Some b
     \<and> brand_compose (Some (brand_json b)) ''swag-estimates'' (Some '' SWAG '') = Some b"
proof -
  have "\<exists>b. brand_compose None ''swag-estimates'' (Some '' SWAG '') = Some b"
    by (simp add: brand_compose_def Let_def json_object_def brand_str_def trim_def js_white_def non_empty_def)
  then show ?thesis
    using brand_roundtrip by blast
qed

lemma brand_and_mail_agree_witness:
  "\<exists>b. brand_compose (a_brand sample_app) (a_name sample_app) (Some ''SWAG'') = Some b
     \<and> bd_name b = pr_name (product_of_app sample_cfg (sample_app\<lparr>a_displayName := Some ''SWAG''\<rparr>))"
proof -
  let ?app = "sample_app\<lparr>a_displayName := Some ''SWAG''\<rparr>"
  have "\<exists>b. brand_compose (a_brand ?app) (a_name ?app) (a_displayName ?app) = Some b"
    by (simp add: brand_compose_def Let_def json_object_def brand_str_def trim_def js_white_def non_empty_def
        sample_app_def)
  then show ?thesis
    using brand_and_mail_agree [of ?app] by auto
qed

text \<open>
  The comment of \<open>set\<close> says that \<open>product\<close> has to be an object if it is present. The code asks that of
  the whole record only: a \<open>product\<close> of any shape is stored, and read back as no product at all.
\<close>

lemma odd_product_stored:
  assumes "app_by_id s appId = Some app" and "json_object (Some v) = None"
  shows "fst (brand_set appId (Some (JObj [(''product'', v)])) actorId now s) = Inr ()"
    and "brand_compose (Some (JObj [(''product'', v)])) (a_name app) (a_displayName app)
      = brand_compose (Some (JObj [])) (a_name app) (a_displayName app)"
  using assms by (simp_all add: brand_set_def Let_def brand_compose_def json_object_simps wordmark_of_def
      sections_of_def SECTIONS_def)

end
