(* ===== verification/Members.thy ===== *)
theory Members
  imports Users Email
begin

text \<open>
  A workspace's own administration: members (\<open>platform/src/tenant/tenant.service.ts\<close>), invites
  (\<open>invites.service.ts\<close>) and the controller that serves both (\<open>tenant.controller.ts\<close>). The tenant
  and the acting administrator of every request come from the verified token.
\<close>

section \<open>Members\<close>

text \<open>\<open>[...new Set(xs)]\<close> keeps the first of equal elements.\<close>

definition js_unique :: "'a list \<Rightarrow> 'a list" where
  "js_unique xs = rev (remdups (rev xs))"

record member_view =
  mv_id :: string
  mv_email :: string
  mv_name :: "string option"
  mv_firstName :: "string option"
  mv_lastName :: "string option"
  mv_phone :: "string option"
  mv_isTenantAdmin :: bool
  mv_createdAt :: time
  mv_deletedAt :: "time option"
  mv_roles :: "(string \<times> string \<times> string \<times> string) list"

definition MEMBER_FIELDS :: "db \<Rightarrow> user \<Rightarrow> member_view" where
  "MEMBER_FIELDS s u = \<lparr>mv_id = u_id u, mv_email = u_email u, mv_name = u_name u,
     mv_firstName = u_firstName u, mv_lastName = u_lastName u, mv_phone = u_phone u,
     mv_isTenantAdmin = u_isTenantAdmin u, mv_createdAt = u_createdAt u,
     mv_deletedAt = u_deletedAt u,
     mv_roles = List.map_filter (\<lambda>r. map_option (\<lambda>a. (r_id r, r_name r, a_name a, a_clientId a))
         (app_by_id s (r_appId r))) (roles_of s (u_id u))\<rparr>"

definition members_list :: "string \<Rightarrow> db \<Rightarrow> member_view list" where
  "members_list tid s =
     map (MEMBER_FIELDS s) (sort_key u_createdAt (filter (\<lambda>u. u_tenantId u = Some tid) (users s)))"

text \<open>App name, client id, status of the grant, and the app's roles.\<close>

definition listRoles :: "string \<Rightarrow> db \<Rightarrow> (string \<times> string \<times> app_tenant_status \<times> role list) list" where
  "listRoles tid s =
     List.map_filter (\<lambda>g. map_option (\<lambda>a. (a_name a, a_clientId a, at_status g,
         filter (\<lambda>r. r_appId r = a_id a) (roles s))) (app_by_id s (at_appId g)))
       (sort_key at_createdAt (filter (\<lambda>g. at_tenantId g = tid) (app_tenants s)))"

definition find_member :: "string \<Rightarrow> string \<Rightarrow> db \<Rightarrow> user option" where
  "find_member tid i s =
     find (\<lambda>u. u_id u = i \<and> u_tenantId u = Some tid \<and> \<not> u_isPlatformAdmin u) (users s)"

definition getMember :: "string \<Rightarrow> string \<Rightarrow> db \<Rightarrow> user res" where
  "getMember tid i s = (case find_member tid i s of
      None \<Rightarrow> Inl (NotFound ''Member not found'') | Some u \<Rightarrow> Inr u)"

definition member_meta :: "string \<Rightarrow> string \<Rightarrow> (string \<times> json) list \<Rightarrow> audit_meta" where
  "member_meta tid actorId detail =
     no_meta\<lparr>am_tenantId := Some tid, am_userId := Some actorId, am_detail := Some (JObj detail)\<rparr>"

record create_member_dto =
  cm_email :: string
  cm_password :: string
  cm_firstName :: "string option"
  cm_lastName :: "string option"
  cm_phone :: "string option"
  cm_isTenantAdmin :: "bool option"

text \<open>The account a member's form makes; \<open>isPlatformAdmin\<close> is the column's default.\<close>

definition new_member ::
  "env \<Rightarrow> string \<Rightarrow> string \<Rightarrow> create_member_dto \<Rightarrow> string \<Rightarrow> time \<Rightarrow> user" where
  "new_member env tid email dto newId now =
     \<lparr>u_id = newId, u_tenantId = Some tid, u_email = email,
      u_passwordHash = bcrypt_hash env (cm_password dto),
      u_name = fullName (cm_firstName dto) (cm_lastName dto), u_firstName = cm_firstName dto,
      u_lastName = cm_lastName dto, u_phone = cm_phone dto, u_isPlatformAdmin = False,
      u_isTenantAdmin = nullish (cm_isTenantAdmin dto) False, u_emailVerifiedAt = Some now,
      u_createdAt = now, u_deletedAt = None\<rparr>"

definition member_create ::
  "env \<Rightarrow> string \<Rightarrow> string \<Rightarrow> create_member_dto \<Rightarrow> string \<Rightarrow> time \<Rightarrow> db \<Rightarrow> member_view res \<times> db" where
  "member_create env tid actorId dto newId now s =
     (let email = lower (cm_email dto) in
      if user_by_email s (Some tid) email \<noteq> None
      then (Inl (Conflict ''A member with that email already exists''), s)
      else let u = new_member env tid email dto newId now
           in case insert_user u s of
                (Inl e, s1) \<Rightarrow> (Inl e, s1)
              | (Inr _, s1) \<Rightarrow> (Inr (MEMBER_FIELDS s1 u), record_event ''tenant.member_created''
                    (member_meta tid actorId
                       [(''memberId'', JStr newId), (''email'', JStr email)]) now s1))"

record update_member_dto =
  um_firstName :: "string option"
  um_lastName :: "string option"
  um_phone :: "string option"
  um_isTenantAdmin :: "bool option"

definition member_changes :: "update_member_dto \<Rightarrow> user \<Rightarrow> user \<Rightarrow> user" where
  "member_changes dto existing u =
     u\<lparr>u_firstName := set_field (um_firstName dto) (u_firstName u),
       u_lastName := set_field (um_lastName dto) (u_lastName u),
       u_phone := set_field (um_phone dto) (u_phone u),
       u_name := (if um_firstName dto \<noteq> None \<or> um_lastName dto \<noteq> None
         then fullName (or_else (um_firstName dto) (u_firstName existing))
                (or_else (um_lastName dto) (u_lastName existing))
         else u_name u),
       u_isTenantAdmin := set_if (um_isTenantAdmin dto) (u_isTenantAdmin u)\<rparr>"

text \<open>An update of one member's row and its audit event.\<close>

definition change_member ::
  "string \<Rightarrow> string \<Rightarrow> string \<Rightarrow> user \<Rightarrow> (user \<Rightarrow> user) \<Rightarrow> string \<Rightarrow> time \<Rightarrow> db \<Rightarrow> member_view res \<times> db" where
  "change_member tid actorId i existing f action now s =
     (let s1 = set_user i f s
      in (Inr (MEMBER_FIELDS s1 (f existing)),
          record_event action (member_meta tid actorId [(''memberId'', JStr i)]) now s1))"

definition member_update ::
  "string \<Rightarrow> string \<Rightarrow> string \<Rightarrow> update_member_dto \<Rightarrow> time \<Rightarrow> db \<Rightarrow> member_view res \<times> db" where
  "member_update tid actorId i dto now s =
     (case getMember tid i s of
        Inl e \<Rightarrow> (Inl e, s)
      | Inr existing \<Rightarrow>
          if i = actorId \<and> um_isTenantAdmin dto = Some False
          then (Inl (Conflict ''You cannot remove your own tenant-admin role''), s)
          else change_member tid actorId i existing (member_changes dto existing)
                 ''tenant.member_updated'' now s)"

definition member_deactivate ::
  "string \<Rightarrow> string \<Rightarrow> string \<Rightarrow> time \<Rightarrow> db \<Rightarrow> member_view res \<times> db" where
  "member_deactivate tid actorId i now s =
     (case getMember tid i s of
        Inl e \<Rightarrow> (Inl e, s)
      | Inr existing \<Rightarrow>
          if i = actorId then (Inl (Conflict ''You cannot deactivate your own account''), s)
          else change_member tid actorId i existing (\<lambda>u. u\<lparr>u_deletedAt := Some now\<rparr>)
                 ''tenant.member_deactivated'' now s)"

definition member_restore ::
  "string \<Rightarrow> string \<Rightarrow> string \<Rightarrow> time \<Rightarrow> db \<Rightarrow> member_view res \<times> db" where
  "member_restore tid actorId i now s =
     (case getMember tid i s of
        Inl e \<Rightarrow> (Inl e, s)
      | Inr existing \<Rightarrow> change_member tid actorId i existing (\<lambda>u. u\<lparr>u_deletedAt := None\<rparr>)
          ''tenant.member_restored'' now s)"

section \<open>Roles of enabled apps\<close>

text \<open>\<open>role.findMany({ where: { id: { in: ids } } })\<close> and the apps of those roles that the tenant has
  a grant for.\<close>

definition roles_in :: "string list \<Rightarrow> db \<Rightarrow> role list" where
  "roles_in ids s = filter (\<lambda>r. r_id r \<in> set ids) (roles s)"

definition role_enabled :: "string \<Rightarrow> db \<Rightarrow> role \<Rightarrow> bool" where
  "role_enabled tid s r = list_ex (\<lambda>g. at_tenantId g = tid \<and> at_appId g = r_appId r) (app_tenants s)"

definition assertRolesEnabled :: "string \<Rightarrow> string list \<Rightarrow> db \<Rightarrow> string list res" where
  "assertRolesEnabled tid roleIds s =
     (let unique = js_unique roleIds in
      if unique = [] then Inr []
      else if length (roles_in unique s) \<noteq> length unique then Inl (NotFound ''Role not found'')
      else if list_ex (\<lambda>r. \<not> role_enabled tid s r) (roles_in unique s)
      then Inl (Forbidden ''Role belongs to an app not enabled for this workspace'')
      else Inr unique)"

definition stillEnabledRoles :: "string \<Rightarrow> string list \<Rightarrow> db \<Rightarrow> string list" where
  "stillEnabledRoles tid roleIds s = map r_id (filter (role_enabled tid s) (roles_in roleIds s))"

definition link_roles :: "string \<Rightarrow> string list \<Rightarrow> user_role list" where
  "link_roles i ids = map (\<lambda>r. \<lparr>ur_userId = i, ur_roleId = r\<rparr>) ids"

definition member_setRoles ::
  "string \<Rightarrow> string \<Rightarrow> string \<Rightarrow> string list \<Rightarrow> time \<Rightarrow> db \<Rightarrow> member_view res \<times> db" where
  "member_setRoles tid actorId i roleIds now s =
     (case getMember tid i s of
        Inl e \<Rightarrow> (Inl e, s)
      | Inr existing \<Rightarrow>
        (case assertRolesEnabled tid roleIds s of
           Inl e \<Rightarrow> (Inl e, s)
         | Inr unique \<Rightarrow>
           (let s1 = s\<lparr>user_roles := del_where (\<lambda>ur. ur_userId ur = i) (user_roles s)
                  @ link_roles i unique\<rparr>
            in (Inr (MEMBER_FIELDS s1 existing), record_event ''tenant.member_roles_set''
                  (member_meta tid actorId [(''memberId'', JStr i),
                     (''roleCount'', JNum (int (length unique)))]) now s1))))"

section \<open>Invites\<close>

definition INVITE_TTL_MS :: int where "INVITE_TTL_MS = 24 * 3600 * 1000"

text \<open>An invite as the API shows it: never its token's hash.\<close>

definition INVITE_FIELDS :: "invite \<Rightarrow> invite" where
  "INVITE_FIELDS i = i\<lparr>i_tokenHash := []\<rparr>"

definition invites_list :: "string \<Rightarrow> db \<Rightarrow> invite list" where
  "invites_list tid s =
     map INVITE_FIELDS (sort_key (\<lambda>i. - i_createdAt i) (filter (\<lambda>i. i_tenantId i = tid) (invites s)))"

text \<open>\<open>a || b || c\<close> over strings that may be missing.\<close>

definition or_string :: "string option \<Rightarrow> string \<Rightarrow> string" where
  "or_string x d = (if truthy x then the x else d)"

definition sendInviteEmail ::
  "env \<Rightarrow> config \<Rightarrow> string \<Rightarrow> string \<Rightarrow> string \<Rightarrow> string option \<Rightarrow> time \<Rightarrow> db \<Rightarrow> string res \<times> db" where
  "sendInviteEmail env cfg tid dest rawToken actorId now s =
     (let tenant = tenant_by_id s tid;
          inviter = (if truthy actorId then user_by_id s (the actorId) else None);
          who = or_string (Option.bind inviter u_name)
                  (or_string (map_option u_email inviter) ''An administrator'');
          workspace = nullish (map_option tn_name tenant) ''a workspace'';
          link = publicBaseUrl cfg @ ''/auth/invites/accept-page?token='' @ uri_encode env rawToken
      in case render cfg ''member_invite''
             [(''productName'', platformName cfg), (''inviter'', who), (''workspace'', workspace),
              (''expiryHours'', ''24'')] (Some link) s of
           Inl e \<Rightarrow> (Inl e, s)
         | Inr (subject, body) \<Rightarrow>
             deliver env cfg \<lparr>sd_fromName = None, sd_tenantId = Some tid, sd_to = dest,
               sd_subject = subject, sd_content = Templated body\<rparr> None now s)"

record create_invite_dto =
  ci_email :: string
  ci_roleIds :: "string list option"
  ci_isTenantAdmin :: "bool option"

definition invite_pending :: "string \<Rightarrow> string \<Rightarrow> invite \<Rightarrow> bool" where
  "invite_pending tid email i = (i_tenantId i = tid \<and> i_email i = email \<and> i_acceptedAt i = None)"

text \<open>\<open>invite.create\<close>: \<open>tokenHash\<close> is unique. \<open>dr\<close> are the drawn row id and raw token.\<close>

definition invite_create ::
  "env \<Rightarrow> config \<Rightarrow> string \<Rightarrow> string \<Rightarrow> create_invite_dto \<Rightarrow> drawn \<Rightarrow> time \<Rightarrow> db \<Rightarrow> invite res \<times> db" where
  "invite_create env cfg tid actorId dto dr now s =
     (let email = lower (ci_email dto) in
      if user_by_email s (Some tid) email \<noteq> None
      then (Inl (Conflict ''Already a member of this workspace''), s)
      else case assertRolesEnabled tid (nullish (ci_roleIds dto) []) s of
        Inl e \<Rightarrow> (Inl e, s)
      | Inr roleIds \<Rightarrow>
        (let s1 = s\<lparr>invites := del_where (invite_pending tid email) (invites s)\<rparr>;
             row = \<lparr>i_id = fst dr, i_tenantId = tid, i_email = email, i_roleIds = roleIds,
                    i_isTenantAdmin = nullish (ci_isTenantAdmin dto) False,
                    i_invitedById = Some actorId, i_tokenHash = sha256 env (snd dr),
                    i_expiresAt = now + INVITE_TTL_MS, i_acceptedAt = None, i_createdAt = now\<rparr>
         in if i_id row \<in> i_id ` set (invites s1) \<or> i_tokenHash row \<in> i_tokenHash ` set (invites s1)
            then (Inl (PrismaError ''P2002''), s1)
            else let s2 = s1\<lparr>invites := invites s1 @ [row]\<rparr>
                 in case sendInviteEmail env cfg tid email (snd dr) (Some actorId) now s2 of
                      (Inl e, s3) \<Rightarrow> (Inl e, s3)
                    | (Inr _, s3) \<Rightarrow> (Inr (INVITE_FIELDS row), record_event ''tenant.invite_created''
                          (member_meta tid actorId [(''email'', JStr email)]) now s3)))"

definition find_invite :: "string \<Rightarrow> string \<Rightarrow> db \<Rightarrow> invite option" where
  "find_invite tid i s = find (\<lambda>x. i_id x = i \<and> i_tenantId x = tid) (invites s)"

definition invite_resend ::
  "env \<Rightarrow> config \<Rightarrow> string \<Rightarrow> string \<Rightarrow> string \<Rightarrow> string \<Rightarrow> time \<Rightarrow> db \<Rightarrow> invite res \<times> db" where
  "invite_resend env cfg tid actorId i raw now s =
     (case find_invite tid i s of
        None \<Rightarrow> (Inl (NotFound ''Invite not found''), s)
      | Some invite \<Rightarrow>
          if i_acceptedAt invite \<noteq> None then (Inl (Conflict ''Invite was already accepted''), s)
          else if \<exists>x \<in> set (invites s). i_tokenHash x = sha256 env raw \<and> i_id x \<noteq> i
          then (Inl (PrismaError ''P2002''), s)
          else let f = (\<lambda>x. x\<lparr>i_tokenHash := sha256 env raw, i_expiresAt := now + INVITE_TTL_MS\<rparr>);
                   s1 = s\<lparr>invites := upd_where (\<lambda>x. i_id x = i) f (invites s)\<rparr>
               in case sendInviteEmail env cfg tid (i_email invite) raw (Some actorId) now s1 of
                    (Inl e, s2) \<Rightarrow> (Inl e, s2)
                  | (Inr _, s2) \<Rightarrow> (Inr (INVITE_FIELDS (f invite)), record_event ''tenant.invite_resent''
                        (member_meta tid actorId [(''email'', JStr (i_email invite))]) now s2))"

definition invite_revoke ::
  "string \<Rightarrow> string \<Rightarrow> string \<Rightarrow> time \<Rightarrow> db \<Rightarrow> unit res \<times> db" where
  "invite_revoke tid actorId i now s =
     (case find_invite tid i s of
        None \<Rightarrow> (Inl (NotFound ''Invite not found''), s)
      | Some invite \<Rightarrow>
          if i_acceptedAt invite \<noteq> None then (Inl (Conflict ''Invite was already accepted''), s)
          else (Inr (), record_event ''tenant.invite_revoked''
                  (member_meta tid actorId [(''email'', JStr (i_email invite))]) now
                  (s\<lparr>invites := del_where (\<lambda>x. i_id x = i) (invites s)\<rparr>)))"

record accept_invite_dto =
  ac_token :: string
  ac_password :: string
  ac_firstName :: "string option"
  ac_lastName :: "string option"
  ac_phone :: "string option"

definition accepted_user ::
  "env \<Rightarrow> invite \<Rightarrow> accept_invite_dto \<Rightarrow> string \<Rightarrow> time \<Rightarrow> user" where
  "accepted_user env invite dto newId now =
     \<lparr>u_id = newId, u_tenantId = Some (i_tenantId invite), u_email = i_email invite,
      u_passwordHash = bcrypt_hash env (ac_password dto),
      u_name = fullName (ac_firstName dto) (ac_lastName dto), u_firstName = ac_firstName dto,
      u_lastName = ac_lastName dto, u_phone = ac_phone dto, u_isPlatformAdmin = False,
      u_isTenantAdmin = i_isTenantAdmin invite, u_emailVerifiedAt = Some now,
      u_createdAt = now, u_deletedAt = None\<rparr>"

definition invite_accept ::
  "env \<Rightarrow> accept_invite_dto \<Rightarrow> string \<Rightarrow> time \<Rightarrow> db \<Rightarrow> (string \<times> string) res \<times> db" where
  "invite_accept env dto newId now s =
     (let invalid = BadRequest ''Invite link is invalid or has expired'' in
      case find (\<lambda>x. i_tokenHash x = sha256 env (ac_token dto)) (invites s) of
        None \<Rightarrow> (Inl invalid, s)
      | Some invite \<Rightarrow>
          if i_acceptedAt invite \<noteq> None \<or> i_expiresAt invite < now then (Inl invalid, s)
          else (case tenant_by_id s (i_tenantId invite) of
            None \<Rightarrow> (Inl (UncaughtError ''invite without tenant''), s)
          | Some tenant \<Rightarrow>
              if tn_deletedAt tenant \<noteq> None \<or> tn_status tenant = TSuspended then (Inl invalid, s)
              else if user_by_email s (Some (i_tenantId invite)) (i_email invite) \<noteq> None
              then (Inl (Conflict ''This email already has an account in the workspace''), s)
              else let roleIds = stillEnabledRoles (i_tenantId invite) (i_roleIds invite) s;
                       u = accepted_user env invite dto newId now
                   in case insert_user u s of
                        (Inl e, s1) \<Rightarrow> (Inl e, s1)
                      | (Inr _, s1) \<Rightarrow>
                          (let s2 = s1\<lparr>user_roles := user_roles s1 @ link_roles newId roleIds,
                                 invites := upd_where (\<lambda>x. i_id x = i_id invite)
                                   (\<lambda>x. x\<lparr>i_acceptedAt := Some now\<rparr>) (invites s1)\<rparr>
                           in (Inr (tn_slug tenant, i_email invite),
                               record_event ''tenant.invite_accepted''
                                 (member_meta (i_tenantId invite) newId
                                    [(''email'', JStr (i_email invite))]) now s2))))"

section \<open>The controller\<close>

text \<open>The requests of \<open>TenantController\<close> that change something, with the values they draw.\<close>

datatype tenant_request =
    TCreate create_member_dto string
  | TUpdate string update_member_dto
  | TDeactivate string
  | TRestore string
  | TSetRoles string "string list"
  | TCreateInvite create_invite_dto drawn
  | TResendInvite string string
  | TRevokeInvite string

definition discard :: "'a res \<times> 's \<Rightarrow> unit res \<times> 's" where
  "discard x = apfst (res_map (\<lambda>_. ())) x"

definition tenant_request ::
  "env \<Rightarrow> config \<Rightarrow> string \<Rightarrow> string \<Rightarrow> tenant_request \<Rightarrow> time \<Rightarrow> db \<Rightarrow> unit res \<times> db" where
  "tenant_request env cfg tid actorId req now s =
     (case req of
        TCreate dto i \<Rightarrow> discard (member_create env tid actorId dto i now s)
      | TUpdate i dto \<Rightarrow> discard (member_update tid actorId i dto now s)
      | TDeactivate i \<Rightarrow> discard (member_deactivate tid actorId i now s)
      | TRestore i \<Rightarrow> discard (member_restore tid actorId i now s)
      | TSetRoles i ids \<Rightarrow> discard (member_setRoles tid actorId i ids now s)
      | TCreateInvite dto dr \<Rightarrow> discard (invite_create env cfg tid actorId dto dr now s)
      | TResendInvite i raw \<Rightarrow> discard (invite_resend env cfg tid actorId i raw now s)
      | TRevokeInvite i \<Rightarrow> invite_revoke tid actorId i now s)"

text \<open>\<open>@UseGuards(JwtAuthGuard, TenantAdminGuard)\<close>, then the handler with the token's tenant.\<close>

definition tenant_api ::
  "env \<Rightarrow> config \<Rightarrow> string option \<Rightarrow> tenant_request \<Rightarrow> time \<Rightarrow> db \<Rightarrow> unit res \<times> db" where
  "tenant_api env cfg header req now s =
     (case jwt_guard env header now of
        Inl e \<Rightarrow> (Inl e, s)
      | Inr c \<Rightarrow>
        (case tenant_admin_guard c of
           Inl e \<Rightarrow> (Inl e, s)
         | Inr _ \<Rightarrow>
           (case (claim_string c ''tenant_id'', claim_string c ''sub'') of
              (Some tid, Some actorId) \<Rightarrow> tenant_request env cfg tid actorId req now s
            | _ \<Rightarrow> (Inl (UncaughtError ''claims''), s))))"

section \<open>What a request may touch\<close>

text \<open>
  \<open>within tid s s'\<close>: outside the workspace \<open>tid\<close>, and of its platform administrators, no account, no role
  of an account and no invite differs between \<open>s\<close> and \<open>s'\<close>, and every other table of the platform is
  the same, but for the audit log and the mail sent, which requests add to.
\<close>

definition outside :: "string \<Rightarrow> user \<Rightarrow> bool" where
  "outside tid u \<longleftrightarrow> u_tenantId u \<noteq> Some tid \<or> u_isPlatformAdmin u"

definition outside_roles :: "string \<Rightarrow> user list \<Rightarrow> user_role list \<Rightarrow> user_role list" where
  "outside_roles tid us = filter (\<lambda>l. ur_userId l \<in> u_id ` {u \<in> set us. outside tid u})"

definition within :: "string \<Rightarrow> db \<Rightarrow> db \<Rightarrow> bool" where
  "within tid s s' \<longleftrightarrow>
     filter (outside tid) (users s') = filter (outside tid) (users s)
     \<and> filter (\<lambda>i. i_tenantId i \<noteq> tid) (invites s') = filter (\<lambda>i. i_tenantId i \<noteq> tid) (invites s)
     \<and> tenants s' = tenants s \<and> apps s' = apps s \<and> prices s' = prices s
     \<and> app_tenants s' = app_tenants s \<and> roles s' = roles s
     \<and> refresh_tokens s' = refresh_tokens s \<and> passkeys s' = passkeys s
     \<and> smtp_configs s' = smtp_configs s \<and> email_templates s' = email_templates s
     \<and> outside_roles tid (users s) (user_roles s') = outside_roles tid (users s) (user_roles s)"

lemma within_refl [simp]: "within tid s s"
  by (simp add: within_def)

lemma within_record_event [simp]: "within tid s (record_event a m n s') = within tid s s'"
  by (simp add: within_def)

lemma within_deliver [simp]: "within tid s (snd (deliver env cfg dto c now s')) = within tid s s'"
  by (simp add: within_def)

lemma within_sendInviteEmail [simp]:
  "within tid s (snd (sendInviteEmail env cfg t d raw actor now s')) = within tid s s'"
  by (simp add: sendInviteEmail_def Let_def split: sum.split)

lemma within_send:
  "sendInviteEmail env cfg t d raw actor now x = (r, y) \<Longrightarrow> within tid s x \<Longrightarrow> within tid s y"
  using within_sendInviteEmail [of tid s env cfg t d raw actor now x] by simp

lemma within_set_user:
  assumes "unique_on u_id (users s)" and "find_member tid i s = Some u"
    and "\<And>x. u_tenantId (f x) = u_tenantId x \<and> u_isPlatformAdmin (f x) = u_isPlatformAdmin x"
  shows "within tid s (set_user i f s)"
proof -
  have u: "u \<in> set (users s)" "u_id u = i" "u_tenantId u = Some tid" "\<not> u_isPlatformAdmin u"
    using find_SomeD [OF assms(2) [unfolded find_member_def]] by simp_all
  have only: "x \<in> set (users s) \<Longrightarrow> u_id x = i \<Longrightarrow> x = u" for x
    using unique_on_eqD [OF assms(1) _ u(1)] u(2) by simp
  have out: "x \<in> set (users s) \<Longrightarrow> u_id x = i \<Longrightarrow> \<not> outside tid x \<and> \<not> outside tid (f x)" for x
    using only u(3,4) assms(3) by (auto simp: outside_def)
  have "filter (outside tid) (upd_where (\<lambda>u. u_id u = i) f rows) = filter (outside tid) rows"
    if "set rows \<subseteq> set (users s)" for rows
    using that out by (induction rows) auto
  then show ?thesis
    by (simp add: within_def set_user_def)
qed

lemma within_insert_user:
  "insert_user u s = (r, s') \<Longrightarrow> u_tenantId u = Some tid \<Longrightarrow> \<not> u_isPlatformAdmin u \<Longrightarrow> within tid s s'"
  by (auto simp: insert_user_def within_def outside_def split: if_splits)

lemma within_change_member:
  assumes "unique_on u_id (users s)" and "getMember tid i s = Inr u"
    and "\<And>x. u_tenantId (f x) = u_tenantId x \<and> u_isPlatformAdmin (f x) = u_isPlatformAdmin x"
  shows "within tid s (snd (change_member tid' actor i ex f act now s))"
proof -
  have "find_member tid i s = Some u"
    using assms(2) by (auto simp: getMember_def split: option.splits)
  then show ?thesis
    using within_set_user [OF assms(1) _ assms(3)] by (simp add: change_member_def Let_def)
qed

lemma member_not_outside:
  assumes "unique_on u_id (users s)" and "getMember tid i s = Inr u"
  shows "i \<notin> u_id ` {u \<in> set (users s). outside tid u}"
proof -
  have u: "u \<in> set (users s)" "u_id u = i" "\<not> outside tid u"
    using assms(2) find_SomeD [of _ "users s" u]
    by (auto simp: getMember_def find_member_def outside_def split: option.splits)
  then have "x = u" if "x \<in> set (users s)" "u_id x = i" for x
    using unique_on_eqD [OF assms(1) that(1) u(1)] that(2) by simp
  then show ?thesis
    using u(3) by auto
qed

lemma outside_roles_append [simp]: "outside_roles tid us (a @ b) = outside_roles tid us a @ outside_roles tid us b"
  by (simp add: outside_roles_def)

lemma outside_roles_links:
  assumes "i \<notin> u_id ` {u \<in> set us. outside tid u}"
  shows "outside_roles tid us (link_roles i ids) = []"
    "outside_roles tid us (del_where (\<lambda>l. ur_userId l = i) rows) = outside_roles tid us rows"
proof -
  have "ur_userId l = i" if "l \<in> set (link_roles i ids)" for l
    using that by (auto simp: link_roles_def)
  then show "outside_roles tid us (link_roles i ids) = []"
    using assms by (auto simp: outside_roles_def filter_empty_conv)
  show "outside_roles tid us (del_where (\<lambda>l. ur_userId l = i) rows) = outside_roles tid us rows"
    unfolding outside_roles_def using assms by (intro filter_del_where_other) auto
qed

lemma within_invites:
  "filter (\<lambda>i. i_tenantId i \<noteq> tid) is' = filter (\<lambda>i. i_tenantId i \<noteq> tid) (invites s) \<Longrightarrow>
   within tid s (s\<lparr>invites := is'\<rparr>)"
  by (simp add: within_def)

lemma member_create_within:
  "member_create env tid actor dto i now s = (r, s') \<Longrightarrow> within tid s s'"
  by (auto simp: member_create_def Let_def new_member_def split: if_splits prod.splits sum.splits
      dest: within_insert_user)

lemma member_update_within:
  assumes "unique_on u_id (users s)"
  shows "within tid s (snd (member_update tid actor i dto now s))"
  using within_change_member [OF assms, of tid i _ "member_changes dto _"]
  by (auto simp: member_update_def member_changes_def split: sum.split)

lemma member_deactivate_within:
  assumes "unique_on u_id (users s)"
  shows "within tid s (snd (member_deactivate tid actor i now s))"
  using within_change_member [OF assms, of tid i _ "\<lambda>u. u\<lparr>u_deletedAt := Some now\<rparr>"]
  by (auto simp: member_deactivate_def split: sum.split)

lemma member_restore_within:
  assumes "unique_on u_id (users s)"
  shows "within tid s (snd (member_restore tid actor i now s))"
  using within_change_member [OF assms, of tid i _ "\<lambda>u. u\<lparr>u_deletedAt := None\<rparr>"]
  by (auto simp: member_restore_def split: sum.split)

lemma member_setRoles_within:
  assumes "unique_on u_id (users s)"
  shows "within tid s (snd (member_setRoles tid actor i ids now s))"
  using outside_roles_links [OF member_not_outside [OF assms, of tid i]]
  by (auto simp: member_setRoles_def Let_def within_def split: sum.split)

lemma invite_create_within: "within tid s (snd (invite_create env cfg tid actor dto dr now s))"
proof -
  let ?email = "lower (ci_email dto)"
  let ?left = "del_where (invite_pending tid ?email) (invites s)"
  have left: "filter (\<lambda>i. i_tenantId i \<noteq> tid) ?left = filter (\<lambda>i. i_tenantId i \<noteq> tid) (invites s)"
    by (rule filter_del_where_other) (simp add: invite_pending_def)
  have w: "within tid s (s\<lparr>invites := ?left\<rparr>)"
    "i_tenantId row = tid \<Longrightarrow> within tid s (s\<lparr>invites := ?left @ [row]\<rparr>)" for row
    using left by (simp_all add: within_invites)
  show ?thesis
    by (auto simp: invite_create_def Let_def w split: sum.split prod.split)
       (erule within_send, simp add: w(2))+
qed

lemma find_inviteD:
  "find_invite tid i s = Some x \<Longrightarrow> x \<in> set (invites s) \<and> i_id x = i \<and> i_tenantId x = tid"
  unfolding find_invite_def by (drule find_SomeD) simp

lemma invite_ids_tenant:
  assumes "unique_on i_id (invites s)" and "find_invite tid i s = Some x"
  shows "\<forall>y \<in> set (invites s). i_id y = i \<longrightarrow> i_tenantId y = tid"
  using unique_on_eqD [OF assms(1), of _ x] find_inviteD [OF assms(2)] by auto

lemma filter_upd_where_in:
  "(\<And>r. r \<in> set rows \<Longrightarrow> P r \<Longrightarrow> \<not> Q r \<and> \<not> Q (f r)) \<Longrightarrow>
   filter Q (upd_where P f rows) = filter Q rows"
  by (induction rows) auto

lemma filter_del_where_in:
  "(\<And>r. r \<in> set rows \<Longrightarrow> P r \<Longrightarrow> \<not> Q r) \<Longrightarrow> filter Q (del_where P rows) = filter Q rows"
  by (induction rows) auto

lemma invite_resend_within:
  assumes "unique_on i_id (invites s)"
  shows "within tid s (snd (invite_resend env cfg tid actor i raw now s))"
proof (cases "find_invite tid i s")
  case (Some x)
  let ?f = "\<lambda>x. x\<lparr>i_tokenHash := sha256 env raw, i_expiresAt := now + INVITE_TTL_MS\<rparr>"
  have "filter (\<lambda>y. i_tenantId y \<noteq> tid) (upd_where (\<lambda>y. i_id y = i) ?f (invites s))
      = filter (\<lambda>y. i_tenantId y \<noteq> tid) (invites s)"
    by (rule filter_upd_where_in) (use invite_ids_tenant [OF assms Some] in auto)
  then have "within tid s (s\<lparr>invites := upd_where (\<lambda>y. i_id y = i) ?f (invites s)\<rparr>)"
    by (rule within_invites)
  then show ?thesis
    by (auto simp: invite_resend_def Let_def Some split: sum.split prod.split elim: within_send)
qed (simp add: invite_resend_def)

lemma invite_revoke_within:
  assumes "unique_on i_id (invites s)"
  shows "within tid s (snd (invite_revoke tid actor i now s))"
proof (cases "find_invite tid i s")
  case (Some x)
  have "filter (\<lambda>y. i_tenantId y \<noteq> tid) (del_where (\<lambda>y. i_id y = i) (invites s))
      = filter (\<lambda>y. i_tenantId y \<noteq> tid) (invites s)"
    by (rule filter_del_where_in) (use invite_ids_tenant [OF assms Some] in auto)
  then show ?thesis
    by (simp add: invite_revoke_def Some within_invites)
qed (simp add: invite_revoke_def)

lemmas request_within = member_update_within member_deactivate_within member_restore_within
  member_setRoles_within invite_create_within invite_resend_within invite_revoke_within

lemma snd_discard [simp]: "snd (discard x) = snd x"
  by (simp add: discard_def)

lemma tenant_request_within:
  assumes "unique_on u_id (users s)" and "unique_on i_id (invites s)"
  shows "within tid s (snd (tenant_request env cfg tid actor req now s))"
  using assms member_create_within [of env tid actor _ _ now s, OF prod.collapse [symmetric]]
  by (cases req) (simp_all add: tenant_request_def request_within)

lemma tenant_api_cases:
  assumes "tenant_api env cfg header req now s = (r, s')"
  obtains e where "r = Inl e" "s' = s"
  | c tid actorId where "jwt_guard env header now = Inr c" "tenant_admin_guard c = Inr ()"
      "claim_string c ''tenant_id'' = Some tid" "claim_string c ''sub'' = Some actorId"
      "tenant_request env cfg tid actorId req now s = (r, s')"
proof (cases "jwt_guard env header now")
  case (Inl e)
  then show thesis
    using assms that(1) by (auto simp: tenant_api_def)
next
  case c: (Inr c)
  show thesis
  proof (cases "tenant_admin_guard c")
    case (Inl e)
    then show thesis
      using assms c that(1) [of e] by (simp add: tenant_api_def)
  next
    case (Inr x)
    then show thesis
      using assms c that by (auto simp: tenant_api_def split: option.splits)
  qed
qed

section \<open>Members keep the administrators\<close>

lemma within_keeps_admin:
  assumes "within tid s s'" and "has_admin s" and "unique_on u_id (users s')"
    and "\<forall>u \<in> set (users s). live_admin u \<longrightarrow> outside tid u"
  shows "has_admin s'"
proof -
  obtain u where "u \<in> set (filter (outside tid) (users s))" "live_admin u"
    using assms(2,4) by (auto simp: has_admin_def)
  then have "u \<in> set (filter (outside tid) (users s'))"
    using assms(1) by (metis within_def)
  then show ?thesis
    using \<open>live_admin u\<close> assms(3) by (auto simp: has_admin_def)
qed

lemma live_admin_outside: "live_admin u \<Longrightarrow> outside tid u"
  by (simp add: live_admin_def outside_def)

lemma unique_set_user:
  "unique_on u_id (users s) \<Longrightarrow> (\<And>x. u_id (f x) = u_id x) \<Longrightarrow> unique_on u_id (users (set_user i f s))"
  by (simp add: set_user_def unique_on_upd_where)

lemma users_sendInviteEmail [simp]:
  "users (snd (sendInviteEmail env cfg t d raw actor now s)) = users s"
  by (simp add: sendInviteEmail_def Let_def split: sum.split)

lemma users_send:
  "sendInviteEmail env cfg t d raw actor now s = (r, s') \<Longrightarrow> users s' = users s"
  using users_sendInviteEmail [of env cfg t d raw actor now s] by simp

lemma users_invite_create [simp]: "users (snd (invite_create env cfg tid actor dto dr now s)) = users s"
  by (auto simp: invite_create_def Let_def split: sum.split prod.split dest: users_send)

lemma users_invite_resend [simp]:
  "users (snd (invite_resend env cfg tid actor i raw now s)) = users s"
  by (auto simp: invite_resend_def Let_def split: option.split sum.split prod.split dest: users_send)

lemma users_invite_revoke [simp]: "users (snd (invite_revoke tid actor i now s)) = users s"
  by (simp add: invite_revoke_def split: option.split)

lemma users_member_setRoles [simp]: "users (snd (member_setRoles tid actor i ids now s)) = users s"
  by (auto simp: member_setRoles_def Let_def split: sum.split)

lemma unique_insert_user:
  "insert_user u s = (r, s') \<Longrightarrow> unique_on u_id (users s) \<Longrightarrow> unique_on u_id (users s')"
  by (auto simp: insert_user_def unique_on_append_one split: if_splits)

text \<open>Every request keeps account ids unique, and leaves the acting administrator able to act.\<close>

definition has_self :: "string \<Rightarrow> db \<Rightarrow> bool" where
  "has_self actor s \<longleftrightarrow> (\<exists>u \<in> set (users s).
     u_id u = actor \<and> u_isTenantAdmin u \<and> u_deletedAt u = None)"

lemma has_self_set_user:
  assumes "has_self actor s" and "\<And>x. u_id (f x) = u_id x"
    and "i \<noteq> actor \<or> (\<forall>x. u_isTenantAdmin x \<and> u_deletedAt x = None \<longrightarrow>
      u_isTenantAdmin (f x) \<and> u_deletedAt (f x) = None)"
  shows "has_self actor (set_user i f s)"
proof -
  obtain u where u: "u \<in> set (users s)" "u_id u = actor" "u_isTenantAdmin u" "u_deletedAt u = None"
    using assms(1) by (auto simp: has_self_def)
  let ?v = "if u_id u = i then f u else u"
  have "?v \<in> set (users (set_user i f s))"
    using u(1) by (auto simp: set_user_def in_upd_where)
  moreover have "u_id ?v = actor \<and> u_isTenantAdmin ?v \<and> u_deletedAt ?v = None"
    using u assms(2,3) by auto
  ultimately show ?thesis
    unfolding has_self_def by blast
qed

lemma has_self_cong: "users s' = users s \<Longrightarrow> has_self actor s' = has_self actor s"
  by (simp add: has_self_def)

lemma has_self_insert: "insert_user u s = (r, s') \<Longrightarrow> has_self actor s \<Longrightarrow> has_self actor s'"
  by (auto simp: insert_user_def has_self_def split: if_splits)

lemma users_change_member [simp]:
  "users (snd (change_member tid actor i ex f act now s)) = users (set_user i f s)"
  by (simp add: change_member_def Let_def)

lemma member_create_users:
  assumes "unique_on u_id (users s)"
  shows "unique_on u_id (users (snd (member_create env tid actor dto i now s)))
    \<and> (has_self a s \<longrightarrow> has_self a (snd (member_create env tid actor dto i now s)))"
proof (cases "insert_user (new_member env tid (lower (cm_email dto)) dto i now) s")
  case (Pair r s1)
  then show ?thesis
    using assms unique_insert_user [OF Pair] has_self_insert [OF Pair]
    by (auto simp: member_create_def Let_def has_self_cong [of "record_event _ _ _ s1" s1] split: sum.split)
qed

lemma member_update_users:
  assumes "unique_on u_id (users s)"
  shows "unique_on u_id (users (snd (member_update tid actor i dto now s)))
    \<and> (has_self actor s \<longrightarrow> has_self actor (snd (member_update tid actor i dto now s)))"
proof -
  have "has_self actor s \<Longrightarrow> i \<noteq> actor \<or> um_isTenantAdmin dto \<noteq> Some False \<Longrightarrow>
      has_self actor (set_user i (member_changes dto ex) s)" for ex
    by (rule has_self_set_user)
       (cases "um_isTenantAdmin dto"; auto simp: member_changes_def)+
  then show ?thesis
    using assms
    by (auto simp: member_update_def unique_set_user member_changes_def [of dto]
        has_self_cong [of "snd (change_member tid actor i _ _ _ now s)" "set_user i _ s"]
        split: sum.split)
qed

lemma member_deactivate_users:
  assumes "unique_on u_id (users s)"
  shows "unique_on u_id (users (snd (member_deactivate tid actor i now s)))
    \<and> (has_self actor s \<longrightarrow> has_self actor (snd (member_deactivate tid actor i now s)))"
  using assms
  by (auto simp: member_deactivate_def unique_set_user has_self_set_user
      has_self_cong [of "snd (change_member tid actor i _ _ _ now s)" "set_user i _ s"]
      split: sum.split)

lemma member_restore_users:
  assumes "unique_on u_id (users s)"
  shows "unique_on u_id (users (snd (member_restore tid actor i now s)))
    \<and> (has_self actor s \<longrightarrow> has_self actor (snd (member_restore tid actor i now s)))"
  using assms
  by (auto simp: member_restore_def unique_set_user has_self_set_user
      has_self_cong [of "snd (change_member tid actor i _ _ _ now s)" "set_user i _ s"]
      split: sum.split)

lemma has_self_same_users [simp]:
  "has_self a (snd (invite_create env cfg tid actor dto dr now s)) = has_self a s"
  "has_self a (snd (invite_resend env cfg tid actor i raw now s)) = has_self a s"
  "has_self a (snd (invite_revoke tid actor i now s)) = has_self a s"
  "has_self a (snd (member_setRoles tid actor i ids now s)) = has_self a s"
  by (simp_all add: has_self_def)

lemma tenant_request_users:
  assumes "unique_on u_id (users s)"
  shows "unique_on u_id (users (snd (tenant_request env cfg tid actor req now s)))
    \<and> (has_self actor s \<longrightarrow> has_self actor (snd (tenant_request env cfg tid actor req now s)))"
  using assms
  by (cases req)
     (simp_all add: tenant_request_def member_create_users member_update_users
       member_deactivate_users member_restore_users)

lemma tenant_request_outside:
  assumes "unique_on u_id (users s)"
  shows "filter (outside tid) (users (snd (tenant_request env cfg tid actor req now s)))
    = filter (outside tid) (users s)"
  using assms member_create_within [of env tid actor _ _ now s, OF prod.collapse [symmetric]]
    member_update_within [OF assms] member_deactivate_within [OF assms] member_restore_within [OF assms]
  by (cases req) (simp_all add: tenant_request_def within_def)

lemma tenant_api_admin:
  assumes "has_admin s" and "tenant_api env cfg header req now s = (r, s')"
  shows "has_admin s'"
  using assms(2)
proof (cases rule: tenant_api_cases)
  case (2 c tid actor)
  have u: "unique_on u_id (users s)"
    using assms(1) by (simp add: has_admin_def)
  obtain a where "a \<in> set (filter (outside tid) (users s))" "live_admin a"
    using assms(1) live_admin_outside by (auto simp: has_admin_def)
  moreover have "filter (outside tid) (users s') = filter (outside tid) (users s)"
    using tenant_request_outside [OF u, of tid env cfg actor req now] 2(5) by simp
  ultimately have "a \<in> set (filter (outside tid) (users s'))"
    by simp
  moreover have "unique_on u_id (users s')"
    using tenant_request_users [OF u, of env cfg tid actor req now] 2(5) by simp
  ultimately show ?thesis
    using \<open>live_admin a\<close> by (auto simp: has_admin_def)
qed (use assms(1) in simp)

definition accept_writes ::
  "invite \<Rightarrow> string \<Rightarrow> time \<Rightarrow> db \<Rightarrow> db \<Rightarrow> db" where
  "accept_writes invite newId now s s1 =
     record_event ''tenant.invite_accepted''
       (member_meta (i_tenantId invite) newId [(''email'', JStr (i_email invite))]) now
       (s1\<lparr>user_roles := user_roles s1 @ link_roles newId
             (stillEnabledRoles (i_tenantId invite) (i_roleIds invite) s),
           invites := upd_where (\<lambda>x. i_id x = i_id invite)
             (\<lambda>x. x\<lparr>i_acceptedAt := Some now\<rparr>) (invites s1)\<rparr>)"

lemma invite_accept_cases:
  assumes "invite_accept env dto newId now s = (r, s')"
  obtains e where "r = Inl e" "s' = s"
  | invite tenant s1 where
      "find (\<lambda>x. i_tokenHash x = sha256 env (ac_token dto)) (invites s) = Some invite"
      "i_acceptedAt invite = None" "now \<le> i_expiresAt invite"
      "tenant_by_id s (i_tenantId invite) = Some tenant" "tn_deletedAt tenant = None"
      "tn_status tenant \<noteq> TSuspended" "r = Inr (tn_slug tenant, i_email invite)"
      "insert_user (accepted_user env invite dto newId now) s = (Inr (), s1)"
      "s' = accept_writes invite newId now s s1"
proof (cases r)
  case (Inl e)
  then have "s' = s"
    using assms insert_user_Inl
    by (auto simp: invite_accept_def Let_def split: option.splits if_splits sum.splits prod.splits)
  then show thesis
    using Inl that(1) by blast
next
  case (Inr x)
  then obtain invite tenant s1 where
      f: "find (\<lambda>x. i_tokenHash x = sha256 env (ac_token dto)) (invites s) = Some invite"
      "i_acceptedAt invite = None" "now \<le> i_expiresAt invite"
      "tenant_by_id s (i_tenantId invite) = Some tenant" "tn_deletedAt tenant = None"
      "tn_status tenant \<noteq> TSuspended"
      "insert_user (accepted_user env invite dto newId now) s = (Inr (), s1)"
    using assms
    by (auto simp: invite_accept_def Let_def split: option.splits if_splits sum.splits prod.splits)
  then have "user_by_email s (Some (i_tenantId invite)) (i_email invite) = None"
    using assms Inr by (auto simp: invite_accept_def split: if_splits)
  then have "r = Inr (tn_slug tenant, i_email invite) \<and> s' = accept_writes invite newId now s s1"
    using assms f by (auto simp: invite_accept_def accept_writes_def Let_def)
  then show thesis
    using that(2) f by blast
qed

lemma invite_accept_admin:
  assumes "has_admin s" and "invite_accept env dto newId now s = (r, s')"
  shows "has_admin s'"
  using assms(2)
proof (cases rule: invite_accept_cases)
  case (2 invite tenant s1)
  have "has_admin s1"
    by (rule has_admin_insert [OF 2(8) assms(1)])
  then show ?thesis
    unfolding 2(9) accept_writes_def by (simp add: has_admin_def)
qed (use assms(1) in simp)

interpretation workspace_api: keeps_admin "\<lambda>(header, req, now). tenant_api env cfg header req now"
  for env cfg
  by unfold_locales (auto split: prod.splits intro: tenant_api_admin)

interpretation accepting: keeps_admin "\<lambda>(dto, newId, now). invite_accept env dto newId now" for env
  by unfold_locales (auto split: prod.splits intro: invite_accept_admin)

section \<open>Lemmas on roles and invites\<close>

lemma set_js_unique [simp]: "set (js_unique xs) = set xs"
  by (simp add: js_unique_def)

lemma assertRolesEnabled_ok:
  assumes "assertRolesEnabled tid ids s = Inr unique" and "unique_on r_id (roles s)"
  shows "set unique = set ids
    \<and> (\<forall>i \<in> set unique. \<exists>r \<in> set (roles s). r_id r = i \<and> role_enabled tid s r)"
proof (cases "js_unique ids = []")
  case True
  then show ?thesis
    using assms(1) set_js_unique [of ids] by (simp add: assertRolesEnabled_def Let_def)
next
  case False
  then have u: "unique = js_unique ids" "length (roles_in unique s) = length unique"
    "\<forall>r \<in> set (roles_in unique s). role_enabled tid s r"
    using assms(1) by (auto simp: assertRolesEnabled_def Let_def list_ex_iff split: if_splits)
  have d: "distinct unique"
    by (simp add: u(1) js_unique_def)
  have "distinct (map r_id (roles_in unique s))"
    using assms(2) by (simp add: roles_in_def unique_on_def distinct_map_filter)
  then have "card (r_id ` set (roles_in unique s)) = length (roles_in unique s)"
    using distinct_card [of "map r_id (roles_in unique s)"] by simp
  then have "card (r_id ` set (roles_in unique s)) = card (set unique)"
    using u(2) distinct_card [OF d] by simp
  moreover have "r_id ` set (roles_in unique s) \<subseteq> set unique"
    by (auto simp: roles_in_def)
  ultimately have "r_id ` set (roles_in unique s) = set unique"
    by (simp add: card_subset_eq)
  then have "\<forall>i \<in> set unique. \<exists>r \<in> set (roles s). r_id r = i \<and> role_enabled tid s r"
    using u(3) by (force simp: roles_in_def)
  then show ?thesis
    using u(1) by simp
qed

lemma stillEnabledRoles_ok:
  "i \<in> set (stillEnabledRoles tid ids s) \<Longrightarrow>
   i \<in> set ids \<and> (\<exists>r \<in> set (roles s). r_id r = i \<and> role_enabled tid s r)"
  by (auto simp: stillEnabledRoles_def roles_in_def)

lemma in_link_roles: "ur \<in> set (link_roles i ids) \<Longrightarrow> ur_userId ur = i \<and> ur_roleId ur \<in> set ids"
  unfolding link_roles_def by force

lemma role_enabled_iff: "role_enabled tid s r \<longleftrightarrow> access_of s tid (r_appId r) \<noteq> None"
  by (auto simp: role_enabled_def access_of_def at_key_def find_None_iff list_ex_iff)

lemma invites_sendInviteEmail:
  "sendInviteEmail env cfg t d raw actor now s = (r, s') \<Longrightarrow> invites s' = invites s"
proof -
  assume a: "sendInviteEmail env cfg t d raw actor now s = (r, s')"
  have "invites (snd (sendInviteEmail env cfg t d raw actor now s)) = invites s"
    by (simp add: sendInviteEmail_def Let_def split: sum.split)
  then show ?thesis
    using a by simp
qed

lemma count_where_del_same: "count_where P (del_where P rows) = 0"
  by (simp add: count_where_0)

section \<open>Properties\<close>

definition member_env :: env where
  "member_env = sample_env\<lparr>jwt_verify := (\<lambda>now tok. Some [(''sub'', JStr ''u1''), (''tenant_id'', JStr ''t1''),
     (''tenant_admin'', JBool True)])\<rparr>"

definition member_db :: db where
  "member_db = sample_admin_db\<lparr>roles := [\<lparr>r_id = ''ro1'', r_appId = ''a1'', r_name = ''editor'',
     r_description = None\<rparr>]\<rparr>"

lemmas member_defs = member_env_def member_db_def sample_admin_db_def sample_admin_def sample_defs

text \<open>
  C27: A tenant administrator acts inside its own workspace only. Whatever it requests, the accounts of
  other workspaces, their roles and invites, the platform's administrators (even one whose account
  lives in the workspace) with theirs, and every other table but the audit log and the mail sent are
  the same afterwards; the scope is the token's tenant.
\<close>

theorem tenant_admin_confined:
  assumes "tenant_api env cfg header req now s = (r, s')"
    and "unique_on u_id (users s)" and "unique_on i_id (invites s)"
  shows "s' = s \<or> (\<exists>c tid. jwt_guard env header now = Inr c
     \<and> map_of c ''tenant_admin'' = Some (JBool True) \<and> claim_string c ''tenant_id'' = Some tid
     \<and> within tid s s')"
  using assms(1)
proof (cases rule: tenant_api_cases)
  case (2 c tid actorId)
  then have "within tid s s'"
    using tenant_request_within [OF assms(2,3), of tid env cfg actorId req now] by simp
  then show ?thesis
    using 2 by (auto simp: tenant_admin_guard_def split: if_splits)
qed simp

lemma tenant_admin_confined_witness:
  "within ''t1'' member_db
     (snd (tenant_api member_env sample_cfg (Some ''Bearer x'') (TDeactivate ''root'') 5 member_db))"
proof -
  let ?r = "tenant_api member_env sample_cfg (Some ''Bearer x'') (TDeactivate ''root'') 5 member_db"
  have "unique_on u_id (users member_db)" "unique_on i_id (invites member_db)"
    by code_simp+
  then show ?thesis
    using tenant_admin_confined [of member_env sample_cfg "Some ''Bearer x''" "TDeactivate ''root''" 5
        member_db "fst ?r" "snd ?r"]
    by (auto simp: jwt_guard_def starts_with_def claim_truthy_def claim_string_def member_env_def)
qed

text \<open>
  A tenant administrator cannot lock itself out. After any request of its own it is still a
  tenant administrator and its account is still live.
\<close>

theorem tenant_admin_keeps_itself:
  assumes "unique_on u_id (users s)"
    and "\<exists>u \<in> set (users s). u_id u = actor \<and> u_isTenantAdmin u \<and> u_deletedAt u = None"
  shows "\<exists>u \<in> set (users (snd (tenant_request env cfg tid actor req now s))).
     u_id u = actor \<and> u_isTenantAdmin u \<and> u_deletedAt u = None"
  using tenant_request_users [OF assms(1), of env cfg tid actor req now] assms(2)
  by (simp add: has_self_def)

lemma tenant_admin_keeps_itself_witness:
  "\<exists>u \<in> set (users (snd (tenant_request sample_env sample_cfg ''t1'' ''u1''
       (TUpdate ''u1'' \<lparr>um_firstName = None, um_lastName = None, um_phone = None,
          um_isTenantAdmin = Some False\<rparr>) 5 member_db))).
     u_id u = ''u1'' \<and> u_isTenantAdmin u \<and> u_deletedAt u = None"
  by (rule tenant_admin_keeps_itself) code_simp+

text \<open>
  Roles come from enabled apps only. The roles a tenant administrator gives a member, and those
  an accepted invite brings, all belong to apps the workspace has a grant for.
\<close>

theorem member_roles_from_enabled_apps:
  assumes "unique_on r_id (roles s)" and "tenant_request env cfg tid actor req now s = (Inr (), s')"
    and "req = TSetRoles i ids"
  shows "\<forall>ur \<in> set (user_roles s'). ur_userId ur = i \<longrightarrow>
    (\<exists>r \<in> set (roles s). r_id r = ur_roleId ur \<and> access_of s tid (r_appId r) \<noteq> None)"
proof -
  obtain v where "member_setRoles tid actor i ids now s = (Inr v, s')"
    using assms(2,3)
    by (cases "member_setRoles tid actor i ids now s"; cases "fst (member_setRoles tid actor i ids now s)")
       (auto simp: tenant_request_def discard_def res_map_def)
  then obtain unique where u: "assertRolesEnabled tid ids s = Inr unique"
    and s': "user_roles s' = del_where (\<lambda>ur. ur_userId ur = i) (user_roles s) @ link_roles i unique"
    by (auto simp: member_setRoles_def Let_def split: sum.splits)
  have "ur \<in> set (user_roles s') \<Longrightarrow> ur_userId ur = i \<Longrightarrow> ur_roleId ur \<in> set unique" for ur
    by (auto simp: s' dest: in_link_roles)
  then show ?thesis
    using assertRolesEnabled_ok [OF u assms(1)] by (simp add: role_enabled_iff)
qed

lemma member_roles_from_enabled_apps_witness:
  "\<nexists>ur. ur \<in> set (user_roles (snd (tenant_request sample_env sample_cfg ''t1'' ''u1''
       (TSetRoles ''u1'' [''ro1'']) 5 member_db))) \<and> ur_userId ur = ''u1''
    \<and> (\<nexists>r. r \<in> set (roles member_db) \<and> r_id r = ur_roleId ur \<and> access_of member_db ''t1'' (r_appId r) \<noteq> None)"
proof -
  let ?r = "tenant_request sample_env sample_cfg ''t1'' ''u1'' (TSetRoles ''u1'' [''ro1'']) 5 member_db"
  have "unique_on r_id (roles member_db)" "fst ?r = Inr ()"
    by code_simp+
  then show ?thesis
    using member_roles_from_enabled_apps [of member_db sample_env sample_cfg "''t1''" "''u1''"
        "TSetRoles ''u1'' [''ro1'']" 5 "snd ?r" "''u1''" "[''ro1'']"]
    by (metis prod.collapse)
qed

text \<open>
  One invite per address. After an invite was sent there is exactly one pending invite for that
  address in the workspace: the new one replaced every earlier one.
\<close>

theorem one_pending_invite_per_address:
  assumes "invite_create env cfg tid actor dto dr now s = (Inr v, s')"
  shows "count_where (invite_pending tid (lower (ci_email dto))) (invites s') = 1"
proof -
  let ?P = "invite_pending tid (lower (ci_email dto))"
  obtain row where "invites s' = del_where ?P (invites s) @ [row]" "?P row"
    using assms
    by (auto simp: invite_create_def Let_def invite_pending_def split: if_splits sum.splits prod.splits
        dest!: invites_sendInviteEmail)
  then show ?thesis
    by (simp add: count_where_del_same) (simp add: count_where_def)
qed

definition sample_invite_dto :: create_invite_dto where
  "sample_invite_dto = \<lparr>ci_email = ''New@x'', ci_roleIds = Some [''ro1''], ci_isTenantAdmin = None\<rparr>"

lemma render_invite [simp]: "render cfg ''member_invite'' vars url s \<noteq> Inl e"
proof -
  have "''member_invite'' \<in> set (map ts_code TEMPLATES)"
    by code_simp
  then show ?thesis
    using render_known [of "''member_invite''" cfg vars url s] by auto
qed

lemma one_pending_invite_per_address_witness:
  "count_where (invite_pending ''t1'' ''new@x'') (invites (snd (invite_create sample_env sample_cfg ''t1''
     ''u1'' sample_invite_dto (''i1'', ''raw1'') 5 member_db))) = 1"
proof -
  let ?r = "invite_create sample_env sample_cfg ''t1'' ''u1'' sample_invite_dto (''i1'', ''raw1'') 5 member_db"
  have e: "lower (ci_email sample_invite_dto) = ''new@x''"
    by code_simp
  have mail: "is_ok (fst (sendInviteEmail sample_env sample_cfg t d raw actor now s))"
    if "smtp_configs s = []" for t d raw actor now s
    using that by (auto simp: sendInviteEmail_def deliver_def resolveConfig_def smtp_of_def Let_def
          sample_env_def sample_cfg_def split: prod.split sum.split)
  have "user_by_email member_db (Some ''t1'') ''new@x'' = None" "invites member_db = []"
    "smtp_configs member_db = []"
    by code_simp+
  moreover have "is_ok (assertRolesEnabled ''t1'' (nullish (ci_roleIds sample_invite_dto) []) member_db)"
    by code_simp
  moreover have "smtp_configs s = [] \<Longrightarrow> sendInviteEmail sample_env sample_cfg t d raw actor now s \<noteq> (Inl x, y)"
    for s t d raw actor now x y
    using mail [of s t d raw actor now] by auto
  ultimately have "is_ok (fst ?r)"
    by (auto simp: invite_create_def Let_def e is_ok_iff split: sum.split prod.split)
  then obtain v s' where r: "?r = (Inr v, s')"
    by (rule is_ok_fstE)
  show ?thesis
    using one_pending_invite_per_address [OF r] by (simp only: r snd_conv e)
qed

text \<open>
  An invite is good for one account. Once it was accepted, its link makes no second one, at any
  later time and for whatever name and password.
\<close>

theorem invite_single_use:
  assumes "invite_accept env dto newId now s = (Inr x, s')" and "ac_token dto' = ac_token dto"
  shows "invite_accept env dto' newId' now' s'
    = (Inl (BadRequest ''Invite link is invalid or has expired''), s')"
  using assms(1)
proof (cases rule: invite_accept_cases)
  case (2 invite tenant s1)
  have "invites s1 = invites s"
    using insert_user_Inr [OF 2(8)] by simp
  then have "find (\<lambda>x. i_tokenHash x = sha256 env (ac_token dto')) (invites s')
      = Some (invite\<lparr>i_acceptedAt := Some now\<rparr>)"
    using 2(1) assms(2) by (simp add: 2(9) accept_writes_def find_upd_where)
  then show ?thesis
    by (simp add: invite_accept_def)
qed simp

definition sample_accept :: accept_invite_dto where
  "sample_accept = \<lparr>ac_token = ''raw1'', ac_password = ''pw'', ac_firstName = None, ac_lastName = None,
     ac_phone = None\<rparr>"

definition invited_db :: db where
  "invited_db = member_db\<lparr>invites := [\<lparr>i_id = ''i1'', i_tenantId = ''t1'', i_email = ''new@x'',
     i_roleIds = [''ro1''], i_isTenantAdmin = False, i_invitedById = Some ''u1'',
     i_tokenHash = ''hraw1'', i_expiresAt = 100, i_acceptedAt = None, i_createdAt = 5\<rparr>]\<rparr>"

lemma invite_single_use_witness:
  "\<exists>x s'. invite_accept sample_env sample_accept ''u9'' 6 invited_db = (Inr x, s')
     \<and> invite_accept sample_env sample_accept ''u10'' 7 s'
        = (Inl (BadRequest ''Invite link is invalid or has expired''), s')"
proof -
  have "is_ok (fst (invite_accept sample_env sample_accept ''u9'' 6 invited_db))"
    by code_simp
  then obtain x s' where a: "invite_accept sample_env sample_accept ''u9'' 6 invited_db = (Inr x, s')"
    by (rule is_ok_fstE)
  then show ?thesis
    using invite_single_use [OF a, of sample_accept "''u10''" 7] by blast
qed

end
