(* ===== verification/Tenants.thy ===== *)
theory Tenants
  imports Users
begin

text \<open>
  Workspaces as the console manages them, \<open>platform/src/tenants/tenants.service.ts\<close>: creating with
  automatic enrolment, the grants of apps, suspension, the two-step erasure and the export. The
  dates of a DTO are the moments their ISO 8601 strings denote.
\<close>

section \<open>Listing and creating\<close>

definition tenant_list :: "bool \<Rightarrow> db \<Rightarrow> tenant list" where
  "tenant_list includeDeleted s =
     sort_key tn_createdAt (filter (\<lambda>t. includeDeleted \<or> tn_deletedAt t = None) (tenants s))"

definition tenant_get :: "string \<Rightarrow> db \<Rightarrow> tenant res" where
  "tenant_get i s =
     (case tenant_by_id s i of None \<Rightarrow> Inl (NotFound ''Tenant not found'') | Some t \<Rightarrow> Inr t)"

record create_tenant_dto =
  ct_slug :: string
  ct_name :: string
  ct_plan :: "string option"
  ct_profile :: tenant_profile

text \<open>\<open>appTenant.createMany\<close>: one statement, refused as a whole where a grant exists.\<close>

definition enrol :: "tenant \<Rightarrow> app list \<Rightarrow> time \<Rightarrow> db \<Rightarrow> unit res \<times> db" where
  "enrol t as now s =
     (if list_ex (\<lambda>a. access_of s (tn_id t) (a_id a) \<noteq> None) as then (Inl (PrismaError ''P2002''), s)
      else (Inr (), s\<lparr>app_tenants := app_tenants s @ map (\<lambda>a. \<lparr>at_tenantId = tn_id t,
          at_appId = a_id a, at_status = Active, at_plan = tn_plan t, at_trialEndsAt = None,
          at_graceUntil = None, at_stripeSubscriptionId = None, at_createdAt = now\<rparr>) as\<rparr>))"

definition tenant_create ::
  "create_tenant_dto \<Rightarrow> string \<Rightarrow> time \<Rightarrow> db \<Rightarrow> tenant res \<times> db" where
  "tenant_create dto newId now s =
     (if tenant_by_slug s (ct_slug dto) \<noteq> None
      then (Inl (Conflict (''Slug \"'' @ ct_slug dto @ ''\" is already taken'')), s)
      else (let t = \<lparr>tn_id = newId, tn_slug = ct_slug dto, tn_name = ct_name dto,
                  tn_plan = nullish (ct_plan dto) ''free'', tn_status = TActive,
                  tn_profile = ct_profile dto, tn_stripeCustomerId = None, tn_graceUntil = None,
                  tn_createdAt = now, tn_deletedAt = None\<rparr>
            in case insert_tenant t s of
                 (Inl e, s1) \<Rightarrow> (Inl e, s1)
               | (Inr _, s1) \<Rightarrow>
                 (let autos = filter a_autoEnroll (apps s1)
                  in case (if autos \<noteq> [] then enrol t autos now s1 else (Inr (), s1)) of
                       (Inl e, s2) \<Rightarrow> (Inl e, s2)
                     | (Inr _, s2) \<Rightarrow> (Inr t, record_event ''tenant.created''
                         (no_meta\<lparr>am_tenantId := Some newId,
                            am_detail := Some (JObj [(''slug'', JStr (ct_slug dto))])\<rparr>) now s2))))"

section \<open>Grants\<close>

definition tenant_listApps :: "string \<Rightarrow> db \<Rightarrow> (app \<times> app_tenant option) list res" where
  "tenant_listApps i s =
     (case tenant_get i s of
        Inl e \<Rightarrow> Inl e
      | Inr _ \<Rightarrow> Inr (map (\<lambda>a. (a, access_of s i (a_id a))) (sort_key a_createdAt (apps s))))"

record set_access_dto =
  sa_status :: "app_tenant_status option"
  sa_plan :: "string option"
  sa_trialEndsAt :: "time option"
  sa_graceUntil :: "time option"

definition access_changes :: "set_access_dto \<Rightarrow> app_tenant \<Rightarrow> app_tenant" where
  "access_changes dto a = a\<lparr>at_status := set_if (sa_status dto) (at_status a),
     at_plan := set_if (sa_plan dto) (at_plan a),
     at_trialEndsAt := or_else (sa_trialEndsAt dto) (at_trialEndsAt a),
     at_graceUntil := or_else (sa_graceUntil dto) (at_graceUntil a)\<rparr>"

definition new_access :: "string \<Rightarrow> string \<Rightarrow> set_access_dto \<Rightarrow> time \<Rightarrow> app_tenant" where
  "new_access tid aid dto now =
     \<lparr>at_tenantId = tid, at_appId = aid, at_status = nullish (sa_status dto) Active,
      at_plan = nullish (sa_plan dto) ''free'', at_trialEndsAt = sa_trialEndsAt dto,
      at_graceUntil = sa_graceUntil dto, at_stripeSubscriptionId = None, at_createdAt = now\<rparr>"

definition access_status_name :: "app_tenant_status \<Rightarrow> string" where
  "access_status_name st = (case st of Trial \<Rightarrow> ''TRIAL'' | Active \<Rightarrow> ''ACTIVE'' | PastDue \<Rightarrow> ''PAST_DUE''
     | Suspended \<Rightarrow> ''SUSPENDED'')"

definition setAppAccess ::
  "string \<Rightarrow> string \<Rightarrow> set_access_dto \<Rightarrow> time \<Rightarrow> db \<Rightarrow> app_tenant res \<times> db" where
  "setAppAccess tid aid dto now s =
     (case tenant_get tid s of
        Inl e \<Rightarrow> (Inl e, s)
      | Inr _ \<Rightarrow>
        (case app_by_id s aid of
           None \<Rightarrow> (Inl (NotFound ''App not found''), s)
         | Some app \<Rightarrow>
           (let (access, s1) = (case access_of s tid aid of
                  None \<Rightarrow> (let a = new_access tid aid dto now
                          in (a, s\<lparr>app_tenants := app_tenants s @ [a]\<rparr>))
                | Some a \<Rightarrow> (access_changes dto a, s\<lparr>app_tenants :=
                    upd_where (at_key tid aid) (access_changes dto) (app_tenants s)\<rparr>))
            in (Inr access, record_event ''tenant.app_access_set''
                  (no_meta\<lparr>am_tenantId := Some tid, am_appClientId := Some (a_clientId app),
                     am_detail := Some (JObj [(''app'', JStr (a_name app)),
                       (''status'', JStr (access_status_name (at_status access))),
                       (''plan'', JStr (at_plan access))])\<rparr>) now s1))))"

definition removeAppAccess :: "string \<Rightarrow> string \<Rightarrow> time \<Rightarrow> db \<Rightarrow> unit res \<times> db" where
  "removeAppAccess tid aid now s =
     (case tenant_get tid s of
        Inl e \<Rightarrow> (Inl e, s)
      | Inr _ \<Rightarrow>
        (case app_by_id s aid of
           None \<Rightarrow> (Inl (NotFound ''App not found''), s)
         | Some app \<Rightarrow> (Inr (), record_event ''tenant.app_access_removed''
             (no_meta\<lparr>am_tenantId := Some tid, am_appClientId := Some (a_clientId app),
                am_detail := Some (JObj [(''app'', JStr (a_name app))])\<rparr>) now
             (s\<lparr>app_tenants := del_where (at_key tid aid) (app_tenants s)\<rparr>))))"

section \<open>Update, delete, restore and suspend\<close>

text \<open>\<open>tenant.update\<close> of one row.\<close>

definition set_tenant :: "string \<Rightarrow> (tenant \<Rightarrow> tenant) \<Rightarrow> db \<Rightarrow> db" where
  "set_tenant i f s = s\<lparr>tenants := upd_where (\<lambda>t. tn_id t = i) f (tenants s)\<rparr>"

record update_tenant_dto =
  ut_name :: "string option"
  ut_plan :: "string option"
  ut_profile :: tenant_profile

definition profile_changes :: "tenant_profile \<Rightarrow> tenant_profile \<Rightarrow> tenant_profile" where
  "profile_changes d p = \<lparr>phone = or_else (phone d) (phone p),
     addressLine1 = or_else (addressLine1 d) (addressLine1 p),
     addressLine2 = or_else (addressLine2 d) (addressLine2 p), city = or_else (city d) (city p),
     tp_state = or_else (tp_state d) (tp_state p), postalCode = or_else (postalCode d) (postalCode p),
     country = or_else (country d) (country p)\<rparr>"

definition tenant_changes :: "update_tenant_dto \<Rightarrow> tenant \<Rightarrow> tenant" where
  "tenant_changes dto t = t\<lparr>tn_name := set_if (ut_name dto) (tn_name t),
     tn_plan := set_if (ut_plan dto) (tn_plan t),
     tn_profile := profile_changes (ut_profile dto) (tn_profile t)\<rparr>"

definition tenant_update :: "string \<Rightarrow> update_tenant_dto \<Rightarrow> db \<Rightarrow> tenant res \<times> db" where
  "tenant_update i dto s =
     (case tenant_get i s of
        Inl e \<Rightarrow> (Inl e, s)
      | Inr t \<Rightarrow> (Inr (tenant_changes dto t), set_tenant i (tenant_changes dto) s))"

text \<open>A change of one tenant's row with its audit event, as the next four handlers make.\<close>

definition change_tenant ::
  "string \<Rightarrow> (tenant \<Rightarrow> tenant) \<Rightarrow> string \<Rightarrow> time \<Rightarrow> db \<Rightarrow> tenant res \<times> db" where
  "change_tenant i f action now s =
     (case tenant_get i s of
        Inl e \<Rightarrow> (Inl e, s)
      | Inr t \<Rightarrow>
          (Inr (f t), record_event action (no_meta\<lparr>am_tenantId := Some i\<rparr>) now (set_tenant i f s)))"

definition tenant_remove :: "string \<Rightarrow> time \<Rightarrow> db \<Rightarrow> tenant res \<times> db" where
  "tenant_remove i now s =
     change_tenant i (\<lambda>t. t\<lparr>tn_deletedAt := Some now\<rparr>) ''tenant.deleted'' now s"

definition tenant_restore :: "string \<Rightarrow> time \<Rightarrow> db \<Rightarrow> tenant res \<times> db" where
  "tenant_restore i now s =
     change_tenant i (\<lambda>t. t\<lparr>tn_deletedAt := None\<rparr>) ''tenant.restored'' now s"

definition tenant_suspend :: "string \<Rightarrow> time \<Rightarrow> db \<Rightarrow> tenant res \<times> db" where
  "tenant_suspend i now s =
     change_tenant i (\<lambda>t. t\<lparr>tn_status := TSuspended\<rparr>) ''tenant.suspended'' now s"

definition tenant_activate :: "string \<Rightarrow> time \<Rightarrow> db \<Rightarrow> tenant res \<times> db" where
  "tenant_activate i now s =
     change_tenant i (\<lambda>t. t\<lparr>tn_status := TActive\<rparr>) ''tenant.activated'' now s"

section \<open>Export\<close>

record access_export =
  xa_app :: string
  xa_clientId :: string
  xa_status :: app_tenant_status
  xa_plan :: string
  xa_trialEndsAt :: "time option"
  xa_graceUntil :: "time option"

record user_export =
  xu_id :: string
  xu_email :: string
  xu_name :: "string option"
  xu_createdAt :: time
  xu_deletedAt :: "time option"
  xu_roles :: "(string \<times> string) list"

record smtp_export =
  xs_host :: string
  xs_port :: int
  xs_secure :: bool
  xs_username :: "string option"
  xs_fromAddress :: string
  xs_hasPassword :: bool

record tenant_export =
  ex_exportedAt :: time
  ex_note :: string
  ex_tenant :: tenant
  ex_appAccess :: "access_export list"
  ex_users :: "user_export list"
  ex_smtpConfig :: "smtp_export option"
  ex_auditEvents :: "audit_event list"

definition export_access :: "db \<Rightarrow> app_tenant \<Rightarrow> access_export option" where
  "export_access s g = map_option (\<lambda>a. \<lparr>xa_app = a_name a, xa_clientId = a_clientId a,
     xa_status = at_status g, xa_plan = at_plan g, xa_trialEndsAt = at_trialEndsAt g,
     xa_graceUntil = at_graceUntil g\<rparr>) (app_by_id s (at_appId g))"

definition export_user :: "db \<Rightarrow> user \<Rightarrow> user_export" where
  "export_user s u = \<lparr>xu_id = u_id u, xu_email = u_email u, xu_name = u_name u,
     xu_createdAt = u_createdAt u, xu_deletedAt = u_deletedAt u,
     xu_roles = List.map_filter (\<lambda>r. map_option (\<lambda>a. (a_name a, r_name r)) (app_by_id s (r_appId r)))
       (roles_of s (u_id u))\<rparr>"

definition export_smtp :: "smtp_config \<Rightarrow> smtp_export" where
  "export_smtp c = \<lparr>xs_host = sm_host c, xs_port = sm_port c, xs_secure = sm_secure c,
     xs_username = sm_username c, xs_fromAddress = sm_fromAddress c,
     xs_hasPassword = truthy (sm_passwordEnc c)\<rparr>"

definition exportTenant :: "string \<Rightarrow> time \<Rightarrow> db \<Rightarrow> tenant_export res \<times> db" where
  "exportTenant i now s =
     (case tenant_by_id s i of
        None \<Rightarrow> (Inl (NotFound ''Tenant not found''), s)
      | Some t \<Rightarrow>
          (Inr \<lparr>ex_exportedAt = now,
             ex_note = ''Platform-owned data only. App domain data lives in each app's own database.'',
             ex_tenant = t,
             ex_appAccess = List.map_filter (export_access s)
               (filter (\<lambda>g. at_tenantId g = i) (app_tenants s)),
             ex_users = map (export_user s) (filter (\<lambda>u. u_tenantId u = Some i) (users s)),
             ex_smtpConfig = map_option export_smtp (find (\<lambda>c. sm_tenantId c = Some i) (smtp_configs s)),
             ex_auditEvents = sort_key ae_createdAt
               (filter (\<lambda>e. ae_tenantId e = Some i) (audit_events s))\<rparr>,
           record_event ''tenant.exported'' (no_meta\<lparr>am_tenantId := Some i\<rparr>) now s))"

section \<open>Erasure\<close>

text \<open>The transaction, and the counts of the users and of the audit events it removed.\<close>

definition erase_tenant :: "string \<Rightarrow> db \<Rightarrow> db" where
  "erase_tenant i s =
     (let s1 = s\<lparr>audit_events := del_where (\<lambda>e. ae_tenantId e = Some i) (audit_events s),
                smtp_configs := del_where (\<lambda>c. sm_tenantId c = Some i) (smtp_configs s),
                app_tenants := del_where (\<lambda>g. at_tenantId g = i) (app_tenants s),
                invites := del_where (\<lambda>v. i_tenantId v = i) (invites s)\<rparr>;
          s2 = delete_users (\<lambda>u. u_tenantId u = Some i) s1
      in s2\<lparr>tenants := del_where (\<lambda>t. tn_id t = i) (tenants s2)\<rparr>)"

definition tenant_purge :: "string \<Rightarrow> time \<Rightarrow> db \<Rightarrow> (nat \<times> nat) res \<times> db" where
  "tenant_purge i now s =
     (case tenant_by_id s i of
        None \<Rightarrow> (Inl (NotFound ''Tenant not found''), s)
      | Some t \<Rightarrow>
          if tn_deletedAt t = None
          then (Inl (Conflict ''Purge requires the tenant to be soft-deleted first''), s)
          else (let nusers = count_where (\<lambda>u. u_tenantId u = Some i) (users s);
                    nevents = count_where (\<lambda>e. ae_tenantId e = Some i) (audit_events s)
                in (Inr (nusers, nevents), record_event ''tenant.purged''
                      (no_meta\<lparr>am_detail := Some (JObj [(''slug'', JStr (tn_slug t)),
                         (''users'', JNum (int nusers)), (''auditEvents'', JNum (int nevents))])\<rparr>)
                      now (erase_tenant i s))))"

section \<open>The life of a workspace\<close>

lemma tenant_get_ok: "tenant_get i s = Inr t \<longleftrightarrow> tenant_by_id s i = Some t"
  by (auto simp: tenant_get_def split: option.splits)

lemma change_tenant_Inr:
  "change_tenant i f action now s = (Inr t', s') \<Longrightarrow>
   \<exists>t. tenant_by_id s i = Some t \<and> t' = f t
     \<and> s' = record_event action (no_meta\<lparr>am_tenantId := Some i\<rparr>) now (set_tenant i f s)"
  by (auto simp: change_tenant_def tenant_get_ok split: sum.splits)

lemma tenant_by_id_set_tenant:
  "tenant_by_id s i = Some t \<Longrightarrow> (\<And>t. tn_id (f t) = tn_id t) \<Longrightarrow>
   tenant_by_id (set_tenant i f s) i = Some (f t)"
  by (auto simp: tenant_by_id_def set_tenant_def find_upd_where dest: find_SomeD)

lemma erase_tenant_fields [simp]:
  "tenants (erase_tenant i s) = del_where (\<lambda>t. tn_id t = i) (tenants s)"
  "users (erase_tenant i s) = del_where (\<lambda>u. u_tenantId u = Some i) (users s)"
  "app_tenants (erase_tenant i s) = del_where (\<lambda>g. at_tenantId g = i) (app_tenants s)"
  "invites (erase_tenant i s) = del_where (\<lambda>v. i_tenantId v = i) (invites s)"
  "smtp_configs (erase_tenant i s) = del_where (\<lambda>c. sm_tenantId c = Some i) (smtp_configs s)"
  "audit_events (erase_tenant i s) = del_where (\<lambda>e. ae_tenantId e = Some i) (audit_events s)"
  "apps (erase_tenant i s) = apps s"
  "prices (erase_tenant i s) = prices s"
  "roles (erase_tenant i s) = roles s"
  "email_templates (erase_tenant i s) = email_templates s"
  "outbox (erase_tenant i s) = outbox s"
  by (simp_all add: erase_tenant_def delete_users_def Let_def)

definition accounts_of :: "string \<Rightarrow> db \<Rightarrow> string set" where
  "accounts_of i s = u_id ` {u \<in> set (users s). u_tenantId u = Some i}"

text \<open>What hangs off an account goes with it.\<close>

lemma erase_tenant_dependents:
  "refresh_tokens (erase_tenant i s)
     = del_where (\<lambda>t. rt_userId t \<in> u_id ` {u \<in> set (users s). u_tenantId u = Some i}) (refresh_tokens s)"
  "passkeys (erase_tenant i s)
     = del_where (\<lambda>p. pk_userId p \<in> u_id ` {u \<in> set (users s). u_tenantId u = Some i}) (passkeys s)"
  "user_roles (erase_tenant i s)
     = del_where (\<lambda>r. ur_userId r \<in> u_id ` {u \<in> set (users s). u_tenantId u = Some i}) (user_roles s)"
  by (simp_all add: erase_tenant_def delete_users_def Let_def)

interpretation workspaces: soft_delete "\<lambda>i s. tenant_by_id s i" tn_deletedAt
    "\<lambda>m t. t\<lparr>tn_deletedAt := m\<rparr>" tenant_remove tenant_restore tenant_purge
proof unfold_locales
  show "\<exists>r. tenant_by_id s i = Some r \<and> tenant_by_id s' i = Some (r\<lparr>tn_deletedAt := Some now\<rparr>)"
    if "tenant_remove i now s = (Inr x, s')" for i now s x s'
    using that unfolding tenant_remove_def
    by (auto dest!: change_tenant_Inr simp: tenant_by_id_set_tenant)
  show "\<exists>x s'. tenant_restore i now s = (Inr x, s') \<and> tenant_by_id s' i = Some (r\<lparr>tn_deletedAt := None\<rparr>)"
    if "tenant_by_id s i = Some r" for i now s r
    using that by (simp add: tenant_restore_def change_tenant_def tenant_get_def tenant_by_id_set_tenant)
  show "\<exists>y s'. tenant_purge i now s = (Inr y, s') \<and> tenant_by_id s' i = None"
    if "tenant_by_id s i = Some r" "tn_deletedAt r \<noteq> None" for i now s r
    using that by (auto simp: tenant_purge_def Let_def) (simp add: tenant_by_id_def find_del_where)
qed (auto simp: tenant_purge_def)

section \<open>Suspension\<close>

lemma suspended_unusable:
  assumes "tenant_suspend i now s = (Inr v, s')"
  shows "\<nexists>t. tenant_by_id s' i = Some t \<and> tenant_usable t later"
  using change_tenant_Inr [OF assms [unfolded tenant_suspend_def]]
  by (auto simp: tenant_by_id_set_tenant tenant_usable_def)

lemma suspend_unique:
  "tenant_suspend i now s = (Inr v, s') \<Longrightarrow> unique_on tn_id (tenants s) \<Longrightarrow> unique_on tn_id (tenants s')"
  by (auto simp: tenant_suspend_def set_tenant_def unique_on_upd_where dest!: change_tenant_Inr)

section \<open>An export without secrets\<close>

text \<open>Other hashes and other encrypted passwords in the same places, whatever they are.\<close>

definition other_secrets :: "(user \<Rightarrow> string) \<Rightarrow> (string \<Rightarrow> string) \<Rightarrow> db \<Rightarrow> db" where
  "other_secrets h enc s = s\<lparr>users := map (\<lambda>u. u\<lparr>u_passwordHash := h u\<rparr>) (users s),
     smtp_configs := map (\<lambda>c. c\<lparr>sm_passwordEnc := map_option enc (sm_passwordEnc c)\<rparr>)
       (smtp_configs s), refresh_tokens := [], passkeys := []\<rparr>"

lemma truthy_map_option: "(\<And>x. enc x = [] \<longleftrightarrow> x = []) \<Longrightarrow> truthy (map_option enc p) = truthy p"
  by (cases p) auto

lemma find_map_same:
  "(\<And>x. P (f x) = P x) \<Longrightarrow> find P (map f xs) = map_option f (find P xs)"
  by (induction xs) auto

lemma export_user_other_secrets:
  "export_user (other_secrets h enc s) (u\<lparr>u_passwordHash := x\<rparr>) = export_user s u"
  by (simp add: export_user_def other_secrets_def roles_of_def role_by_id_def app_by_id_def)

lemma export_users_other_secrets:
  "map (export_user (other_secrets h enc s)) (filter (\<lambda>u. u_tenantId u = t) (users (other_secrets h enc s)))
     = map (export_user s) (filter (\<lambda>u. u_tenantId u = t) (users s))"
proof -
  have "users (other_secrets h enc s) = map (\<lambda>u. u\<lparr>u_passwordHash := h u\<rparr>) (users s)"
    by (simp add: other_secrets_def)
  then show ?thesis
    by (simp add: filter_map o_def export_user_other_secrets)
qed

lemma exportTenant_other_secrets:
  assumes "\<And>x. enc x = [] \<longleftrightarrow> x = []"
  shows "fst (exportTenant i now (other_secrets h enc s)) = fst (exportTenant i now s)"
proof -
  let ?s = "other_secrets h enc s"
  have same: "tenant_by_id ?s i = tenant_by_id s i" "app_tenants ?s = app_tenants s"
    "audit_events ?s = audit_events s" "export_access ?s = export_access s"
    by (simp_all add: other_secrets_def tenant_by_id_def export_access_def app_by_id_def fun_eq_iff)
  have smtp: "export_smtp (c\<lparr>sm_passwordEnc := map_option enc (sm_passwordEnc c)\<rparr>) = export_smtp c" for c
    by (simp add: export_smtp_def truthy_map_option [OF assms])
  have "map_option export_smtp (find (\<lambda>c. sm_tenantId c = Some i) (smtp_configs ?s))
      = map_option export_smtp (find (\<lambda>c. sm_tenantId c = Some i) (smtp_configs s))"
    by (simp add: other_secrets_def find_map_same option.map_comp o_def smtp)
  then show ?thesis
    by (simp add: exportTenant_def same export_users_other_secrets split: option.split)
qed

section \<open>Automatic enrolment\<close>

lemma enrol_Inr:
  "enrol t as now s = (Inr x, s') \<Longrightarrow> s' = s\<lparr>app_tenants := app_tenants s'\<rparr>
     \<and> (\<exists>rows. app_tenants s' = app_tenants s @ rows \<and> map at_appId rows = map a_id as
          \<and> (\<forall>g \<in> set rows. at_tenantId g = tn_id t \<and> at_status g = Active \<and> at_plan g = tn_plan t))"
  by (auto simp: enrol_def o_def split: if_splits)

lemma tenant_create_Inr:
  assumes "tenant_create dto newId now s = (Inr t, s')"
  shows "\<exists>rows m. tn_id t = newId \<and> tn_plan t = nullish (ct_plan dto) ''free''
    \<and> newId \<notin> tn_id ` set (tenants s) \<and> ct_slug dto \<notin> tn_slug ` set (tenants s)
    \<and> tenants s' = tenants s @ [t] \<and> app_tenants s' = app_tenants s @ rows
    \<and> map at_appId rows = map a_id (filter a_autoEnroll (apps s))
    \<and> (\<forall>g \<in> set rows. at_tenantId g = newId \<and> at_status g = Active \<and> at_plan g = tn_plan t)
    \<and> users s' = users s \<and> apps s' = apps s"
proof (cases "filter a_autoEnroll (apps s) = []")
  case True
  then show ?thesis
    using assms
    by (auto simp: tenant_create_def Let_def insert_tenant_def split: if_splits intro!: exI [of _ "[]"])
next
  case False
  define row where "row = \<lparr>tn_id = newId, tn_slug = ct_slug dto, tn_name = ct_name dto,
                  tn_plan = nullish (ct_plan dto) ''free'', tn_status = TActive,
                  tn_profile = ct_profile dto, tn_stripeCustomerId = None, tn_graceUntil = None,
                  tn_createdAt = now, tn_deletedAt = None\<rparr>"
  have fresh: "newId \<notin> tn_id ` set (tenants s)" "ct_slug dto \<notin> tn_slug ` set (tenants s)"
    using assms by (auto simp: tenant_create_def Let_def insert_tenant_def split: if_splits)
  then obtain s2 where s2: "enrol row (filter a_autoEnroll (apps s)) now
      (s\<lparr>tenants := tenants s @ [row]\<rparr>) = (Inr (), s2)" and t: "t = row"
    and s': "\<exists>m. s' = record_event ''tenant.created'' m now s2"
    using assms False unfolding row_def
    by (auto simp: tenant_create_def Let_def insert_tenant_def split: if_splits prod.splits sum.splits)
  have s2': "tenants s2 = tenants s @ [row]" "users s2 = users s" "apps s2 = apps s"
    using enrol_Inr [OF s2] by (metis db.ext_inject db.surjective db.update_convs(1,5))+
  obtain rows where rows: "app_tenants s2 = app_tenants s @ rows"
    "map at_appId rows = map a_id (filter a_autoEnroll (apps s))"
    "\<forall>g \<in> set rows. at_tenantId g = tn_id row \<and> at_status g = Active \<and> at_plan g = tn_plan row"
    using enrol_Inr [OF s2] by auto
  have row: "tn_id row = newId" "tn_plan row = nullish (ct_plan dto) ''free''"
    by (simp_all add: row_def)
  show ?thesis
    using s' s2' rows row t fresh by (intro exI [of _ rows]) auto
qed

section \<open>Properties\<close>

text \<open>
  C38: Erasing a workspace leaves nothing of it and touches nothing else. A purge succeeds only on a
  workspace that is already deleted. Then no account, grant, invite, relay or audit event of it
  remains, nor a token, passkey or role link of its accounts; every other row of every table is as it
  was, and the one event written about the purge names no workspace. A refused purge changes nothing.
\<close>

theorem tenant_purge_erases:
  assumes "tenant_purge i now s = (r, s')"
  shows "case r of
      Inl _ \<Rightarrow> s' = s
    | Inr (nu, ne) \<Rightarrow> (\<exists>t. tenant_by_id s i = Some t \<and> tn_deletedAt t \<noteq> None) \<and> tenant_by_id s' i = None
        \<and> tenants s' = filter (\<lambda>t. tn_id t \<noteq> i) (tenants s)
        \<and> users s' = filter (\<lambda>u. u_tenantId u \<noteq> Some i) (users s)
        \<and> app_tenants s' = filter (\<lambda>g. at_tenantId g \<noteq> i) (app_tenants s)
        \<and> invites s' = filter (\<lambda>v. i_tenantId v \<noteq> i) (invites s)
        \<and> smtp_configs s' = filter (\<lambda>c. sm_tenantId c \<noteq> Some i) (smtp_configs s)
        \<and> (\<exists>e. audit_events s' = filter (\<lambda>e. ae_tenantId e \<noteq> Some i) (audit_events s) @ [e]
             \<and> ae_tenantId e = None \<and> ae_userId e = None)
        \<and> refresh_tokens s' = filter (\<lambda>t. rt_userId t \<notin> accounts_of i s) (refresh_tokens s)
        \<and> passkeys s' = filter (\<lambda>p. pk_userId p \<notin> accounts_of i s) (passkeys s)
        \<and> user_roles s' = filter (\<lambda>l. ur_userId l \<notin> accounts_of i s) (user_roles s)
        \<and> apps s' = apps s \<and> prices s' = prices s \<and> roles s' = roles s
        \<and> email_templates s' = email_templates s \<and> outbox s' = outbox s
        \<and> nu = length (users s) - length (users s')
        \<and> ne = length (filter (\<lambda>e. ae_tenantId e = Some i) (audit_events s))"
proof (cases r)
  case (Inr n)
  then obtain t m nu ne where t: "tenant_by_id s i = Some t" "tn_deletedAt t \<noteq> None"
    "nu = count_where (\<lambda>u. u_tenantId u = Some i) (users s)" "n = (nu, ne)"
    "s' = record_event ''tenant.purged'' m now (erase_tenant i s)"
    "am_tenantId m = None" "am_userId m = None"
    "ne = count_where (\<lambda>e. ae_tenantId e = Some i) (audit_events s)"
    using assms by (auto simp: tenant_purge_def Let_def no_meta_def split: option.splits if_splits)
  have "tenant_by_id s' i = None"
    using workspaces.purge_cases [OF assms] Inr by simp
  moreover have "nu = length (users s) - length (filter (\<lambda>u. u_tenantId u \<noteq> Some i) (users s))"
    using sum_length_filter_compl [of "\<lambda>u. u_tenantId u = Some i" "users s"]
    unfolding t(3) count_where_def by linarith
  moreover have "\<exists>e. audit_events s' = filter (\<lambda>e. ae_tenantId e \<noteq> Some i) (audit_events s) @ [e]
      \<and> ae_tenantId e = None \<and> ae_userId e = None"
    by (simp add: t(5-7) record_event_def del_where_def)
  moreover have "refresh_tokens s' = filter (\<lambda>t. rt_userId t \<notin> accounts_of i s) (refresh_tokens s)"
    "passkeys s' = filter (\<lambda>p. pk_userId p \<notin> accounts_of i s) (passkeys s)"
    "user_roles s' = filter (\<lambda>l. ur_userId l \<notin> accounts_of i s) (user_roles s)"
    "apps s' = apps s" "prices s' = prices s" "roles s' = roles s"
    "email_templates s' = email_templates s" "outbox s' = outbox s"
    by (simp_all add: t(5) erase_tenant_dependents accounts_of_def del_where_def)
  moreover have "tenants s' = filter (\<lambda>t. tn_id t \<noteq> i) (tenants s)"
    "users s' = filter (\<lambda>u. u_tenantId u \<noteq> Some i) (users s)"
    "app_tenants s' = filter (\<lambda>g. at_tenantId g \<noteq> i) (app_tenants s)"
    "invites s' = filter (\<lambda>v. i_tenantId v \<noteq> i) (invites s)"
    "smtp_configs s' = filter (\<lambda>c. sm_tenantId c \<noteq> Some i) (smtp_configs s)"
    by (simp_all add: t(5) del_where_def)
  moreover have "ne = length (filter (\<lambda>e. ae_tenantId e = Some i) (audit_events s))"
    by (simp add: t(8) count_where_def)
  ultimately show ?thesis
    using Inr t(1,2,4) by simp
qed (use workspaces.purge_cases [OF assms] in simp)

lemma tenant_purge_erases_witness:
  "users (snd (tenant_purge ''t1'' 6 (snd (tenant_remove ''t1'' 5 sample_db)))) = []
   \<and> tenant_by_id (snd (tenant_purge ''t1'' 6 (snd (tenant_remove ''t1'' 5 sample_db)))) ''t1'' = None"
proof -
  let ?s = "snd (tenant_remove ''t1'' 5 sample_db)"
  have ok: "is_ok (fst (tenant_purge ''t1'' 6 ?s))"
    and "filter (\<lambda>u. u_tenantId u \<noteq> Some ''t1'') (users ?s) = []"
    by code_simp+
  moreover obtain n s' where "tenant_purge ''t1'' 6 ?s = (Inr n, s')"
    using ok by (rule is_ok_fstE)
  ultimately show ?thesis
    using tenant_purge_erases [of "''t1''" 6 ?s "Inr n" s'] by (cases n) simp
qed

text \<open>
  Suspending a workspace closes every way in. After a suspension, at whatever later time, neither
  a password login nor a refresh opens a session of the workspace.
\<close>

theorem suspension_closes_workspace:
  assumes "tenant_suspend i now s = (Inr v, s')" and "unique_on tn_id (tenants s)"
  shows "(login env cfg dto ip dr later s' = (Inr ses, s2) \<longrightarrow> map_option fst (ss_tenant ses) \<noteq> Some i)
     \<and> (refresh env cfg raw dr later s' = (Inr ses, s2) \<longrightarrow> map_option fst (ss_tenant ses) \<noteq> Some i)"
proof -
  have uniq: "unique_on tn_id (tenants s')"
    by (rule suspend_unique [OF assms])
  have no: "\<nexists>t. tenant_by_id s' i = Some t \<and> tenant_usable t later"
    by (rule suspended_unusable [OF assms(1)])
  have "map_option fst (ss_tenant ses) \<noteq> Some i"
    if "login env cfg dto ip dr later s' = (Inr ses, s2)"
    using password.no_session_for_unusable_tenant [OF uniq, of env cfg "(dto, ip, dr)" later ses s2] that no
    by (cases "ss_tenant ses") auto
  moreover have "map_option fst (ss_tenant ses) \<noteq> Some i"
    if "refresh env cfg raw dr later s' = (Inr ses, s2)"
    using rotation.no_session_for_unusable_tenant [OF uniq, of env cfg "(raw, dr)" later ses s2] that no
    by (cases "ss_tenant ses") auto
  ultimately show ?thesis
    by blast
qed

lemma suspension_closes_workspace_witness:
  "is_ok (fst (login sample_env sample_cfg sample_login None (''r1'', ''new'') 10 sample_db))
   \<and> (\<nexists>ses s2. login sample_env sample_cfg sample_login None (''r1'', ''new'') 10
        (snd (tenant_suspend ''t1'' 5 sample_db)) = (Inr ses, s2)
        \<and> map_option fst (ss_tenant ses) = Some ''t1'')"
proof -
  have "is_ok (fst (tenant_suspend ''t1'' 5 sample_db))"
    by code_simp
  then obtain v s' where s': "tenant_suspend ''t1'' 5 sample_db = (Inr v, s')"
    by (rule is_ok_fstE)
  then show ?thesis
    using suspension_closes_workspace [OF s' sample_unique] sample_login_ok by auto
qed

text \<open>
  C39: An export carries no secret. Replacing every password hash, every encrypted relay password,
  every refresh token and every passkey by anything else leaves the exported document as it is, so
  nothing of them can be read from it.
\<close>

theorem export_reveals_no_secret:
  assumes "\<And>x. enc x = [] \<longleftrightarrow> x = []"
  shows "fst (exportTenant i now (other_secrets h enc s)) = fst (exportTenant i now s)"
  by (rule exportTenant_other_secrets [OF assms])

lemma export_reveals_no_secret_witness:
  "is_ok (fst (exportTenant ''t1'' 5 sample_db))
   \<and> fst (exportTenant ''t1'' 5 (other_secrets (\<lambda>_. ''other'') rev sample_db)) = fst (exportTenant ''t1'' 5 sample_db)"
proof
  show "is_ok (fst (exportTenant ''t1'' 5 sample_db))"
    by (simp add: exportTenant_def tenant_by_id_def sample_db_def sample_tenant_def)
qed (rule export_reveals_no_secret, simp)

text \<open>
  A workspace made in the console is enrolled in every app that enrols by itself. A successful
  creation adds the workspace, under a slug and an id no workspace had, and exactly one active
  grant, on the workspace's plan, for each app whose \<open>autoEnroll\<close> is set; no other grant changes.
\<close>

theorem tenant_create_enrols:
  assumes "tenant_create dto newId now s = (Inr t, s')"
  shows "ct_slug dto \<notin> tn_slug ` set (tenants s) \<and> tenants s' = tenants s @ [t]
     \<and> (\<exists>rows. app_tenants s' = app_tenants s @ rows
          \<and> map at_appId rows = map a_id (filter a_autoEnroll (apps s))
          \<and> (\<forall>g \<in> set rows. at_tenantId g = tn_id t \<and> at_status g = Active \<and> at_plan g = tn_plan t))"
  using tenant_create_Inr [OF assms] by auto

lemma tenant_create_enrols_witness:
  "\<exists>t rows. fst (tenant_create \<lparr>ct_slug = ''new'', ct_name = ''New'', ct_plan = None, ct_profile = no_profile\<rparr>
       ''t2'' 5 sample_db) = Inr t
     \<and> app_tenants (snd (tenant_create \<lparr>ct_slug = ''new'', ct_name = ''New'', ct_plan = None,
       ct_profile = no_profile\<rparr> ''t2'' 5 sample_db)) = app_tenants sample_db @ rows
     \<and> map at_appId rows = [''a1'']"
proof -
  let ?r = "tenant_create \<lparr>ct_slug = ''new'', ct_name = ''New'', ct_plan = None, ct_profile = no_profile\<rparr>
       ''t2'' 5 sample_db"
  have "is_ok (fst ?r)" "map a_id (filter a_autoEnroll (apps sample_db)) = [''a1'']"
    by code_simp+
  then obtain t s' where r: "?r = (Inr t, s')"
    by (blast elim: is_ok_fstE)
  then show ?thesis
    using tenant_create_enrols [OF r] \<open>map a_id (filter a_autoEnroll (apps sample_db)) = [''a1'']\<close> by auto
qed

section \<open>Observations\<close>

text \<open>The enrolment does not look at \<open>deletedAt\<close>: a deleted app is granted too.\<close>

lemma deleted_app_is_enrolled:
  "map at_appId (app_tenants (snd (tenant_create
     \<lparr>ct_slug = ''new'', ct_name = ''New'', ct_plan = None, ct_profile = no_profile\<rparr> ''t2'' 5
     (empty_db\<lparr>apps := [sample_app\<lparr>a_deletedAt := Some 1\<rparr>]\<rparr>)))) = [''a1'']"
  by code_simp

text \<open>
  Erasing a workspace takes its accounts without the guard that the accounts' own handlers have
  (\<open>assertNotLastPlatformAdmin\<close>): a platform administrator who belongs to the workspace goes too,
  even as the last one.
\<close>

lemma purge_can_take_last_admin:
  "let s = sample_db\<lparr>users := [sample_user\<lparr>u_isPlatformAdmin := True\<rparr>]\<rparr>;
       s' = snd (tenant_purge ''t1'' 6 (snd (tenant_remove ''t1'' 5 s)))
   in has_admin s \<and> \<not> has_admin s'"
  by code_simp

end
