(* ===== verification/Passkeys.thy ===== *)
theory Passkeys
  imports Auth
begin

text \<open>
  Passkeys: \<open>platform/src/passkeys/passkeys.service.ts\<close> (the WebAuthn ceremonies and the stored
  credentials), \<open>rp.ts\<close> (which relying party a request speaks for) and \<open>passkeys.controller.ts\<close>,
  whose login ends in the gate of \<open>auth.service.ts\<close>.

  The WebAuthn library (\<open>@simplewebauthn/server\<close>), the HMAC, the base64url coding and the URL parser
  are the fields of \<open>webauthn\<close>, a parameter of the operations that use them. The options the library
  builds are kept as the request they are built from and the challenge it drew, which is an argument.
  The em dash of one message, which is outside Latin-1, is the code unit \<open>0x97\<close>.
\<close>

section \<open>Configuration\<close>

datatype user_verification = UvRequired | UvPreferred

record webauthn_cfg =
  wc_rpName :: string
  wc_baseDomains :: "string list"
  wc_challengeTtlSec :: int
  wc_userVerification :: user_verification

definition base_domains_of :: "string option \<Rightarrow> string list" where
  "base_domains_of v = filter (\<lambda>s. s \<noteq> [])
     (map (\<lambda>s. lower (trim s)) (split_at (\<lambda>c. c = CHR '','') (nullish v [])))"

definition user_verification_of :: "string option \<Rightarrow> user_verification" where
  "user_verification_of v = (if v = Some ''preferred'' then UvPreferred else UvRequired)"

section \<open>The relying party\<close>

record rp_context =
  rp_id :: string
  rp_origin :: string

text \<open>What \<open>new URL(\<dots>)\<close> tells of an origin, its host name in the case the parser gives it.\<close>

record parsed_url =
  url_protocol :: string
  url_hostname :: string
  url_origin :: string

definition LOOPBACK_HOSTS :: "string list" where
  "LOOPBACK_HOSTS = [''localhost'', ''127.0.0.1'', ''::1'', ''[::1]'']"

text \<open>\<open>host.replace(/^\[|\]$/g, '')\<close>.\<close>

definition strip_brackets :: "string \<Rightarrow> string" where
  "strip_brackets h =
     (let a = (if starts_with h ''['' then drop 1 h else h)
      in if ends_with a '']'' then butlast a else a)"

definition deriveRpContext ::
  "(string \<Rightarrow> parsed_url option) \<Rightarrow> string option \<Rightarrow> string list \<Rightarrow> rp_context option" where
  "deriveRpContext parse header baseDomains =
     (if \<not> truthy header then None
      else case parse (the header) of
        None \<Rightarrow> None
      | Some url \<Rightarrow>
          if url_protocol url \<noteq> ''http:'' \<and> url_protocol url \<noteq> ''https:'' then None
          else let host = lower (url_hostname url)
               in if host \<in> set LOOPBACK_HOSTS
                  then Some \<lparr>rp_id = strip_brackets host, rp_origin = url_origin url\<rparr>
                  else map_option (\<lambda>base. \<lparr>rp_id = base, rp_origin = url_origin url\<rparr>)
                    (find (\<lambda>base. host = base \<or> ends_with host (''.'' @ base)) baseDomains))"

text \<open>
  The headers a request carries, as Node gives them: a list where one is repeated. \<open>loopback_host\<close>
  is the regular expression \<open>/^(localhost|127\.0\.0\.1|\[::1\])(:|$)/\<close>.
\<close>

datatype header_value = One string | Many "string list"

record rp_request =
  rq_origin :: "header_value option"
  rq_host :: "header_value option"

definition loopback_host :: "string \<Rightarrow> bool" where
  "loopback_host h = list_ex (\<lambda>l. case after_prefix l h of
       None \<Rightarrow> False | Some rest \<Rightarrow> rest = [] \<or> starts_with rest '':'')
     [''localhost'', ''127.0.0.1'', ''[::1]'']"

definition rpFromRequest ::
  "(string \<Rightarrow> parsed_url option) \<Rightarrow> webauthn_cfg \<Rightarrow> rp_request \<Rightarrow> rp_context res" where
  "rpFromRequest parse wc req =
     (let header = or_else
            (case rq_origin req of None \<Rightarrow> None | Some (One x) \<Rightarrow> Some x
             | Some (Many xs) \<Rightarrow> (case xs of [] \<Rightarrow> None | x # _ \<Rightarrow> Some x))
            (case rq_host req of
               Some (One h) \<Rightarrow>
                 Some ((if loopback_host h then ''http'' else ''https'') @ ''://'' @ h)
             | _ \<Rightarrow> None)
      in case deriveRpContext parse header (wc_baseDomains wc) of
           None \<Rightarrow> Inl (Forbidden ''Unrecognized origin for passkey ceremony'')
         | Some rp \<Rightarrow> Inr rp)"

section \<open>The library\<close>

text \<open>A browser's answers, with what the service reads of them apart from the rest.\<close>

record registration_response =
  rr_transports :: "string list option"
  rr_body :: json

record assertion =
  as_id :: string
  as_body :: json

record registration_info =
  ri_credentialId :: string
  ri_publicKey :: string
  ri_counter :: int
  ri_aaguid :: string

record stored_credential =
  sc_id :: string
  sc_publicKey :: string
  sc_counter :: int
  sc_transports :: "string list option"

text \<open>What a ceremony is checked against: challenge, relying party, origin and whether the user must
  have been verified.\<close>

record expectation =
  ex_challenge :: string
  ex_rpId :: string
  ex_origin :: string
  ex_requireUv :: bool

text \<open>
  \<open>verify_registration\<close> is \<open>None\<close> where the library throws, and otherwise its \<open>verified\<close> and its
  \<open>registrationInfo\<close>; \<open>verify_authentication\<close> likewise, with the new counter.
\<close>

record webauthn =
  verify_registration ::
    "registration_response \<Rightarrow> expectation \<Rightarrow> (bool \<times> registration_info option) option"
  verify_authentication ::
    "assertion \<Rightarrow> expectation \<Rightarrow> stored_credential \<Rightarrow> (bool \<times> int) option"
  hmac_raw :: "string \<Rightarrow> string \<Rightarrow> string" \<comment> \<open>key, message\<close>
  base64url :: "string \<Rightarrow> string"

section \<open>Challenge tokens\<close>

definition challengeToken ::
  "env \<Rightarrow> webauthn_cfg \<Rightarrow> string \<Rightarrow> string \<Rightarrow> string \<Rightarrow> rp_context \<Rightarrow> time \<Rightarrow> string" where
  "challengeToken env wc purpose userId challenge rp now =
     jwt_sign env [(''purpose'', JStr purpose), (''uid'', JStr (encrypt_secret env userId)),
       (''challenge'', JStr challenge), (''rp_id'', JStr (rp_id rp)),
       (''origin'', JStr (rp_origin rp))] (wc_challengeTtlSec wc) now"

record ticket =
  tk_uid :: string
  tk_challenge :: string
  tk_rp_id :: string
  tk_origin :: string

definition ceremony_expired :: http_error where
  "ceremony_expired = Unauthorized (''Passkey ceremony expired '' @ [CHR 0x97] @ '' try again'')"

definition readChallengeToken :: "env \<Rightarrow> string \<Rightarrow> string \<Rightarrow> time \<Rightarrow> ticket res" where
  "readChallengeToken env token expectedPurpose now =
     (case jwt_verify env now token of
        None \<Rightarrow> Inl ceremony_expired
      | Some c \<Rightarrow>
          if map_of c ''purpose'' \<noteq> Some (JStr expectedPurpose) \<or> \<not> claim_truthy c ''uid''
             \<or> \<not> claim_truthy c ''challenge'' \<or> \<not> claim_truthy c ''rp_id''
             \<or> \<not> claim_truthy c ''origin''
          then Inl ceremony_expired
          else (case (Option.bind (claim_string c ''uid'') (decrypt_secret env),
                      claim_string c ''challenge'', claim_string c ''rp_id'', claim_string c ''origin'') of
                  (Some uid, Some ch, Some rid, Some orig) \<Rightarrow>
                    Inr \<lparr>tk_uid = uid, tk_challenge = ch, tk_rp_id = rid, tk_origin = orig\<rparr>
                | _ \<Rightarrow> Inl ceremony_expired))"

definition expected_of :: "webauthn_cfg \<Rightarrow> ticket \<Rightarrow> expectation" where
  "expected_of wc tk = \<lparr>ex_challenge = tk_challenge tk, ex_rpId = tk_rp_id tk,
     ex_origin = tk_origin tk, ex_requireUv = (wc_userVerification wc = UvRequired)\<rparr>"

section \<open>Stored transports\<close>

definition transportsToStr :: "string list option \<Rightarrow> string option" where
  "transportsToStr ts = (case ts of None \<Rightarrow> None
     | Some xs \<Rightarrow> if xs = [] then None else Some (join '','' xs))"

definition strToTransports :: "string option \<Rightarrow> string list option" where
  "strToTransports raw =
     (if \<not> truthy raw then None
      else let parts = filter (\<lambda>s. s \<noteq> []) (map trim (split_at (\<lambda>c. c = CHR '','') (the raw)))
           in if parts = [] then None else Some parts)"

section \<open>Registration\<close>

definition requireUser :: "db \<Rightarrow> string \<Rightarrow> user res" where
  "requireUser s i = (case find (\<lambda>u. u_id u = i \<and> u_deletedAt u = None) (users s) of
     None \<Rightarrow> Inl (Unauthorized ''Invalid credentials'') | Some u \<Rightarrow> Inr u)"

definition passkeys_of :: "db \<Rightarrow> string \<Rightarrow> passkey list" where
  "passkeys_of s uid = filter (\<lambda>p. pk_userId p = uid) (passkeys s)"

text \<open>A credential named to the browser: its id and transports.\<close>

type_synonym cred_ref = "string \<times> string list option"

definition cred_ref_of :: "passkey \<Rightarrow> cred_ref" where
  "cred_ref_of c = (pk_credentialId c, strToTransports (pk_transports c))"

record registration_request =
  gr_rpName :: string
  gr_rpID :: string
  gr_userID :: string
  gr_userName :: string
  gr_userDisplayName :: string
  gr_attestationType :: string
  gr_userVerification :: user_verification
  gr_residentKey :: string
  gr_excludeCredentials :: "cred_ref list"

text \<open>The answer: the options (the library's request and its challenge) and the challenge token.\<close>

definition registrationOptions ::
  "env \<Rightarrow> webauthn_cfg \<Rightarrow> string \<Rightarrow> rp_context \<Rightarrow> string \<Rightarrow> time \<Rightarrow> db \<Rightarrow>
   ((registration_request \<times> string) \<times> string) res" where
  "registrationOptions env wc userId rp challenge now s =
     (case requireUser s userId of
        Inl e \<Rightarrow> Inl e
      | Inr u \<Rightarrow>
          Inr ((\<lparr>gr_rpName = wc_rpName wc, gr_rpID = rp_id rp, gr_userID = u_id u,
                 gr_userName = u_email u,
                 gr_userDisplayName = (if truthy (u_name u) then the (u_name u) else u_email u),
                 gr_attestationType = ''none'', gr_userVerification = wc_userVerification wc,
                 gr_residentKey = ''preferred'',
                 gr_excludeCredentials = map cred_ref_of (passkeys_of s (u_id u))\<rparr>, challenge),
               challengeToken env wc ''webauthn_reg'' (u_id u) challenge rp now))"

text \<open>\<open>passkeyCredential.create\<close>: the row's id and its credential id are unique.\<close>

definition insert_passkey :: "passkey \<Rightarrow> db \<Rightarrow> unit res \<times> db" where
  "insert_passkey p s =
     (if pk_id p \<in> pk_id ` set (passkeys s)
         \<or> pk_credentialId p \<in> pk_credentialId ` set (passkeys s)
      then (Inl (PrismaError ''P2002''), s)
      else (Inr (), s\<lparr>passkeys := passkeys s @ [p]\<rparr>))"

record public_passkey =
  pp_id :: string
  pp_nickname :: string
  pp_transports :: "string option"
  pp_createdAt :: time
  pp_lastUsedAt :: "time option"

definition publicShape :: "passkey \<Rightarrow> public_passkey" where
  "publicShape p = \<lparr>pp_id = pk_id p, pp_nickname = pk_nickname p, pp_transports = pk_transports p,
     pp_createdAt = pk_createdAt p, pp_lastUsedAt = pk_lastUsedAt p\<rparr>"

text \<open>\<open>(nickname ?? 'Passkey').trim().slice(0, 100) || 'Passkey'\<close>.\<close>

definition nickname_of :: "string option \<Rightarrow> string" where
  "nickname_of n = (let x = take 100 (trim (nullish n ''Passkey''))
     in if x = [] then ''Passkey'' else x)"

definition verifyRegistration ::
  "env \<Rightarrow> webauthn_cfg \<Rightarrow> webauthn \<Rightarrow> string \<Rightarrow> registration_response \<Rightarrow> string \<Rightarrow>
   string option \<Rightarrow> string \<Rightarrow> time \<Rightarrow> db \<Rightarrow> public_passkey res \<times> db" where
  "verifyRegistration env wc wa userId credential token nickname rid now s =
     (case readChallengeToken env token ''webauthn_reg'' now of
        Inl e \<Rightarrow> (Inl e, s)
      | Inr tk \<Rightarrow>
        if tk_uid tk \<noteq> userId then (Inl ceremony_expired, s)
        else case requireUser s userId of
          Inl e \<Rightarrow> (Inl e, s)
        | Inr u \<Rightarrow>
          (case verify_registration wa credential (expected_of wc tk) of
             Some (True, Some info) \<Rightarrow>
               (let row = \<lparr>pk_id = rid, pk_tenantId = u_tenantId u, pk_userId = u_id u,
                      pk_credentialId = ri_credentialId info, pk_publicKey = ri_publicKey info,
                      pk_signCount = ri_counter info,
                      pk_transports = transportsToStr (rr_transports credential),
                      pk_aaguid = non_empty (ri_aaguid info), pk_nickname = nickname_of nickname,
                      pk_createdAt = now, pk_lastUsedAt = None\<rparr>
                in case insert_passkey row s of
                     (Inl e, s1) \<Rightarrow> (Inl e, s1)
                   | (Inr _, s1) \<Rightarrow>
                       (Inr (publicShape row), record_event ''auth.passkey_registered''
                          \<lparr>am_tenantId = u_tenantId u, am_userId = Some (u_id u),
                           am_appClientId = None, am_ip = None,
                           am_detail = Some (JObj [(''nickname'', JStr (pk_nickname row))])\<rparr> now s1))
           | _ \<Rightarrow> (Inl (BadRequest ''Passkey registration could not be verified''), s)))"

section \<open>The login ceremony\<close>

definition findLoginUser :: "db \<Rightarrow> string option \<Rightarrow> string \<Rightarrow> user option" where
  "findLoginUser s tenantSlug email =
     (if truthy tenantSlug then
        (case live_tenant_by_slug s (the tenantSlug) of
           None \<Rightarrow> None
         | Some t \<Rightarrow> live_user_by_email s (Some (tn_id t)) (lower email))
      else live_user_by_email s None (lower email))"

definition decoyCredentials :: "webauthn \<Rightarrow> config \<Rightarrow> string option \<Rightarrow> string \<Rightarrow> cred_ref list" where
  "decoyCredentials wa cfg tenantSlug email =
     (let seed = hmac_raw wa (secretKey cfg)
            (''webauthn_decoy:'' @ nullish tenantSlug [] @ '':'' @ lower (trim email));
          count = (case seed of [] \<Rightarrow> 0 | c # _ \<Rightarrow> of_char c mod 3 + 1)
      in map (\<lambda>i. (take 43 (base64url wa
                 (hmac_raw wa (secretKey cfg) (seed @ show_int (int i)))), None)) [0..<count])"

record login_request =
  gl_rpID :: string
  gl_userVerification :: user_verification
  gl_allowCredentials :: "cred_ref list"

definition decoy_token ::
  "env \<Rightarrow> webauthn_cfg \<Rightarrow> string \<Rightarrow> rp_context \<Rightarrow> time \<Rightarrow> string" where
  "decoy_token env wc challenge rp now =
     jwt_sign env [(''purpose'', JStr ''webauthn_auth''), (''uid'', JStr (''decoy:'' @ challenge)),
       (''challenge'', JStr challenge), (''rp_id'', JStr (rp_id rp)),
       (''origin'', JStr (rp_origin rp))] (wc_challengeTtlSec wc) now"

definition loginOptions ::
  "env \<Rightarrow> config \<Rightarrow> webauthn_cfg \<Rightarrow> webauthn \<Rightarrow> string option \<Rightarrow> string \<Rightarrow> rp_context \<Rightarrow> string \<Rightarrow>
   time \<Rightarrow> db \<Rightarrow> (login_request \<times> string) \<times> string" where
  "loginOptions env cfg wc wa tenantSlug email rp challenge now s =
     (let u = findLoginUser s tenantSlug email;
          creds = (case u of None \<Rightarrow> [] | Some u \<Rightarrow> passkeys_of s (u_id u));
          options = (\<lambda>allow. (\<lparr>gl_rpID = rp_id rp, gl_userVerification = wc_userVerification wc,
             gl_allowCredentials = allow\<rparr>, challenge))
      in if u = None \<or> creds = []
         then (options (decoyCredentials wa cfg tenantSlug email),
               decoy_token env wc challenge rp now)
         else (options (map cred_ref_of creds),
               challengeToken env wc ''webauthn_auth'' (u_id (the u)) challenge rp now))"

definition stored_of :: "passkey \<Rightarrow> stored_credential" where
  "stored_of r = \<lparr>sc_id = pk_credentialId r, sc_publicKey = pk_publicKey r,
     sc_counter = pk_signCount r, sc_transports = strToTransports (pk_transports r)\<rparr>"

definition not_verified :: http_error where
  "not_verified = Unauthorized ''Passkey sign-in could not be verified''"

definition verifyLogin ::
  "env \<Rightarrow> webauthn_cfg \<Rightarrow> webauthn \<Rightarrow> assertion \<Rightarrow> string \<Rightarrow> time \<Rightarrow> db \<Rightarrow> string res \<times> db" where
  "verifyLogin env wc wa credential token now s =
     (case readChallengeToken env token ''webauthn_auth'' now of
        Inl e \<Rightarrow> (Inl e, s)
      | Inr tk \<Rightarrow>
        (case find (\<lambda>p. pk_credentialId p = as_id credential \<and> pk_userId p = tk_uid tk)
             (passkeys s) of
           None \<Rightarrow> (Inl not_verified, s)
         | Some row \<Rightarrow>
           (case verify_authentication wa credential (expected_of wc tk) (stored_of row) of
              Some (True, newCounter) \<Rightarrow>
                (Inr (pk_userId row), s\<lparr>passkeys := upd_where (\<lambda>p. pk_id p = pk_id row)
                   (\<lambda>p. p\<lparr>pk_signCount := newCounter, pk_lastUsedAt := Some now\<rparr>) (passkeys s)\<rparr>)
            | _ \<Rightarrow> (Inl not_verified, s))))"

section \<open>Management\<close>

definition passkey_list :: "string \<Rightarrow> db \<Rightarrow> public_passkey list" where
  "passkey_list uid s = map publicShape (sort_key (\<lambda>p. - pk_createdAt p) (passkeys_of s uid))"

definition passkey_remove :: "string \<Rightarrow> string \<Rightarrow> time \<Rightarrow> db \<Rightarrow> unit res \<times> db" where
  "passkey_remove uid i now s =
     (let P = (\<lambda>p. pk_id p = i \<and> pk_userId p = uid)
      in if count_where P (passkeys s) = 0 then (Inl (BadRequest ''Passkey not found''), s)
         else (Inr (), record_event ''auth.passkey_deleted''
                \<lparr>am_tenantId = None, am_userId = Some uid, am_appClientId = None, am_ip = None,
                 am_detail = Some (JObj [(''credentialRowId'', JStr i)])\<rparr> now
                (s\<lparr>passkeys := del_where P (passkeys s)\<rparr>)))"

section \<open>The controller\<close>

text \<open>The four operations of a signed-in user: \<open>JwtAuthGuard\<close>, then the handler with its \<open>sub\<close>.\<close>

datatype passkey_op =
    RegisterOptions rp_request string \<comment> \<open>and the challenge drawn\<close>
  | RegisterVerify registration_response string "string option" string \<comment> \<open>and the row id drawn\<close>
  | OwnPasskeys
  | RemovePasskey string

datatype passkey_answer =
    RegistrationOptions "(registration_request \<times> string) \<times> string"
  | Registered public_passkey
  | PasskeyList "public_passkey list"
  | Removed

definition passkey_api ::
  "env \<Rightarrow> webauthn_cfg \<Rightarrow> webauthn \<Rightarrow> (string \<Rightarrow> parsed_url option) \<Rightarrow> string option \<Rightarrow>
   passkey_op \<Rightarrow> time \<Rightarrow> db \<Rightarrow> passkey_answer res \<times> db" where
  "passkey_api env wc wa parse header req now s =
     (case Option.bind (case jwt_guard env header now of Inl _ \<Rightarrow> None | Inr c \<Rightarrow> Some c)
             (\<lambda>c. claim_string c ''sub'') of
        None \<Rightarrow> (Inl (case jwt_guard env header now of Inl e \<Rightarrow> e
                     | Inr _ \<Rightarrow> UncaughtError ''token without subject''), s)
      | Some sub \<Rightarrow>
        (case req of
           RegisterOptions r challenge \<Rightarrow>
             (case rpFromRequest parse wc r of
                Inl e \<Rightarrow> (Inl e, s)
              | Inr rp \<Rightarrow> (map_sum id RegistrationOptions
                  (registrationOptions env wc sub rp challenge now s), s))
         | RegisterVerify cred token nickname rid \<Rightarrow>
             (case verifyRegistration env wc wa sub cred token nickname rid now s of
                (r, s1) \<Rightarrow> (map_sum id Registered r, s1))
         | OwnPasskeys \<Rightarrow> (Inr (PasskeyList (passkey_list sub s)), s)
         | RemovePasskey i \<Rightarrow>
             (case passkey_remove sub i now s of (r, s1) \<Rightarrow> (map_sum id (\<lambda>_. Removed) r, s1))))"

definition passkey_login_options ::
  "env \<Rightarrow> config \<Rightarrow> webauthn_cfg \<Rightarrow> webauthn \<Rightarrow> (string \<Rightarrow> parsed_url option) \<Rightarrow> rp_request \<Rightarrow>
   string option \<Rightarrow> string \<Rightarrow> string \<Rightarrow> time \<Rightarrow> db \<Rightarrow> ((login_request \<times> string) \<times> string) res" where
  "passkey_login_options env cfg wc wa parse req tenantSlug email challenge now s =
     (case rpFromRequest parse wc req of
        Inl e \<Rightarrow> Inl e
      | Inr rp \<Rightarrow> Inr (loginOptions env cfg wc wa tenantSlug email rp challenge now s))"

record passkey_login_dto =
  pl_credential :: assertion
  pl_challengeToken :: string
  pl_clientId :: "string option"

definition passkey_login ::
  "env \<Rightarrow> config \<Rightarrow> webauthn_cfg \<Rightarrow> webauthn \<Rightarrow> passkey_login_dto \<Rightarrow> string option \<Rightarrow> drawn \<Rightarrow>
   time \<Rightarrow> db \<Rightarrow> session res \<times> db" where
  "passkey_login env cfg wc wa dto ip dr now s =
     (case verifyLogin env wc wa (pl_credential dto) (pl_challengeToken dto) now s of
        (Inl e, s1) \<Rightarrow> (Inl e, s1)
      | (Inr userId, s1) \<Rightarrow>
          (case user_by_id s1 userId of
             None \<Rightarrow> (Inl (BadRequest ''Passkey sign-in could not be verified''), s1)
           | Some u \<Rightarrow> completeLogin env cfg u (tenant_of s1 u) (pl_clientId dto) ip
                         ''passkey'' dr now s1))"

section \<open>Facts\<close>

lemma readChallengeToken_Inr:
  assumes "readChallengeToken env token p now = Inr tk"
  obtains c e where "jwt_verify env now token = Some c"
    "map_of c ''purpose'' = Some (JStr p)" "claim_string c ''uid'' = Some e"
    "decrypt_secret env e = Some (tk_uid tk)" "claim_string c ''challenge'' = Some (tk_challenge tk)"
    "claim_string c ''rp_id'' = Some (tk_rp_id tk)" "claim_string c ''origin'' = Some (tk_origin tk)"
  using assms
  by (auto simp: readChallengeToken_def bind_eq_Some_conv split: option.splits if_splits)

lemma readChallengeToken_Inl:
  "readChallengeToken env token p now = Inl e \<Longrightarrow> e = ceremony_expired"
  by (auto simp: readChallengeToken_def split: option.splits if_splits)

lemma requireUser_Inr:
  "requireUser s i = Inr u \<Longrightarrow> u \<in> set (users s) \<and> u_id u = i \<and> u_deletedAt u = None"
  by (auto simp: requireUser_def split: option.splits dest: find_SomeD)

lemma insert_passkey_Inr:
  "insert_passkey p s = (Inr x, s') \<Longrightarrow> s' = s\<lparr>passkeys := passkeys s @ [p]\<rparr>
    \<and> pk_id p \<notin> pk_id ` set (passkeys s) \<and> pk_credentialId p \<notin> pk_credentialId ` set (passkeys s)"
  by (auto simp: insert_passkey_def split: if_splits)

lemma insert_passkey_Inl: "insert_passkey p s = (Inl e, s') \<Longrightarrow> s' = s"
  by (auto simp: insert_passkey_def split: if_splits)

lemma findLoginUserD:
  "findLoginUser s slug email = Some u \<Longrightarrow>
   u \<in> set (users s) \<and> u_email u = lower email \<and> u_deletedAt u = None
   \<and> (u_tenantId u = None \<longleftrightarrow> \<not> truthy slug)"
  by (auto simp: findLoginUser_def split: if_splits option.splits dest!: live_user_by_emailD)

lemma in_passkeys_of [simp]: "p \<in> set (passkeys_of s uid) \<longleftrightarrow> p \<in> set (passkeys s) \<and> pk_userId p = uid"
  by (auto simp: passkeys_of_def)

text \<open>A verified assertion is for a stored credential of the user its ticket was made for, and moves
  the counter and the last use of that credential only.\<close>

lemma verifyLogin_Inr:
  assumes "verifyLogin env wc wa cred token now s = (Inr uid, s')"
  obtains tk row n where "readChallengeToken env token ''webauthn_auth'' now = Inr tk"
    "uid = tk_uid tk" "row \<in> set (passkeys_of s uid)" "pk_credentialId row = as_id cred"
    "verify_authentication wa cred (expected_of wc tk) (stored_of row) = Some (True, n)"
    "s' = s\<lparr>passkeys := upd_where (\<lambda>p. pk_id p = pk_id row)
       (\<lambda>p. p\<lparr>pk_signCount := n, pk_lastUsedAt := Some now\<rparr>) (passkeys s)\<rparr>"
proof -
  obtain tk where tk: "readChallengeToken env token ''webauthn_auth'' now = Inr tk"
    using assms by (auto simp: verifyLogin_def split: sum.splits)
  obtain row where row: "find (\<lambda>p. pk_credentialId p = as_id cred \<and> pk_userId p = tk_uid tk)
      (passkeys s) = Some row"
    using assms tk by (auto simp: verifyLogin_def split: option.splits)
  obtain n where n: "verify_authentication wa cred (expected_of wc tk) (stored_of row) = Some (True, n)"
    using assms tk row by (auto simp: verifyLogin_def split: option.splits prod.splits bool.splits)
  show thesis
    by (rule that [of tk row n]) (use assms tk row n in \<open>auto simp: verifyLogin_def dest: find_SomeD\<close>)
qed

lemma verifyLogin_Inl: "verifyLogin env wc wa cred token now s = (Inl e, s') \<Longrightarrow> s' = s"
  by (auto simp: verifyLogin_def split: sum.splits option.splits prod.splits bool.splits)

lemma passkeys_update_queries [simp]:
  "tenant_of (s\<lparr>passkeys := P\<rparr>) u = tenant_of s u"
  "entitled (s\<lparr>passkeys := P\<rparr>) tid c now = entitled s tid c now"
  "user_by_id (s\<lparr>passkeys := P\<rparr>) i = user_by_id s i"
  "live_tokens uid (s\<lparr>passkeys := P\<rparr>) = live_tokens uid s"
  by (simp_all add: tenant_of_def entitled_def live_tokens_def query_simps cong: option.case_cong)

lemma passkey_login_Inr:
  assumes "passkey_login env cfg wc wa dto ip dr now s = (Inr ses, s')"
  obtains tk row u P where
    "readChallengeToken env (pl_challengeToken dto) ''webauthn_auth'' now = Inr tk"
    "row \<in> set (passkeys_of s (tk_uid tk))" "pk_credentialId row = as_id (pl_credential dto)"
    "\<exists>n. verify_authentication wa (pl_credential dto) (expected_of wc tk) (stored_of row)
       = Some (True, n)"
    "user_by_id s (tk_uid tk) = Some u"
    "completeLogin env cfg u (tenant_of s u) (pl_clientId dto) ip ''passkey'' dr now
       (s\<lparr>passkeys := P\<rparr>) = (Inr ses, s')"
proof -
  obtain uid s1 where v: "verifyLogin env wc wa (pl_credential dto) (pl_challengeToken dto) now s
      = (Inr uid, s1)"
    using assms by (auto simp: passkey_login_def split: prod.splits sum.splits)
  from v obtain tk row n where t:
    "readChallengeToken env (pl_challengeToken dto) ''webauthn_auth'' now = Inr tk"
    "uid = tk_uid tk" "row \<in> set (passkeys_of s uid)" "pk_credentialId row = as_id (pl_credential dto)"
    "verify_authentication wa (pl_credential dto) (expected_of wc tk) (stored_of row) = Some (True, n)"
    "s1 = s\<lparr>passkeys := upd_where (\<lambda>p. pk_id p = pk_id row)
       (\<lambda>p. p\<lparr>pk_signCount := n, pk_lastUsedAt := Some now\<rparr>) (passkeys s)\<rparr>"
    by (rule verifyLogin_Inr)
  obtain u where u: "user_by_id s uid = Some u"
    using assms v t(6) by (auto simp: passkey_login_def split: option.splits)
  show thesis
    by (rule that [of tk row u "passkeys s1"])
       (use assms v t u in \<open>auto simp: passkey_login_def\<close>)
qed

lemma passkey_login_Inl_tokens:
  assumes "passkey_login env cfg wc wa dto ip dr now s = (Inl e, s')"
  shows "live_tokens uid s' = live_tokens uid s"
proof (cases "verifyLogin env wc wa (pl_credential dto) (pl_challengeToken dto) now s")
  case (Pair r s1)
  have "live_tokens uid s1 = live_tokens uid s"
    using Pair by (cases r) (auto dest: verifyLogin_Inl elim: verifyLogin_Inr)
  moreover have "s' = s1"
    using assms Pair
    by (auto simp: passkey_login_def split: sum.splits option.splits dest: completeLogin_Inl)
  ultimately show ?thesis
    by simp
qed

interpretation passkey_gate: session_gate
  "\<lambda>(dto, ip, dr). passkey_login env cfg wc wa dto ip dr" "\<lambda>(dto, ip, dr) s. pl_clientId dto"
  for env cfg wc wa
proof (unfold_locales, goal_cases)
  case (1 s i now ses s')
  obtain dto ip dr where i: "i = (dto, ip, dr)"
    by (cases i)
  with 1 have "passkey_login env cfg wc wa dto ip dr now s = (Inr ses, s')"
    by simp
  then show ?case
  proof (rule passkey_login_Inr)
    fix tk row u P
    assume u: "user_by_id s (tk_uid tk) = Some u" "completeLogin env cfg u (tenant_of s u)
        (pl_clientId dto) ip ''passkey'' dr now (s\<lparr>passkeys := P\<rparr>) = (Inr ses, s')"
    show ?thesis
      using completeLogin_Inr [OF u(2)] user_by_idD [OF u(1)] i
      by (intro bexI [of _ u]) (auto split: option.splits)
  qed
next
  case (2 i now s ses s' uid)
  obtain dto ip dr where "i = (dto, ip, dr)"
    by (cases i)
  with 2 have "passkey_login env cfg wc wa dto ip dr now s = (Inr ses, s')"
    by simp
  then show ?case
    by (rule passkey_login_Inr) (use 2(2) in \<open>auto dest!: completeLogin_Inr simp: live_tokens_issued\<close>)
next
  case (3 i now s e s' uid)
  then show ?case
    by (cases i) (auto simp: passkey_login_Inl_tokens)
qed

section \<open>Transports and relying parties\<close>

lemma dropWhile_trimmed: "trim s = s \<Longrightarrow> s = [] \<or> \<not> js_white (hd s)"
proof (rule ccontr)
  assume t: "trim s = s" and "\<not> (s = [] \<or> \<not> js_white (hd s))"
  then obtain c r where s: "s = c # r" "js_white c"
    by (cases s) auto
  have "length (trim s) \<le> length (dropWhile js_white s)"
    unfolding trim_def using length_dropWhile_le by (metis length_rev)
  also have "\<dots> < length s"
    using s length_dropWhile_le [of js_white r] by simp
  finally show False
    using t by simp
qed

lemma split_at_no_sep: "list_all (\<lambda>c. \<not> p c) w \<Longrightarrow> split_at p w = [w]"
  by (induction w) auto

lemma split_at_append:
  "list_all (\<lambda>c. \<not> p c) w \<Longrightarrow> p c \<Longrightarrow> split_at p (w @ c # s) = w # split_at p s"
  by (induction w) auto

lemma split_at_join:
  assumes "ws \<noteq> []" and "\<And>w. w \<in> set ws \<Longrightarrow> list_all (\<lambda>c. \<not> p c) w" and "p c"
  shows "split_at p (join [c] ws) = ws"
  using assms by (induction "[c]" ws rule: join.induct) (simp_all add: split_at_no_sep split_at_append)

text \<open>A transport name: what a browser reports, no comma and no white space around it.\<close>

definition transport_name :: "string \<Rightarrow> bool" where
  "transport_name t \<longleftrightarrow> t \<noteq> [] \<and> trim t = t \<and> list_all (\<lambda>c. c \<noteq> CHR '','') t"

lemma join_eq_Nil: "join sep ws = [] \<Longrightarrow> w \<in> set ws \<Longrightarrow> w = []"
  by (induction sep ws rule: join.induct) auto

lemma deriveRpContext_Some:
  assumes "deriveRpContext parse header bases = Some rp"
  obtains url where "parse (the header) = Some url" "rp_origin rp = url_origin url"
    "url_protocol url \<in> {''http:'', ''https:''}"
    "(lower (url_hostname url) \<in> set LOOPBACK_HOSTS \<and> rp_id rp = strip_brackets (lower (url_hostname url)))
     \<or> (rp_id rp \<in> set bases \<and> (lower (url_hostname url) = rp_id rp
          \<or> suffix (''.'' @ rp_id rp) (lower (url_hostname url))))"
  using assms
  by (auto simp: deriveRpContext_def Let_def ends_with_def starts_with_prefix suffix_to_prefix
      split: if_splits option.splits dest!: find_SomeD)

section \<open>What a ticket carries\<close>

definition has_purpose :: "env \<Rightarrow> string \<Rightarrow> bool" where
  "has_purpose env tok \<longleftrightarrow> (\<exists>c ttl t p. tok = jwt_sign env c ttl t
     \<and> map_of c ''purpose'' = Some (JStr p) \<and> p \<noteq> [])"

lemma challenge_purpose: "q \<noteq> [] \<Longrightarrow> has_purpose env (challengeToken env wc q u ch rp now)"
  unfolding challengeToken_def has_purpose_def by (intro exI conjI, rule refl) auto

lemma decoy_purpose: "has_purpose env (decoy_token env wc ch rp now)"
  unfolding decoy_token_def has_purpose_def by (intro exI conjI, rule refl) auto

lemma purpose_token_refused:
  assumes "token_laws env" and "has_purpose env tok"
  shows "\<not> is_ok (jwt_guard env (Some (''Bearer '' @ tok)) now)"
proof -
  obtain c ttl t p where tok: "tok = jwt_sign env c ttl t" "map_of c ''purpose'' = Some (JStr p)" "p \<noteq> []"
    using assms(2) by (auto simp: has_purpose_def)
  then have "\<forall>x. jwt_verify env now tok = Some x \<longrightarrow> map_of x ''purpose'' = Some (JStr p)"
    using assms(1) unfolding token_laws_def by (metis fst_conv image_eqI map_of_SomeD)
  then show ?thesis
    using tok(3) by (auto simp: jwt_guard_def starts_with_def claim_truthy_def split: option.splits)
qed

lemma read_signed:
  assumes "token_laws env" and "jwt_verify env now' (jwt_sign env
      [(''purpose'', JStr p), (''uid'', JStr e), (''challenge'', JStr ch), (''rp_id'', JStr r),
       (''origin'', JStr orig)] ttl now) = Some x"
  shows "map_of x ''purpose'' = Some (JStr p)" "map_of x ''uid'' = Some (JStr e)"
    "map_of x ''challenge'' = Some (JStr ch)" "map_of x ''rp_id'' = Some (JStr r)"
    "map_of x ''origin'' = Some (JStr orig)"
  using assms by (simp_all add: token_laws_def)

section \<open>A small ceremony\<close>

definition sample_passkey :: passkey where
  "sample_passkey = \<lparr>pk_id = ''p1'', pk_tenantId = Some ''t1'', pk_userId = ''u1'',
     pk_credentialId = ''cred1'', pk_publicKey = ''key'', pk_signCount = 0,
     pk_transports = Some ''usb,nfc'', pk_aaguid = None, pk_nickname = ''Key'', pk_createdAt = 0,
     pk_lastUsedAt = None\<rparr>"

definition passkey_db :: db where
  "passkey_db = sample_db\<lparr>passkeys := [sample_passkey]\<rparr>"

definition sample_wc :: webauthn_cfg where
  "sample_wc = \<lparr>wc_rpName = ''Evo'', wc_baseDomains = [''p.example''], wc_challengeTtlSec = 300,
     wc_userVerification = UvRequired\<rparr>"

definition sample_wa :: webauthn where
  "sample_wa = \<lparr>verify_registration = (\<lambda>r e. if ex_challenge e = ''ch'' then Some (True, Some
       \<lparr>ri_credentialId = ''cred2'', ri_publicKey = ''key2'', ri_counter = 0, ri_aaguid = []\<rparr>) else None),
     verify_authentication = (\<lambda>a e c. if ex_challenge e = ''ch'' \<and> ex_rpId e = ''p.example''
       then Some (True, sc_counter c) else None),
     hmac_raw = (\<lambda>key msg. key @ msg), base64url = (\<lambda>x. x)\<rparr>"

definition sample_rp :: rp_context where
  "sample_rp = \<lparr>rp_id = ''p.example'', rp_origin = ''https://acme.p.example''\<rparr>"

definition sample_assertion :: assertion where
  "sample_assertion = \<lparr>as_id = ''cred1'', as_body = JNull\<rparr>"

definition sample_ticket :: string where
  "sample_ticket = snd (loginOptions numbered_env sample_cfg sample_wc sample_wa (Some ''acme'') ''A@x''
     sample_rp ''ch'' 1000 passkey_db)"

definition passkey_dto :: passkey_login_dto where
  "passkey_dto = \<lparr>pl_credential = sample_assertion, pl_challengeToken = sample_ticket,
     pl_clientId = Some ''swag''\<rparr>"

definition sample_parse :: "string \<Rightarrow> parsed_url option" where
  "sample_parse x = (if x = ''https://acme.p.example'' then Some \<lparr>url_protocol = ''https:'',
     url_hostname = ''acme.p.example'', url_origin = x\<rparr> else None)"

lemma sample_account:
  "findLoginUser passkey_db (Some ''acme'') ''A@x'' = Some sample_user"
  "passkeys_of passkey_db ''u1'' = [sample_passkey]" "u_id sample_user = ''u1''"
  by code_simp+

lemma sample_ticket_challenge:
  "sample_ticket = challengeToken numbered_env sample_wc ''webauthn_auth'' ''u1'' ''ch'' sample_rp 1000"
  by (simp add: sample_ticket_def loginOptions_def sample_account)

lemma numbered_verifies:
  "t \<le> now \<Longrightarrow> now < t + ttl * second_ms \<Longrightarrow>
   jwt_verify numbered_env now (jwt_sign numbered_env c ttl t) = Some (c @ [(''iat'', JNum t)])"
  by (simp add: numbered_env_def numbered_token_def)

lemma sample_ticket_verifies:
  "jwt_verify numbered_env 2000 sample_ticket \<noteq> None"
  by (simp add: sample_ticket_challenge challengeToken_def numbered_verifies sample_wc_def second_ms_def)

lemma sample_ticket_read:
  "readChallengeToken numbered_env sample_ticket ''webauthn_auth'' 2000
     = Inr \<lparr>tk_uid = ''u1'', tk_challenge = ''ch'', tk_rp_id = ''p.example'',
         tk_origin = ''https://acme.p.example''\<rparr>"
  using numbered_laws(2)
  by (simp add: sample_ticket_challenge challengeToken_def readChallengeToken_def numbered_verifies
      sample_wc_def second_ms_def claim_truthy_def claim_string_def cipher_laws_def sample_rp_def)

lemma sample_find:
  "find (\<lambda>p. pk_credentialId p = as_id sample_assertion \<and> pk_userId p = ''u1'') (passkeys passkey_db)
     = Some sample_passkey"
  by code_simp

lemma sample_verified:
  "verifyLogin numbered_env sample_wc sample_wa sample_assertion sample_ticket 2000 passkey_db
     = (Inr ''u1'', passkey_db\<lparr>passkeys := [sample_passkey\<lparr>pk_lastUsedAt := Some 2000\<rparr>]\<rparr>)"
  by (simp add: verifyLogin_def sample_ticket_read sample_find)
     (simp add: sample_wa_def expected_of_def stored_of_def sample_passkey_def passkey_db_def)

lemma any_signer_completes:
  "is_ok (fst (completeLogin (sample_env\<lparr>jwt_sign := a, jwt_verify := b, jwt_decode := c,
     encrypt_secret := d, decrypt_secret := e\<rparr>) sample_cfg sample_user (tenant_of passkey_db sample_user)
     (Some ''swag'') None ''passkey'' (''r1'', ''new'') 2000
     (passkey_db\<lparr>passkeys := [sample_passkey\<lparr>pk_lastUsedAt := Some 2000\<rparr>]\<rparr>)))"
  by code_simp

lemma sample_passkey_login_ok:
  "is_ok (fst (passkey_login numbered_env sample_cfg sample_wc sample_wa passkey_dto None (''r1'', ''new'')
     2000 passkey_db))"
proof -
  have "user_by_id passkey_db ''u1'' = Some sample_user"
    by code_simp
  moreover have "is_ok (fst (completeLogin numbered_env sample_cfg sample_user
      (tenant_of passkey_db sample_user) (Some ''swag'') None ''passkey'' (''r1'', ''new'') 2000
      (passkey_db\<lparr>passkeys := [sample_passkey\<lparr>pk_lastUsedAt := Some 2000\<rparr>]\<rparr>)))"
    unfolding numbered_env_def by (rule any_signer_completes)
  ultimately show ?thesis
    by (simp add: passkey_login_def passkey_dto_def sample_verified)
qed

section \<open>Properties\<close>

text \<open>
  C6: Passkey login opens a session only on a ticket of this ceremony that the platform signed and
  encrypted for the account, with a credential stored for that account whose assertion the library
  verified against the ticket's challenge, relying party and origin; and then only where password
  login would: for a live, verified account of a workspace that may be used and is entitled to the app.
\<close>

theorem passkey_login_gated:
  assumes "unique_on tn_id (tenants s)"
    and "passkey_login env cfg wc wa dto ip dr now s = (Inr ses, s')"
  shows "(\<exists>c e tk row n. jwt_verify env now (pl_challengeToken dto) = Some c
      \<and> map_of c ''purpose'' = Some (JStr ''webauthn_auth'')
      \<and> claim_string c ''uid'' = Some e \<and> decrypt_secret env e = Some (ss_userId ses)
      \<and> claim_string c ''challenge'' = Some (tk_challenge tk)
      \<and> row \<in> set (passkeys s) \<and> pk_userId row = ss_userId ses
      \<and> pk_credentialId row = as_id (pl_credential dto)
      \<and> verify_authentication wa (pl_credential dto) (expected_of wc tk) (stored_of row) = Some (True, n))
    \<and> (\<exists>u \<in> set (users s). u_id u = ss_userId ses \<and> u_deletedAt u = None \<and> u_emailVerifiedAt u \<noteq> None)
    \<and> (\<forall>tid sl nm. ss_tenant ses = Some (tid, sl, nm) \<longrightarrow>
         (\<exists>t. tenant_by_id s tid = Some t \<and> tenant_usable t now)
         \<and> (truthy (pl_clientId dto) \<longrightarrow> entitled s tid (the (pl_clientId dto)) now))"
proof (intro conjI)
  have l: "(case (dto, ip, dr) of (dto, ip, dr) \<Rightarrow> passkey_login env cfg wc wa dto ip dr) now s
      = (Inr ses, s')"
    using assms(2) by simp
  show "\<exists>u \<in> set (users s). u_id u = ss_userId ses \<and> u_deletedAt u = None \<and> u_emailVerifiedAt u \<noteq> None"
    using passkey_gate.granted [OF assms(1) l] by blast
  show "\<forall>tid sl nm. ss_tenant ses = Some (tid, sl, nm) \<longrightarrow>
         (\<exists>t. tenant_by_id s tid = Some t \<and> tenant_usable t now)
         \<and> (truthy (pl_clientId dto) \<longrightarrow> entitled s tid (the (pl_clientId dto)) now)"
    using passkey_gate.no_session_for_unusable_tenant [OF assms(1) l]
      passkey_gate.session_is_entitled [OF assms(1) l] by auto
  obtain tk row u P where t:
    "readChallengeToken env (pl_challengeToken dto) ''webauthn_auth'' now = Inr tk"
    "row \<in> set (passkeys_of s (tk_uid tk))" "pk_credentialId row = as_id (pl_credential dto)"
    "\<exists>n. verify_authentication wa (pl_credential dto) (expected_of wc tk) (stored_of row) = Some (True, n)"
    "user_by_id s (tk_uid tk) = Some u"
    "completeLogin env cfg u (tenant_of s u) (pl_clientId dto) ip ''passkey'' dr now
       (s\<lparr>passkeys := P\<rparr>) = (Inr ses, s')"
    using assms(2) by (rule passkey_login_Inr)
  have uid: "tk_uid tk = ss_userId ses"
    using completeLogin_Inr [OF t(6)] user_by_idD [OF t(5)] by simp
  show "\<exists>c e tk row n. jwt_verify env now (pl_challengeToken dto) = Some c
      \<and> map_of c ''purpose'' = Some (JStr ''webauthn_auth'')
      \<and> claim_string c ''uid'' = Some e \<and> decrypt_secret env e = Some (ss_userId ses)
      \<and> claim_string c ''challenge'' = Some (tk_challenge tk)
      \<and> row \<in> set (passkeys s) \<and> pk_userId row = ss_userId ses
      \<and> pk_credentialId row = as_id (pl_credential dto)
      \<and> verify_authentication wa (pl_credential dto) (expected_of wc tk) (stored_of row) = Some (True, n)"
    using t(1) by (rule readChallengeToken_Inr) (use t(2-4) uid in \<open>auto 0 3\<close>)
qed

lemma passkey_login_gated_witness:
  "\<exists>ses s'. passkey_login numbered_env sample_cfg sample_wc sample_wa passkey_dto None (''r1'', ''new'')
       2000 passkey_db = (Inr ses, s')
     \<and> (\<exists>row \<in> set (passkeys passkey_db). pk_userId row = ss_userId ses \<and> pk_credentialId row = ''cred1'')"
proof -
  obtain ses s' where l: "passkey_login numbered_env sample_cfg sample_wc sample_wa passkey_dto None
      (''r1'', ''new'') 2000 passkey_db = (Inr ses, s')"
    using sample_passkey_login_ok by (rule is_ok_fstE)
  have "unique_on tn_id (tenants passkey_db)" "as_id (pl_credential passkey_dto) = ''cred1''"
    by (simp_all add: passkey_db_def sample_unique passkey_dto_def sample_assertion_def)
  with l show ?thesis
    using passkey_login_gated [OF _ l] by auto
qed

text \<open>
  A challenge token is never an access token: whatever options a caller asked for, known account or
  not, the bearer guard refuses the token that came with them.
\<close>

theorem challenge_tokens_never_authenticate:
  assumes "token_laws env"
  shows "\<not> is_ok (jwt_guard env
      (Some (''Bearer '' @ snd (loginOptions env cfg wc wa slug email rp ch now s))) now')
    \<and> (case registrationOptions env wc uid rp ch now s of
         Inl e \<Rightarrow> e = Unauthorized ''Invalid credentials''
       | Inr (options, tok) \<Rightarrow> \<not> is_ok (jwt_guard env (Some (''Bearer '' @ tok)) now'))"
proof
  show "\<not> is_ok (jwt_guard env
      (Some (''Bearer '' @ snd (loginOptions env cfg wc wa slug email rp ch now s))) now')"
    by (rule purpose_token_refused [OF assms])
       (simp add: loginOptions_def Let_def decoy_purpose challenge_purpose)
  show "case registrationOptions env wc uid rp ch now s of
         Inl e \<Rightarrow> e = Unauthorized ''Invalid credentials''
       | Inr (options, tok) \<Rightarrow> \<not> is_ok (jwt_guard env (Some (''Bearer '' @ tok)) now')"
    using purpose_token_refused [OF assms challenge_purpose]
    by (auto simp add: registrationOptions_def requireUser_def simp del: append.simps split: option.splits)
qed

lemma challenge_tokens_never_authenticate_witness:
  "\<not> is_ok (jwt_guard numbered_env (Some (''Bearer '' @ sample_ticket)) 2000)
   \<and> jwt_verify numbered_env 2000 sample_ticket \<noteq> None"
  using challenge_tokens_never_authenticate [OF numbered_laws(1)] sample_ticket_verifies
  unfolding sample_ticket_def by blast

text \<open>
  Credentials are a user's own. Verifying, listing or removing with one user's identity leaves the
  credentials of every other user as they are, registration only adds one, for the caller, under a
  credential id nobody had, and a refused request changes no credential.
\<close>

theorem passkeys_are_ones_own:
  assumes "passkey_api env wc wa parse header req now s = (r, s')"
    and "\<And>c. jwt_guard env header now = Inr c \<Longrightarrow> claim_string c ''sub'' \<noteq> Some uid"
    and "unique_on pk_credentialId (passkeys s)" and "unique_on pk_id (passkeys s)"
  shows "passkeys_of s' uid = passkeys_of s uid
    \<and> unique_on pk_credentialId (passkeys s') \<and> unique_on pk_id (passkeys s')
    \<and> (\<not> is_ok r \<longrightarrow> s' = s)"
proof (cases "Option.bind (case jwt_guard env header now of Inl _ \<Rightarrow> None | Inr c \<Rightarrow> Some c)
             (\<lambda>c. claim_string c ''sub'')")
  case None
  then show ?thesis
    using assms by (simp add: passkey_api_def)
next
  case (Some sub)
  then have sub: "sub \<noteq> uid"
    using assms(2) by (auto simp: bind_eq_Some_conv split: sum.splits)
  show ?thesis
  proof (cases req)
    case (RegisterVerify cred token nickname rid)
    obtain r1 where v: "verifyRegistration env wc wa sub cred token nickname rid now s = (r1, s')"
      "is_ok r = is_ok r1"
      using assms(1) Some RegisterVerify
      by (cases "fst (verifyRegistration env wc wa sub cred token nickname rid now s)")
         (auto simp: passkey_api_def split: prod.splits)
    have "s' = s \<and> \<not> is_ok r1 \<or> (\<exists>p. passkeys s' = passkeys s @ [p] \<and> pk_userId p = sub \<and> is_ok r1
        \<and> pk_id p \<notin> pk_id ` set (passkeys s) \<and> pk_credentialId p \<notin> pk_credentialId ` set (passkeys s))"
      using v(1) unfolding verifyRegistration_def Let_def
      by (auto split: sum.splits if_splits option.splits prod.splits bool.splits
          dest!: insert_passkey_Inr insert_passkey_Inl requireUser_Inr)
    then show ?thesis
      using assms(3,4) sub v(2) by (auto simp: passkeys_of_def unique_on_append_one)
  next
    case (RemovePasskey i)
    then show ?thesis
      using assms Some sub
      by (auto simp: passkey_api_def passkey_remove_def Let_def passkeys_of_def
          unique_on_del_where intro!: filter_del_where_other split: if_splits)
  qed (use assms Some in \<open>auto simp: passkey_api_def split: sum.splits\<close>)
qed

definition token_of_u2 :: env where
  "token_of_u2 = sample_env\<lparr>jwt_verify := (\<lambda>now tok. Some [(''sub'', JStr ''u2'')])\<rparr>"

lemma passkeys_are_ones_own_witness:
  "passkeys_of (snd (passkey_api token_of_u2 sample_wc sample_wa sample_parse (Some ''Bearer t'')
      (RemovePasskey ''p1'') 5 passkey_db)) ''u1'' = [sample_passkey]
   \<and> \<not> is_ok (fst (passkey_api token_of_u2 sample_wc sample_wa sample_parse (Some ''Bearer t'')
      (RemovePasskey ''p1'') 5 passkey_db))"
proof -
  have c: "jwt_guard token_of_u2 (Some ''Bearer t'') 5 = Inr [(''sub'', JStr ''u2'')]"
    "claim_string [(''sub'', JStr ''u2'')] ''sub'' = Some ''u2''"
    "unique_on pk_credentialId (passkeys passkey_db)" "unique_on pk_id (passkeys passkey_db)"
    "\<not> is_ok (fst (passkey_api token_of_u2 sample_wc sample_wa sample_parse (Some ''Bearer t'')
      (RemovePasskey ''p1'') 5 passkey_db))"
    by code_simp+
  show ?thesis
    using passkeys_are_ones_own [OF prod.collapse [symmetric], of token_of_u2 "Some ''Bearer t''" 5 "''u1''"
        passkey_db sample_wc sample_wa sample_parse "RemovePasskey ''p1''"] c sample_account(2)
    by simp
qed

text \<open>
  A ceremony runs only for a relying party of the deployment: a configured base domain that is the
  page's host or a dot-separated suffix of it, or a loopback host. Any other origin is refused.
\<close>

theorem rp_confined:
  assumes "rpFromRequest parse wc req = Inr rp"
  shows "\<exists>origin url. parse origin = Some url \<and> rp_origin rp = url_origin url
    \<and> url_protocol url \<in> {''http:'', ''https:''}
    \<and> (lower (url_hostname url) \<in> set LOOPBACK_HOSTS
         \<and> rp_id rp \<in> {''localhost'', ''127.0.0.1'', ''::1''}
       \<or> rp_id rp \<in> set (wc_baseDomains wc)
         \<and> (lower (url_hostname url) = rp_id rp
            \<or> suffix (''.'' @ rp_id rp) (lower (url_hostname url))))"
proof -
  obtain header where "deriveRpContext parse header (wc_baseDomains wc) = Some rp"
    using assms by (auto simp: rpFromRequest_def Let_def split: option.splits)
  then obtain url where u: "parse (the header) = Some url" "rp_origin rp = url_origin url"
    "url_protocol url \<in> {''http:'', ''https:''}"
    "(lower (url_hostname url) \<in> set LOOPBACK_HOSTS \<and> rp_id rp = strip_brackets (lower (url_hostname url)))
     \<or> (rp_id rp \<in> set (wc_baseDomains wc) \<and> (lower (url_hostname url) = rp_id rp
          \<or> suffix (''.'' @ rp_id rp) (lower (url_hostname url))))"
    by (rule deriveRpContext_Some)
  have "\<forall>h \<in> set LOOPBACK_HOSTS. strip_brackets h \<in> {''localhost'', ''127.0.0.1'', ''::1''}"
    by code_simp
  then show ?thesis
    using u by (intro exI [of _ "the header"] exI [of _ url]) auto
qed

lemma rp_confined_witness:
  "\<exists>rp. rpFromRequest sample_parse sample_wc \<lparr>rq_origin = None, rq_host = Some (One ''acme.p.example'')\<rparr>
       = Inr rp \<and> rp_id rp \<in> set (wc_baseDomains sample_wc)"
proof -
  have "rpFromRequest sample_parse sample_wc \<lparr>rq_origin = None, rq_host = Some (One ''acme.p.example'')\<rparr>
      = Inr sample_rp" "rp_id sample_rp \<notin> {''localhost'', ''127.0.0.1'', ''::1''}"
    by code_simp+
  then show ?thesis
    using rp_confined by blast
qed

text \<open>
  The transports of a credential survive their storage: what a browser reported at registration is
  what later ceremonies name.
\<close>

theorem transports_roundtrip:
  assumes "\<forall>t \<in> set ts. transport_name t"
  shows "strToTransports (transportsToStr (Some ts)) = (if ts = [] then None else Some ts)"
proof (cases "ts = []")
  case False
  then obtain t where "t \<in> set ts"
    by (cases ts) auto
  then have "join '','' ts \<noteq> []"
    using assms join_eq_Nil [of "'',''" ts t] by (auto simp: transport_name_def)
  moreover have "split_at (\<lambda>c. c = CHR '','') (join '','' ts) = ts"
    by (rule split_at_join) (use False assms in \<open>auto simp: transport_name_def\<close>)
  moreover have "map trim ts = ts" "filter (\<lambda>s. s \<noteq> []) ts = ts"
    using assms by (auto simp: transport_name_def intro: map_idI)
  ultimately show ?thesis
    using False by (simp add: strToTransports_def transportsToStr_def)
qed (simp add: strToTransports_def transportsToStr_def)

lemma transports_roundtrip_witness:
  "strToTransports (transportsToStr (Some [''usb'', ''smart-card''])) = Some [''usb'', ''smart-card'']"
proof -
  have "\<forall>t \<in> set [''usb'', ''smart-card'']. transport_name t"
    by code_simp
  then show ?thesis
    using transports_roundtrip [of "[''usb'', ''smart-card'']"] by simp
qed

text \<open>
  C21: A login ticket is read back as what it was made from: for a live account with a passkey the user,
  the challenge, the relying party and the origin. For any other address it comes down to whether the
  text \<open>decoy:\<close> with the challenge decrypts: as that is no ciphertext of the platform, its
  authentication tag does not match, and the ticket is refused with the answer of an expired ceremony,
  as every ticket is that the platform's key does not verify.
\<close>

theorem login_ticket_roundtrip:
  assumes "token_laws env" and "cipher_laws env"
    and "ch \<noteq> []" and "rp_id rp \<noteq> []" and "rp_origin rp \<noteq> []"
  shows "readChallengeToken env (snd (loginOptions env cfg wc wa slug email rp ch now s))
      ''webauthn_auth'' now' =
    (if jwt_verify env now' (snd (loginOptions env cfg wc wa slug email rp ch now s)) = None
     then Inl ceremony_expired
     else case (case findLoginUser s slug email of
         Some u \<Rightarrow> if passkeys_of s (u_id u) \<noteq> [] then Some (u_id u) else decrypt_secret env (''decoy:'' @ ch)
       | None \<Rightarrow> decrypt_secret env (''decoy:'' @ ch)) of
       None \<Rightarrow> Inl ceremony_expired
     | Some uid \<Rightarrow> Inr \<lparr>tk_uid = uid, tk_challenge = ch, tk_rp_id = rp_id rp, tk_origin = rp_origin rp\<rparr>)"
proof -
  have decoy: "readChallengeToken env (decoy_token env wc ch rp now) ''webauthn_auth'' now'
      = (case decrypt_secret env (''decoy:'' @ ch) of None \<Rightarrow> Inl ceremony_expired
         | Some uid \<Rightarrow> Inr \<lparr>tk_uid = uid, tk_challenge = ch, tk_rp_id = rp_id rp, tk_origin = rp_origin rp\<rparr>)"
    if valid: "jwt_verify env now' (decoy_token env wc ch rp now) = Some x" for x
  proof -
    note r = read_signed [OF assms(1) valid [unfolded decoy_token_def]]
    show ?thesis
      using assms(3-5) valid
      by (simp add: readChallengeToken_def claim_truthy_def claim_string_def r split: option.split)
  qed
  have real: "readChallengeToken env (challengeToken env wc ''webauthn_auth'' uid ch rp now) ''webauthn_auth'' now'
      = Inr \<lparr>tk_uid = uid, tk_challenge = ch, tk_rp_id = rp_id rp, tk_origin = rp_origin rp\<rparr>"
    if x: "jwt_verify env now' (challengeToken env wc ''webauthn_auth'' uid ch rp now) = Some x" for uid x
  proof -
    note r = read_signed [OF assms(1) x [unfolded challengeToken_def]]
    show ?thesis
      using assms(2-5) x by (simp add: readChallengeToken_def claim_truthy_def claim_string_def r cipher_laws_def)
  qed
  show ?thesis
  proof (cases "jwt_verify env now' (snd (loginOptions env cfg wc wa slug email rp ch now s))")
    case None
    then show ?thesis
      by (simp add: readChallengeToken_def)
  next
    case (Some x)
    show ?thesis
    proof (cases "\<exists>u. findLoginUser s slug email = Some u \<and> passkeys_of s (u_id u) \<noteq> []")
      case True
      then obtain u where "findLoginUser s slug email = Some u" "passkeys_of s (u_id u) \<noteq> []"
        by blast
      then show ?thesis
        using Some real [of "u_id u" x] by (simp add: loginOptions_def Let_def)
    next
      case False
      then have "snd (loginOptions env cfg wc wa slug email rp ch now s) = decoy_token env wc ch rp now"
        by (auto simp: loginOptions_def Let_def split: option.split)
      then show ?thesis
        using Some decoy [of x] False by (auto split: option.split)
    qed
  qed
qed

lemma decoy_refused: "decrypt_secret numbered_env (''decoy:'' @ ch) = None"
  by (simp add: numbered_env_def)

lemma login_ticket_roundtrip_witness:
  "readChallengeToken numbered_env sample_ticket ''webauthn_auth'' 2000
     = Inr \<lparr>tk_uid = ''u1'', tk_challenge = ''ch'', tk_rp_id = ''p.example'',
         tk_origin = ''https://acme.p.example''\<rparr>
   \<and> readChallengeToken numbered_env (snd (loginOptions numbered_env sample_cfg sample_wc sample_wa None ''nobody@x''
       sample_rp ''ch'' 1000 empty_db)) ''webauthn_auth'' 2000 = Inl ceremony_expired"
proof
  note ticket = login_ticket_roundtrip [OF numbered_laws, of "''ch''" sample_rp sample_cfg sample_wc sample_wa]
  have rp: "rp_id sample_rp = ''p.example''" "rp_origin sample_rp = ''https://acme.p.example''"
    by (simp_all add: sample_rp_def)
  show "readChallengeToken numbered_env sample_ticket ''webauthn_auth'' 2000
     = Inr \<lparr>tk_uid = ''u1'', tk_challenge = ''ch'', tk_rp_id = ''p.example'', tk_origin = ''https://acme.p.example''\<rparr>"
    using ticket [of "Some ''acme''" "''A@x''" 1000 passkey_db 2000] sample_ticket_verifies sample_account
    by (simp add: sample_ticket_def rp)
  have "findLoginUser empty_db None ''nobody@x'' = None"
    by code_simp
  then show "readChallengeToken numbered_env (snd (loginOptions numbered_env sample_cfg sample_wc sample_wa None
      ''nobody@x'' sample_rp ''ch'' 1000 empty_db)) ''webauthn_auth'' 2000 = Inl ceremony_expired"
    using ticket [of None "''nobody@x''" 1000 empty_db 2000] decoy_refused [of "''ch''"] by (simp add: rp del: append.simps)
qed

text \<open>
  The login options tell accounts apart. The ticket is signed but not encrypted, so whoever asked for
  it reads its \<open>uid\<close>, which starts with \<open>decoy:\<close> exactly when the address has no live account with a
  passkey, although the comment at \<open>loginOptions\<close> says that the answer must not tell. The first
  hypothesis is that the payload of a token can be read without its key.
\<close>

theorem login_ticket_reveals_account:
  assumes "\<And>c ttl t. jwt_decode env (jwt_sign env c ttl t) = Some c" and "cipher_laws env"
  shows "(\<exists>c v. jwt_decode env (snd (loginOptions env cfg wc wa slug email rp ch now s)) = Some c
      \<and> claim_string c ''uid'' = Some v \<and> starts_with v ''decoy:'')
    \<longleftrightarrow> (\<nexists>u. findLoginUser s slug email = Some u \<and> passkeys_of s (u_id u) \<noteq> [])"
proof -
  have "\<not> starts_with (encrypt_secret env x) ''decoy:''" for x
  proof
    assume "starts_with (encrypt_secret env x) ''decoy:''"
    then have "CHR '':'' \<in> set (encrypt_secret env x)"
      by (auto simp: starts_with_prefix prefix_def)
    then show False
      using assms(2) by (simp add: cipher_laws_def)
  qed
  then show ?thesis
    by (cases "findLoginUser s slug email")
       (auto simp: loginOptions_def Let_def decoy_token_def challengeToken_def assms(1)
         claim_string_def starts_with_def)
qed

lemma login_ticket_reveals_account_witness:
  "\<not> (\<exists>c v. jwt_decode numbered_env sample_ticket = Some c \<and> claim_string c ''uid'' = Some v
      \<and> starts_with v ''decoy:'')"
proof -
  have "jwt_decode numbered_env (jwt_sign numbered_env c ttl t) = Some c" for c ttl t
    by (simp add: numbered_env_def numbered_token_def)
  then show ?thesis
    using login_ticket_reveals_account [OF _ numbered_laws(2), of sample_cfg sample_wc sample_wa
        "Some ''acme''" "''A@x''" sample_rp "''ch''" 1000 passkey_db] sample_account
    by (simp add: sample_ticket_def)
qed

text \<open>
  An assertion works as often as it is presented while its ticket lasts, when the authenticator keeps
  no counter: the library then answers zero for a stored zero, and nothing else of the ceremony is
  used up. \<open>at\<close> and \<open>at'\<close> are two times at which the ticket verifies.
\<close>

lemma assertion_replayable:
  assumes "verifyLogin env wc wa cred tok at s = (Inr uid, s')"
    and "unique_on pk_credentialId (passkeys s)" and "unique_on pk_id (passkeys s)"
    and "\<And>row e. row \<in> set (passkeys s) \<Longrightarrow> pk_credentialId row = as_id cred \<Longrightarrow>
      verify_authentication wa cred e (stored_of row) \<noteq> Some (True, pk_signCount row) \<Longrightarrow>
      fst (nullish (verify_authentication wa cred e (stored_of row)) (False, 0)) = False"
    and "jwt_verify env at' tok = jwt_verify env at tok"
  shows "fst (verifyLogin env wc wa cred tok at' s') = Inr uid"
proof -
  obtain tk row n where t: "readChallengeToken env tok ''webauthn_auth'' at = Inr tk"
    "uid = tk_uid tk" "row \<in> set (passkeys_of s uid)" "pk_credentialId row = as_id cred"
    "verify_authentication wa cred (expected_of wc tk) (stored_of row) = Some (True, n)"
    "s' = s\<lparr>passkeys := upd_where (\<lambda>p. pk_id p = pk_id row)
       (\<lambda>p. p\<lparr>pk_signCount := n, pk_lastUsedAt := Some at\<rparr>) (passkeys s)\<rparr>"
    using assms(1) by (rule verifyLogin_Inr)
  have n: "n = pk_signCount row"
    using assms(4) [of row "expected_of wc tk"] t(3-5) by auto
  have "readChallengeToken env tok ''webauthn_auth'' at' = Inr tk"
    using t(1) assms(5) by (simp add: readChallengeToken_def)
  moreover have "find (\<lambda>p. pk_credentialId p = as_id cred \<and> pk_userId p = tk_uid tk) (passkeys s) = Some row"
    by (rule find_unique_in [OF assms(2)]) (use t in auto)
  then have "find (\<lambda>p. pk_credentialId p = as_id cred \<and> pk_userId p = tk_uid tk) (passkeys s')
      = Some (row\<lparr>pk_signCount := n, pk_lastUsedAt := Some at\<rparr>)"
    unfolding t(6) by (simp add: find_upd_where)
  moreover have "stored_of (row\<lparr>pk_signCount := n, pk_lastUsedAt := Some at\<rparr>) = stored_of row"
    by (simp add: stored_of_def n)
  ultimately show ?thesis
    using t(2,3,5) by (simp add: verifyLogin_def)
qed

end
