(* ===== verification/Console_Api.thy ===== *)
theory Console_Api
  imports Auth_Pages Brand Members Tenants Passkeys
begin

text \<open>
  The console's HTTP interface: the controllers under \<open>/admin\<close> (\<open>apps\<close>, \<open>users\<close>, \<open>tenants\<close>, \<open>audit\<close>,
  \<open>smtp\<close>, \<open>email-templates\<close>) with the two guards in front of them, and what they do besides calling the
  services: the dates of an audit query, and the listing, preview and test of the mail templates
  (\<open>email-template.service.ts\<close>). The revenue controller is in \<open>Revenue_Console\<close>.
\<close>

section \<open>The dates of an audit query\<close>

definition date_digit :: "char \<Rightarrow> bool" where
  "date_digit c = (let n = of_char c :: nat in 48 \<le> n \<and> n \<le> 57)"

text \<open>\<open>/^\d{4}-\d{2}-\d{2}$/\<close>.\<close>

fun is_date_only :: "string \<Rightarrow> bool" where
  "is_date_only [a, b, c, d, e, f, g, h, i, j] =
     (list_all date_digit [a, b, c, d, f, g, i, j] \<and> e = CHR ''-'' \<and> h = CHR ''-'')"
| "is_date_only _ = False"

text \<open>\<open>date\<close> is \<open>new Date(value).getTime()\<close>, \<open>None\<close> where it is \<open>NaN\<close>.\<close>

definition parseDate :: "(string \<Rightarrow> time option) \<Rightarrow> string option \<Rightarrow> bool \<Rightarrow> time option" where
  "parseDate date value endOfDayIfDateOnly =
     (case value of
        None \<Rightarrow> None
      | Some v \<Rightarrow>
          if v = [] then None
          else date (if endOfDayIfDateOnly \<and> is_date_only v then v @ ''T23:59:59.999'' else v))"

record audit_query =
  aq_tenantId :: "string option"
  aq_action :: "string option"
  aq_from :: "string option"
  aq_to :: "string option"
  aq_take :: "string option"

text \<open>
  \<open>number\<close> is the count that \<open>Number\<close> reads; \<open>None\<close> stands for what Prisma refuses as a count (\<open>NaN\<close>, a
  fraction). A negative \<open>take\<close>, which asks Prisma for the other end of the list, is left out.
\<close>

definition audit_query_list ::
  "(string \<Rightarrow> time option) \<Rightarrow> (string \<Rightarrow> nat option) \<Rightarrow> audit_query \<Rightarrow> db \<Rightarrow> audit_event list res" where
  "audit_query_list date number q s =
     (let filters = (\<lambda>n. \<lparr>af_tenantId = aq_tenantId q, af_action = aq_action q,
            af_from = parseDate date (aq_from q) False, af_to = parseDate date (aq_to q) True, af_take = n\<rparr>)
      in if truthy (aq_take q)
         then (case number (the (aq_take q)) of
                 None \<Rightarrow> Inl (UncaughtError ''take'')
               | Some n \<Rightarrow> Inr (audit_list (filters (Some n)) s))
         else Inr (audit_list (filters None) s))"

section \<open>The mail templates in the console\<close>

text \<open>The time of the last change, which the model's rows do not hold, is left out.\<close>

record template_row =
  tr_code :: string
  tr_description :: string
  tr_variables :: "string list"
  tr_customized :: bool
  tr_copy :: template_copy
  tr_default :: template_copy

definition shown_copy :: "template_copy \<Rightarrow> template_copy" where
  "shown_copy t = t\<lparr>tc_actionLabel := Some (nullish (tc_actionLabel t) [])\<rparr>"

definition template_list :: "db \<Rightarrow> template_row list" where
  "template_list s =
     map (\<lambda>t. let row = map_option copy_of_row (find (\<lambda>r. et_code r = ts_code t) (email_templates s))
       in \<lparr>tr_code = ts_code t, tr_description = ts_description t, tr_variables = ts_variables t,
           tr_customized = (row \<noteq> None),
           tr_copy = (case row of None \<Rightarrow> shown_copy (ts_copy t)
             | Some r \<Rightarrow> r\<lparr>tc_actionLabel := Some (nullish (tc_actionLabel r)
                 (nullish (tc_actionLabel (ts_copy t)) []))\<rparr>),
           tr_default = shown_copy (ts_copy t)\<rparr>) TEMPLATES"

definition sampleVars :: vars where
  "sampleVars = [(''productName'', ''SWAG Estimates''), (''email'', ''someone@example.com''),
     (''expiryMinutes'', ''30''), (''expiryHours'', ''24''), (''inviter'', ''Kelly Michels''),
     (''workspace'', ''Acme Industrial''),
     (''workspaces'', ''  acme  (Acme Industrial)'' @ [CHR 0x0A] @ ''  acme-eu  (Acme Europe)''),
     (''signInUrl'', ''https://swag.evomedia.net/login'')]"

definition template_preview :: "config \<Rightarrow> string \<Rightarrow> db \<Rightarrow> (string \<times> email_body) res" where
  "template_preview cfg code s = render cfg code sampleVars (Some ''https://example.com/link'') s"

definition template_test ::
  "env \<Rightarrow> config \<Rightarrow> string \<Rightarrow> string \<Rightarrow> time \<Rightarrow> quota_state \<times> db \<Rightarrow> unit res \<times> (quota_state \<times> db)" where
  "template_test env cfg code dest now qs =
     (case template_preview cfg code (snd qs) of
        Inl e \<Rightarrow> (Inl e, qs)
      | Inr (subject, body) \<Rightarrow>
          (case send env cfg \<lparr>sd_fromName = map_of sampleVars ''productName'', sd_tenantId = None,
                  sd_to = dest, sd_subject = ''[test] '' @ subject, sd_content = Templated body\<rparr> None now qs of
             (r, qs1) \<Rightarrow> (res_map (\<lambda>_. ()) r, qs1)))"

section \<open>Requests that read\<close>

datatype apps_read =
    GetApps "string option" \<comment> \<open>\<open>includeDeleted\<close>\<close>
  | GetApp string
  | GetAppTenants string
  | GetAppPrices string
  | GetAppRoles string
  | GetBrand string

datatype users_read =
    GetUsers "string option" "string option" \<comment> \<open>\<open>tenantId\<close>, \<open>includeDeleted\<close>\<close>
  | GetUser string

datatype tenants_read =
    GetTenants "string option"
  | GetTenant string
  | GetTenantApps string

datatype templates_read = GetTemplates | GetPreview string

datatype console_read =
    ReadApps apps_read
  | ReadUsers users_read
  | ReadTenants tenants_read
  | ReadTemplates templates_read
  | ReadAudit audit_query
  | ReadSmtp "string option"

datatype console_view =
    AppsView "app_view list"
  | AppView app_view
  | AppTenantsView "(tenant \<times> app_tenant option) list"
  | PricesView "app_price list"
  | RolesView "role list"
  | BrandView "json option" "brand_record option"
  | UsersView "user_view list"
  | UserView user_view
  | TenantsView "tenant list"
  | TenantView tenant
  | TenantAppsView "(app \<times> app_tenant option) list"
  | AuditView "audit_event list"
  | SmtpView "(smtp_config \<times> bool) option"
  | TemplatesView "template_row list"
  | MessageView "string \<times> email_body"

text \<open>\<open>includeDeleted === 'true'\<close>, and \<open>tenantId === 'platform' ? null : tenantId\<close>.\<close>

definition flag :: "string option \<Rightarrow> bool" where
  "flag v \<longleftrightarrow> v = Some ''true''"

definition tenant_filter :: "string option \<Rightarrow> string option option" where
  "tenant_filter v = (if v = Some ''platform'' then Some None else map_option Some v)"

record deployment =
  dp_env :: env
  dp_cfg :: config
  dp_stripe :: "stripe_api option"
  dp_url_origin :: "string \<Rightarrow> string option"
  dp_webauthn_cfg :: webauthn_cfg
  dp_webauthn :: webauthn
  dp_parse_url :: "string \<Rightarrow> parsed_url option"
  dp_collation :: "string \<Rightarrow> int"
  dp_date :: "string \<Rightarrow> time option"
  dp_number :: "string \<Rightarrow> nat option"

definition apps_reads :: "deployment \<Rightarrow> apps_read \<Rightarrow> db \<Rightarrow> console_view res" where
  "apps_reads dp rq s =
     (case rq of
        GetApps d \<Rightarrow> Inr (AppsView (app_list (flag d) s))
      | GetApp i \<Rightarrow> res_map (\<lambda>a. AppView (app_public s a)) (app_get i s)
      | GetAppTenants i \<Rightarrow> res_map AppTenantsView (app_listTenants i s)
      | GetAppPrices i \<Rightarrow> res_map PricesView (app_listPrices i s)
      | GetAppRoles i \<Rightarrow> res_map RolesView (app_listRoles (dp_collation dp) i s)
      | GetBrand i \<Rightarrow> res_map (\<lambda>(b, r). BrandView b r) (brand_get i s))"

definition users_reads :: "users_read \<Rightarrow> db \<Rightarrow> console_view res" where
  "users_reads rq s =
     (case rq of
        GetUsers t d \<Rightarrow> Inr (UsersView (user_list (tenant_filter t) (flag d) s))
      | GetUser i \<Rightarrow> res_map (\<lambda>u. UserView (PUBLIC_FIELDS s u)) (user_get i s))"

definition tenants_reads :: "tenants_read \<Rightarrow> db \<Rightarrow> console_view res" where
  "tenants_reads rq s =
     (case rq of
        GetTenants d \<Rightarrow> Inr (TenantsView (tenant_list (flag d) s))
      | GetTenant i \<Rightarrow> res_map TenantView (tenant_get i s)
      | GetTenantApps i \<Rightarrow> res_map TenantAppsView (tenant_listApps i s))"

definition templates_reads :: "config \<Rightarrow> templates_read \<Rightarrow> db \<Rightarrow> console_view res" where
  "templates_reads cfg rq s =
     (case rq of
        GetTemplates \<Rightarrow> Inr (TemplatesView (template_list s))
      | GetPreview code \<Rightarrow> res_map MessageView (template_preview cfg code s))"

definition console_reads :: "deployment \<Rightarrow> console_read \<Rightarrow> db \<Rightarrow> console_view res" where
  "console_reads dp rq s =
     (case rq of
        ReadApps r \<Rightarrow> apps_reads dp r s
      | ReadUsers r \<Rightarrow> users_reads r s
      | ReadTenants r \<Rightarrow> tenants_reads r s
      | ReadTemplates r \<Rightarrow> templates_reads (dp_cfg dp) r s
      | ReadAudit q \<Rightarrow> res_map AuditView (audit_query_list (dp_date dp) (dp_number dp) q s)
      | ReadSmtp t \<Rightarrow> Inr (SmtpView (getConfig t s)))"

section \<open>Requests that change\<close>

datatype tenants_op =
    NCreate create_tenant_dto string \<comment> \<open>and the id drawn\<close>
  | NUpdate string update_tenant_dto
  | NRemove string
  | NRestore string
  | NSuspend string
  | NActivate string
  | NSetAccess string string set_access_dto
  | NRemoveAccess string string
  | NExport string
  | NPurge string

definition tenants_step :: "tenants_op \<Rightarrow> time \<Rightarrow> db \<Rightarrow> unit res \<times> db" where
  "tenants_step op now s =
     (case op of
        NCreate dto i \<Rightarrow> discard (tenant_create dto i now s)
      | NUpdate i dto \<Rightarrow> discard (tenant_update i dto s)
      | NRemove i \<Rightarrow> discard (tenant_remove i now s)
      | NRestore i \<Rightarrow> discard (tenant_restore i now s)
      | NSuspend i \<Rightarrow> discard (tenant_suspend i now s)
      | NActivate i \<Rightarrow> discard (tenant_activate i now s)
      | NSetAccess i a dto \<Rightarrow> discard (setAppAccess i a dto now s)
      | NRemoveAccess i a \<Rightarrow> discard (removeAppAccess i a now s)
      | NExport i \<Rightarrow> discard (exportTenant i now s)
      | NPurge i \<Rightarrow> discard (tenant_purge i now s))"

datatype console_op =
    OnApps app_op
  | OnBrand string "json option"
  | OnUsers user_op
  | OnTenants tenants_op
  | OnSmtp upsert_smtp_dto string
  | SaveTemplate string template_copy
  | ResetTemplate string
  | TestTemplate string string
  | SignupLink "int option"

text \<open>The handlers, given the subject of the token; the quota of outgoing mail is part of the state.\<close>

definition console_step ::
  "deployment \<Rightarrow> string option \<Rightarrow> console_op \<Rightarrow> time \<Rightarrow> quota_state \<times> db \<Rightarrow> unit res \<times> (quota_state \<times> db)" where
  "console_step dp actor op now qs =
     (case op of
        OnApps o' \<Rightarrow> apsnd (Pair (fst qs)) (app_step (dp_env dp) (dp_stripe dp) (o', now) (snd qs))
      | OnBrand i b \<Rightarrow> apsnd (Pair (fst qs)) (brand_set i b actor now (snd qs))
      | OnUsers o' \<Rightarrow> apsnd (Pair (fst qs)) (user_step (dp_env dp) (o', now) (snd qs))
      | OnTenants o' \<Rightarrow> apsnd (Pair (fst qs)) (tenants_step o' now (snd qs))
      | OnSmtp dto i \<Rightarrow> apsnd (Pair (fst qs)) (discard (upsertConfig (dp_env dp) dto i (snd qs)))
      | SaveTemplate code copy \<Rightarrow> apsnd (Pair (fst qs)) (discard (template_save code copy actor now (snd qs)))
      | ResetTemplate code \<Rightarrow> apsnd (Pair (fst qs)) (template_reset code actor now (snd qs))
      | TestTemplate code dest \<Rightarrow> template_test (dp_env dp) (dp_cfg dp) code dest now qs
      | SignupLink h \<Rightarrow> (Inr (), qs))"

text \<open>\<open>@UseGuards(JwtAuthGuard, PlatformAdminGuard)\<close>.\<close>

definition admin_guards :: "env \<Rightarrow> string option \<Rightarrow> time \<Rightarrow> claims res" where
  "admin_guards env header now =
     (case jwt_guard env header now of
        Inl e \<Rightarrow> Inl e
      | Inr c \<Rightarrow> res_map (\<lambda>_. c) (platform_admin_guard c))"

definition console_api ::
  "deployment \<Rightarrow> string option \<Rightarrow> console_op \<Rightarrow> time \<Rightarrow> quota_state \<times> db \<Rightarrow> unit res \<times> (quota_state \<times> db)" where
  "console_api dp header op now qs =
     (case admin_guards (dp_env dp) header now of
        Inl e \<Rightarrow> (Inl e, qs)
      | Inr c \<Rightarrow> console_step dp (claim_string c ''sub'') op now qs)"

definition console_get ::
  "deployment \<Rightarrow> string option \<Rightarrow> console_read \<Rightarrow> time \<Rightarrow> db \<Rightarrow> console_view res" where
  "console_get dp header rq now s =
     (case admin_guards (dp_env dp) header now of
        Inl e \<Rightarrow> Inl e
      | Inr _ \<Rightarrow> console_reads dp rq s)"

end
