(* ===== verification/Platform_Api.thy ===== *)
theory Platform_Api
  imports Console_Api Billing
begin

text \<open>
  The platform's HTTP interface as a whole: the public endpoints (\<open>auth/auth.controller.ts\<close>,
  \<open>tenant/invite-accept.controller.ts\<close>, the login of \<open>passkeys.controller.ts\<close>, Stripe's webhook), those
  of an app with its client credentials (\<open>billing.controller.ts\<close>, \<open>email.controller.ts\<close>,
  \<open>audit.controller.ts\<close>, \<open>apps.controller.ts\<close>), those of a person's own passkeys, of a workspace's
  administrator and of the console. The theory shows where the authority of a platform administrator
  comes from, over any sequence of requests. Rate limiting by address (the throttler of NestJS) and the
  revenue routes, which keep their own state, are outside of it.
\<close>

section \<open>Requests\<close>

record platform =
  pf_db :: db
  pf_buckets :: send_buckets \<comment> \<open>\<open>AccountFlowsService.sendWindows\<close>\<close>
  pf_quota :: quota_state \<comment> \<open>\<open>EmailService\<close>\<close>

datatype public_request =
    Signup signup_dto "string option" "string \<times> string \<times> string"
  | Login login_dto "string option" drawn
  | Refresh string drawn
  | Logout string
  | SendVerification email_flow_dto "string option"
  | Verify string
  | VerifyPage "string option"
  | Workspaces string "string option" "string option"
  | Forgot email_flow_dto "string option"
  | Reset string string
  | ResetPage "string option"
  | AcceptInvite accept_invite_dto string
  | AcceptPage "string option"
  | PasskeyOptions rp_request "string option" string string
  | PasskeyLogin passkey_login_dto "string option" drawn
  | Webhook "string option" "string option"

datatype client_request =
    PushEvent app_event_input
  | SendMail send_dto
  | Entitlement string
  | Prices
  | Checkout checkout_dto
  | Portal string string
  | OwnBrand

datatype request =
    Public public_request
  | AsApp "string option" "string option" client_request
  | AsUser "string option" passkey_op
  | AsWorkspace "string option" tenant_request
  | AsAdmin "string option" console_op
  | Console "string option" console_read
  | Me "string option"

datatype answer =
    Okay
  | SignedUp "string \<times> time"
  | Session session
  | Page string
  | Accepted "string \<times> string"
  | Ceremony "(login_request \<times> string) \<times> string"
  | Acknowledged bool
  | MessageId string
  | Standing entitlement_view
  | PriceList "app_price list"
  | Url string
  | BrandAnswer "brand_record option"
  | PasskeyAnswer passkey_answer
  | ConsoleAnswer console_view
  | Claims claims

section \<open>Endpoints\<close>

text \<open>An operation on the tables, or on the tables with one of the two limiters, as one on the platform.\<close>

definition on_db :: "(db \<Rightarrow> 'a res \<times> db) \<Rightarrow> ('a \<Rightarrow> answer) \<Rightarrow> platform \<Rightarrow> answer res \<times> platform" where
  "on_db f out st = (case f (pf_db st) of (r, s) \<Rightarrow> (res_map out r, st\<lparr>pf_db := s\<rparr>))"

definition on_mail ::
  "(send_buckets \<times> db \<Rightarrow> 'a res \<times> (send_buckets \<times> db)) \<Rightarrow> ('a \<Rightarrow> answer) \<Rightarrow> platform \<Rightarrow> answer res \<times> platform" where
  "on_mail f out st =
     (case f (pf_buckets st, pf_db st) of (r, (b, s)) \<Rightarrow> (res_map out r, st\<lparr>pf_buckets := b, pf_db := s\<rparr>))"

definition on_quota ::
  "(quota_state \<times> db \<Rightarrow> 'a res \<times> (quota_state \<times> db)) \<Rightarrow> ('a \<Rightarrow> answer) \<Rightarrow> platform \<Rightarrow> answer res \<times> platform" where
  "on_quota f out st =
     (case f (pf_quota st, pf_db st) of (r, (q, s)) \<Rightarrow> (res_map out r, st\<lparr>pf_quota := q, pf_db := s\<rparr>))"

definition public_api :: "deployment \<Rightarrow> public_request \<Rightarrow> time \<Rightarrow> platform \<Rightarrow> answer res \<times> platform" where
  "public_api dp rq now st =
     (let env = dp_env dp; cfg = dp_cfg dp in
      case rq of
        Signup dto ip dr \<Rightarrow> on_mail (signup env cfg dto ip dr now) SignedUp st
      | Login dto ip dr \<Rightarrow> on_db (login env cfg dto ip dr now) Session st
      | Refresh token dr \<Rightarrow> on_db (refresh env cfg token dr now) Session st
      | Logout token \<Rightarrow> on_db (logout env token now) (\<lambda>_. Okay) st
      | SendVerification dto ip \<Rightarrow> on_mail (sendVerification env cfg dto ip now) (\<lambda>_. Okay) st
      | Verify token \<Rightarrow> on_db (confirmVerification env token now) (\<lambda>_. Okay) st
      | VerifyPage token \<Rightarrow> on_db (\<lambda>s. apfst Inr (verifyPage env cfg token now s)) Page st
      | Workspaces email clientId ip \<Rightarrow>
          on_mail (listWorkspaces env cfg (dp_collation dp) email clientId ip now) (\<lambda>_. Okay) st
      | Forgot dto ip \<Rightarrow> on_mail (requestReset env cfg dto ip now) (\<lambda>_. Okay) st
      | Reset token password \<Rightarrow> on_db (resetPassword env cfg token password now) (\<lambda>_. Okay) st
      | ResetPage token \<Rightarrow> (Inr (Page (resetPage env cfg token (pf_db st))), st)
      | AcceptInvite dto i \<Rightarrow> on_db (invite_accept env dto i now) Accepted st
      | AcceptPage token \<Rightarrow> (Inr (Page (acceptPage cfg token)), st)
      | PasskeyOptions r slug email challenge \<Rightarrow>
          (res_map Ceremony (passkey_login_options env cfg (dp_webauthn_cfg dp) (dp_webauthn dp)
             (dp_parse_url dp) r slug email challenge now (pf_db st)), st)
      | PasskeyLogin dto ip dr \<Rightarrow>
          on_db (passkey_login env cfg (dp_webauthn_cfg dp) (dp_webauthn dp) dto ip dr now) Session st
      | Webhook body signature \<Rightarrow> on_db (webhook cfg (dp_stripe dp) body signature now) Acknowledged st)"

definition client_api ::
  "deployment \<Rightarrow> app \<Rightarrow> client_request \<Rightarrow> time \<Rightarrow> platform \<Rightarrow> answer res \<times> platform" where
  "client_api dp app rq now st =
     (let env = dp_env dp; cfg = dp_cfg dp in
      case rq of
        PushEvent ev \<Rightarrow> on_db (recordFromApp app ev now) (\<lambda>_. Okay) st
      | SendMail dto \<Rightarrow> on_quota (send env cfg dto (Some app) now) MessageId st
      | Entitlement tid \<Rightarrow> (Inr (Standing (entitlement tid app now (pf_db st))), st)
      | Prices \<Rightarrow> (Inr (PriceList (listPrices cfg (a_id app) (pf_db st))), st)
      | Checkout dto \<Rightarrow> on_db (checkout cfg (dp_stripe dp) (dp_url_origin dp) dto app) Url st
      | Portal tid url \<Rightarrow> on_db (portal (dp_stripe dp) (dp_url_origin dp) tid url app) Url st
      | OwnBrand \<Rightarrow> (Inr (BrandAnswer (forClient (a_clientId app) (pf_db st))), st))"

definition serve :: "deployment \<Rightarrow> request \<Rightarrow> time \<Rightarrow> platform \<Rightarrow> answer res \<times> platform" where
  "serve dp rq now st =
     (case rq of
        Public r \<Rightarrow> public_api dp r now st
      | AsApp cid secret r \<Rightarrow>
          (case client_guard (dp_env dp) cid secret (pf_db st) of
             Inl e \<Rightarrow> (Inl e, st)
           | Inr app \<Rightarrow> client_api dp app r now st)
      | AsUser header r \<Rightarrow>
          on_db (passkey_api (dp_env dp) (dp_webauthn_cfg dp) (dp_webauthn dp) (dp_parse_url dp) header r now)
            PasskeyAnswer st
      | AsWorkspace header r \<Rightarrow> on_db (tenant_api (dp_env dp) (dp_cfg dp) header r now) (\<lambda>_. Okay) st
      | AsAdmin header r \<Rightarrow> on_quota (console_api dp header r now) (\<lambda>_. Okay) st
      | Console header r \<Rightarrow> (res_map ConsoleAnswer (console_get dp header r now (pf_db st)), st)
      | Me header \<Rightarrow> (res_map Claims (jwt_guard (dp_env dp) header now), st))"

section \<open>What only a platform administrator changes\<close>

definition admin_ids :: "db \<Rightarrow> string set" where
  "admin_ids s = set (map u_id (filter u_isPlatformAdmin (users s)))"

definition standing :: "tenant \<Rightarrow> string \<times> tenant_status \<times> time option" where
  "standing t = (tn_id t, tn_status t, tn_deletedAt t)"

text \<open>
  \<open>modest s s'\<close>: the registry of apps with what they sell and their roles, the relays and the mail copy
  are the same, nobody became a platform administrator, and every workspace that was there is still
  there and is suspended, or deleted, exactly if it was.
\<close>

definition modest :: "db \<Rightarrow> db \<Rightarrow> bool" where
  "modest s s' \<longleftrightarrow>
     apps s' = apps s \<and> prices s' = prices s \<and> roles s' = roles s \<and> smtp_configs s' = smtp_configs s
     \<and> email_templates s' = email_templates s \<and> admin_ids s' \<subseteq> admin_ids s
     \<and> (\<exists>new. map standing (tenants s') = map standing (tenants s) @ new)"

lemma modest_refl [simp]: "modest s s"
  by (simp add: modest_def)

lemma modest_trans: "modest s s1 \<Longrightarrow> modest s1 s2 \<Longrightarrow> modest s s2"
  by (auto simp: modest_def)

text \<open>Steps that keep what \<open>modest\<close> compares.\<close>

lemma modest_same:
  "users s' = users s \<Longrightarrow> tenants s' = tenants s \<Longrightarrow> apps s' = apps s \<Longrightarrow> prices s' = prices s \<Longrightarrow>
   roles s' = roles s \<Longrightarrow> smtp_configs s' = smtp_configs s \<Longrightarrow> email_templates s' = email_templates s \<Longrightarrow>
   modest s s'"
  by (simp add: modest_def admin_ids_def)

lemma modest_record [simp]: "modest s (record_event a m n s') = modest s s'"
  by (simp add: modest_def admin_ids_def)

lemma modest_revoke [simp]: "modest s (revoke_sessions i n s') = modest s s'"
  by (simp add: modest_def admin_ids_def revoke_sessions_def)

lemma modest_set_user:
  assumes "\<And>u. u_id (f u) = u_id u \<and> u_isPlatformAdmin (f u) = u_isPlatformAdmin u" and "modest s s'"
  shows "modest s (set_user i f s')"
proof -
  have "map u_id (filter u_isPlatformAdmin (upd_where P f us)) = map u_id (filter u_isPlatformAdmin us)" for P us
    using assms(1) by (induction us) simp_all
  then show ?thesis
    using assms(2) by (simp add: modest_def admin_ids_def set_user_def)
qed

lemma modest_insert_user:
  "insert_user u s = (r, s') \<Longrightarrow> \<not> u_isPlatformAdmin u \<Longrightarrow> modest s s'"
  by (auto simp: insert_user_def modest_def admin_ids_def split: if_splits)

lemma modest_deliver: "deliver env cfg dto c now s = (r, s') \<Longrightarrow> modest s s'"
  by (auto simp: deliver_def Let_def split: sum.splits intro!: modest_same)

section \<open>The operations without the console\<close>

text \<open>Mail and recovery.\<close>

lemma sendVerification_modest:
  "sendVerification env cfg input ip now (b, s) = (r, (b', s')) \<Longrightarrow> modest s s'"
  by (auto simp: sendVerification_def Let_def split: option.splits if_splits prod.splits bool.splits sum.splits
      dest!: modest_deliver)

lemma requestReset_modest:
  "requestReset env cfg input ip now (b, s) = (r, (b', s')) \<Longrightarrow> modest s s'"
  by (auto simp: requestReset_def Let_def split: option.splits if_splits prod.splits bool.splits sum.splits
      dest!: modest_deliver)

lemma listWorkspaces_modest:
  "listWorkspaces env cfg collation email clientId ip now (b, s) = (r, (b', s')) \<Longrightarrow> modest s s'"
  by (auto simp: listWorkspaces_def Let_def split: if_splits prod.splits bool.splits sum.splits
      dest!: modest_deliver)

lemma confirmVerification_modest:
  "confirmVerification env token now s = (r, s') \<Longrightarrow> modest s s'"
  by (auto simp: confirmVerification_def split: option.splits if_splits intro!: modest_set_user)

lemma resetPassword_modest:
  "resetPassword env cfg token pw now s = (r, s') \<Longrightarrow> modest s s'"
  by (auto simp: resetPassword_def Let_def split: option.splits if_splits intro!: modest_set_user)

lemma signup_create_modest:
  "signup_create env cfg dto app slug tid uid now s = (r, s') \<Longrightarrow> modest s s'"
  by (auto simp: signup_create_def Let_def insert_tenant_def insert_user_def insert_app_tenant_def founder_def
      modest_def admin_ids_def split: if_splits prod.splits sum.splits)

lemma signup_modest:
  "signup env cfg dto ip dr now (b, s) = (r, (b', s')) \<Longrightarrow> modest s s'"
  by (auto simp: signup_def Let_def split: prod.splits sum.splits option.splits
      dest!: signup_create_modest sendVerification_modest intro: modest_trans)

text \<open>Sessions.\<close>

lemma issueTokens_modest:
  "issueTokens env cfg u t c dr now s = (r, s') \<Longrightarrow> modest s s'"
  by (auto simp: issueTokens_def insert_refresh_token_def Let_def split: if_splits intro!: modest_same)

lemma completeLogin_modest:
  "completeLogin env cfg u t c ip m dr now s = (r, s') \<Longrightarrow> modest s s'"
  by (auto simp: completeLogin_def split: if_splits sum.splits prod.splits dest: issueTokens_modest)

lemma login_modest: "login env cfg dto ip dr now s = (r, s') \<Longrightarrow> modest s s'"
  by (auto simp: login_def Let_def split: if_splits option.splits dest: completeLogin_modest)

lemma refresh_check_modest: "refresh_check env raw now s = (r, s') \<Longrightarrow> modest s s'"
  by (auto simp: refresh_check_def onRefreshReuse_def Let_def split: option.splits if_splits sum.splits)

lemma refresh_rotate_modest:
  assumes "refresh_rotate env cfg c dr now s = (r, s')"
  shows "modest s s'"
proof (cases c)
  case (fields stored u tenant)
  let ?s1 = "s\<lparr>refresh_tokens := upd_where (\<lambda>t. rt_id t = rt_id stored)
      (\<lambda>t. t\<lparr>rt_revokedAt := Some now\<rparr>) (refresh_tokens s)\<rparr>"
  have "modest ?s1 s'"
    by (rule issueTokens_modest) (use assms fields in \<open>simp add: refresh_rotate_def\<close>)
  moreover have "modest s ?s1"
    by (rule modest_same) simp_all
  ultimately show ?thesis
    using modest_trans by blast
qed

lemma refresh_modest: "refresh env cfg raw dr now s = (r, s') \<Longrightarrow> modest s s'"
  by (auto simp: refresh_def split: prod.splits sum.splits
      dest!: refresh_check_modest refresh_rotate_modest intro: modest_trans)

lemma verifyLogin_modest: "verifyLogin env wc wa cred token now s = (r, s') \<Longrightarrow> modest s s'"
  by (auto simp: verifyLogin_def split: sum.splits option.splits prod.splits bool.splits intro!: modest_same)

lemma passkey_login_modest: "passkey_login env cfg wc wa dto ip dr now s = (r, s') \<Longrightarrow> modest s s'"
  by (auto simp: passkey_login_def split: prod.splits sum.splits option.splits
      dest!: verifyLogin_modest completeLogin_modest intro: modest_trans)

lemma passkey_api_modest: "passkey_api env wc wa parse header rq now s = (r, s') \<Longrightarrow> modest s s'"
  by (auto simp: passkey_api_def verifyRegistration_def insert_passkey_def passkey_remove_def Let_def
      split: option.splits sum.splits passkey_op.splits prod.splits if_splits bool.splits intro!: modest_same)

text \<open>Workspaces.\<close>

lemma sendInviteEmail_modest: "sendInviteEmail env cfg t d raw actor now s = (r, s') \<Longrightarrow> modest s s'"
  by (auto simp: sendInviteEmail_def Let_def split: sum.splits dest!: modest_deliver)

lemma change_member_modest:
  "(\<And>u. u_id (f u) = u_id u \<and> u_isPlatformAdmin (f u) = u_isPlatformAdmin u) \<Longrightarrow>
   modest s (snd (change_member tid actor i ex f act now s))"
  by (simp add: change_member_def Let_def modest_set_user)

lemma invites_modest: "modest s (s\<lparr>invites := x\<rparr>)"
  by (rule modest_same) simp_all

lemma member_modest:
  "modest s (snd (member_create env tid actor dto1 i now s))"
  "modest s (snd (member_update tid actor i dto2 now s))"
  "modest s (snd (member_deactivate tid actor i now s))"
  "modest s (snd (member_restore tid actor i now s))"
  "modest s (snd (member_setRoles tid actor i ids now s))"
proof -
  show "modest s (snd (member_create env tid actor dto1 i now s))"
    by (auto simp: member_create_def new_member_def Let_def split: prod.split sum.split dest!: modest_insert_user)
  show "modest s (snd (member_update tid actor i dto2 now s))"
    by (auto simp: member_update_def member_changes_def split: sum.split intro!: change_member_modest)
  show "modest s (snd (member_deactivate tid actor i now s))"
    by (auto simp: member_deactivate_def split: sum.split intro!: change_member_modest)
  show "modest s (snd (member_restore tid actor i now s))"
    by (auto simp: member_restore_def split: sum.split intro!: change_member_modest)
  show "modest s (snd (member_setRoles tid actor i ids now s))"
    by (auto simp: member_setRoles_def Let_def split: sum.split intro!: modest_same)
qed

lemma invite_modest:
  "modest s (snd (invite_create env cfg tid actor dto dr now s))"
  "modest s (snd (invite_resend env cfg tid actor i raw now s))"
  "modest s (snd (invite_revoke tid actor i now s))"
proof -
  show "modest s (snd (invite_create env cfg tid actor dto dr now s))"
    by (auto simp: invite_create_def Let_def split: sum.split prod.split
        dest!: sendInviteEmail_modest intro: modest_trans [OF invites_modest] invites_modest)
  show "modest s (snd (invite_resend env cfg tid actor i raw now s))"
    by (auto simp: invite_resend_def Let_def split: option.split sum.split prod.split
        dest!: sendInviteEmail_modest intro: modest_trans [OF invites_modest])
  show "modest s (snd (invite_revoke tid actor i now s))"
    by (auto simp: invite_revoke_def invites_modest split: option.split)
qed

lemma tenant_api_modest:
  assumes "tenant_api env cfg header req now s = (r, s')"
  shows "modest s s'"
proof -
  have "modest s (snd (tenant_request env cfg tid actor req now s))" for tid actor
    by (cases req) (simp_all add: tenant_request_def discard_def member_modest invite_modest)
  then show ?thesis
    using assms by (auto simp: tenant_api_def split: sum.splits option.splits) (metis modest_refl snd_conv)+
qed

lemma invite_accept_modest:
  assumes "invite_accept env dto newId now s = (r, s')"
  shows "modest s s'"
  using assms
proof (cases rule: invite_accept_cases)
  case (2 invite tenant s1)
  then have "modest s s1"
    by (intro modest_insert_user) (auto simp: accepted_user_def)
  then show ?thesis
    unfolding 2(9) accept_writes_def by (simp add: modest_def admin_ids_def)
qed simp

text \<open>Billing and what apps send.\<close>

lemma only_grants_modest: "only_grants s s' \<Longrightarrow> modest s s'"
  by (auto simp: only_grants_def intro!: modest_same)

lemma webhook_modest: "webhook cfg stripe body signature now s = (r, s') \<Longrightarrow> modest s s'"
  by (auto simp: webhook_def split: sum.splits dest!: handleEvent_frame only_grants_modest)

lemma ensureCustomer_modest:
  assumes "ensureCustomer stripe tid s = (r, s')"
  shows "modest s s'"
proof -
  have "map standing (upd_where P (\<lambda>t. t\<lparr>tn_stripeCustomerId := c\<rparr>) ts) = map standing ts" for P c ts
    by (induction ts) (simp_all add: standing_def)
  then have "modest s (set_customer i c s)" for i c
    by (simp add: set_customer_def modest_def admin_ids_def)
  then show ?thesis
    using assms by (auto simp: ensureCustomer_def split: option.splits if_splits sum.splits)
qed

lemma checkout_modest: "checkout cfg stripe url dto app s = (r, s') \<Longrightarrow> modest s s'"
  by (auto simp: checkout_def checkout_prepare_def split: sum.splits prod.splits dest: ensureCustomer_modest)

lemma portal_modest: "portal stripe url tid back app s = (r, s') \<Longrightarrow> modest s s'"
  by (auto simp: portal_def split: sum.splits prod.splits dest: ensureCustomer_modest)

lemma recordFromApp_modest: "recordFromApp app ev now s = (r, s') \<Longrightarrow> modest s s'"
  by (auto simp: recordFromApp_def record_as_app_def Let_def split: if_splits option.splits)

lemma send_modest: "send env cfg dto a now (q, s) = (r, (q', s')) \<Longrightarrow> modest s s'"
  by (auto simp: send_def assertQuota_def Let_def split: option.splits if_splits prod.splits sum.splits
      dest!: modest_deliver)

section \<open>Where authority comes from\<close>

lemma on_db_modest:
  assumes "\<And>r s'. f (pf_db st) = (r, s') \<Longrightarrow> modest (pf_db st) s'"
  shows "modest (pf_db st) (pf_db (snd (on_db f out st)))"
  using assms by (auto simp: on_db_def split: prod.split)

lemma on_mail_modest:
  assumes "\<And>r b s'. f (pf_buckets st, pf_db st) = (r, (b, s')) \<Longrightarrow> modest (pf_db st) s'"
  shows "modest (pf_db st) (pf_db (snd (on_mail f out st)))"
  using assms by (auto simp: on_mail_def split: prod.split)

lemma on_quota_modest:
  assumes "\<And>r q s'. f (pf_quota st, pf_db st) = (r, (q, s')) \<Longrightarrow> modest (pf_db st) s'"
  shows "modest (pf_db st) (pf_db (snd (on_quota f out st)))"
  using assms by (auto simp: on_quota_def split: prod.split)

lemmas operations_modest = signup_modest login_modest refresh_modest sendVerification_modest
  confirmVerification_modest listWorkspaces_modest requestReset_modest resetPassword_modest
  invite_accept_modest passkey_login_modest webhook_modest recordFromApp_modest send_modest
  checkout_modest portal_modest passkey_api_modest tenant_api_modest

lemma verifyPage_modest: "verifyPage env cfg token now s = (r, s') \<Longrightarrow> modest s s'"
  by (auto simp: verifyPage_def split: option.splits if_splits prod.splits dest: confirmVerification_modest)

lemma public_api_modest: "modest (pf_db st) (pf_db (snd (public_api dp rq now st)))"
proof (cases rq)
  case (Logout token)
  then show ?thesis
    by (auto simp: public_api_def logout_def intro!: on_db_modest modest_same)
next
  case (VerifyPage token)
  then show ?thesis
    by (cases "verifyPage (dp_env dp) (dp_cfg dp) token now (pf_db st)")
       (auto simp: public_api_def Let_def on_db_def dest: verifyPage_modest)
qed (auto simp: public_api_def Let_def intro!: on_db_modest on_mail_modest intro: operations_modest)

lemma client_api_modest: "modest (pf_db st) (pf_db (snd (client_api dp app rq now st)))"
  by (cases rq) (auto simp: client_api_def Let_def intro!: on_db_modest on_quota_modest intro: operations_modest)

text \<open>Without the guards' consent the console does nothing.\<close>

lemma serve_modest:
  assumes "\<And>header op. rq = AsAdmin header op \<Longrightarrow> \<exists>e. admin_guards (dp_env dp) header now = Inl e"
  shows "modest (pf_db st) (pf_db (snd (serve dp rq now st)))"
proof (cases rq)
  case (AsAdmin header op)
  then obtain e where "admin_guards (dp_env dp) header now = Inl e"
    using assms by blast
  then show ?thesis
    using AsAdmin by (simp add: serve_def on_quota_def console_api_def)
next
  case (AsApp cid secret r)
  then show ?thesis
    by (simp add: serve_def client_api_modest split: sum.split)
qed (auto simp: serve_def public_api_modest intro!: on_db_modest intro: operations_modest)

section \<open>Tokens\<close>

text \<open>What the platform signs for a session says of a platform administrator what the account says.\<close>

definition minted :: "env \<Rightarrow> session \<Rightarrow> bool" where
  "minted env ses \<longleftrightarrow> (\<exists>c ttl t. ss_accessToken ses = jwt_sign env c ttl t
     \<and> map_of c ''platform_admin'' = Some (JBool (ss_platformAdmin ses)))"

lemma issueTokens_minted: "issueTokens env cfg u t c dr now s = (Inr ses, s') \<Longrightarrow> minted env ses"
  unfolding minted_def
  by (rule exI [of _ "access_claims s u t c"], rule exI [of _ "accessTtlSec cfg"], rule exI [of _ now])
     (auto simp: issueTokens_def access_claims_def Let_def split: prod.splits sum.splits)

lemma completeLogin_minted: "completeLogin env cfg u t c ip m dr now s = (Inr ses, s') \<Longrightarrow> minted env ses"
  by (auto simp: completeLogin_def split: if_splits sum.splits prod.splits dest: issueTokens_minted)

lemma login_minted: "login env cfg dto ip dr now s = (Inr ses, s') \<Longrightarrow> minted env ses"
  by (auto simp: login_def Let_def split: if_splits option.splits dest: completeLogin_minted)

lemma refresh_minted: "refresh env cfg raw dr now s = (Inr ses, s') \<Longrightarrow> minted env ses"
  by (auto simp: refresh_def refresh_rotate_def split: prod.splits sum.splits dest: issueTokens_minted)

lemma passkey_login_minted: "passkey_login env cfg wc wa dto ip dr now s = (Inr ses, s') \<Longrightarrow> minted env ses"
  by (auto simp: passkey_login_def split: prod.splits sum.splits option.splits dest: completeLogin_minted)

lemma session_minted:
  assumes "serve dp rq now st = (Inr (Session ses), st')"
  shows "minted (dp_env dp) ses"
proof -
  have on: "\<exists>x s'. f (pf_db st) = (Inr x, s') \<and> out x = Session ses"
    if "on_db f out st = (Inr (Session ses), st')" for f :: "db \<Rightarrow> 'a res \<times> db" and out
    using that by (auto simp: on_db_def res_map_def split: prod.splits sum.splits)
  show ?thesis
  proof (cases rq)
    case (Public r)
    show ?thesis
    proof (cases r)
      case (Login dto ip dr)
      then show ?thesis
        using assms Public on login_minted by (fastforce simp: serve_def public_api_def)
    next
      case (Refresh token dr)
      then show ?thesis
        using assms Public on refresh_minted by (fastforce simp: serve_def public_api_def)
    next
      case (PasskeyLogin dto ip dr)
      then show ?thesis
        using assms Public on passkey_login_minted by (fastforce simp: serve_def public_api_def)
    qed (use assms Public in \<open>auto simp: serve_def public_api_def Let_def on_db_def on_mail_def res_map_def
        split: prod.splits sum.splits\<close>)
  next
    case (AsApp cid secret r)
    then show ?thesis
      using assms by (cases r) (auto simp: serve_def client_api_def Let_def on_db_def on_quota_def res_map_def
          split: prod.splits sum.splits)
  qed (use assms in \<open>auto simp: serve_def on_db_def on_quota_def res_map_def split: prod.splits sum.splits\<close>)
qed

section \<open>Anybody's requests\<close>

text \<open>
  Runs of requests by people who know no administrator's credentials. They hold the access tokens that
  the platform has answered with so far; a header that the guard accepts carries one of those, and no
  answer is a session of a platform administrator. The requests, and their order, are arbitrary.
\<close>

fun header_of :: "request \<Rightarrow> string option" where
  "header_of (AsUser h _) = h"
| "header_of (AsWorkspace h _) = h"
| "header_of (AsAdmin h _) = h"
| "header_of (Console h _) = h"
| "header_of (Me h) = h"
| "header_of _ = None"

definition presentable :: "env \<Rightarrow> string set \<Rightarrow> string option \<Rightarrow> time \<Rightarrow> bool" where
  "presentable env K header now \<longleftrightarrow>
     is_ok (jwt_guard env header now) \<longrightarrow> (\<exists>t \<in> K. header = Some (''Bearer '' @ t))"

fun tokens_in :: "answer res \<Rightarrow> string set" where
  "tokens_in (Inr (Session ses)) = {ss_accessToken ses}"
| "tokens_in _ = {}"

fun ordinary :: "answer res \<Rightarrow> bool" where
  "ordinary (Inr (Session ses)) = (\<not> ss_platformAdmin ses)"
| "ordinary _ = True"

inductive attempted :: "deployment \<Rightarrow> platform \<Rightarrow> platform \<Rightarrow> string set \<Rightarrow> bool" for dp st0 where
  at_rest: "attempted dp st0 st0 {}"
| another: "attempted dp st0 st K \<Longrightarrow> presentable (dp_env dp) K (header_of rq) now \<Longrightarrow>
    serve dp rq now st = (r, st') \<Longrightarrow> ordinary r \<Longrightarrow> attempted dp st0 st' (K \<union> tokens_in r)"

definition powerless :: "env \<Rightarrow> string \<Rightarrow> bool" where
  "powerless env t \<longleftrightarrow> (\<forall>now c. jwt_verify env now t = Some c \<longrightarrow> map_of c ''platform_admin'' \<noteq> Some (JBool True))"

lemma minted_powerless:
  assumes "token_laws env" and "minted env ses" and "\<not> ss_platformAdmin ses"
  shows "powerless env (ss_accessToken ses)"
proof -
  obtain c ttl t where m: "ss_accessToken ses = jwt_sign env c ttl t"
    "map_of c ''platform_admin'' = Some (JBool False)"
    using assms(2,3) unfolding minted_def by auto
  then have "''platform_admin'' \<in> fst ` set c"
    by (metis domI dom_map_of_conv_image_fst)
  then have "map_of x ''platform_admin'' = Some (JBool False)" if "jwt_verify env now (ss_accessToken ses) = Some x" for x now
    using assms(1) that m unfolding token_laws_def by metis
  then show ?thesis
    unfolding powerless_def by fastforce
qed

lemma powerless_refused:
  assumes "\<And>t. t \<in> K \<Longrightarrow> powerless env t" and "presentable env K header now"
  shows "\<exists>e. admin_guards env header now = Inl e"
proof (cases "jwt_guard env header now")
  case (Inr c)
  then obtain t where t: "t \<in> K" "header = Some (''Bearer '' @ t)"
    using assms(2) by (auto simp: presentable_def)
  then have "jwt_verify env now t = Some c"
    using Inr by (auto simp: jwt_guard_def starts_with_def split: option.splits if_splits)
  then have "map_of c ''platform_admin'' \<noteq> Some (JBool True)"
    using assms(1) [OF t(1)] unfolding powerless_def by blast
  then show ?thesis
    using Inr by (simp add: admin_guards_def platform_admin_guard_def res_map_def)
qed (simp add: admin_guards_def)

lemma tokens_powerless:
  assumes "token_laws (dp_env dp)" and "serve dp rq now st = (r, st')" and "ordinary r" and "t \<in> tokens_in r"
  shows "powerless (dp_env dp) t"
proof -
  obtain ses where "r = Inr (Session ses)" "t = ss_accessToken ses"
    using assms(4) by (cases r rule: tokens_in.cases) auto
  then show ?thesis
    using session_minted minted_powerless assms(1-3) by auto
qed

lemma attempted_keeps:
  assumes "attempted dp st0 st K" and "token_laws (dp_env dp)"
  shows "modest (pf_db st0) (pf_db st) \<and> (\<forall>t \<in> K. powerless (dp_env dp) t)"
  using assms(1)
proof induction
  case (another st K rq now r st')
  have "modest (pf_db st) (pf_db (snd (serve dp rq now st)))"
    by (rule serve_modest, rule powerless_refused [of K]) (use another in auto)
  then show ?case
    using another tokens_powerless [OF assms(2) another(3,4)] modest_trans by auto
qed simp

text \<open>
  C1: The authority of a platform administrator has one source. Whatever anybody asks of the platform, in
  whatever order, who has signed in as no platform administrator: the registry of apps with their prices
  and roles, the relays and the mail copy stay as they are, no workspace is suspended, reopened, deleted
  or brought back, nobody becomes a platform administrator, and the console answers none of their tokens.
\<close>

theorem authority_has_one_source:
  assumes "attempted dp st0 st K" and "token_laws (dp_env dp)"
  shows "modest (pf_db st0) (pf_db st)
    \<and> \<not> (\<exists>header now c. presentable (dp_env dp) K header now \<and> admin_guards (dp_env dp) header now = Inr c)"
  using attempted_keeps [OF assms] powerless_refused [of K "dp_env dp"] by fastforce

definition sample_deployment :: deployment where
  "sample_deployment = \<lparr>dp_env = numbered_env, dp_cfg = sample_cfg, dp_stripe = None,
     dp_url_origin = (\<lambda>u. None), dp_webauthn_cfg = sample_wc, dp_webauthn = sample_wa,
     dp_parse_url = (\<lambda>u. None), dp_collation = (\<lambda>x. int (length x)), dp_date = (\<lambda>x. None), dp_number = (\<lambda>x. None)\<rparr>"

definition sample_platform :: platform where
  "sample_platform = \<lparr>pf_db = sample_db, pf_buckets = Map.empty, pf_quota = no_sends\<rparr>"

lemma any_signer_ordinary:
  "case fst (login (sample_env\<lparr>jwt_sign := a, jwt_verify := b, jwt_decode := c, encrypt_secret := d,
      decrypt_secret := e\<rparr>) sample_cfg sample_login None (''r1'', ''new'') 10 sample_db) of
     Inl _ \<Rightarrow> False | Inr ses \<Rightarrow> \<not> ss_platformAdmin ses"
  by code_simp

text \<open>A workspace administrator signs in and asks the console, with that session, to make it a platform administrator.\<close>

lemma authority_has_one_source_witness:
  "\<exists>ses st1. serve sample_deployment (Public (Login sample_login None (''r1'', ''new''))) 10 sample_platform
       = (Inr (Session ses), st1)
     \<and> admin_ids (pf_db (snd (serve sample_deployment (AsAdmin (Some (''Bearer '' @ ss_accessToken ses))
          (OnUsers (UUpdate ''u1'' (no_change\<lparr>uu_isPlatformAdmin := Some True\<rparr>)))) 20 st1))) = {}"
proof -
  have "case fst (login numbered_env sample_cfg sample_login None (''r1'', ''new'') 10 sample_db) of
     Inl _ \<Rightarrow> False | Inr ses \<Rightarrow> \<not> ss_platformAdmin ses"
    unfolding numbered_env_def by (rule any_signer_ordinary)
  then obtain ses s1 where l: "login numbered_env sample_cfg sample_login None (''r1'', ''new'') 10 sample_db
      = (Inr ses, s1)" "\<not> ss_platformAdmin ses"
    by (cases "login numbered_env sample_cfg sample_login None (''r1'', ''new'') 10 sample_db")
       (auto split: sum.splits)
  define st1 where "st1 = sample_platform\<lparr>pf_db := s1\<rparr>"
  let ?rq = "AsAdmin (Some (''Bearer '' @ ss_accessToken ses))
      (OnUsers (UUpdate ''u1'' (no_change\<lparr>uu_isPlatformAdmin := Some True\<rparr>)))"
  have first: "serve sample_deployment (Public (Login sample_login None (''r1'', ''new''))) 10 sample_platform
      = (Inr (Session ses), st1)"
    using l(1) by (simp add: serve_def public_api_def on_db_def sample_deployment_def sample_platform_def
        st1_def res_map_def)
  have "attempted sample_deployment sample_platform st1 ({} \<union> tokens_in (Inr (Session ses)))"
    by (rule another [OF at_rest _ first]) (use l(2) in \<open>simp_all add: presentable_def jwt_guard_def\<close>)
  then have "attempted sample_deployment sample_platform (snd (serve sample_deployment ?rq 20 st1))
      ({} \<union> tokens_in (Inr (Session ses)) \<union> tokens_in (fst (serve sample_deployment ?rq 20 st1)))"
    by (rule another [OF _ _ prod.collapse [symmetric]])
       (auto simp: presentable_def serve_def on_quota_def res_map_def split: prod.splits sum.splits)
  moreover have "token_laws (dp_env sample_deployment)"
    using numbered_laws by (simp add: sample_deployment_def)
  ultimately have "modest (pf_db sample_platform) (pf_db (snd (serve sample_deployment ?rq 20 st1)))"
    using authority_has_one_source by blast
  moreover have "admin_ids (pf_db sample_platform) = {}"
    by (simp add: sample_platform_def admin_ids_def sample_defs)
  ultimately show ?thesis
    using first by (auto simp: modest_def)
qed

end
