(* ===== verification/Sync_Server.thy ===== *)
theory Sync_Server
  imports Prelude
begin

text \<open>
  The sync endpoint of the app template: \<open>templates/next/src/lib/sync/protocol.ts\<close>,
  \<open>lib/sync/server.ts\<close> and \<open>app/api/sync/route.ts\<close>, over the tables \<open>Project\<close> and \<open>Task\<close> of the
  app's own database.

  \<^item> The trigger \<open>assign_row_version\<close> of the first migration gives a row the next value of one
    sequence at every insert and update; \<open>sd_seq\<close> is the last value drawn.
  \<^item> A mutation's payload is any JSON object. A value of a type the column does not have makes
    Prisma throw before it sends a statement, which the handler turns into \<open>invalid\<close>.
  \<^item> A request runs in one transaction under the workspace's advisory lock, so it is one step.
  \<^item> Not modelled: a statement that PostgreSQL itself refuses (a NUL character in a text, a session
    whose workspace has no row), which aborts the transaction.
\<close>

section \<open>The wire protocol\<close>

datatype sync_table = OfProject | OfTask

datatype sync_op = Upsert | Tombstone

type_synonym payload = "(string \<times> json) list"

record sync_mutation =
  m_seq :: int
  m_table :: sync_table
  m_op :: sync_op
  m_id :: string
  m_data :: "payload option"

datatype reject_reason = IdConflict | Invalid

record sync_request =
  rq_clientId :: string
  rq_cursor :: string
  rq_pullLimit :: "int option"
  rq_mutations :: "sync_mutation list"

record wire_project =
  wp_id :: string
  wp_name :: string
  wp_description :: "string option"
  wp_status :: string
  wp_deletedAt :: "time option"
  wp_rowVersion :: string
  wp_updatedAt :: time

record wire_task =
  wt_id :: string
  wt_projectId :: string
  wt_title :: string
  wt_done :: bool
  wt_deletedAt :: "time option"
  wt_rowVersion :: string
  wt_updatedAt :: time

record sync_response =
  rs_applied :: "int list"
  rs_rejected :: "(int \<times> reject_reason) list"
  rs_projects :: "wire_project list"
  rs_tasks :: "wire_task list"
  rs_cursor :: string
  rs_hasMore :: bool
  rs_resyncRequired :: bool

definition DEFAULT_PULL_LIMIT :: int where "DEFAULT_PULL_LIMIT = 1000"
definition MAX_PULL_LIMIT :: int where "MAX_PULL_LIMIT = 2000"

subsection \<open>The cursor as a string\<close>

definition is_digit :: "char \<Rightarrow> bool" where
  "is_digit c = (48 \<le> (of_char c :: nat) \<and> (of_char c :: nat) \<le> 57)"

text \<open>\<open>BigInt(s)\<close> of a string that matches \<open>/^\d+$/\<close>.\<close>

definition nat_of_digits :: "string \<Rightarrow> nat" where
  "nat_of_digits s = foldl (\<lambda>n c. 10 * n + (of_char c - 48)) 0 s"

lemma digit_char: "d < 10 \<Longrightarrow> of_char (char_of (48 + d) :: char) = (48 + d :: nat)"
  by (simp add: of_char_of)

lemma digits_of_nonempty [simp]: "digits_of n \<noteq> []"
  by (subst digits_of.simps) simp

lemma is_digit_char: "(d :: nat) < 10 \<Longrightarrow> is_digit (char_of (48 + d))"
  by (simp add: is_digit_def digit_char)

lemma digits_of_digits: "list_all is_digit (digits_of n)"
proof (induction n rule: digits_of.induct)
  case (1 n)
  show ?case
    by (subst digits_of.simps) (use 1 in \<open>simp add: is_digit_char\<close>)
qed

lemma nat_of_digits_snoc: "nat_of_digits (s @ [c]) = 10 * nat_of_digits s + (of_char c - 48)"
  by (simp add: nat_of_digits_def)

lemma nat_of_digits_of [simp]: "nat_of_digits (digits_of n) = n"
proof (induction n rule: digits_of.induct)
  case (1 n)
  show ?case
  proof (cases "n < 10")
    case True
    then show ?thesis
      by (subst digits_of.simps) (simp add: nat_of_digits_def digit_char)
  next
    case False
    then have "digits_of n = digits_of (n div 10) @ [char_of (48 + n mod 10)]"
      by (subst digits_of.simps) simp
    then show ?thesis
      using 1 False by (simp add: nat_of_digits_snoc digit_char)
  qed
qed

section \<open>The tables\<close>

record server_project =
  sp_id :: string
  sp_tenantId :: string
  sp_name :: string
  sp_description :: "string option"
  sp_status :: string
  sp_deletedAt :: "time option"
  sp_rowVersion :: nat
  sp_updatedAt :: time

record server_task =
  st_id :: string
  st_tenantId :: string
  st_projectId :: string
  st_title :: string
  st_done :: bool
  st_deletedAt :: "time option"
  st_rowVersion :: nat
  st_updatedAt :: time

record sync_db =
  sd_projects :: "server_project list"
  sd_tasks :: "server_task list"
  sd_seq :: nat
  sd_horizon :: "nat option" \<comment> \<open>the row of \<open>SyncGcHorizon\<close>\<close>

definition project_by_id :: "sync_db \<Rightarrow> string \<Rightarrow> server_project option" where
  "project_by_id s i = find (\<lambda>p. sp_id p = i) (sd_projects s)"

definition task_by_id :: "sync_db \<Rightarrow> string \<Rightarrow> server_task option" where
  "task_by_id s i = find (\<lambda>t. st_id t = i) (sd_tasks s)"

text \<open>An insert or an update of one row; the trigger stamps the row.\<close>

definition insert_project :: "server_project \<Rightarrow> sync_db \<Rightarrow> sync_db" where
  "insert_project p s =
     s\<lparr>sd_projects := sd_projects s @ [p\<lparr>sp_rowVersion := Suc (sd_seq s)\<rparr>], sd_seq := Suc (sd_seq s)\<rparr>"

definition update_project :: "string \<Rightarrow> (server_project \<Rightarrow> server_project) \<Rightarrow> sync_db \<Rightarrow> sync_db" where
  "update_project i f s =
     s\<lparr>sd_projects := upd_where (\<lambda>p. sp_id p = i) (\<lambda>p. (f p)\<lparr>sp_rowVersion := Suc (sd_seq s)\<rparr>)
         (sd_projects s), sd_seq := Suc (sd_seq s)\<rparr>"

definition insert_task :: "server_task \<Rightarrow> sync_db \<Rightarrow> sync_db" where
  "insert_task t s =
     s\<lparr>sd_tasks := sd_tasks s @ [t\<lparr>st_rowVersion := Suc (sd_seq s)\<rparr>], sd_seq := Suc (sd_seq s)\<rparr>"

definition update_task :: "string \<Rightarrow> (server_task \<Rightarrow> server_task) \<Rightarrow> sync_db \<Rightarrow> sync_db" where
  "update_task i f s =
     s\<lparr>sd_tasks := upd_where (\<lambda>t. st_id t = i) (\<lambda>t. (f t)\<lparr>st_rowVersion := Suc (sd_seq s)\<rparr>)
         (sd_tasks s), sd_seq := Suc (sd_seq s)\<rparr>"

section \<open>Applying mutations\<close>

text \<open>A field of the payload, \<open>undefined\<close> when the payload or the field is missing; its truthiness.\<close>

definition field :: "payload option \<Rightarrow> string \<Rightarrow> json option" where
  "field d k = Option.bind d (\<lambda>p. map_of p k)"

definition field_truthy :: "json option \<Rightarrow> bool" where
  "field_truthy f = (case f of None \<Rightarrow> False | Some v \<Rightarrow> json_truthy v)"

text \<open>A value for a text column: \<open>None\<close> where Prisma would refuse its type.\<close>

fun text_value :: "json option \<Rightarrow> string option" where
  "text_value (Some (JStr s)) = Some s"
| "text_value _ = None"

fun nullable_text :: "json option \<Rightarrow> string option option" where
  "nullable_text None = Some None"
| "nullable_text (Some JNull) = Some None"
| "nullable_text (Some (JStr s)) = Some (Some s)"
| "nullable_text _ = None"

type_synonym verdict = "reject_reason + unit"

definition upsert_project :: "string \<Rightarrow> time \<Rightarrow> sync_mutation \<Rightarrow> sync_db \<Rightarrow> verdict \<times> sync_db" where
  "upsert_project tid now m s =
     (if \<not> field_truthy (field (m_data m) ''name'') \<or> text_value (field (m_data m) ''status'') = None
      then (Inl Invalid, s)
      else case (text_value (field (m_data m) ''name''), nullable_text (field (m_data m) ''description''),
                 text_value (field (m_data m) ''status'')) of
             (Some name, Some description, Some status) \<Rightarrow>
               (case project_by_id s (m_id m) of
                  None \<Rightarrow>
                    (Inr (), insert_project \<lparr>sp_id = m_id m, sp_tenantId = tid, sp_name = name,
                       sp_description = description, sp_status = status, sp_deletedAt = None,
                       sp_rowVersion = 0, sp_updatedAt = now\<rparr> s)
                | Some existing \<Rightarrow>
                    if sp_tenantId existing \<noteq> tid then (Inl IdConflict, s)
                    else (Inr (), update_project (m_id m) (\<lambda>p. p\<lparr>sp_name := name,
                           sp_description := description, sp_status := status,
                           sp_deletedAt := None, sp_updatedAt := now\<rparr>) s))
           | _ \<Rightarrow>
               (case project_by_id s (m_id m) of
                  None \<Rightarrow> (Inl Invalid, s)
                | Some existing \<Rightarrow>
                    (Inl (if sp_tenantId existing \<noteq> tid then IdConflict else Invalid), s)))"

definition delete_project :: "string \<Rightarrow> time \<Rightarrow> sync_mutation \<Rightarrow> sync_db \<Rightarrow> verdict \<times> sync_db" where
  "delete_project tid now m s =
     (case project_by_id s (m_id m) of
        None \<Rightarrow> (Inr (), s)
      | Some existing \<Rightarrow>
          if sp_tenantId existing \<noteq> tid then (Inl IdConflict, s)
          else if sp_deletedAt existing = None
          then (Inr (), update_project (m_id m) (\<lambda>p. p\<lparr>sp_deletedAt := Some now, sp_updatedAt := now\<rparr>) s)
          else (Inr (), s))"

text \<open>A task of a project the server never saw: the project is made as a stub.\<close>

definition ensure_parent :: "string \<Rightarrow> time \<Rightarrow> string \<Rightarrow> sync_db \<Rightarrow> sync_db" where
  "ensure_parent tid now pid s =
     (case project_by_id s pid of
        Some _ \<Rightarrow> s
      | None \<Rightarrow> insert_project \<lparr>sp_id = pid, sp_tenantId = tid, sp_name = pid, sp_description = None,
          sp_status = ''Active'', sp_deletedAt = None, sp_rowVersion = 0, sp_updatedAt = now\<rparr> s)"

definition upsert_task :: "string \<Rightarrow> time \<Rightarrow> sync_mutation \<Rightarrow> sync_db \<Rightarrow> verdict \<times> sync_db" where
  "upsert_task tid now m s =
     (if \<not> field_truthy (field (m_data m) ''projectId'') \<or> \<not> field_truthy (field (m_data m) ''title'')
      then (Inl Invalid, s)
      else case text_value (field (m_data m) ''projectId'') of
             None \<Rightarrow> (Inl Invalid, s)
           | Some pid \<Rightarrow>
               if (case project_by_id s pid of None \<Rightarrow> False | Some parent \<Rightarrow> sp_tenantId parent \<noteq> tid)
               then (Inl IdConflict, s)
               else let s1 = ensure_parent tid now pid s;
                        dn = field_truthy (field (m_data m) ''done'')
                    in case (task_by_id s1 (m_id m), text_value (field (m_data m) ''title'')) of
                         (None, None) \<Rightarrow> (Inl Invalid, s1)
                       | (None, Some title) \<Rightarrow>
                           (Inr (), insert_task \<lparr>st_id = m_id m, st_tenantId = tid, st_projectId = pid,
                              st_title = title, st_done = dn, st_deletedAt = None,
                              st_rowVersion = 0, st_updatedAt = now\<rparr> s1)
                       | (Some existing, title) \<Rightarrow>
                           if st_tenantId existing \<noteq> tid then (Inl IdConflict, s1)
                           else (case title of
                                   None \<Rightarrow> (Inl Invalid, s1)
                                 | Some ttl \<Rightarrow>
                                     (Inr (), update_task (m_id m) (\<lambda>t. t\<lparr>st_title := ttl, st_done := dn,
                                        st_deletedAt := None, st_updatedAt := now\<rparr>) s1)))"

definition delete_task :: "string \<Rightarrow> time \<Rightarrow> sync_mutation \<Rightarrow> sync_db \<Rightarrow> verdict \<times> sync_db" where
  "delete_task tid now m s =
     (case task_by_id s (m_id m) of
        None \<Rightarrow> (Inr (), s)
      | Some existing \<Rightarrow>
          if st_tenantId existing \<noteq> tid then (Inl IdConflict, s)
          else if st_deletedAt existing = None
          then (Inr (), update_task (m_id m) (\<lambda>t. t\<lparr>st_deletedAt := Some now, st_updatedAt := now\<rparr>) s)
          else (Inr (), s))"

definition apply_mutation :: "string \<Rightarrow> time \<Rightarrow> sync_mutation \<Rightarrow> sync_db \<Rightarrow> verdict \<times> sync_db" where
  "apply_mutation tid now m s =
     (case (m_table m, m_op m) of
        (OfProject, Upsert) \<Rightarrow> upsert_project tid now m s
      | (OfProject, Tombstone) \<Rightarrow> delete_project tid now m s
      | (OfTask, Upsert) \<Rightarrow> upsert_task tid now m s
      | (OfTask, Tombstone) \<Rightarrow> delete_task tid now m s)"

fun applyMutations ::
  "string \<Rightarrow> time \<Rightarrow> sync_mutation list \<Rightarrow> sync_db \<Rightarrow>
   (int list \<times> (int \<times> reject_reason) list) \<times> sync_db" where
  "applyMutations tid now [] s = (([], []), s)"
| "applyMutations tid now (m # ms) s =
     (case apply_mutation tid now m s of
        (v, s1) \<Rightarrow>
          (case applyMutations tid now ms s1 of
             ((ok, no), s2) \<Rightarrow>
               (case v of
                  Inr _ \<Rightarrow> ((m_seq m # ok, no), s2)
                | Inl why \<Rightarrow> ((ok, (m_seq m, why) # no), s2))))"

section \<open>Pulling changes\<close>

text \<open>\<open>findMany\<close> with \<open>rowVersion > cursor\<close>, in ascending order, \<open>take: limit\<close>.\<close>

definition pull_page ::
  "('r \<Rightarrow> string) \<Rightarrow> ('r \<Rightarrow> nat) \<Rightarrow> string \<Rightarrow> nat \<Rightarrow> nat \<Rightarrow> 'r list \<Rightarrow> 'r list" where
  "pull_page tenant ver tid cursor limit rows =
     take limit (sort_key ver (filter (\<lambda>r. tenant r = tid \<and> cursor < ver r) rows))"

definition page_max :: "('r \<Rightarrow> nat) \<Rightarrow> nat \<Rightarrow> 'r list \<Rightarrow> nat" where
  "page_max ver cursor page = (if page = [] then cursor else ver (last page))"

text \<open>The cursor a pull answers with, from the two pages.\<close>

definition next_cursor :: "nat \<Rightarrow> bool \<Rightarrow> bool \<Rightarrow> nat \<Rightarrow> nat \<Rightarrow> nat" where
  "next_cursor cursor prjTruncated tskTruncated maxPrj maxTsk =
     (let n = (if \<not> prjTruncated \<and> \<not> tskTruncated then (if maxTsk < maxPrj then maxPrj else maxTsk)
               else if prjTruncated \<and> tskTruncated then (if maxPrj < maxTsk then maxPrj else maxTsk)
               else if prjTruncated then maxPrj else maxTsk)
      in if n < cursor then cursor else n)"

record pull_result =
  pr_projects :: "server_project list"
  pr_tasks :: "server_task list"
  pr_cursor :: nat
  pr_hasMore :: bool

definition pullChanges :: "string \<Rightarrow> nat \<Rightarrow> nat \<Rightarrow> sync_db \<Rightarrow> pull_result" where
  "pullChanges tid cursor limit s =
     (let ps = pull_page sp_tenantId sp_rowVersion tid cursor limit (sd_projects s);
          ts = pull_page st_tenantId st_rowVersion tid cursor limit (sd_tasks s);
          prjTruncated = (length ps = limit);
          tskTruncated = (length ts = limit)
      in \<lparr>pr_projects = ps, pr_tasks = ts,
          pr_cursor = next_cursor cursor prjTruncated tskTruncated
            (page_max sp_rowVersion cursor ps) (page_max st_rowVersion cursor ts),
          pr_hasMore = (prjTruncated \<or> tskTruncated)\<rparr>)"

definition wire_of_project :: "server_project \<Rightarrow> wire_project" where
  "wire_of_project p = \<lparr>wp_id = sp_id p, wp_name = sp_name p, wp_description = sp_description p,
     wp_status = sp_status p, wp_deletedAt = sp_deletedAt p,
     wp_rowVersion = digits_of (sp_rowVersion p), wp_updatedAt = sp_updatedAt p\<rparr>"

definition wire_of_task :: "server_task \<Rightarrow> wire_task" where
  "wire_of_task t = \<lparr>wt_id = st_id t, wt_projectId = st_projectId t, wt_title = st_title t,
     wt_done = st_done t, wt_deletedAt = st_deletedAt t,
     wt_rowVersion = digits_of (st_rowVersion t), wt_updatedAt = st_updatedAt t\<rparr>"

section \<open>The route\<close>

datatype sync_answer =
    Answer sync_response
  | Refused nat string \<comment> \<open>an HTTP status and its message\<close>

text \<open>The zod schemas: what the types of \<open>sync_request\<close> do not already say.\<close>

definition valid_request :: "sync_request \<Rightarrow> bool" where
  "valid_request rq \<longleftrightarrow>
     length (rq_clientId rq) \<le> 100 \<and> rq_cursor rq \<noteq> [] \<and> list_all is_digit (rq_cursor rq)
     \<and> length (rq_mutations rq) \<le> 5000
     \<and> list_all (\<lambda>m. 1 \<le> length (m_id m) \<and> length (m_id m) \<le> 500) (rq_mutations rq)"

definition pull_limit :: "int option \<Rightarrow> nat" where
  "pull_limit l = nat (Orderings.max 1 (Orderings.min (nullish l DEFAULT_PULL_LIMIT) MAX_PULL_LIMIT))"

definition behind_horizon :: "nat \<Rightarrow> sync_db \<Rightarrow> bool" where
  "behind_horizon cursor s =
     (case sd_horizon s of None \<Rightarrow> False | Some h \<Rightarrow> 0 < cursor \<and> cursor < h)"

text \<open>
  \<open>session\<close> is the workspace of \<open>requireApiSession\<close>, \<open>None\<close> when there is none; \<open>body\<close> is \<open>None\<close>
  when the request's text is not JSON.
\<close>

definition sync_post ::
  "string option \<Rightarrow> sync_request option \<Rightarrow> time \<Rightarrow> sync_db \<Rightarrow> sync_answer \<times> sync_db" where
  "sync_post session body now s =
     (case (session, body) of
        (None, _) \<Rightarrow> (Refused 401 ''Unauthorized'', s)
      | (Some tid, None) \<Rightarrow> (Refused 400 ''Invalid JSON body'', s)
      | (Some tid, Some rq) \<Rightarrow>
          if \<not> valid_request rq then (Refused 400 ''Invalid sync request'', s)
          else (case applyMutations tid now (rq_mutations rq) s of
                  ((ok, no), s1) \<Rightarrow>
                    let cursor = nat_of_digits (rq_cursor rq)
                    in if behind_horizon cursor s1
                       then (Answer \<lparr>rs_applied = ok, rs_rejected = no, rs_projects = [], rs_tasks = [],
                               rs_cursor = rq_cursor rq, rs_hasMore = False, rs_resyncRequired = True\<rparr>, s1)
                       else let pull = pullChanges tid cursor (pull_limit (rq_pullLimit rq)) s1
                            in (Answer \<lparr>rs_applied = ok, rs_rejected = no,
                                  rs_projects = map wire_of_project (pr_projects pull),
                                  rs_tasks = map wire_of_task (pr_tasks pull),
                                  rs_cursor = digits_of (pr_cursor pull), rs_hasMore = pr_hasMore pull,
                                  rs_resyncRequired = False\<rparr>, s1)))"

end
