(* ===== verification/Sync_Feed.thy ===== *)
theory Sync_Feed
  imports Prelude
begin

text \<open>
  What sync promises, away from its tables and its wire format. A feed is a list of keyed rows;
  every write gives a row a version above every version drawn before. A replica maps keys to what
  a client shows (\<open>None\<close>: nothing, which is also the view of a tombstone), holds a cursor, and
  shields the keys it has unsent edits of (\<open>pend\<close>).

  \<open>synced rows pend P c\<close> is the contract of the cursor: every row at or below it that is not shielded
  is shown as it is, and nothing is shown that is not in the feed. The lemmas say which events keep
  it; the locale \<open>cursor_feed\<close> states what a page must be for the cursor to advance over it, and
  proves once that a replica that pulls to the end shows exactly the feed.
\<close>

record 'l feed_row =
  fr_key :: string
  fr_ver :: nat
  fr_view :: "'l option"

definition feed_ok :: "'l feed_row list \<Rightarrow> bool" where
  "feed_ok rows \<longleftrightarrow> unique_on fr_key rows \<and> unique_on fr_ver rows \<and> (\<forall>r \<in> set rows. 0 < fr_ver r)"

definition shown :: "'l feed_row list \<Rightarrow> string \<Rightarrow> 'l option" where
  "shown rows k = Option.bind (find (\<lambda>r. fr_key r = k) rows) fr_view"

definition synced :: "'l feed_row list \<Rightarrow> string set \<Rightarrow> (string \<Rightarrow> 'l option) \<Rightarrow> nat \<Rightarrow> bool" where
  "synced rows pend P c \<longleftrightarrow>
     (\<forall>r \<in> set rows. fr_key r \<notin> pend \<and> fr_ver r \<le> c \<longrightarrow> P (fr_key r) = fr_view r)
     \<and> (\<forall>k. k \<notin> pend \<and> k \<notin> fr_key ` set rows \<longrightarrow> P k = None)"

text \<open>One row of a page put into the replica, and a whole page.\<close>

definition merge_row ::
  "string set \<Rightarrow> (string \<Rightarrow> 'l option) \<Rightarrow> 'l feed_row \<Rightarrow> (string \<Rightarrow> 'l option)" where
  "merge_row pend P r = (if fr_key r \<in> pend then P else P(fr_key r := fr_view r))"

definition merge_page ::
  "string set \<Rightarrow> 'l feed_row list \<Rightarrow> (string \<Rightarrow> 'l option) \<Rightarrow> (string \<Rightarrow> 'l option)" where
  "merge_page pend page P = foldl (merge_row pend) P page"

text \<open>What other writers may do: change rows and add some, each under a version above \<open>n\<close>.\<close>

definition grown :: "nat \<Rightarrow> 'l feed_row list \<Rightarrow> 'l feed_row list \<Rightarrow> bool" where
  "grown n rows rows' \<longleftrightarrow>
     (\<forall>r \<in> set rows'. r \<in> set rows \<or> n < fr_ver r) \<and> fr_key ` set rows \<subseteq> fr_key ` set rows'"

text \<open>
  A page that may be old: it holds every row of the versions \<open>(c, n]\<close>, and a row of it that has
  changed since has a version above \<open>n\<close>.
\<close>

definition covers :: "nat \<Rightarrow> nat \<Rightarrow> 'l feed_row list \<Rightarrow> 'l feed_row list \<Rightarrow> bool" where
  "covers c n rows page \<longleftrightarrow>
     unique_on fr_key page
     \<and> (\<forall>q \<in> set page. \<exists>r \<in> set rows. fr_key r = fr_key q \<and> (r = q \<or> n < fr_ver r))
     \<and> (\<forall>r \<in> set rows. fr_ver r \<le> n \<longrightarrow> fr_ver r \<le> c \<or> r \<in> set page)"

text \<open>A key whose edit the feed has taken: its row is above the cursor, or gone on both sides.\<close>

definition taken :: "'l feed_row list \<Rightarrow> (string \<Rightarrow> 'l option) \<Rightarrow> nat \<Rightarrow> string \<Rightarrow> bool" where
  "taken rows P c k \<longleftrightarrow>
     (\<forall>r \<in> set rows. fr_key r = k \<longrightarrow> c < fr_ver r \<or> fr_view r = None \<and> P k = None)
     \<and> (k \<notin> fr_key ` set rows \<longrightarrow> P k = None)"

section \<open>Events that keep a replica synced\<close>

lemma synced_rowD:
  "synced rows pend P c \<Longrightarrow> r \<in> set rows \<Longrightarrow> fr_key r \<notin> pend \<Longrightarrow> fr_ver r \<le> c \<Longrightarrow> P (fr_key r) = fr_view r"
  by (auto simp: synced_def)

lemma synced_missingD:
  "synced rows pend P c \<Longrightarrow> k \<notin> pend \<Longrightarrow> k \<notin> fr_key ` set rows \<Longrightarrow> P k = None"
  by (auto simp: synced_def)

lemma merge_page_Nil [simp]: "merge_page pend [] P = P"
  by (simp add: merge_page_def)

lemma merge_page_snoc [simp]:
  "merge_page pend (page @ [r]) P = merge_row pend (merge_page pend page P) r"
  by (simp add: merge_page_def)

lemma merge_page_shielded: "k \<in> pend \<Longrightarrow> merge_page pend page P k = P k"
  by (induction page rule: rev_induct) (auto simp: merge_row_def)

lemma merge_page_other: "k \<notin> fr_key ` set page \<Longrightarrow> merge_page pend page P k = P k"
  by (induction page rule: rev_induct) (auto simp: merge_row_def)

lemma merge_page_row:
  "unique_on fr_key page \<Longrightarrow> q \<in> set page \<Longrightarrow> fr_key q \<notin> pend \<Longrightarrow>
   merge_page pend page P (fr_key q) = fr_view q"
proof (induction page rule: rev_induct)
  case (snoc x xs)
  have "fr_key q \<noteq> fr_key x \<or> q = x"
    using snoc.prems(1,2) by (auto simp: unique_on_def rev_image_eqI)
  then show ?case
    using snoc by (auto simp: merge_row_def unique_on_def)
qed simp

text \<open>A wider shield changes the result only behind it.\<close>

lemma merge_page_shield:
  "k \<notin> S \<Longrightarrow> merge_page (pend \<union> S) page P k = merge_page pend page P k"
  by (induction page rule: rev_induct) (auto simp: merge_row_def)

theorem synced_merge:
  assumes "synced rows pend P c" and "unique_on fr_key rows" and cov: "covers c n rows page"
  shows "synced rows pend (merge_page pend page P) n"
  unfolding synced_def
proof (intro conjI ballI allI impI)
  fix r
  assume r: "r \<in> set rows" and k: "fr_key r \<notin> pend \<and> fr_ver r \<le> n"
  show "merge_page pend page P (fr_key r) = fr_view r"
  proof (cases "fr_key r \<in> fr_key ` set page")
    case True
    then obtain q where q: "q \<in> set page" "fr_key q = fr_key r"
      by auto
    then obtain r' where "r' \<in> set rows" "fr_key r' = fr_key q" "r' = q \<or> n < fr_ver r'"
      using cov by (auto simp: covers_def)
    then have "q = r"
      using unique_on_eqD [OF assms(2)] r k q(2) by (metis leD)
    then show ?thesis
      using merge_page_row [of page q pend P] cov q k by (simp add: covers_def)
  next
    case False
    then have "fr_ver r \<le> c"
      using cov r k by (auto simp: covers_def)
    then show ?thesis
      using False synced_rowD [OF assms(1) r] k by (simp add: merge_page_other)
  qed
next
  fix k
  assume k: "k \<notin> pend \<and> k \<notin> fr_key ` set rows"
  then have "k \<notin> fr_key ` set page"
    using cov by (auto simp: covers_def) (metis image_eqI)
  then show "merge_page pend page P k = None"
    using synced_missingD [OF assms(1)] k by (simp add: merge_page_other)
qed

lemma synced_grown:
  "synced rows pend P c \<Longrightarrow> grown n rows rows' \<Longrightarrow> c \<le> n \<Longrightarrow> synced rows' pend P c"
  unfolding synced_def grown_def by (meson le_trans leD subsetD)

lemma synced_edit:
  assumes "synced rows pend P c" and "\<And>k. k \<notin> pend' \<Longrightarrow> k \<notin> pend \<and> P' k = P k"
  shows "synced rows pend' P' c"
  using assms(1) unfolding synced_def by (metis assms(2))

lemma synced_taken:
  assumes "synced rows pend P c" and "\<And>k. k \<in> pend \<Longrightarrow> k \<notin> pend' \<Longrightarrow> taken rows P c k"
  shows "synced rows pend' P c"
  unfolding synced_def
proof (intro conjI ballI allI impI)
  fix r
  assume r: "r \<in> set rows" and k: "fr_key r \<notin> pend' \<and> fr_ver r \<le> c"
  show "P (fr_key r) = fr_view r"
  proof (cases "fr_key r \<in> pend")
    case True
    then show ?thesis
      using assms(2) [of "fr_key r"] r k unfolding taken_def by (metis leD)
  qed (use synced_rowD [OF assms(1) r] k in blast)
next
  fix k
  assume k: "k \<notin> pend' \<and> k \<notin> fr_key ` set rows"
  show "P k = None"
  proof (cases "k \<in> pend")
    case True
    then show ?thesis
      using assms(2) [of k] k unfolding taken_def by metis
  qed (use synced_missingD [OF assms(1)] k in blast)
qed

lemma taken_grown: "taken rows P c k \<Longrightarrow> grown n rows rows' \<Longrightarrow> c \<le> n \<Longrightarrow> taken rows' P c k"
  unfolding taken_def grown_def by (metis le_less_trans subsetD)

lemma covers_grown:
  assumes "covers c n rows page" and "unique_on fr_key rows" and "grown m rows rows'" and "n \<le> m"
  shows "covers c n rows' page"
  unfolding covers_def
proof (intro conjI ballI impI)
  show "unique_on fr_key page"
    using assms(1) by (simp add: covers_def)
next
  fix q
  assume "q \<in> set page"
  then obtain r where r: "r \<in> set rows" "fr_key r = fr_key q" "r = q \<or> n < fr_ver r"
    using assms(1) by (auto simp: covers_def)
  then obtain r' where r': "r' \<in> set rows'" "fr_key r' = fr_key q"
    using assms(3) unfolding grown_def by (metis imageE image_eqI subsetD)
  moreover have "r' = q \<or> n < fr_ver r'"
  proof (cases "r' \<in> set rows")
    case True
    then show ?thesis
      using unique_on_eqD [OF assms(2)] r r'(2) by metis
  next
    case False
    then show ?thesis
      using assms(3,4) r'(1) by (auto simp: grown_def)
  qed
  ultimately show "\<exists>r \<in> set rows'. fr_key r = fr_key q \<and> (r = q \<or> n < fr_ver r)"
    by blast
next
  fix r
  assume "r \<in> set rows'" "fr_ver r \<le> n"
  then show "fr_ver r \<le> c \<or> r \<in> set page"
    using assms(1,3,4) by (auto simp: covers_def grown_def)
qed

lemma grown_refl: "grown n rows rows"
  by (simp add: grown_def)

lemma grown_trans: "grown n a b \<Longrightarrow> grown m b d \<Longrightarrow> n \<le> m \<Longrightarrow> grown n a d"
  unfolding grown_def by (meson le_less_trans order_trans)

lemma grown_mono: "grown n a b \<Longrightarrow> m \<le> n \<Longrightarrow> grown m a b"
  by (auto simp: grown_def)

text \<open>With the cursor past every row, a synced replica shows the feed.\<close>

lemma synced_shown:
  assumes "synced rows pend P c" and "k \<notin> pend" and "\<And>r. r \<in> set rows \<Longrightarrow> fr_ver r \<le> c"
  shows "P k = shown rows k"
proof (cases "find (\<lambda>r. fr_key r = k) rows")
  case None
  then have "k \<notin> fr_key ` set rows"
    using find_key_None [of fr_key k rows] by blast
  then show ?thesis
    using synced_missingD [OF assms(1,2)] None by (simp add: shown_def)
next
  case (Some r)
  then show ?thesis
    using find_SomeD [OF Some] synced_rowD [OF assms(1), of r] assms(2,3) by (auto simp: shown_def)
qed

section \<open>Paging through a feed\<close>

text \<open>
  \<open>rows tid s\<close> is the feed of a workspace in the server state \<open>s\<close>, \<open>pull tid c s\<close> the page, the next
  cursor and whether there is more; \<open>ok\<close> is what the server keeps of its tables.
\<close>

locale cursor_feed =
  fixes ok :: "'s \<Rightarrow> bool"
    and rows :: "string \<Rightarrow> 's \<Rightarrow> 'l feed_row list"
    and pull :: "string \<Rightarrow> nat \<Rightarrow> 's \<Rightarrow> 'l feed_row list \<times> nat \<times> bool"
  assumes rows_ok: "ok s \<Longrightarrow> feed_ok (rows tid s)"
    and page_covers: "ok s \<Longrightarrow> pull tid c s = (page, n, again) \<Longrightarrow> covers c n (rows tid s) page"
    and page_advances: "ok s \<Longrightarrow> pull tid c s = (page, n, again) \<Longrightarrow> c \<le> n \<and> (again \<longrightarrow> c < n)"
    and last_page: "ok s \<Longrightarrow> pull tid c s = (page, n, False) \<Longrightarrow> r \<in> set (rows tid s) \<Longrightarrow> fr_ver r \<le> n"
begin

text \<open>The client's loop over a server at rest: at most \<open>k\<close> pages.\<close>

fun pull_loop ::
  "nat \<Rightarrow> string \<Rightarrow> 's \<Rightarrow> string set \<Rightarrow> (string \<Rightarrow> 'l option) \<times> nat \<Rightarrow> bool \<times> (string \<Rightarrow> 'l option) \<times> nat" where
  "pull_loop 0 tid s pend (P, c) = (False, P, c)"
| "pull_loop (Suc k) tid s pend (P, c) =
     (case pull tid c s of (page, n, again) \<Rightarrow>
        if again then pull_loop k tid s pend (merge_page pend page P, n)
        else (True, merge_page pend page P, n))"

lemma page_keeps_synced:
  assumes "ok s" and "pull tid c s = (page, n, again)" and "synced (rows tid s) pend P c"
  shows "synced (rows tid s) pend (merge_page pend page P) n"
  using synced_merge [OF assms(3) _ page_covers [OF assms(1,2)]] rows_ok [OF assms(1)]
  by (simp add: feed_ok_def)

lemma last_page_shows_feed:
  assumes "ok s" and "pull tid c s = (page, n, False)" and "synced (rows tid s) pend P c" and "k \<notin> pend"
  shows "merge_page pend page P k = shown (rows tid s) k"
  using synced_shown [OF page_keeps_synced [OF assms(1-3)] assms(4)] last_page [OF assms(1,2)] by blast

lemma pull_loop_shows_feed:
  assumes "ok s" and "synced (rows tid s) pend P c"
    and "pull_loop k tid s pend (P, c) = (True, P', c')" and "i \<notin> pend"
  shows "P' i = shown (rows tid s) i"
  using assms(2,3)
proof (induction k arbitrary: P c)
  case 0
  then show ?case
    by simp
next
  case (Suc k)
  obtain page n again where pull: "pull tid c s = (page, n, again)"
    by (metis prod_cases3)
  show ?case
  proof (cases again)
    case True
    then show ?thesis
      using Suc.IH [OF page_keeps_synced [OF assms(1) pull Suc.prems(1)]] Suc.prems(2) pull by simp
  next
    case False
    then show ?thesis
      using last_page_shows_feed [OF assms(1) _ Suc.prems(1) assms(4)] Suc.prems(2) pull by auto
  qed
qed

text \<open>The loop ends: every page but the last moves the cursor, and none moves past the last row.\<close>

lemma pull_loop_ends:
  assumes "ok s" and "\<And>c' page n. pull tid c' s = (page, n, True) \<Longrightarrow> n \<le> head"
  shows "head < c + k \<Longrightarrow> 0 < k \<Longrightarrow> fst (pull_loop k tid s pend (P, c))"
proof (induction k arbitrary: P c)
  case (Suc k)
  obtain page n again where pull: "pull tid c s = (page, n, again)"
    by (metis prod_cases3)
  show ?case
  proof (cases again)
    case True
    then have "c < n" "n \<le> head"
      using page_advances [OF assms(1) pull] assms(2) pull by auto
    then show ?thesis
      using Suc.IH [of n] Suc.prems True pull by simp
  qed (simp add: pull)
qed simp

end

end
