(* ===== verification/Sync_Pages.thy ===== *)
theory Sync_Pages
  imports Sync_Server Sync_Feed
begin

text \<open>
  The endpoint as a feed. \<open>sync_ok\<close> is what the server keeps of its tables; \<open>evolves\<close> what a request
  may do to them as others see it: every row it writes has a version above all earlier ones, and no
  row disappears. The interpretations \<open>project_pages\<close> and \<open>task_pages\<close> show that \<open>pullChanges\<close>, with
  its one cursor over two tables, pages through each of them without a gap.
\<close>

section \<open>What a client shows of a row\<close>

text \<open>The tables of \<open>lib/offline/tenantDb.ts\<close> that mirror the server's.\<close>

record local_project =
  lp_id :: string
  lp_name :: string
  lp_description :: "string option"
  lp_status :: string
  lp_updatedAt :: time

record local_task =
  lt_id :: string
  lt_projectId :: string
  lt_title :: string
  lt_done :: bool
  lt_updatedAt :: time

definition local_of_project :: "server_project \<Rightarrow> local_project option" where
  "local_of_project p =
     (if sp_deletedAt p \<noteq> None then None
      else Some \<lparr>lp_id = sp_id p, lp_name = sp_name p, lp_description = sp_description p,
        lp_status = sp_status p, lp_updatedAt = sp_updatedAt p\<rparr>)"

definition local_of_task :: "server_task \<Rightarrow> local_task option" where
  "local_of_task t =
     (if st_deletedAt t \<noteq> None then None
      else Some \<lparr>lt_id = st_id t, lt_projectId = st_projectId t, lt_title = st_title t,
        lt_done = st_done t, lt_updatedAt = st_updatedAt t\<rparr>)"

definition project_row :: "server_project \<Rightarrow> local_project feed_row" where
  "project_row p = \<lparr>fr_key = sp_id p, fr_ver = sp_rowVersion p, fr_view = local_of_project p\<rparr>"

definition task_row :: "server_task \<Rightarrow> local_task feed_row" where
  "task_row t = \<lparr>fr_key = st_id t, fr_ver = st_rowVersion t, fr_view = local_of_task t\<rparr>"

lemma project_row_simps [simp]:
  "fr_key (project_row p) = sp_id p" "fr_ver (project_row p) = sp_rowVersion p"
  "fr_view (project_row p) = local_of_project p"
  by (simp_all add: project_row_def)

lemma task_row_simps [simp]:
  "fr_key (task_row t) = st_id t" "fr_ver (task_row t) = st_rowVersion t"
  "fr_view (task_row t) = local_of_task t"
  by (simp_all add: task_row_def)

definition project_feed :: "string \<Rightarrow> sync_db \<Rightarrow> local_project feed_row list" where
  "project_feed tid s = map project_row (filter (\<lambda>p. sp_tenantId p = tid) (sd_projects s))"

definition task_feed :: "string \<Rightarrow> sync_db \<Rightarrow> local_task feed_row list" where
  "task_feed tid s = map task_row (filter (\<lambda>t. st_tenantId t = tid) (sd_tasks s))"

lemma in_project_feed: "r \<in> set (project_feed tid s) \<longleftrightarrow> (\<exists>p \<in> set (sd_projects s). sp_tenantId p = tid \<and> r = project_row p)"
  by (auto simp: project_feed_def)

lemma in_task_feed: "r \<in> set (task_feed tid s) \<longleftrightarrow> (\<exists>t \<in> set (sd_tasks s). st_tenantId t = tid \<and> r = task_row t)"
  by (auto simp: task_feed_def)

lemma project_by_id_None: "project_by_id s i = None \<longleftrightarrow> (\<forall>p \<in> set (sd_projects s). sp_id p \<noteq> i)"
  by (auto simp: project_by_id_def find_None_iff)

lemma task_by_id_None: "task_by_id s i = None \<longleftrightarrow> (\<forall>t \<in> set (sd_tasks s). st_id t \<noteq> i)"
  by (auto simp: task_by_id_def find_None_iff)

lemma project_by_id_Some: "project_by_id s i = Some p \<Longrightarrow> p \<in> set (sd_projects s) \<and> sp_id p = i"
  by (auto simp: project_by_id_def dest: find_SomeD)

lemma task_by_id_Some: "task_by_id s i = Some t \<Longrightarrow> t \<in> set (sd_tasks s) \<and> st_id t = i"
  by (auto simp: task_by_id_def dest: find_SomeD)

section \<open>The invariant of the tables\<close>

definition table_ok :: "('r \<Rightarrow> string) \<Rightarrow> ('r \<Rightarrow> nat) \<Rightarrow> nat \<Rightarrow> 'r list \<Rightarrow> bool" where
  "table_ok key ver top_ver rows \<longleftrightarrow>
     unique_on key rows \<and> unique_on ver rows \<and> (\<forall>r \<in> set rows. 0 < ver r \<and> ver r \<le> top_ver)"

definition sync_ok :: "sync_db \<Rightarrow> bool" where
  "sync_ok s \<longleftrightarrow> table_ok sp_id sp_rowVersion (sd_seq s) (sd_projects s)
     \<and> table_ok st_id st_rowVersion (sd_seq s) (sd_tasks s)"

text \<open>A table after a write, seen from outside: old rows, or rows above \<open>n\<close>; no row is lost.\<close>

definition table_evolves :: "('r \<Rightarrow> string \<times> string) \<Rightarrow> ('r \<Rightarrow> nat) \<Rightarrow> nat \<Rightarrow> 'r list \<Rightarrow> 'r list \<Rightarrow> bool" where
  "table_evolves idOf ver n rows rows' \<longleftrightarrow>
     (\<forall>r \<in> set rows'. r \<in> set rows \<or> n < ver r) \<and> idOf ` set rows \<subseteq> idOf ` set rows'"

definition evolves :: "sync_db \<Rightarrow> sync_db \<Rightarrow> bool" where
  "evolves s s' \<longleftrightarrow> sd_seq s \<le> sd_seq s' \<and> sd_horizon s' = sd_horizon s
     \<and> table_evolves (\<lambda>p. (sp_tenantId p, sp_id p)) sp_rowVersion (sd_seq s) (sd_projects s) (sd_projects s')
     \<and> table_evolves (\<lambda>t. (st_tenantId t, st_id t)) st_rowVersion (sd_seq s) (sd_tasks s) (sd_tasks s')"

lemma table_ok_append:
  "table_ok key ver n rows \<Longrightarrow> key r \<notin> key ` set rows \<Longrightarrow> ver r = Suc n \<Longrightarrow> table_ok key ver (Suc n) (rows @ [r])"
  by (fastforce simp: table_ok_def unique_on_append_one)

lemma table_ok_Suc: "table_ok key ver n rows \<Longrightarrow> table_ok key ver (Suc n) rows"
  by (fastforce simp: table_ok_def)

lemma table_ok_upd:
  assumes "table_ok key ver n rows" and "\<And>r. key (f r) = key r" "\<And>r. ver (f r) = Suc n"
  shows "table_ok key ver (Suc n) (upd_where (\<lambda>r. key r = i) f rows)"
proof -
  have keys: "unique_on key (upd_where (\<lambda>r. key r = i) f rows)"
    using assms(1,2) by (simp add: table_ok_def unique_on_upd_where)
  have "unique_on ver (upd_where (\<lambda>r. key r = i) f rows)"
    using assms(1)
  proof (induction rows)
    case (Cons x xs)
    then have xs: "table_ok key ver n xs" and x: "key x \<notin> key ` set xs" "ver x \<notin> ver ` set xs" "ver x \<le> n"
      by (auto simp: table_ok_def unique_on_def)
    show ?case
    proof (cases "key x = i")
      case True
      have "\<forall>r \<in> set xs. key r \<noteq> i"
        using x(1) True by (metis image_eqI)
      then have "upd_where (\<lambda>r. key r = i) f xs = xs"
        using upd_where_none [of xs "\<lambda>r. key r = i" f] by blast
      moreover have "Suc n \<notin> ver ` set xs"
        using xs by (fastforce simp: table_ok_def)
      ultimately show ?thesis
        using True xs by (simp add: unique_on_def table_ok_def assms(3))
    next
      case False
      have "ver x \<notin> ver ` set (upd_where (\<lambda>r. key r = i) f xs)"
        using x(2,3) assms(3) by (fastforce simp: in_upd_where image_iff)
      then show ?thesis
        using False Cons.IH [OF xs] by (simp add: unique_on_def)
    qed
  qed simp
  then show ?thesis
    using keys assms by (auto simp: table_ok_def in_upd_where le_SucI)
qed

lemma table_evolves_refl [simp]: "table_evolves idOf ver n rows rows"
  by (simp add: table_evolves_def)

lemma table_evolves_append: "n < ver r \<Longrightarrow> table_evolves idOf ver n rows (rows @ [r])"
  by (auto simp: table_evolves_def)

lemma table_evolves_upd:
  assumes "\<And>r. idOf (f r) = idOf r" and "\<And>r. n < ver (f r)"
  shows "table_evolves idOf ver n rows (upd_where P f rows)"
  using assms by (auto simp: table_evolves_def in_upd_where image_upd_where_same)

lemma table_evolves_trans:
  assumes "table_evolves idOf ver n a b" and "table_evolves idOf ver m b d" and "n \<le> m"
  shows "table_evolves idOf ver n a d"
  unfolding table_evolves_def
proof (intro conjI ballI)
  fix r
  assume "r \<in> set d"
  then show "r \<in> set a \<or> n < ver r"
    using assms by (auto simp: table_evolves_def dest: le_less_trans)
next
  have "idOf ` set a \<subseteq> idOf ` set b" "idOf ` set b \<subseteq> idOf ` set d"
    using assms(1,2) by (simp_all add: table_evolves_def)
  then show "idOf ` set a \<subseteq> idOf ` set d"
    by (rule subset_trans)
qed

lemma evolves_refl [simp, intro]: "evolves s s"
  by (simp add: evolves_def)

lemma evolves_trans:
  assumes "evolves a b" and "evolves b d"
  shows "evolves a d"
proof -
  have "sd_seq a \<le> sd_seq b"
    using assms(1) by (simp add: evolves_def)
  then show ?thesis
    using assms by (auto simp: evolves_def intro: table_evolves_trans)
qed

section \<open>Every mutation keeps the invariant and evolves the tables\<close>

text \<open>\<open>good s s'\<close>: a write from \<open>s\<close> led to \<open>s'\<close>, both being as they should.\<close>

definition good :: "sync_db \<Rightarrow> sync_db \<Rightarrow> bool" where
  "good s s' \<longleftrightarrow> evolves s s' \<and> (sync_ok s \<longrightarrow> sync_ok s')"

lemma good_refl [simp, intro]: "good s s"
  by (simp add: good_def)

lemma good_trans: "good a b \<Longrightarrow> good b d \<Longrightarrow> good a d"
  unfolding good_def by (meson evolves_trans)

lemma good_insert_project:
  assumes "project_by_id s (sp_id p) = None"
  shows "good s (insert_project p s)"
proof -
  have "sp_id p \<notin> sp_id ` set (sd_projects s)"
    using assms by (auto simp: project_by_id_None)
  then show ?thesis
    by (simp add: good_def evolves_def sync_ok_def insert_project_def table_evolves_append
        table_ok_append table_ok_Suc)
qed

lemma good_insert_task:
  assumes "task_by_id s (st_id t) = None"
  shows "good s (insert_task t s)"
proof -
  have "st_id t \<notin> st_id ` set (sd_tasks s)"
    using assms by (auto simp: task_by_id_None)
  then show ?thesis
    by (simp add: good_def evolves_def sync_ok_def insert_task_def table_evolves_append
        table_ok_append table_ok_Suc)
qed

lemma good_update_project:
  "(\<And>p. sp_id (f p) = sp_id p \<and> sp_tenantId (f p) = sp_tenantId p) \<Longrightarrow> good s (update_project i f s)"
  by (simp add: good_def evolves_def sync_ok_def update_project_def table_evolves_upd table_ok_upd
      table_ok_Suc)

lemma good_update_task:
  "(\<And>t. st_id (f t) = st_id t \<and> st_tenantId (f t) = st_tenantId t) \<Longrightarrow> good s (update_task i f s)"
  by (simp add: good_def evolves_def sync_ok_def update_task_def table_evolves_upd table_ok_upd
      table_ok_Suc)

lemma good_ensure_parent: "good s (ensure_parent tid now pid s)"
  by (auto simp: ensure_parent_def split: option.splits intro: good_insert_project)

lemma task_by_id_ensure_parent [simp]: "task_by_id (ensure_parent tid now pid s) = task_by_id s"
  by (auto simp: ensure_parent_def insert_project_def task_by_id_def split: option.splits)

lemma good_upsert_project: "good s (snd (upsert_project tid now m s))"
  by (auto simp: upsert_project_def split: option.splits intro!: good_insert_project good_update_project)

lemma good_delete_project: "good s (snd (delete_project tid now m s))"
  by (auto simp: delete_project_def split: option.splits intro!: good_update_project)

lemma good_upsert_task: "good s (snd (upsert_task tid now m s))"
  by (auto simp: upsert_task_def Let_def split: option.splits
      intro!: good_ensure_parent good_trans [OF good_ensure_parent good_insert_task]
        good_trans [OF good_ensure_parent good_update_task])

lemma good_delete_task: "good s (snd (delete_task tid now m s))"
  by (auto simp: delete_task_def split: option.splits intro!: good_update_task)

lemma good_apply_mutation: "good s (snd (apply_mutation tid now m s))"
  by (simp add: apply_mutation_def good_upsert_project good_delete_project good_upsert_task
      good_delete_task split: sync_table.splits sync_op.splits)

lemma good_applyMutations: "good s (snd (applyMutations tid now ms s))"
proof (induction ms arbitrary: s)
  case (Cons m ms)
  obtain v s1 ok no s2 where "apply_mutation tid now m s = (v, s1)"
    and "applyMutations tid now ms s1 = ((ok, no), s2)"
    by (metis prod.collapse)
  then show ?case
    using good_apply_mutation [of s tid now m] Cons.IH [of s1]
    by (auto split: sum.splits intro: good_trans)
qed simp

lemma good_sync_post: "good s (snd (sync_post session body now s))"
proof (cases "\<exists>tid rq. session = Some tid \<and> body = Some rq \<and> valid_request rq")
  case True
  then obtain tid rq where eq: "session = Some tid" "body = Some rq" "valid_request rq"
    by blast
  obtain ok no s1 where ap: "applyMutations tid now (rq_mutations rq) s = ((ok, no), s1)"
    by (metis prod.collapse)
  then have "snd (sync_post session body now s) = s1"
    by (simp add: sync_post_def eq Let_def)
  then show ?thesis
    using good_applyMutations [of s tid now "rq_mutations rq"] ap by simp
qed (auto simp: sync_post_def split: option.splits)

section \<open>One page of one table\<close>

lemma page_subset: "set (pull_page tenant ver tid c l rows) \<subseteq> {r \<in> set rows. tenant r = tid \<and> c < ver r}"
  by (auto simp: pull_page_def dest: in_set_takeD)

lemma page_length: "length (pull_page tenant ver tid c l rows) \<le> l"
  by (simp add: pull_page_def)

lemma page_unique:
  assumes "unique_on key rows"
  shows "unique_on key (pull_page tenant ver tid c l rows)"
proof -
  have "distinct (map key (filter (\<lambda>r. tenant r = tid \<and> c < ver r) rows))"
    using assms by (simp add: unique_on_def distinct_map_filter)
  then have "distinct (map key (sort_key ver (filter (\<lambda>r. tenant r = tid \<and> c < ver r) rows)))"
    by (simp add: distinct_map)
  then show ?thesis
    by (simp add: pull_page_def unique_on_def take_map [symmetric])
qed

lemma short_page_complete:
  assumes "length (pull_page tenant ver tid c l rows) \<noteq> l" and "r \<in> set rows" "tenant r = tid" "c < ver r"
  shows "r \<in> set (pull_page tenant ver tid c l rows)"
proof -
  have "length (sort_key ver (filter (\<lambda>r. tenant r = tid \<and> c < ver r) rows)) \<le> l"
    using assms(1) by (simp add: pull_page_def)
  then show ?thesis
    using assms(2-4) by (simp add: pull_page_def)
qed

lemma sorted_take_last:
  assumes "sorted (map ver L)" and "distinct (map ver L)" and "x \<in> set L" and "take l L \<noteq> []"
    and "ver x \<le> ver (last (take l L))"
  shows "x \<in> set (take l L)"
proof (rule ccontr)
  assume x: "x \<notin> set (take l L)"
  then have "x \<in> set (drop l L)"
    using assms(3) by (metis append_take_drop_id Un_iff set_append)
  moreover have y: "last (take l L) \<in> set (take l L)"
    using assms(4) by (rule last_in_set)
  moreover have "sorted (map ver (take l L) @ map ver (drop l L))"
    using assms(1) by (simp flip: map_append)
  ultimately have "ver (last (take l L)) \<le> ver x"
    by (auto simp: sorted_append)
  then have "ver x = ver (last (take l L))"
    using assms(5) by simp
  then show False
    using assms(2,3) x y by (metis distinct_map in_set_takeD inj_onD)
qed

lemma page_up_to_max:
  assumes "unique_on ver rows" and "r \<in> set rows" "tenant r = tid" "c < ver r"
    and "pull_page tenant ver tid c l rows \<noteq> []" and "ver r \<le> page_max ver c (pull_page tenant ver tid c l rows)"
  shows "r \<in> set (pull_page tenant ver tid c l rows)"
proof -
  let ?L = "sort_key ver (filter (\<lambda>r. tenant r = tid \<and> c < ver r) rows)"
  have "distinct (map ver ?L)"
    using assms(1) by (auto simp: unique_on_def distinct_map intro: inj_on_subset)
  then show ?thesis
    using sorted_take_last [of ver ?L r l] assms(2-6) by (simp add: pull_page_def page_max_def)
qed

lemma page_max_bounds:
  assumes "pull_page tenant ver tid c l rows \<noteq> []"
  shows "c < page_max ver c (pull_page tenant ver tid c l rows)"
    and "\<exists>r \<in> set rows. page_max ver c (pull_page tenant ver tid c l rows) = ver r"
proof -
  have "last (pull_page tenant ver tid c l rows) \<in> {r \<in> set rows. tenant r = tid \<and> c < ver r}"
    using page_subset last_in_set [OF assms] by (rule subsetD)
  then show "c < page_max ver c (pull_page tenant ver tid c l rows)"
    and "\<exists>r \<in> set rows. page_max ver c (pull_page tenant ver tid c l rows) = ver r"
    using assms by (auto simp: page_max_def)
qed

lemma sorted_le_last: "sorted xs \<Longrightarrow> x \<in> set xs \<Longrightarrow> x \<le> last xs"
  by (induction xs) auto

lemma page_max_ge:
  assumes "r \<in> set (pull_page tenant ver tid c l rows)"
  shows "ver r \<le> page_max ver c (pull_page tenant ver tid c l rows)"
proof -
  let ?p = "pull_page tenant ver tid c l rows"
  have "sorted (map ver ?p)"
    by (simp add: pull_page_def take_map [symmetric] sorted_wrt_take)
  then have "ver r \<le> last (map ver ?p)"
    using assms by (intro sorted_le_last) auto
  then show ?thesis
    using assms by (auto simp: page_max_def last_map)
qed

section \<open>The two tables under one cursor\<close>

definition project_pull ::
  "int option \<Rightarrow> string \<Rightarrow> nat \<Rightarrow> sync_db \<Rightarrow> local_project feed_row list \<times> nat \<times> bool" where
  "project_pull l tid c s =
     (let p = pullChanges tid c (pull_limit l) s
      in (map project_row (pr_projects p), pr_cursor p, pr_hasMore p))"

definition task_pull ::
  "int option \<Rightarrow> string \<Rightarrow> nat \<Rightarrow> sync_db \<Rightarrow> local_task feed_row list \<times> nat \<times> bool" where
  "task_pull l tid c s =
     (let p = pullChanges tid c (pull_limit l) s
      in (map task_row (pr_tasks p), pr_cursor p, pr_hasMore p))"

lemma pull_limit_pos: "0 < pull_limit l"
  by (simp add: pull_limit_def)

lemma pull_fields:
  "pr_projects (pullChanges tid c l s) = pull_page sp_tenantId sp_rowVersion tid c l (sd_projects s)"
  "pr_tasks (pullChanges tid c l s) = pull_page st_tenantId st_rowVersion tid c l (sd_tasks s)"
  "pr_hasMore (pullChanges tid c l s) \<longleftrightarrow>
     length (pr_projects (pullChanges tid c l s)) = l \<or> length (pr_tasks (pullChanges tid c l s)) = l"
  "pr_cursor (pullChanges tid c l s) =
     next_cursor c (length (pr_projects (pullChanges tid c l s)) = l)
       (length (pr_tasks (pullChanges tid c l s)) = l)
       (page_max sp_rowVersion c (pr_projects (pullChanges tid c l s)))
       (page_max st_rowVersion c (pr_tasks (pullChanges tid c l s)))"
  by (simp_all add: pullChanges_def Let_def)

lemma next_cursor_ge: "c \<le> next_cursor c tp tt mp mt"
  by (simp add: next_cursor_def Let_def)

lemma next_cursor_strict:
  "tp \<or> tt \<Longrightarrow> (tp \<Longrightarrow> c < mp) \<Longrightarrow> (tt \<Longrightarrow> c < mt) \<Longrightarrow> c < next_cursor c tp tt mp mt"
  by (auto simp: next_cursor_def Let_def)

lemma next_cursor_truncated:
  "(tp \<Longrightarrow> c < mp) \<Longrightarrow> (tt \<Longrightarrow> c < mt) \<Longrightarrow>
   (tp \<longrightarrow> next_cursor c tp tt mp mt \<le> mp) \<and> (tt \<longrightarrow> next_cursor c tp tt mp mt \<le> mt)"
  by (auto simp: next_cursor_def Let_def)

lemma next_cursor_end: "mp \<le> next_cursor c False False mp mt \<and> mt \<le> next_cursor c False False mp mt"
  by (auto simp: next_cursor_def Let_def)

text \<open>What holds of either table, given the length and the largest version of its page.\<close>

lemma full_page_above:
  "0 < l \<Longrightarrow> length (pull_page tenant ver tid c l rows) = l \<Longrightarrow>
   c < page_max ver c (pull_page tenant ver tid c l rows)"
  using page_max_bounds(1) [of tenant ver tid c l rows] by fastforce

lemma page_reaches:
  assumes "unique_on ver rows" and "0 < l" and "r \<in> set rows" "tenant r = tid" "c < ver r" "ver r \<le> n"
    and "length (pull_page tenant ver tid c l rows) = l \<Longrightarrow>
      n \<le> page_max ver c (pull_page tenant ver tid c l rows)"
  shows "r \<in> set (pull_page tenant ver tid c l rows)"
proof (cases "length (pull_page tenant ver tid c l rows) = l")
  case True
  then have "pull_page tenant ver tid c l rows \<noteq> []"
    using assms(2) by auto
  then show ?thesis
    using page_up_to_max [OF assms(1,3), of tenant tid c l] assms(4-7) True by (meson order_trans)
next
  case False
  then show ?thesis
    using assms(3-5) by (rule short_page_complete)
qed

lemma page_ends:
  assumes "length (pull_page tenant ver tid c l rows) \<noteq> l" and "r \<in> set rows" "tenant r = tid"
    and "page_max ver c (pull_page tenant ver tid c l rows) \<le> n" and "c \<le> n"
  shows "ver r \<le> n"
proof (cases "c < ver r")
  case True
  then have "r \<in> set (pull_page tenant ver tid c l rows)"
    using assms(1-3) by (intro short_page_complete)
  then show ?thesis
    using page_max_ge [of r tenant ver tid c l rows] assms(4) by linarith
qed (use assms(5) in simp)

lemma pull_cursor_facts:
  fixes tid c l s
  defines "p \<equiv> pullChanges tid c l s"
  assumes "0 < l"
  shows "c \<le> pr_cursor p" "pr_hasMore p \<Longrightarrow> c < pr_cursor p"
    and "length (pr_projects p) = l \<Longrightarrow> pr_cursor p \<le> page_max sp_rowVersion c (pr_projects p)"
    and "length (pr_tasks p) = l \<Longrightarrow> pr_cursor p \<le> page_max st_rowVersion c (pr_tasks p)"
    and "\<not> pr_hasMore p \<Longrightarrow> page_max sp_rowVersion c (pr_projects p) \<le> pr_cursor p"
    and "\<not> pr_hasMore p \<Longrightarrow> page_max st_rowVersion c (pr_tasks p) \<le> pr_cursor p"
proof -
  let ?mp = "page_max sp_rowVersion c (pr_projects p)" and ?mt = "page_max st_rowVersion c (pr_tasks p)"
  let ?tp = "length (pr_projects p) = l" and ?tt = "length (pr_tasks p) = l"
  have mp: "c < ?mp" if ?tp
    using that full_page_above [OF assms(2)] by (simp add: p_def pull_fields)
  have mt: "c < ?mt" if ?tt
    using that full_page_above [OF assms(2)] by (simp add: p_def pull_fields)
  have n: "pr_cursor p = next_cursor c ?tp ?tt ?mp ?mt" and m: "pr_hasMore p \<longleftrightarrow> ?tp \<or> ?tt"
    by (simp_all add: p_def pull_fields(3,4))
  show "c \<le> pr_cursor p"
    by (simp add: n next_cursor_ge)
  show "c < pr_cursor p" if "pr_hasMore p"
    using next_cursor_strict [of ?tp ?tt c ?mp ?mt] that mp mt unfolding n m by blast
  show "pr_cursor p \<le> ?mp" if ?tp
    using next_cursor_truncated [of ?tp c ?mp ?tt ?mt] that mp mt unfolding n by blast
  show "pr_cursor p \<le> ?mt" if ?tt
    using next_cursor_truncated [of ?tp c ?mp ?tt ?mt] that mp mt unfolding n by blast
  show "?mp \<le> pr_cursor p" if "\<not> pr_hasMore p"
    using next_cursor_end [of ?mp c ?mt] that unfolding n m by simp
  show "?mt \<le> pr_cursor p" if "\<not> pr_hasMore p"
    using next_cursor_end [of ?mp c ?mt] that unfolding n m by simp
qed

lemma project_feed_ok: "sync_ok s \<Longrightarrow> feed_ok (project_feed tid s)"
  by (auto simp: feed_ok_def sync_ok_def table_ok_def project_feed_def unique_on_def comp_def
      distinct_map_filter)

lemma task_feed_ok: "sync_ok s \<Longrightarrow> feed_ok (task_feed tid s)"
  by (auto simp: feed_ok_def sync_ok_def table_ok_def task_feed_def unique_on_def comp_def
      distinct_map_filter)

lemma page_covers_table:
  assumes "unique_on key rows" and "unique_on ver rows" and "0 < l"
    and row: "\<And>r. fr_key (row r) = key r" "\<And>r. fr_ver (row r) = ver r"
    and full: "length (pull_page tenant ver tid c l rows) = l \<Longrightarrow>
      n \<le> page_max ver c (pull_page tenant ver tid c l rows)"
  shows "covers c n (map row (filter (\<lambda>r. tenant r = tid) rows))
    (map row (pull_page tenant ver tid c l rows))"
  unfolding covers_def
proof (intro conjI ballI impI)
  show "unique_on fr_key (map row (pull_page tenant ver tid c l rows))"
    using page_unique [OF assms(1), of tenant ver tid c l] by (simp add: unique_on_def comp_def row)
next
  fix q
  assume "q \<in> set (map row (pull_page tenant ver tid c l rows))"
  then have "q \<in> set (map row (filter (\<lambda>r. tenant r = tid) rows))"
    using page_subset [of tenant ver tid c l rows] by auto
  then show "\<exists>r \<in> set (map row (filter (\<lambda>r. tenant r = tid) rows)).
      fr_key r = fr_key q \<and> (r = q \<or> n < fr_ver r)"
    by blast
next
  fix q
  assume q: "q \<in> set (map row (filter (\<lambda>r. tenant r = tid) rows))" "fr_ver q \<le> n"
  then obtain r where r: "r \<in> set rows" "tenant r = tid" "q = row r" "ver r \<le> n"
    by (auto simp: row)
  show "fr_ver q \<le> c \<or> q \<in> set (map row (pull_page tenant ver tid c l rows))"
  proof (cases "c < ver r")
    case True
    then show ?thesis
      using page_reaches [OF assms(2,3) r(1), of tenant tid c n] r full by simp
  qed (simp add: r row)
qed

interpretation project_pages: cursor_feed sync_ok project_feed "project_pull l"
  for l
proof
  fix s tid c page n again r
  assume ok: "sync_ok s"
  show "feed_ok (project_feed tid s)"
    by (rule project_feed_ok [OF ok])
  note facts = pull_cursor_facts [OF pull_limit_pos [of l], where c = c and tid = tid and s = s]
  have uniq: "unique_on sp_id (sd_projects s)" "unique_on sp_rowVersion (sd_projects s)"
    using ok by (simp_all add: sync_ok_def table_ok_def)
  show "covers c n (project_feed tid s) page" if "project_pull l tid c s = (page, n, again)"
    using page_covers_table [OF uniq pull_limit_pos [of l], of project_row sp_tenantId tid c n] that facts(3)
    by (auto simp: project_pull_def Let_def project_feed_def pull_fields(1))
  show "c \<le> n \<and> (again \<longrightarrow> c < n)" if "project_pull l tid c s = (page, n, again)"
    using that facts(1,2) by (auto simp: project_pull_def Let_def)
  show "fr_ver r \<le> n" if "project_pull l tid c s = (page, n, False)" "r \<in> set (project_feed tid s)"
    using that facts(1,5) page_ends [of sp_tenantId sp_rowVersion tid c "pull_limit l" "sd_projects s"]
    by (auto simp: project_pull_def Let_def in_project_feed pull_fields(1,3))
qed

interpretation task_pages: cursor_feed sync_ok task_feed "task_pull l"
  for l
proof
  fix s tid c page n again r
  assume ok: "sync_ok s"
  show "feed_ok (task_feed tid s)"
    by (rule task_feed_ok [OF ok])
  note facts = pull_cursor_facts [OF pull_limit_pos [of l], where c = c and tid = tid and s = s]
  have uniq: "unique_on st_id (sd_tasks s)" "unique_on st_rowVersion (sd_tasks s)"
    using ok by (simp_all add: sync_ok_def table_ok_def)
  show "covers c n (task_feed tid s) page" if "task_pull l tid c s = (page, n, again)"
    using page_covers_table [OF uniq pull_limit_pos [of l], of task_row st_tenantId tid c n] that facts(4)
    by (auto simp: task_pull_def Let_def task_feed_def pull_fields(2))
  show "c \<le> n \<and> (again \<longrightarrow> c < n)" if "task_pull l tid c s = (page, n, again)"
    using that facts(1,2) by (auto simp: task_pull_def Let_def)
  show "fr_ver r \<le> n" if "task_pull l tid c s = (page, n, False)" "r \<in> set (task_feed tid s)"
    using that facts(1,6) page_ends [of st_tenantId st_rowVersion tid c "pull_limit l" "sd_tasks s"]
    by (auto simp: task_pull_def Let_def in_task_feed pull_fields(2,3))
qed

section \<open>What an applied mutation leaves behind\<close>

lemma table_evolves_grown:
  assumes "table_evolves (\<lambda>r. (tenant r, key r)) ver n rows rows'"
    and "\<And>r. fr_key (row r) = key r" "\<And>r. fr_ver (row r) = ver r"
  shows "grown n (map row (filter (\<lambda>r. tenant r = tid) rows)) (map row (filter (\<lambda>r. tenant r = tid) rows'))"
  unfolding grown_def
proof (intro conjI ballI subsetI)
  fix q
  assume "q \<in> set (map row (filter (\<lambda>r. tenant r = tid) rows'))"
  then show "q \<in> set (map row (filter (\<lambda>r. tenant r = tid) rows)) \<or> n < fr_ver q"
    using assms by (fastforce simp: table_evolves_def)
next
  fix k
  assume "k \<in> fr_key ` set (map row (filter (\<lambda>r. tenant r = tid) rows))"
  then obtain r where "r \<in> set rows" "tenant r = tid" "key r = k"
    using assms(2) by auto
  then have "(tid, k) \<in> (\<lambda>r. (tenant r, key r)) ` set rows'"
    using assms(1) by (auto simp: table_evolves_def)
  then show "k \<in> fr_key ` set (map row (filter (\<lambda>r. tenant r = tid) rows'))"
    using assms(2) by (auto simp: image_iff)
qed

lemma evolves_grown:
  assumes "evolves s s'"
  shows "grown (sd_seq s) (project_feed tid s) (project_feed tid s')"
    and "grown (sd_seq s) (task_feed tid s) (task_feed tid s')"
  using assms unfolding project_feed_def task_feed_def evolves_def
  by (auto intro: table_evolves_grown)

text \<open>The row with the id \<open>i\<close> is the workspace's and was written after the sequence stood at \<open>n\<close>.\<close>

definition project_written :: "string \<Rightarrow> string \<Rightarrow> nat \<Rightarrow> sync_db \<Rightarrow> bool" where
  "project_written tid i n s \<longleftrightarrow>
     (\<forall>p \<in> set (sd_projects s). sp_id p = i \<longrightarrow> n < sp_rowVersion p)
     \<and> (\<exists>p \<in> set (sd_projects s). sp_id p = i \<and> sp_tenantId p = tid)"

lemma insert_project_written:
  "project_by_id s i = None \<Longrightarrow> sp_id p = i \<Longrightarrow> sp_tenantId p = tid \<Longrightarrow>
   project_written tid i (sd_seq s) (insert_project p s)"
  by (auto simp: project_written_def insert_project_def project_by_id_None)

lemma update_project_written:
  "project_by_id s i = Some e \<Longrightarrow> sp_tenantId e = tid \<Longrightarrow>
   (\<And>p. sp_id (f p) = sp_id p \<and> sp_tenantId (f p) = sp_tenantId p) \<Longrightarrow>
   project_written tid i (sd_seq s) (update_project i f s)"
  using project_by_id_Some [of s i e]
  by (auto simp: project_written_def update_project_def in_upd_where bex_upd_where)

lemma upsert_project_written:
  "upsert_project tid now m s = (Inr v, s') \<Longrightarrow> project_written tid (m_id m) (sd_seq s) s'"
  by (auto simp: upsert_project_def split: if_splits option.splits
      intro!: insert_project_written update_project_written)

lemma delete_project_gone:
  assumes "delete_project tid now m s = (Inr v, s')" and "sync_ok s"
    and "p \<in> set (sd_projects s')" and "sp_id p = m_id m"
  shows "sp_deletedAt p \<noteq> None"
proof (cases "project_by_id s (m_id m)")
  case None
  then show ?thesis
    using assms(1,3,4) None project_by_id_None [of s "m_id m"] by (auto simp: delete_project_def)
next
  case (Some e)
  then have e: "e \<in> set (sd_projects s)" "sp_id e = m_id m"
    using project_by_id_Some by blast+
  have "unique_on sp_id (sd_projects s)"
    using assms(2) by (simp add: sync_ok_def table_ok_def)
  then have same: "q = e" if "q \<in> set (sd_projects s)" "sp_id q = m_id m" for q
    using unique_on_eqD e that by metis
  have "\<forall>p \<in> set (sd_projects (update_project (m_id m)
      (\<lambda>p. p\<lparr>sp_deletedAt := Some now, sp_updatedAt := now\<rparr>) s)). sp_id p = m_id m \<longrightarrow> sp_deletedAt p \<noteq> None"
    by (simp add: update_project_def ball_upd_where)
  then show ?thesis
    using assms(1,3,4) Some same by (auto simp: delete_project_def split: if_splits)
qed

theorem project_mutation_taken:
  assumes "apply_mutation tid now m s = (Inr v, s')" and "m_table m = OfProject" and "sync_ok s"
    and "c \<le> sd_seq s" and "m_op m = Tombstone \<Longrightarrow> P (m_id m) = None"
  shows "taken (project_feed tid s') P c (m_id m)"
proof (cases "m_op m")
  case Upsert
  then have ap: "upsert_project tid now m s = (Inr v, s')"
    using assms(1,2) by (simp add: apply_mutation_def)
  have written: "project_written tid (m_id m) (sd_seq s) s'"
    by (rule upsert_project_written [OF ap])
  then have "m_id m \<in> fr_key ` set (project_feed tid s')"
    by (force simp: project_written_def project_feed_def)
  moreover have "c < fr_ver r" if "r \<in> set (project_feed tid s')" "fr_key r = m_id m" for r
    using written that assms(4) by (fastforce simp: project_written_def in_project_feed)
  ultimately show ?thesis
    by (auto simp: taken_def)
next
  case Tombstone
  then have "delete_project tid now m s = (Inr v, s')"
    using assms(1,2) by (simp add: apply_mutation_def)
  then show ?thesis
    using delete_project_gone [OF _ assms(3)] assms(5) Tombstone
    by (fastforce simp: taken_def in_project_feed local_of_project_def)
qed

text \<open>The same for a batch: what the answer lists as applied is taken when the whole batch is in.\<close>

lemma applied_in_batch: "set (fst (fst (applyMutations tid now ms s))) \<subseteq> m_seq ` set ms"
proof (induction ms arbitrary: s)
  case (Cons m ms)
  obtain v s1 ok no s2 where ap: "apply_mutation tid now m s = (v, s1)"
    "applyMutations tid now ms s1 = ((ok, no), s2)"
    by (metis prod.collapse)
  then have "set ok \<subseteq> m_seq ` set ms"
    using Cons.IH [of s1] by simp
  then show ?case
    using ap by (auto split: sum.splits)
qed simp

theorem batch_taken:
  assumes "applyMutations tid now ms s = ((ok, no), s')" and "distinct (map m_seq ms)" and "sync_ok s"
    and "m \<in> set ms" "m_seq m \<in> set ok" "m_table m = OfProject"
    and "c \<le> sd_seq s" and "m_op m = Tombstone \<Longrightarrow> P (m_id m) = None"
  shows "taken (project_feed tid s') P c (m_id m)"
  using assms(1-5,7)
proof (induction ms arbitrary: s ok no)
  case (Cons x xs)
  obtain v s1 where x: "apply_mutation tid now x s = (v, s1)"
    by (metis prod.collapse)
  obtain ok' no' s2 where xs: "applyMutations tid now xs s1 = ((ok', no'), s2)"
    by (metis prod.collapse)
  have s2: "s2 = s'" and ok: "ok = (case v of Inr _ \<Rightarrow> m_seq x # ok' | Inl _ \<Rightarrow> ok')"
    using Cons.prems(1) x xs by (auto split: sum.splits)
  have "good s s1"
    using good_apply_mutation [of s tid now x] x by simp
  then have s1: "sync_ok s1" "c \<le> sd_seq s1"
    using Cons.prems(3,6) by (auto simp: good_def evolves_def)
  show ?case
  proof (cases "m = x")
    case True
    have "m_seq x \<notin> set ok'"
      using applied_in_batch [of tid now xs s1] xs Cons.prems(2) by auto
    then obtain u where "v = Inr u"
      using True Cons.prems(5) ok by (cases v) auto
    then have "taken (project_feed tid s1) P c (m_id m)"
      using project_mutation_taken [of tid now m s u s1 c P] x True assms(6,8) Cons.prems(3,6) by simp
    moreover have "evolves s1 s'"
      using good_applyMutations [of s1 tid now xs] xs s2 by (simp add: good_def)
    ultimately show ?thesis
      using taken_grown evolves_grown(1) s1(2) by blast
  next
    case False
    then have "m \<in> set xs"
      using Cons.prems(4) by simp
    moreover from this have "m_seq m \<in> set ok'"
      using Cons.prems(2,5) ok by (cases v) (auto simp: rev_image_eqI)
    ultimately show ?thesis
      using Cons.IH [OF xs [unfolded s2]] Cons.prems(2) s1 by simp
  qed
qed simp

section \<open>Workspaces are apart\<close>

lemma filter_upd_where_apart:
  "(\<And>r. r \<in> set rows \<Longrightarrow> P r \<Longrightarrow> \<not> Q r \<and> \<not> Q (f r)) \<Longrightarrow>
   filter Q (upd_where P f rows) = filter Q rows"
  by (induction rows) auto

definition foreign :: "string \<Rightarrow> sync_db \<Rightarrow> server_project list \<times> server_task list" where
  "foreign tid s = (filter (\<lambda>p. sp_tenantId p \<noteq> tid) (sd_projects s),
                    filter (\<lambda>t. st_tenantId t \<noteq> tid) (sd_tasks s))"

lemma foreign_insert_project [simp]: "sp_tenantId p = tid \<Longrightarrow> foreign tid (insert_project p s) = foreign tid s"
  by (simp add: foreign_def insert_project_def)

lemma foreign_insert_task [simp]: "st_tenantId t = tid \<Longrightarrow> foreign tid (insert_task t s) = foreign tid s"
  by (simp add: foreign_def insert_task_def)

lemma foreign_update_project:
  assumes "project_by_id s i = Some e" and "sp_tenantId e = tid" and "sync_ok s"
    and "\<And>p. sp_tenantId (f p) = sp_tenantId p"
  shows "foreign tid (update_project i f s) = foreign tid s"
proof -
  have "unique_on sp_id (sd_projects s)"
    using assms(3) by (simp add: sync_ok_def table_ok_def)
  then have "sp_tenantId p = tid" if "p \<in> set (sd_projects s)" "sp_id p = i" for p
    using unique_on_eqD project_by_id_Some [OF assms(1)] assms(2) that by metis
  then have "filter (\<lambda>p. sp_tenantId p \<noteq> tid) (upd_where (\<lambda>p. sp_id p = i) g (sd_projects s))
      = filter (\<lambda>p. sp_tenantId p \<noteq> tid) (sd_projects s)" if "\<And>p. sp_tenantId (g p) = sp_tenantId p" for g
    using that by (intro filter_upd_where_apart) auto
  then show ?thesis
    using assms(4) by (simp add: foreign_def update_project_def)
qed

lemma foreign_update_task:
  assumes "task_by_id s i = Some e" and "st_tenantId e = tid" and "sync_ok s"
    and "\<And>t. st_tenantId (f t) = st_tenantId t"
  shows "foreign tid (update_task i f s) = foreign tid s"
proof -
  have "unique_on st_id (sd_tasks s)"
    using assms(3) by (simp add: sync_ok_def table_ok_def)
  then have "st_tenantId t = tid" if "t \<in> set (sd_tasks s)" "st_id t = i" for t
    using unique_on_eqD task_by_id_Some [OF assms(1)] assms(2) that by metis
  then have "filter (\<lambda>t. st_tenantId t \<noteq> tid) (upd_where (\<lambda>t. st_id t = i) g (sd_tasks s))
      = filter (\<lambda>t. st_tenantId t \<noteq> tid) (sd_tasks s)" if "\<And>t. st_tenantId (g t) = st_tenantId t" for g
    using that by (intro filter_upd_where_apart) auto
  then show ?thesis
    using assms(4) by (simp add: foreign_def update_task_def)
qed

lemma foreign_ensure_parent [simp]: "foreign tid (ensure_parent tid now pid s) = foreign tid s"
  by (simp add: ensure_parent_def split: option.splits)

lemma sync_ok_ensure_parent: "sync_ok s \<Longrightarrow> sync_ok (ensure_parent tid now pid s)"
  using good_ensure_parent [of s tid now pid] by (simp add: good_def)

lemma foreign_upsert_task: "sync_ok s \<Longrightarrow> foreign tid (snd (upsert_task tid now m s)) = foreign tid s"
  by (auto simp: upsert_task_def Let_def foreign_update_task sync_ok_ensure_parent split: option.splits)

lemma foreign_apply_mutation: "sync_ok s \<Longrightarrow> foreign tid (snd (apply_mutation tid now m s)) = foreign tid s"
  by (auto simp: apply_mutation_def upsert_project_def delete_project_def delete_task_def foreign_upsert_task
      foreign_update_project foreign_update_task split: sync_table.splits sync_op.splits option.splits)

lemma foreign_applyMutations: "sync_ok s \<Longrightarrow> foreign tid (snd (applyMutations tid now ms s)) = foreign tid s"
proof (induction ms arbitrary: s)
  case (Cons m ms)
  obtain v s1 ok no s2 where ap: "apply_mutation tid now m s = (v, s1)"
    "applyMutations tid now ms s1 = ((ok, no), s2)"
    by (metis prod.collapse)
  have "sync_ok s1"
    using good_apply_mutation [of s tid now m] ap(1) Cons.prems by (simp add: good_def)
  then show ?case
    using foreign_apply_mutation [OF Cons.prems, of tid now m] Cons.IH [of s1] ap
    by (auto split: sum.splits)
qed simp

end
