(* ===== verification/Sync_Client.thy ===== *)
theory Sync_Client
  imports Sync_Pages "HOL-Library.AList"
begin

text \<open>
  The client half of sync: \<open>lib/offline/tenantDb.ts\<close> (the browser's database), \<open>lib/offline/outbox.ts\<close>,
  \<open>lib/data/projects.ts\<close> (local writes) and \<open>lib/sync/client.ts\<close> (the drain).

  \<^item> An IndexedDB table keyed by \<open>id\<close> is a map from ids; the outbox is the list of its rows, its
    auto-increment counter is \<open>rp_lastSeq\<close>.
  \<^item> The body of the drain's loop is split where it waits for the network: \<open>drain_request\<close> and
    \<open>snapshotForDrain\<close> before, \<open>drain_response\<close> after. \<open>syncOnce\<close> joins them with nothing in
    between; the theory \<open>Sync_Run\<close> lets other tabs, users and servers act there.
  \<^item> \<open>fetch\<close> is an argument of \<open>syncOnce\<close>, a step of a server state.
\<close>

section \<open>The browser's database\<close>

record outbox_row =
  ob_seq :: nat
  ob_table :: sync_table
  ob_rowId :: string
  ob_op :: sync_op
  ob_data :: "payload option"
  ob_createdAt :: time

record replica =
  rp_projects :: "string \<Rightarrow> local_project option"
  rp_tasks :: "string \<Rightarrow> local_task option"
  rp_outbox :: "outbox_row list"
  rp_lastSeq :: nat
  rp_cursor :: "string option"
  rp_clientId :: "string option"
  rp_lastSyncedAt :: "time option"

definition empty_replica :: replica where
  "empty_replica = \<lparr>rp_projects = (\<lambda>_. None), rp_tasks = (\<lambda>_. None), rp_outbox = [], rp_lastSeq = 0,
     rp_cursor = None, rp_clientId = None, rp_lastSyncedAt = None\<rparr>"

text \<open>
  The databases of a browser: \<open>br_disk\<close> is what IndexedDB holds by workspace (a handle that was never
  written to reads as an empty database), \<open>br_open\<close> and \<open>br_active\<close> the module's instances and active
  handle.
\<close>

record browser =
  br_disk :: "string \<Rightarrow> replica option"
  br_open :: "string set"
  br_active :: "string option"

definition getTenantDb :: "string \<Rightarrow> browser \<Rightarrow> replica \<times> browser" where
  "getTenantDb tid b = (nullish (br_disk b tid) empty_replica, b\<lparr>br_open := insert tid (br_open b)\<rparr>)"

definition setActiveTenantDb :: "string \<Rightarrow> browser \<Rightarrow> replica \<times> browser" where
  "setActiveTenantDb tid b =
     (case getTenantDb tid b of (r, b1) \<Rightarrow> (r, b1\<lparr>br_active := Some tid\<rparr>))"

definition activeDb :: "browser \<Rightarrow> replica res" where
  "activeDb b =
     (case br_active b of
        None \<Rightarrow> Inl (UncaughtError ''No active tenant DB'')
      | Some tid \<Rightarrow> Inr (nullish (br_disk b tid) empty_replica))"

definition deleteTenantDb :: "string \<Rightarrow> browser \<Rightarrow> browser" where
  "deleteTenantDb tid b =
     b\<lparr>br_open := br_open b - {tid},
       br_active := (if br_active b = Some tid then None else br_active b),
       br_disk := (br_disk b)(tid := None)\<rparr>"

section \<open>The outbox\<close>

definition enqueue ::
  "sync_table \<Rightarrow> string \<Rightarrow> sync_op \<Rightarrow> payload option \<Rightarrow> time \<Rightarrow> replica \<Rightarrow> replica" where
  "enqueue tab i oper data now r =
     r\<lparr>rp_outbox := rp_outbox r @ [\<lparr>ob_seq = Suc (rp_lastSeq r), ob_table = tab, ob_rowId = i,
         ob_op = oper, ob_data = data, ob_createdAt = now\<rparr>],
       rp_lastSeq := Suc (rp_lastSeq r)\<rparr>"

definition pendingForRow :: "string \<Rightarrow> replica \<Rightarrow> outbox_row list" where
  "pendingForRow i r = filter (\<lambda>m. ob_rowId m = i) (rp_outbox r)"

definition of_project :: "string \<Rightarrow> outbox_row \<Rightarrow> bool" where
  "of_project pid m \<longleftrightarrow> ob_rowId m = pid \<or> starts_with (ob_rowId m) (pid @ ''::'')"

definition purgeForProject :: "string \<Rightarrow> replica \<Rightarrow> replica" where
  "purgeForProject pid r = r\<lparr>rp_outbox := del_where (of_project pid) (rp_outbox r)\<rparr>"

type_synonym row_key = "sync_table \<times> string"

definition row_key :: "outbox_row \<Rightarrow> row_key" where
  "row_key m = (ob_table m, ob_rowId m)"

record drain_snapshot =
  sn_toSend :: "outbox_row list"
  sn_seqsByRow :: "(row_key \<times> nat list) list"

text \<open>The two \<open>Map\<close>s of the snapshot, filled row by row in order of \<open>seq\<close>.\<close>

definition note_latest :: "(row_key \<times> outbox_row) list \<Rightarrow> outbox_row \<Rightarrow> (row_key \<times> outbox_row) list" where
  "note_latest latest m = AList.update (row_key m) m latest"

definition note_seq :: "(row_key \<times> nat list) list \<Rightarrow> outbox_row \<Rightarrow> (row_key \<times> nat list) list" where
  "note_seq seqs m = AList.update (row_key m) (nullish (map_of seqs (row_key m)) [] @ [ob_seq m]) seqs"

definition snapshotForDrain :: "replica \<Rightarrow> drain_snapshot" where
  "snapshotForDrain r =
     (let rows = sort_key ob_seq (rp_outbox r);
          latest = foldl note_latest [] rows
      in \<lparr>sn_toSend = sort_key ob_seq (map snd latest), sn_seqsByRow = foldl note_seq [] rows\<rparr>)"

text \<open>All snapshot rows of those rows whose last mutation the server answered with one of \<open>seqs\<close>.\<close>

definition seqs_of_rows :: "drain_snapshot \<Rightarrow> int list \<Rightarrow> nat list" where
  "seqs_of_rows sn seqs =
     concat (map (\<lambda>m. nullish (map_of (sn_seqsByRow sn) (row_key m)) [])
       (filter (\<lambda>m. int (ob_seq m) \<in> set seqs) (sn_toSend sn)))"

definition bulkDelete :: "nat list \<Rightarrow> replica \<Rightarrow> replica" where
  "bulkDelete seqs r = r\<lparr>rp_outbox := del_where (\<lambda>m. ob_seq m \<in> set seqs) (rp_outbox r)\<rparr>"

definition deleteApplied :: "drain_snapshot \<Rightarrow> int list \<Rightarrow> replica \<Rightarrow> replica" where
  "deleteApplied sn appliedSeqs r = bulkDelete (seqs_of_rows sn appliedSeqs) r"

definition hasPending :: "sync_table \<Rightarrow> string \<Rightarrow> replica \<Rightarrow> bool" where
  "hasPending tab i r \<longleftrightarrow> list_ex (\<lambda>m. ob_table m = tab \<and> ob_rowId m = i) (rp_outbox r)"

section \<open>Local writes\<close>

definition project_payload :: "string \<Rightarrow> string option \<Rightarrow> string \<Rightarrow> payload" where
  "project_payload name description status =
     [(''name'', JStr name), (''description'', json_opt JStr description), (''status'', JStr status)]"

definition task_payload :: "string \<Rightarrow> string \<Rightarrow> bool \<Rightarrow> payload" where
  "task_payload pid title dn = [(''projectId'', JStr pid), (''title'', JStr title), (''done'', JBool dn)]"

definition put_project :: "local_project \<Rightarrow> replica \<Rightarrow> replica" where
  "put_project p r = r\<lparr>rp_projects := (rp_projects r)(lp_id p := Some p)\<rparr>"

definition put_task :: "local_task \<Rightarrow> replica \<Rightarrow> replica" where
  "put_task t r = r\<lparr>rp_tasks := (rp_tasks r)(lt_id t := Some t)\<rparr>"

text \<open>\<open>db.projects.delete(id)\<close> and \<open>db.tasks.where("projectId").equals(id).delete()\<close>.\<close>

definition drop_project :: "string \<Rightarrow> replica \<Rightarrow> replica" where
  "drop_project pid r =
     r\<lparr>rp_projects := (rp_projects r)(pid := None),
       rp_tasks := (\<lambda>i. case rp_tasks r i of
          None \<Rightarrow> None | Some t \<Rightarrow> if lt_projectId t = pid then None else Some t)\<rparr>"

definition createProject :: "string \<Rightarrow> string \<Rightarrow> time \<Rightarrow> replica \<Rightarrow> string \<times> replica" where
  "createProject uuid name now r =
     (let i = ''prj_'' @ uuid
      in (i, enqueue OfProject i Upsert (Some (project_payload name None ''Active'')) now
            (put_project \<lparr>lp_id = i, lp_name = name, lp_description = None, lp_status = ''Active'',
               lp_updatedAt = now\<rparr> r)))"

definition renameProject :: "string \<Rightarrow> string \<Rightarrow> time \<Rightarrow> replica \<Rightarrow> replica" where
  "renameProject i name now r =
     (case rp_projects r i of
        None \<Rightarrow> r
      | Some existing \<Rightarrow>
          enqueue OfProject i Upsert
            (Some (project_payload name (lp_description existing) (lp_status existing))) now
            (r\<lparr>rp_projects := (rp_projects r)(i := Some (existing\<lparr>lp_name := name, lp_updatedAt := now\<rparr>))\<rparr>))"

definition deleteProject :: "string \<Rightarrow> time \<Rightarrow> replica \<Rightarrow> replica" where
  "deleteProject i now r =
     enqueue OfProject i Tombstone None now (purgeForProject i (drop_project i r))"

definition addTask :: "string \<Rightarrow> string \<Rightarrow> string \<Rightarrow> time \<Rightarrow> replica \<Rightarrow> string \<times> replica" where
  "addTask uuid pid title now r =
     (let i = pid @ ''::'' @ uuid
      in (i, enqueue OfTask i Upsert (Some (task_payload pid title False)) now
            (put_task \<lparr>lt_id = i, lt_projectId = pid, lt_title = title, lt_done = False,
               lt_updatedAt = now\<rparr> r)))"

definition toggleTask :: "string \<Rightarrow> time \<Rightarrow> replica \<Rightarrow> replica" where
  "toggleTask i now r =
     (case rp_tasks r i of
        None \<Rightarrow> r
      | Some t \<Rightarrow>
          enqueue OfTask i Upsert (Some (task_payload (lt_projectId t) (lt_title t) (\<not> lt_done t))) now
            (r\<lparr>rp_tasks := (rp_tasks r)(i := Some (t\<lparr>lt_done := \<not> lt_done t, lt_updatedAt := now\<rparr>))\<rparr>))"

definition deleteTask :: "string \<Rightarrow> time \<Rightarrow> replica \<Rightarrow> replica" where
  "deleteTask i now r =
     enqueue OfTask i Tombstone None now (r\<lparr>rp_tasks := (rp_tasks r)(i := None)\<rparr>)"

section \<open>The drain\<close>

datatype sync_status =
    Idle "time option"
  | Syncing
  | Errored string "time option"
  | Offline "time option"

datatype fetched = NoNetwork | Responded sync_answer

definition MAX_PULL_LOOPS :: nat where "MAX_PULL_LOOPS = 50"

definition getClientId :: "string \<Rightarrow> replica \<Rightarrow> string \<times> replica" where
  "getClientId uuid r =
     (case rp_clientId r of
        Some i \<Rightarrow> if i = [] then (uuid, r\<lparr>rp_clientId := Some uuid\<rparr>) else (i, r)
      | None \<Rightarrow> (uuid, r\<lparr>rp_clientId := Some uuid\<rparr>))"

definition cursor_of :: "replica \<Rightarrow> string" where
  "cursor_of r = nullish (rp_cursor r) ''0''"

definition to_mutation :: "outbox_row \<Rightarrow> sync_mutation" where
  "to_mutation m = \<lparr>m_seq = int (ob_seq m), m_table = ob_table m, m_op = ob_op m, m_id = ob_rowId m,
     m_data = ob_data m\<rparr>"

definition drain_request :: "string \<Rightarrow> drain_snapshot \<Rightarrow> replica \<Rightarrow> sync_request" where
  "drain_request clientId sn r = \<lparr>rq_clientId = clientId, rq_cursor = cursor_of r, rq_pullLimit = None,
     rq_mutations = map to_mutation (sn_toSend sn)\<rparr>"

text \<open>Pulled rows, each skipped while an edit of it is pending.\<close>

definition pull_project :: "replica \<Rightarrow> wire_project \<Rightarrow> replica" where
  "pull_project r p =
     (if hasPending OfProject (wp_id p) r then r
      else if wp_deletedAt p \<noteq> None then drop_project (wp_id p) r
      else put_project \<lparr>lp_id = wp_id p, lp_name = wp_name p, lp_description = wp_description p,
             lp_status = wp_status p, lp_updatedAt = wp_updatedAt p\<rparr> r)"

definition pull_task :: "replica \<Rightarrow> wire_task \<Rightarrow> replica" where
  "pull_task r t =
     (if hasPending OfTask (wt_id t) r then r
      else if wt_deletedAt t \<noteq> None then r\<lparr>rp_tasks := (rp_tasks r)(wt_id t := None)\<rparr>
      else put_task \<lparr>lt_id = wt_id t, lt_projectId = wt_projectId t, lt_title = wt_title t,
             lt_done = wt_done t, lt_updatedAt = wt_updatedAt t\<rparr> r)"

definition apply_changes :: "sync_response \<Rightarrow> replica \<Rightarrow> replica" where
  "apply_changes resp r = foldl pull_task (foldl pull_project r (rs_projects resp)) (rs_tasks resp)"

definition wipe_replica :: "replica \<Rightarrow> replica" where
  "wipe_replica r = r\<lparr>rp_projects := (\<lambda>_. None), rp_tasks := (\<lambda>_. None), rp_cursor := Some ''0''\<rparr>"

definition drain_response :: "drain_snapshot \<Rightarrow> sync_response \<Rightarrow> replica \<Rightarrow> replica" where
  "drain_response sn resp r =
     (if rs_resyncRequired resp then wipe_replica r
      else let r1 = deleteApplied sn (rs_applied resp) r;
               r2 = bulkDelete (seqs_of_rows sn (map fst (rs_rejected resp))) r1;
               r3 = apply_changes resp r2
           in r3\<lparr>rp_cursor := Some (rs_cursor resp)\<rparr>)"

definition failure_message :: "nat \<Rightarrow> string \<Rightarrow> string" where
  "failure_message status msg = (if msg = [] then ''HTTP '' @ digits_of status else msg)"

fun sync_loop ::
  "nat \<Rightarrow> (sync_request \<Rightarrow> 'srv \<Rightarrow> fetched \<times> 'srv) \<Rightarrow> string \<Rightarrow> time option \<Rightarrow> time \<Rightarrow> replica \<Rightarrow> 'srv \<Rightarrow>
   sync_status \<times> replica \<times> 'srv" where
  "sync_loop 0 fetch clientId lastSyncedAt now r srv =
     (Errored ''Sync did not converge'' lastSyncedAt, r, srv)"
| "sync_loop (Suc k) fetch clientId lastSyncedAt now r srv =
     (let sn = snapshotForDrain r
      in case fetch (drain_request clientId sn r) srv of
           (NoNetwork, srv1) \<Rightarrow> (Offline lastSyncedAt, r, srv1)
         | (Responded (Refused status msg), srv1) \<Rightarrow>
             (Errored (if status = 401 then ''Session expired '' @ [CHR 0x97] @ '' sign in again''
                       else failure_message status msg) lastSyncedAt, r, srv1)
         | (Responded (Answer resp), srv1) \<Rightarrow>
             (let r1 = drain_response sn resp r
              in if rs_resyncRequired resp \<or> rs_hasMore resp
                 then sync_loop k fetch clientId lastSyncedAt now r1 srv1
                 else (Idle (Some now), r1\<lparr>rp_lastSyncedAt := Some now\<rparr>, srv1)))"

definition syncOnce ::
  "(sync_request \<Rightarrow> 'srv \<Rightarrow> fetched \<times> 'srv) \<Rightarrow> string \<Rightarrow> time \<Rightarrow> replica \<Rightarrow> 'srv \<Rightarrow>
   sync_status \<times> replica \<times> 'srv" where
  "syncOnce fetch uuid now r srv =
     (case getClientId uuid r of
        (clientId, r1) \<Rightarrow> sync_loop MAX_PULL_LOOPS fetch clientId (rp_lastSyncedAt r) now r1 srv)"

text \<open>The Web Lock of the workspace: absent from the browser, free, or held by another tab.\<close>

datatype web_lock = NoLocks | LockFree | LockHeld

definition runSync ::
  "web_lock \<Rightarrow> (sync_request \<Rightarrow> 'srv \<Rightarrow> fetched \<times> 'srv) \<Rightarrow> string \<Rightarrow> time \<Rightarrow> replica \<Rightarrow> 'srv \<Rightarrow>
   sync_status \<times> replica \<times> 'srv" where
  "runSync lock fetch uuid now r srv =
     (if lock = LockHeld then (Idle (rp_lastSyncedAt r), r, srv)
      else syncOnce fetch uuid now r srv)"

text \<open>The server of the template, reached with the session of the workspace \<open>tid\<close>.\<close>

definition endpoint :: "string \<Rightarrow> time \<Rightarrow> sync_request \<Rightarrow> sync_db \<Rightarrow> fetched \<times> sync_db" where
  "endpoint tid now rq srv =
     (case sync_post (Some tid) (Some rq) now srv of (a, srv1) \<Rightarrow> (Responded a, srv1))"

end
