(* ===== verification/Sync_Run.thy ===== *)
theory Sync_Run
  imports Sync_Client
begin

text \<open>
  Sync as a system: one browser that edits, drains and receives, a server that it and everybody
  else writes to, and a network that delays or loses answers. \<open>sync_step\<close> is one event;
  \<open>run_ok\<close> is the invariant of every reachable state. Its heart is \<open>synced\<close> for the projects of the
  workspace: whatever happened, every project at or below the cursor that has no pending edit is
  shown as the server has it. \<open>w_dropped\<close> collects the ids the browser gave up edits of: the server
  rejected them, or a purge took them along.
\<close>

section \<open>What a snapshot holds\<close>

definition rows_of :: "row_key \<Rightarrow> outbox_row list \<Rightarrow> outbox_row list" where
  "rows_of k rows = filter (\<lambda>m. row_key m = k) rows"

lemma rows_of_simps [simp]:
  "rows_of k [] = []"
  "rows_of k (rows @ [m]) = (if row_key m = k then rows_of k rows @ [m] else rows_of k rows)"
  by (simp_all add: rows_of_def)

lemma latest_map:
  "map_of (foldl note_latest [] rows) k = (if rows_of k rows = [] then None else Some (last (rows_of k rows)))"
  by (induction rows rule: rev_induct) (auto simp: note_latest_def update_conv)

lemma latest_keys: "distinct (map fst (foldl note_latest [] rows))"
  by (induction rows rule: rev_induct) (auto simp: note_latest_def distinct_update)

lemma seqs_map:
  "map_of (foldl note_seq [] rows) k =
     (if rows_of k rows = [] then None else Some (map ob_seq (rows_of k rows)))"
  by (induction rows rule: rev_induct) (auto simp: note_seq_def update_conv)

text \<open>The outbox of a replica: seqs grow along it and stay below the counter.\<close>

definition outbox_ok :: "replica \<Rightarrow> bool" where
  "outbox_ok r \<longleftrightarrow> sorted_wrt (<) (map ob_seq (rp_outbox r)) \<and> (\<forall>m \<in> set (rp_outbox r). ob_seq m \<le> rp_lastSeq r)"

lemma outbox_ok_sorted: "outbox_ok r \<Longrightarrow> sort_key ob_seq (rp_outbox r) = rp_outbox r"
  by (simp add: outbox_ok_def sorted_sort_id sort_key_id_if_sorted strict_sorted_imp_sorted)

lemma outbox_ok_distinct: "outbox_ok r \<Longrightarrow> distinct (map ob_seq (rp_outbox r))"
  by (simp add: outbox_ok_def strict_sorted_iff)

lemma outbox_seq_inj: "outbox_ok r \<Longrightarrow> m \<in> set (rp_outbox r) \<Longrightarrow> m' \<in> set (rp_outbox r) \<Longrightarrow> ob_seq m = ob_seq m' \<Longrightarrow> m = m'"
  using outbox_ok_distinct [of r] by (auto simp: distinct_map dest: inj_onD)

lemma last_rows_of:
  assumes "outbox_ok r" and "m \<in> set (rp_outbox r)"
  shows "last (rows_of (row_key m) (rp_outbox r)) = m \<longleftrightarrow>
    (\<forall>m' \<in> set (rp_outbox r). row_key m' = row_key m \<longrightarrow> ob_seq m' \<le> ob_seq m)"
proof -
  let ?rows = "rows_of (row_key m) (rp_outbox r)"
  have m: "m \<in> set ?rows"
    using assms(2) by (simp add: rows_of_def)
  then have ne: "?rows \<noteq> []"
    by auto
  have "sorted (map ob_seq ?rows)"
    using assms(1) sorted_filter [of ob_seq "rp_outbox r" "\<lambda>m'. row_key m' = row_key m"]
    by (simp add: outbox_ok_def rows_of_def strict_sorted_imp_sorted)
  then have ge: "ob_seq m' \<le> ob_seq (last ?rows)" if "m' \<in> set ?rows" for m'
    using sorted_le_last [of "map ob_seq ?rows" "ob_seq m'"] that ne by (simp add: last_map)
  have l: "last ?rows \<in> set (rp_outbox r)" "row_key (last ?rows) = row_key m"
    using last_in_set [OF ne] by (auto simp: rows_of_def)
  show ?thesis
  proof
    assume "last ?rows = m"
    then show "\<forall>m' \<in> set (rp_outbox r). row_key m' = row_key m \<longrightarrow> ob_seq m' \<le> ob_seq m"
      using ge by (auto simp: rows_of_def)
  next
    assume "\<forall>m' \<in> set (rp_outbox r). row_key m' = row_key m \<longrightarrow> ob_seq m' \<le> ob_seq m"
    then have "ob_seq (last ?rows) = ob_seq m"
      using l ge [OF m] by (simp add: le_antisym)
    then show "last ?rows = m"
      using outbox_seq_inj [OF assms(1) l(1) assms(2)] by blast
  qed
qed

text \<open>What is sent: of each row its last mutation.\<close>

theorem toSend_iff:
  assumes "outbox_ok r"
  shows "m \<in> set (sn_toSend (snapshotForDrain r)) \<longleftrightarrow>
    m \<in> set (rp_outbox r) \<and> (\<forall>m' \<in> set (rp_outbox r). row_key m' = row_key m \<longrightarrow> ob_seq m' \<le> ob_seq m)"
proof -
  let ?latest = "foldl note_latest [] (rp_outbox r)"
  have "m \<in> set (sn_toSend (snapshotForDrain r)) \<longleftrightarrow> (\<exists>k. map_of ?latest k = Some m)"
    using latest_keys [of "rp_outbox r"]
    by (simp add: snapshotForDrain_def outbox_ok_sorted [OF assms] Let_def image_iff Bex_def)
  also have "\<dots> \<longleftrightarrow> (\<exists>k. rows_of k (rp_outbox r) \<noteq> [] \<and> last (rows_of k (rp_outbox r)) = m)"
    by (auto simp: latest_map)
  also have "\<dots> \<longleftrightarrow> m \<in> set (rp_outbox r) \<and> last (rows_of (row_key m) (rp_outbox r)) = m"
  proof -
    have "m \<in> set (rp_outbox r) \<and> row_key m = k"
      if "rows_of k (rp_outbox r) \<noteq> []" "last (rows_of k (rp_outbox r)) = m" for k
      using last_in_set [OF that(1)] that(2) by (auto simp: rows_of_def)
    moreover have "rows_of (row_key m) (rp_outbox r) \<noteq> []" if "m \<in> set (rp_outbox r)"
      using that by (auto simp: rows_of_def filter_empty_conv)
    ultimately show ?thesis
      by metis
  qed
  also have "\<dots> \<longleftrightarrow> m \<in> set (rp_outbox r)
      \<and> (\<forall>m' \<in> set (rp_outbox r). row_key m' = row_key m \<longrightarrow> ob_seq m' \<le> ob_seq m)"
    using last_rows_of [OF assms] by blast
  finally show ?thesis .
qed

lemma toSend_subset: "outbox_ok r \<Longrightarrow> set (sn_toSend (snapshotForDrain r)) \<subseteq> set (rp_outbox r)"
  by (auto simp: toSend_iff)

lemma toSend_distinct:
  assumes "outbox_ok r"
  shows "distinct (map ob_seq (sn_toSend (snapshotForDrain r)))"
proof -
  let ?latest = "foldl note_latest [] (rp_outbox r)"
  have "distinct (map snd ?latest)"
    using latest_keys [of "rp_outbox r"]
  proof (subst distinct_map, intro conjI)
    show "distinct ?latest"
      using latest_keys [of "rp_outbox r"] by (simp add: distinct_map)
    have "row_key v = k" if "(k, v) \<in> set ?latest" for k v
    proof -
      have "map_of ?latest k = Some v"
        using that latest_keys [of "rp_outbox r"] by simp
      then have "rows_of k (rp_outbox r) \<noteq> []" "last (rows_of k (rp_outbox r)) = v"
        by (simp_all add: latest_map split: if_splits)
      then show ?thesis
        using last_in_set [of "rows_of k (rp_outbox r)"] by (simp add: rows_of_def)
    qed
    then show "inj_on snd (set ?latest)"
      by (intro inj_onI) (metis prod.collapse)
  qed
  moreover have "inj_on ob_seq (set (sn_toSend (snapshotForDrain r)))"
    using toSend_subset [OF assms] outbox_ok_distinct [OF assms]
    by (auto simp: distinct_map intro: inj_on_subset)
  ultimately show ?thesis
    by (simp add: distinct_map snapshotForDrain_def outbox_ok_sorted [OF assms] Let_def)
qed

text \<open>What an answer deletes: every snapshot row of a row whose last mutation it names.\<close>

lemma in_seqs_of_rows:
  assumes "outbox_ok r"
  shows "q \<in> set (seqs_of_rows (snapshotForDrain r) seqs) \<longleftrightarrow>
    (\<exists>m \<in> set (sn_toSend (snapshotForDrain r)). int (ob_seq m) \<in> set seqs
       \<and> (\<exists>m' \<in> set (rp_outbox r). row_key m' = row_key m \<and> ob_seq m' = q))"
proof -
  have "set (nullish (map_of (sn_seqsByRow (snapshotForDrain r)) k) [])
      = ob_seq ` {m' \<in> set (rp_outbox r). row_key m' = k}" for k
    by (auto simp: snapshotForDrain_def outbox_ok_sorted [OF assms] Let_def seqs_map rows_of_def
        filter_empty_conv)
  then show ?thesis
    by (auto simp: seqs_of_rows_def)
qed

section \<open>What a response does to the projects\<close>

definition pend :: "replica \<Rightarrow> string set" where
  "pend r = {i. hasPending OfProject i r}"

lemma pend_iff: "i \<in> pend r \<longleftrightarrow> (\<exists>m \<in> set (rp_outbox r). row_key m = (OfProject, i))"
  by (auto simp: pend_def hasPending_def list_ex_iff row_key_def)

definition wire_row :: "wire_project \<Rightarrow> local_project feed_row" where
  "wire_row p = \<lparr>fr_key = wp_id p, fr_ver = nat_of_digits (wp_rowVersion p),
     fr_view = (if wp_deletedAt p \<noteq> None then None
       else Some \<lparr>lp_id = wp_id p, lp_name = wp_name p, lp_description = wp_description p,
         lp_status = wp_status p, lp_updatedAt = wp_updatedAt p\<rparr>)\<rparr>"

lemma wire_row_of_project [simp]: "wire_row (wire_of_project p) = project_row p"
  by (simp add: wire_row_def wire_of_project_def project_row_def local_of_project_def)

lemma pull_project_rest:
  "rp_outbox (pull_project r p) = rp_outbox r \<and> rp_lastSeq (pull_project r p) = rp_lastSeq r"
  by (simp add: pull_project_def drop_project_def put_project_def)

lemma pull_project_projects: "rp_projects (pull_project r p) = merge_row (pend r) (rp_projects r) (wire_row p)"
  by (auto simp: pull_project_def drop_project_def put_project_def merge_row_def wire_row_def pend_def)

lemma pull_projects:
  "rp_projects (foldl pull_project r ps) = merge_page (pend r) (map wire_row ps) (rp_projects r)
   \<and> rp_outbox (foldl pull_project r ps) = rp_outbox r \<and> rp_lastSeq (foldl pull_project r ps) = rp_lastSeq r"
proof (induction ps rule: rev_induct)
  case (snoc p ps)
  then have "pend (foldl pull_project r ps) = pend r"
    by (auto simp: pend_iff)
  then show ?case
    using snoc by (simp add: pull_project_projects pull_project_rest)
qed simp

lemma pull_tasks:
  "rp_projects (foldl pull_task r ts) = rp_projects r \<and> rp_outbox (foldl pull_task r ts) = rp_outbox r
   \<and> rp_lastSeq (foldl pull_task r ts) = rp_lastSeq r"
  by (induction ts rule: rev_induct) (auto simp: pull_task_def put_task_def)

lemma apply_changes_projects:
  "rp_projects (apply_changes resp r) = merge_page (pend r) (map wire_row (rs_projects resp)) (rp_projects r)"
  "rp_outbox (apply_changes resp r) = rp_outbox r" "rp_lastSeq (apply_changes resp r) = rp_lastSeq r"
  using pull_projects [of r "rs_projects resp"] pull_tasks [of "foldl pull_project r (rs_projects resp)" "rs_tasks resp"]
  by (simp_all add: apply_changes_def)

text \<open>The outbox after a response: without the rows it settles.\<close>

definition settled :: "drain_snapshot \<Rightarrow> sync_response \<Rightarrow> nat set" where
  "settled sn resp = set (seqs_of_rows sn (rs_applied resp)) \<union> set (seqs_of_rows sn (map fst (rs_rejected resp)))"

lemma drain_response_fields:
  assumes "\<not> rs_resyncRequired resp"
  shows "rp_outbox (drain_response sn resp r) = filter (\<lambda>m. ob_seq m \<notin> settled sn resp) (rp_outbox r)"
    and "rp_lastSeq (drain_response sn resp r) = rp_lastSeq r"
    and "cursor_of (drain_response sn resp r) = rs_cursor resp"
    and "rp_projects (drain_response sn resp r) =
      merge_page (pend (drain_response sn resp r)) (map wire_row (rs_projects resp)) (rp_projects r)"
proof -
  let ?r2 = "bulkDelete (seqs_of_rows sn (map fst (rs_rejected resp))) (deleteApplied sn (rs_applied resp) r)"
  have d: "drain_response sn resp r = (apply_changes resp ?r2)\<lparr>rp_cursor := Some (rs_cursor resp)\<rparr>"
    using assms by (simp add: drain_response_def Let_def)
  have r2: "rp_outbox ?r2 = filter (\<lambda>m. ob_seq m \<notin> settled sn resp) (rp_outbox r)"
    "rp_projects ?r2 = rp_projects r" "rp_lastSeq ?r2 = rp_lastSeq r"
    by (auto simp: bulkDelete_def deleteApplied_def del_where_def settled_def intro: filter_cong)
  show "rp_outbox (drain_response sn resp r) = filter (\<lambda>m. ob_seq m \<notin> settled sn resp) (rp_outbox r)"
    and "rp_lastSeq (drain_response sn resp r) = rp_lastSeq r"
    and "cursor_of (drain_response sn resp r) = rs_cursor resp"
    by (simp_all add: d r2 apply_changes_projects cursor_of_def)
  have "pend (drain_response sn resp r) = pend ?r2"
    by (auto simp: pend_iff d apply_changes_projects)
  then show "rp_projects (drain_response sn resp r) =
      merge_page (pend (drain_response sn resp r)) (map wire_row (rs_projects resp)) (rp_projects r)"
    by (simp add: d apply_changes_projects r2)
qed

section \<open>The system\<close>

datatype local_edit =
    CreateProject string string
  | RenameProject string string
  | DeleteProject string
  | AddTask string string string
  | ToggleTask string
  | DeleteTask string

definition do_edit :: "local_edit \<Rightarrow> time \<Rightarrow> replica \<Rightarrow> replica" where
  "do_edit e now r =
     (case e of
        CreateProject uuid name \<Rightarrow> snd (createProject uuid name now r)
      | RenameProject i name \<Rightarrow> renameProject i name now r
      | DeleteProject i \<Rightarrow> deleteProject i now r
      | AddTask uuid pid title \<Rightarrow> snd (addTask uuid pid title now r)
      | ToggleTask i \<Rightarrow> toggleTask i now r
      | DeleteTask i \<Rightarrow> deleteTask i now r)"

record world =
  w_server :: sync_db
  w_local :: replica
  w_flight :: "(replica \<times> sync_response) option" \<comment> \<open>the database a drain read, and its answer\<close>
  w_dropped :: "string set"

text \<open>The projects whose last mutation the answer rejects.\<close>

definition rejected_ids :: "drain_snapshot \<Rightarrow> sync_response \<Rightarrow> string set" where
  "rejected_ids sn resp = {i. \<exists>m \<in> set (sn_toSend sn). row_key m = (OfProject, i)
     \<and> int (ob_seq m) \<in> set (map fst (rs_rejected resp))}"

inductive sync_step :: "string \<Rightarrow> world \<Rightarrow> world \<Rightarrow> bool" for tid :: string where
  edit: "r' = do_edit e now (w_local w) \<Longrightarrow>
    sync_step tid w (w\<lparr>w_local := r', w_dropped := w_dropped w \<union> (pend (w_local w) - pend r')\<rparr>)"
| send: "w_flight w = None \<Longrightarrow>
    sync_post (Some tid) (Some (drain_request cid (snapshotForDrain (w_local w)) (w_local w))) now (w_server w)
      = (Answer resp, srv) \<Longrightarrow>
    sync_step tid w (w\<lparr>w_server := srv, w_flight := Some (w_local w, resp)\<rparr>)"
| deliver: "w_flight w = Some (r0, resp) \<Longrightarrow> r' = drain_response (snapshotForDrain r0) resp (w_local w) \<Longrightarrow>
    sync_step tid w (w\<lparr>w_local := r', w_flight := None,
      w_dropped := (if rs_resyncRequired resp then {} else w_dropped w \<union> rejected_ids (snapshotForDrain r0) resp)\<rparr>)"
| lose: "sync_step tid w (w\<lparr>w_flight := None\<rparr>)"
| others: "srv = snd (sync_post session body now (w_server w)) \<Longrightarrow> sync_step tid w (w\<lparr>w_server := srv\<rparr>)"

inductive_cases sync_stepE: "sync_step tid w w'"

inductive reachable :: "string \<Rightarrow> world \<Rightarrow> bool" for tid :: string where
  start: "sync_ok srv \<Longrightarrow>
    reachable tid \<lparr>w_server = srv, w_local = empty_replica, w_flight = None, w_dropped = {}\<rparr>"
| step: "reachable tid w \<Longrightarrow> sync_step tid w w' \<Longrightarrow> reachable tid w'"

definition cursor_nat :: "replica \<Rightarrow> nat" where
  "cursor_nat r = nat_of_digits (cursor_of r)"

text \<open>A project whose last pending mutation deletes it is not shown.\<close>

definition deletes_hidden :: "replica \<Rightarrow> bool" where
  "deletes_hidden r \<longleftrightarrow>
     (\<forall>m \<in> set (rp_outbox r). \<forall>i. row_key m = (OfProject, i) \<and> ob_op m = Tombstone
        \<and> (\<forall>m' \<in> set (rp_outbox r). row_key m' = row_key m \<longrightarrow> ob_seq m' \<le> ob_seq m)
        \<longrightarrow> rp_projects r i = None)"

definition applied_ids :: "drain_snapshot \<Rightarrow> sync_response \<Rightarrow> string set" where
  "applied_ids sn resp = {i. \<exists>m \<in> set (sn_toSend sn). row_key m = (OfProject, i)
     \<and> int (ob_seq m) \<in> set (rs_applied resp)}"

text \<open>An answer on its way: it is a page for the cursor, and the edits it confirms are taken.\<close>

definition flight_ok :: "string \<Rightarrow> sync_db \<Rightarrow> replica \<Rightarrow> string set \<Rightarrow> replica \<times> sync_response \<Rightarrow> bool" where
  "flight_ok tid s r dropped fl \<longleftrightarrow>
     (case fl of (r0, resp) \<Rightarrow>
        outbox_ok r0 \<and> rp_lastSeq r0 \<le> rp_lastSeq r
        \<and> (\<forall>m \<in> set (rp_outbox r). ob_seq m \<le> rp_lastSeq r0 \<longrightarrow> m \<in> set (rp_outbox r0))
        \<and> (rs_resyncRequired resp \<or>
            nat_of_digits (rs_cursor resp) \<le> sd_seq s
            \<and> cursor_nat r \<le> nat_of_digits (rs_cursor resp)
            \<and> covers (cursor_nat r) (nat_of_digits (rs_cursor resp)) (project_feed tid s)
                (map wire_row (rs_projects resp))
            \<and> (\<forall>i \<in> applied_ids (snapshotForDrain r0) resp. i \<notin> dropped \<longrightarrow>
                 (\<forall>m \<in> set (rp_outbox r). row_key m = (OfProject, i) \<longrightarrow> ob_seq m \<le> rp_lastSeq r0) \<longrightarrow>
                 taken (project_feed tid s) (rp_projects r) (cursor_nat r) i)))"

definition run_ok :: "string \<Rightarrow> world \<Rightarrow> bool" where
  "run_ok tid w \<longleftrightarrow>
     sync_ok (w_server w) \<and> outbox_ok (w_local w) \<and> deletes_hidden (w_local w)
     \<and> cursor_nat (w_local w) \<le> sd_seq (w_server w)
     \<and> synced (project_feed tid (w_server w)) (pend (w_local w) \<union> w_dropped w)
         (rp_projects (w_local w)) (cursor_nat (w_local w))
     \<and> (\<forall>fl. w_flight w = Some fl \<longrightarrow> flight_ok tid (w_server w) (w_local w) (w_dropped w) fl)"

section \<open>Local edits keep the invariant\<close>

definition edit_effect :: "replica \<Rightarrow> replica \<Rightarrow> (string \<Rightarrow> bool) \<Rightarrow> outbox_row \<Rightarrow> bool" where
  "edit_effect r r' keep new \<longleftrightarrow>
     rp_outbox r' = filter (\<lambda>m. keep (ob_rowId m)) (rp_outbox r) @ [new]
     \<and> ob_seq new = Suc (rp_lastSeq r) \<and> rp_lastSeq r' = Suc (rp_lastSeq r) \<and> cursor_of r' = cursor_of r
     \<and> (\<forall>k. row_key new \<noteq> (OfProject, k) \<longrightarrow> rp_projects r' k = rp_projects r k)
     \<and> (\<forall>k. row_key new = (OfProject, k) \<and> ob_op new = Tombstone \<longrightarrow> rp_projects r' k = None)"

definition edit_row :: "sync_table \<Rightarrow> string \<Rightarrow> sync_op \<Rightarrow> payload option \<Rightarrow> time \<Rightarrow> replica \<Rightarrow> outbox_row" where
  "edit_row tab i oper data now r = \<lparr>ob_seq = Suc (rp_lastSeq r), ob_table = tab, ob_rowId = i,
     ob_op = oper, ob_data = data, ob_createdAt = now\<rparr>"

lemma enqueue_effect:
  assumes "rp_outbox r1 = filter (\<lambda>m. keep (ob_rowId m)) (rp_outbox r)" and "rp_lastSeq r1 = rp_lastSeq r"
    and "rp_cursor r1 = rp_cursor r" and "\<And>k. tab \<noteq> OfProject \<or> k \<noteq> i \<Longrightarrow> rp_projects r1 k = rp_projects r k"
    and "tab = OfProject \<Longrightarrow> oper = Tombstone \<Longrightarrow> rp_projects r1 i = None"
  shows "edit_effect r (enqueue tab i oper data now r1) keep (edit_row tab i oper data now r)"
  using assms by (auto simp: edit_effect_def enqueue_def edit_row_def cursor_of_def row_key_def)

lemma enqueue_effect_all:
  assumes "rp_outbox r1 = rp_outbox r" and "rp_lastSeq r1 = rp_lastSeq r" and "rp_cursor r1 = rp_cursor r"
    and "\<And>k. tab \<noteq> OfProject \<or> k \<noteq> i \<Longrightarrow> rp_projects r1 k = rp_projects r k"
    and "tab = OfProject \<Longrightarrow> oper = Tombstone \<Longrightarrow> rp_projects r1 i = None"
  shows "\<exists>keep new. edit_effect r (enqueue tab i oper data now r1) keep new"
  using enqueue_effect [of r1 "\<lambda>_. True" r tab i oper data now] assms by auto

lemma do_edit_effect: "do_edit e now r = r \<or> (\<exists>keep new. edit_effect r (do_edit e now r) keep new)"
proof (cases e)
  case (CreateProject uuid name)
  then show ?thesis
    by (auto simp: do_edit_def createProject_def Let_def put_project_def intro!: enqueue_effect_all)
next
  case (RenameProject i name)
  then show ?thesis
    by (auto simp: do_edit_def renameProject_def split: option.splits intro!: enqueue_effect_all)
next
  case (DeleteProject i)
  have "rp_outbox (purgeForProject i (drop_project i r)) =
      filter (\<lambda>m. \<not> (ob_rowId m = i \<or> starts_with (ob_rowId m) (i @ ''::''))) (rp_outbox r)"
    by (simp add: purgeForProject_def drop_project_def del_where_def of_project_def)
  then have "edit_effect r (deleteProject i now r) (\<lambda>j. \<not> (j = i \<or> starts_with j (i @ ''::'')))
      (edit_row OfProject i Tombstone None now r)"
    unfolding deleteProject_def
    by (intro enqueue_effect) (auto simp: purgeForProject_def drop_project_def)
  then show ?thesis
    using DeleteProject by (auto simp: do_edit_def)
next
  case (AddTask uuid pid title)
  then show ?thesis
    by (auto simp: do_edit_def addTask_def Let_def put_task_def intro!: enqueue_effect_all)
next
  case (ToggleTask i)
  then show ?thesis
    by (auto simp: do_edit_def toggleTask_def split: option.splits intro!: enqueue_effect_all)
next
  case (DeleteTask i)
  then show ?thesis
    by (auto simp: do_edit_def deleteTask_def intro!: enqueue_effect_all)
qed

lemma edit_outbox_ok:
  assumes "edit_effect r r' keep new" and "outbox_ok r"
  shows "outbox_ok r'"
proof -
  have old: "\<forall>m \<in> set (rp_outbox r). ob_seq m \<le> rp_lastSeq r" "sorted_wrt (<) (map ob_seq (rp_outbox r))"
    using assms(2) by (simp_all add: outbox_ok_def)
  have "sorted_wrt (<) (map ob_seq (filter (\<lambda>m. keep (ob_rowId m)) (rp_outbox r)))"
    using old(2) by (simp add: sorted_wrt_map sorted_wrt_filter)
  then show ?thesis
    using assms(1) old(1) by (auto simp: edit_effect_def outbox_ok_def sorted_wrt_append)
qed

lemma edit_pend:
  assumes "edit_effect r r' keep new"
  shows "k \<in> pend r' \<longleftrightarrow> k \<in> pend r \<and> keep k \<or> row_key new = (OfProject, k)"
  using assms by (auto simp: pend_iff edit_effect_def row_key_def)

lemma edit_deletes_hidden:
  assumes "edit_effect r r' keep new" and "outbox_ok r" and "deletes_hidden r"
  shows "deletes_hidden r'"
  unfolding deletes_hidden_def
proof (intro ballI allI impI, elim conjE)
  fix m i
  assume m: "m \<in> set (rp_outbox r')" and k: "row_key m = (OfProject, i)" "ob_op m = Tombstone"
    and top: "\<forall>m' \<in> set (rp_outbox r'). row_key m' = row_key m \<longrightarrow> ob_seq m' \<le> ob_seq m"
  have out: "rp_outbox r' = filter (\<lambda>m. keep (ob_rowId m)) (rp_outbox r) @ [new]"
    using assms(1) by (simp add: edit_effect_def)
  show "rp_projects r' i = None"
  proof (cases "row_key new = (OfProject, i)")
    case True
    then have "ob_seq new \<le> ob_seq m"
      using top k(1) out by auto
    then have "m = new"
      using m out assms(1,2) by (auto simp: edit_effect_def outbox_ok_def)
    then show ?thesis
      using assms(1) k by (auto simp: edit_effect_def)
  next
    case False
    then have m: "m \<in> set (rp_outbox r)" "keep (ob_rowId m)"
      using m k(1) out by auto
    have "ob_seq m' \<le> ob_seq m" if "m' \<in> set (rp_outbox r)" "row_key m' = row_key m" for m'
      using top that m(2) out by (auto simp: row_key_def)
    then have "rp_projects r i = None"
      using assms(3) m(1) k by (auto simp: deletes_hidden_def)
    then show ?thesis
      using assms(1) False by (auto simp: edit_effect_def)
  qed
qed

lemma edit_synced:
  assumes "edit_effect r r' keep new" and "synced rows (pend r \<union> dropped) (rp_projects r) c"
  shows "synced rows (pend r' \<union> (dropped \<union> (pend r - pend r'))) (rp_projects r') c"
proof (rule synced_edit [OF assms(2)])
  fix k
  assume k: "k \<notin> pend r' \<union> (dropped \<union> (pend r - pend r'))"
  then have "row_key new \<noteq> (OfProject, k)"
    using edit_pend [OF assms(1)] by auto
  then show "k \<notin> pend r \<union> dropped \<and> rp_projects r' k = rp_projects r k"
    using k assms(1) by (auto simp: edit_effect_def)
qed

lemma edit_flight:
  assumes "edit_effect r r' keep new" and "outbox_ok r" and "flight_ok tid s r dropped (r0, resp)"
  shows "flight_ok tid s r' (dropped \<union> (pend r - pend r')) (r0, resp)"
proof -
  have out: "rp_outbox r' = filter (\<lambda>m. keep (ob_rowId m)) (rp_outbox r) @ [new]"
    and last: "rp_lastSeq r' = Suc (rp_lastSeq r)" "ob_seq new = Suc (rp_lastSeq r)"
    and cur: "cursor_nat r' = cursor_nat r"
    using assms(1) by (auto simp: edit_effect_def cursor_nat_def)
  have le: "rp_lastSeq r0 \<le> rp_lastSeq r"
    using assms(3) by (simp add: flight_ok_def)
  have "taken (project_feed tid s) (rp_projects r') (cursor_nat r) i"
    if tk: "i \<notin> dropped \<Longrightarrow> \<forall>m \<in> set (rp_outbox r). row_key m = (OfProject, i) \<longrightarrow> ob_seq m \<le> rp_lastSeq r0
        \<Longrightarrow> taken (project_feed tid s) (rp_projects r) (cursor_nat r) i"
      and i: "i \<notin> dropped" "i \<notin> pend r - pend r'"
        "\<forall>m \<in> set (rp_outbox r'). row_key m = (OfProject, i) \<longrightarrow> ob_seq m \<le> rp_lastSeq r0" for i
  proof -
    have new: "row_key new \<noteq> (OfProject, i)"
      using i(3) out last(2) le by auto
    have "\<forall>m \<in> set (rp_outbox r). row_key m = (OfProject, i) \<longrightarrow> ob_seq m \<le> rp_lastSeq r0"
    proof (cases "i \<in> pend r")
      case True
      then have "keep i"
        using i(2) new edit_pend [OF assms(1), of i] by auto
      then show ?thesis
        using i(3) out by (auto simp: row_key_def)
    qed (auto simp: pend_iff)
    then have "taken (project_feed tid s) (rp_projects r) (cursor_nat r) i"
      by (rule tk [OF i(1)])
    moreover have "rp_projects r' i = rp_projects r i"
      using assms(1) new by (auto simp: edit_effect_def)
    ultimately show ?thesis
      by (simp add: taken_def)
  qed
  then show ?thesis
    using assms(3) out last le by (auto simp: flight_ok_def cur)
qed

lemma edit_keeps_run_ok:
  assumes "run_ok tid w" and "r' = do_edit e now (w_local w)"
  shows "run_ok tid (w\<lparr>w_local := r', w_dropped := w_dropped w \<union> (pend (w_local w) - pend r')\<rparr>)"
proof (cases "r' = w_local w")
  case False
  then obtain keep new where eff: "edit_effect (w_local w) r' keep new"
    using do_edit_effect [of e now "w_local w"] assms(2) by auto
  have ok: "outbox_ok (w_local w)" "deletes_hidden (w_local w)"
    and cur: "cursor_nat r' = cursor_nat (w_local w)"
    using assms(1) eff by (simp_all add: run_ok_def edit_effect_def cursor_nat_def)
  show ?thesis
    using assms(1) edit_outbox_ok [OF eff ok(1)] edit_deletes_hidden [OF eff ok] edit_synced [OF eff]
      edit_flight [OF eff ok(1)] cur
    by (auto simp: run_ok_def)
qed (use assms(1) in simp)

section \<open>Other writers keep the invariant\<close>

lemma server_keeps_flight:
  assumes "flight_ok tid s r dropped fl" and "good s s'" and "sync_ok s" and "cursor_nat r \<le> sd_seq s"
  shows "flight_ok tid s' r dropped fl"
proof -
  have g: "grown (sd_seq s) (project_feed tid s) (project_feed tid s')" and le: "sd_seq s \<le> sd_seq s'"
    using assms(2) evolves_grown(1) by (auto simp: good_def evolves_def)
  have u: "unique_on fr_key (project_feed tid s)"
    using project_feed_ok [OF assms(3)] by (simp add: feed_ok_def)
  obtain r0 resp where fl: "fl = (r0, resp)"
    by (cases fl)
  show ?thesis
    using assms(1) le covers_grown [OF _ u g] taken_grown [OF _ g assms(4)]
    unfolding flight_ok_def fl by (auto intro: le_trans)
qed

lemma server_keeps_run_ok:
  assumes "run_ok tid w" and "good (w_server w) s'"
  shows "run_ok tid (w\<lparr>w_server := s'\<rparr>)"
proof -
  have ok: "sync_ok (w_server w)" "cursor_nat (w_local w) \<le> sd_seq (w_server w)"
    using assms(1) by (simp_all add: run_ok_def)
  have g: "grown (sd_seq (w_server w)) (project_feed tid (w_server w)) (project_feed tid s')"
    and le: "sd_seq (w_server w) \<le> sd_seq s'" and ok': "sync_ok s'"
    using assms(2) ok(1) evolves_grown(1) by (auto simp: good_def evolves_def)
  show ?thesis
    using assms(1) ok' le synced_grown [OF _ g ok(2)] server_keeps_flight [OF _ assms(2) ok]
    by (auto simp: run_ok_def)
qed

section \<open>Sending keeps the invariant\<close>

lemma sync_post_Answer:
  assumes "sync_post (Some tid) (Some rq) now s = (Answer resp, s')"
  obtains ok no where "applyMutations tid now (rq_mutations rq) s = ((ok, no), s')"
    and "valid_request rq" and "rs_applied resp = ok" "rs_rejected resp = no"
    and "rs_resyncRequired resp \<longleftrightarrow> behind_horizon (nat_of_digits (rq_cursor rq)) s'"
    and "\<not> rs_resyncRequired resp \<Longrightarrow>
      rs_projects resp = map wire_of_project (pr_projects (pullChanges tid (nat_of_digits (rq_cursor rq))
          (pull_limit (rq_pullLimit rq)) s'))
      \<and> rs_tasks resp = map wire_of_task (pr_tasks (pullChanges tid (nat_of_digits (rq_cursor rq))
          (pull_limit (rq_pullLimit rq)) s'))
      \<and> rs_cursor resp = digits_of (pr_cursor (pullChanges tid (nat_of_digits (rq_cursor rq))
          (pull_limit (rq_pullLimit rq)) s'))
      \<and> rs_hasMore resp = pr_hasMore (pullChanges tid (nat_of_digits (rq_cursor rq))
          (pull_limit (rq_pullLimit rq)) s')"
proof -
  obtain ok no s1 where ap: "applyMutations tid now (rq_mutations rq) s = ((ok, no), s1)"
    by (metis prod.collapse)
  have v: "valid_request rq"
    using assms by (auto simp: sync_post_def split: if_splits)
  show ?thesis
    using assms ap v by (intro that [of ok no]) (auto simp: sync_post_def Let_def split: if_splits)
qed

lemma pull_cursor_le_seq:
  assumes "sync_ok s" and "c \<le> sd_seq s" and "0 < l"
  shows "pr_cursor (pullChanges tid c l s) \<le> sd_seq s"
proof -
  let ?p = "pullChanges tid c l s"
  have "page_max sp_rowVersion c (pr_projects ?p) \<le> sd_seq s"
  proof (cases "pr_projects ?p = []")
    case False
    then show ?thesis
      using page_max_bounds(2) [of sp_tenantId sp_rowVersion tid c l "sd_projects s"] assms(1)
      by (auto simp: pull_fields(1) sync_ok_def table_ok_def)
  qed (simp add: page_max_def assms)
  moreover have "page_max st_rowVersion c (pr_tasks ?p) \<le> sd_seq s"
  proof (cases "pr_tasks ?p = []")
    case False
    then show ?thesis
      using page_max_bounds(2) [of st_tenantId st_rowVersion tid c l "sd_tasks s"] assms(1)
      by (auto simp: pull_fields(2) sync_ok_def table_ok_def)
  qed (simp add: page_max_def assms)
  ultimately show ?thesis
    using assms(2) by (auto simp: pull_fields(4) next_cursor_def Let_def)
qed

lemma deletes_hidden_sent:
  assumes "outbox_ok r" and "deletes_hidden r" and "m \<in> set (sn_toSend (snapshotForDrain r))"
    and "row_key m = (OfProject, i)" and "ob_op m = Tombstone"
  shows "rp_projects r i = None"
  using assms toSend_iff [OF assms(1), of m] by (auto simp: deletes_hidden_def)

lemma send_flight_ok:
  assumes "sync_ok s" and "outbox_ok r" and "deletes_hidden r" and "cursor_nat r \<le> sd_seq s"
    and post: "sync_post (Some tid) (Some (drain_request cid (snapshotForDrain r) r)) now s = (Answer resp, s')"
  shows "flight_ok tid s' r dropped (r, resp)"
proof -
  let ?rq = "drain_request cid (snapshotForDrain r) r"
  let ?sn = "snapshotForDrain r"
  obtain ok no where ap: "applyMutations tid now (map to_mutation (sn_toSend ?sn)) s = ((ok, no), s')"
    and resp: "rs_applied resp = ok"
    and page: "\<not> rs_resyncRequired resp \<Longrightarrow>
      rs_projects resp = map wire_of_project (pr_projects (pullChanges tid (cursor_nat r) (pull_limit None) s'))
      \<and> rs_cursor resp = digits_of (pr_cursor (pullChanges tid (cursor_nat r) (pull_limit None) s'))"
    by (rule sync_post_Answer [OF post]) (simp add: drain_request_def cursor_nat_def)
  have g: "good s s'"
    using good_applyMutations [of s tid now "map to_mutation (sn_toSend ?sn)"] ap by simp
  then have ok': "sync_ok s'" and le: "cursor_nat r \<le> sd_seq s'"
    using assms(1,4) by (auto simp: good_def evolves_def)
  have tk: "taken (project_feed tid s') (rp_projects r) (cursor_nat r) i" if i: "i \<in> applied_ids ?sn resp" for i
  proof -
    obtain m where m: "m \<in> set (sn_toSend ?sn)" "row_key m = (OfProject, i)" "int (ob_seq m) \<in> set ok"
      using i resp by (auto simp: applied_ids_def)
    have "distinct (map m_seq (map to_mutation (sn_toSend ?sn)))"
      using toSend_distinct [OF assms(2)] by (auto simp: distinct_map inj_on_def to_mutation_def)
    then have "taken (project_feed tid s') (rp_projects r) (cursor_nat r) (m_id (to_mutation m))"
      using m deletes_hidden_sent [OF assms(2,3) m(1,2)]
      by (intro batch_taken [OF ap _ assms(1)]) (auto simp: to_mutation_def row_key_def assms(4))
    then show ?thesis
      using m(2) by (simp add: to_mutation_def row_key_def)
  qed
  have pg: "nat_of_digits (rs_cursor resp) \<le> sd_seq s' \<and> cursor_nat r \<le> nat_of_digits (rs_cursor resp)
      \<and> covers (cursor_nat r) (nat_of_digits (rs_cursor resp)) (project_feed tid s') (map wire_row (rs_projects resp))"
    if "\<not> rs_resyncRequired resp"
  proof -
    let ?p = "pullChanges tid (cursor_nat r) (pull_limit None) s'"
    have "project_pull None tid (cursor_nat r) s' = (map project_row (pr_projects ?p), pr_cursor ?p, pr_hasMore ?p)"
      by (simp add: project_pull_def Let_def)
    then have "covers (cursor_nat r) (pr_cursor ?p) (project_feed tid s') (map project_row (pr_projects ?p))"
      by (rule project_pages.page_covers [OF ok'])
    then show ?thesis
      using page [OF that] pull_cursor_le_seq [OF ok' le pull_limit_pos, of tid None]
        pull_cursor_facts(1) [OF pull_limit_pos, of "cursor_nat r" tid None s']
      by (simp add: comp_def)
  qed
  show ?thesis
    using tk pg assms(2) by (auto simp: flight_ok_def)
qed

lemma send_keeps_run_ok:
  assumes "run_ok tid w"
    and "sync_post (Some tid) (Some (drain_request cid (snapshotForDrain (w_local w)) (w_local w))) now (w_server w)
      = (Answer resp, srv)"
  shows "run_ok tid (w\<lparr>w_server := srv, w_flight := Some (w_local w, resp)\<rparr>)"
proof -
  have "good (w_server w) srv"
    using good_sync_post [of "w_server w"] assms(2) by (metis snd_conv)
  then have "run_ok tid (w\<lparr>w_server := srv\<rparr>)"
    by (rule server_keeps_run_ok [OF assms(1)])
  moreover have "flight_ok tid srv (w_local w) (w_dropped w) (w_local w, resp)"
    using assms(1) by (intro send_flight_ok [OF _ _ _ _ assms(2)]) (simp_all add: run_ok_def)
  ultimately show ?thesis
    by (simp add: run_ok_def)
qed

section \<open>Receiving keeps the invariant\<close>

text \<open>
  The rows an answer settles: a row of the outbox goes exactly when the last mutation of its row in
  the snapshot was answered, so of every row either all that the snapshot saw goes or nothing.
\<close>

lemma settled_iff:
  assumes "outbox_ok r0" and "m \<in> set (rp_outbox r0)"
  shows "ob_seq m \<in> settled (snapshotForDrain r0) resp \<longleftrightarrow>
    (\<exists>t \<in> set (sn_toSend (snapshotForDrain r0)). row_key t = row_key m
       \<and> int (ob_seq t) \<in> set (rs_applied resp) \<union> set (map fst (rs_rejected resp)))"
proof -
  have "(\<exists>m' \<in> set (rp_outbox r0). row_key m' = row_key t \<and> ob_seq m' = ob_seq m) \<longleftrightarrow> row_key t = row_key m" for t
    using outbox_seq_inj [OF assms(1)] assms(2) by metis
  then show ?thesis
    by (auto simp: settled_def in_seqs_of_rows [OF assms(1)])
qed

lemma settled_seen:
  "outbox_ok r0 \<Longrightarrow> q \<in> settled (snapshotForDrain r0) resp \<Longrightarrow> q \<le> rp_lastSeq r0"
  by (auto simp: settled_def in_seqs_of_rows outbox_ok_def)

lemma filter_outbox_ok:
  "outbox_ok r \<Longrightarrow> rp_outbox r' = filter Q (rp_outbox r) \<Longrightarrow> rp_lastSeq r' = rp_lastSeq r \<Longrightarrow> outbox_ok r'"
  by (auto simp: outbox_ok_def sorted_wrt_map sorted_wrt_filter)

lemma deliver_deletes_hidden:
  assumes "outbox_ok r0" and "outbox_ok r" and "deletes_hidden r"
    and seen: "\<forall>m \<in> set (rp_outbox r). ob_seq m \<le> rp_lastSeq r0 \<longrightarrow> m \<in> set (rp_outbox r0)"
    and out: "rp_outbox r' = filter (\<lambda>m. ob_seq m \<notin> settled (snapshotForDrain r0) resp) (rp_outbox r)"
    and same: "\<And>i. i \<in> pend r' \<Longrightarrow> rp_projects r' i = rp_projects r i"
  shows "deletes_hidden r'"
  unfolding deletes_hidden_def
proof (intro ballI allI impI, elim conjE)
  fix m i
  assume m: "m \<in> set (rp_outbox r')" and k: "row_key m = (OfProject, i)" "ob_op m = Tombstone"
    and top: "\<forall>m' \<in> set (rp_outbox r'). row_key m' = row_key m \<longrightarrow> ob_seq m' \<le> ob_seq m"
  have mr: "m \<in> set (rp_outbox r)" and stays: "ob_seq m \<notin> settled (snapshotForDrain r0) resp"
    using m out by auto
  have "ob_seq m' \<le> ob_seq m" if m': "m' \<in> set (rp_outbox r)" "row_key m' = row_key m" for m'
  proof (cases "ob_seq m' \<in> settled (snapshotForDrain r0) resp")
    case True
    show ?thesis
    proof (rule ccontr)
      assume "\<not> ob_seq m' \<le> ob_seq m"
      then have "m \<in> set (rp_outbox r0)" "m' \<in> set (rp_outbox r0)"
        using settled_seen [OF assms(1) True] seen mr m'(1) by auto
      then show False
        using settled_iff [OF assms(1)] True stays m'(2) by metis
    qed
  next
    case False
    then show ?thesis
      using top out m' by auto
  qed
  then have "rp_projects r i = None"
    using assms(3) mr k by (auto simp: deletes_hidden_def)
  moreover have "i \<in> pend r'"
    using m k(1) by (auto simp: pend_iff)
  ultimately show "rp_projects r' i = None"
    using same by simp
qed

lemma deliver_taken:
  assumes "flight_ok tid s r dropped (r0, resp)" and "\<not> rs_resyncRequired resp"
    and out: "rp_outbox r' = filter (\<lambda>m. ob_seq m \<notin> settled (snapshotForDrain r0) resp) (rp_outbox r)"
    and i: "i \<in> pend r" "i \<notin> pend r'" "i \<notin> dropped" "i \<notin> rejected_ids (snapshotForDrain r0) resp"
  shows "taken (project_feed tid s) (rp_projects r) (cursor_nat r) i"
proof -
  have r0: "outbox_ok r0"
    and seen: "\<forall>m \<in> set (rp_outbox r). ob_seq m \<le> rp_lastSeq r0 \<longrightarrow> m \<in> set (rp_outbox r0)"
    using assms(1) by (simp_all add: flight_ok_def)
  have gone: "ob_seq m \<in> settled (snapshotForDrain r0) resp"
    if "m \<in> set (rp_outbox r)" "row_key m = (OfProject, i)" for m
    using that i(2) out by (auto simp: pend_iff)
  obtain m where m: "m \<in> set (rp_outbox r)" "row_key m = (OfProject, i)"
    using i(1) by (auto simp: pend_iff)
  have "m \<in> set (rp_outbox r0)"
    using seen m(1) settled_seen [OF r0 gone [OF m]] by blast
  then obtain t where t: "t \<in> set (sn_toSend (snapshotForDrain r0))" "row_key t = (OfProject, i)"
    "int (ob_seq t) \<in> set (rs_applied resp) \<union> set (map fst (rs_rejected resp))"
    using settled_iff [OF r0] gone [OF m] m(2) by metis
  then have "i \<in> applied_ids (snapshotForDrain r0) resp"
    using i(4) by (auto simp: applied_ids_def rejected_ids_def)
  moreover have "\<forall>m \<in> set (rp_outbox r). row_key m = (OfProject, i) \<longrightarrow> ob_seq m \<le> rp_lastSeq r0"
    using gone settled_seen [OF r0] by blast
  ultimately show ?thesis
    using assms(1,2) i(3) by (auto simp: flight_ok_def)
qed

lemma deliver_keeps_run_ok:
  assumes "run_ok tid w" and fl: "w_flight w = Some (r0, resp)"
    and r': "r' = drain_response (snapshotForDrain r0) resp (w_local w)"
  shows "run_ok tid (w\<lparr>w_local := r', w_flight := None,
      w_dropped := (if rs_resyncRequired resp then {} else w_dropped w \<union> rejected_ids (snapshotForDrain r0) resp)\<rparr>)"
proof (cases "rs_resyncRequired resp")
  case True
  have "r' = wipe_replica (w_local w)"
    using True r' by (simp add: drain_response_def)
  then have w: "rp_projects r' = (\<lambda>_. None)" "rp_outbox r' = rp_outbox (w_local w)"
    "rp_lastSeq r' = rp_lastSeq (w_local w)" "cursor_nat r' = 0"
    by (simp_all add: wipe_replica_def cursor_nat_def cursor_of_def nat_of_digits_def)
  have "synced (project_feed tid (w_server w)) (pend r') (rp_projects r') 0"
    using project_feed_ok [of "w_server w" tid] assms(1)
    by (auto simp: synced_def w run_ok_def feed_ok_def)
  moreover have "deletes_hidden r'" "outbox_ok r'"
    using assms(1) by (simp_all add: deletes_hidden_def outbox_ok_def w run_ok_def)
  ultimately show ?thesis
    using assms(1) True by (simp add: run_ok_def w)
next
  case False
  let ?r = "w_local w" and ?sn = "snapshotForDrain r0" and ?feed = "project_feed tid (w_server w)"
  have ok: "sync_ok (w_server w)" "outbox_ok ?r" "deletes_hidden ?r"
    and sy: "synced ?feed (pend ?r \<union> w_dropped w) (rp_projects ?r) (cursor_nat ?r)"
    and fo: "flight_ok tid (w_server w) ?r (w_dropped w) (r0, resp)"
    using assms(1) fl by (simp_all add: run_ok_def)
  have r0: "outbox_ok r0" and seen: "\<forall>m \<in> set (rp_outbox ?r). ob_seq m \<le> rp_lastSeq r0 \<longrightarrow> m \<in> set (rp_outbox r0)"
    and n: "nat_of_digits (rs_cursor resp) \<le> sd_seq (w_server w)"
    and cov: "covers (cursor_nat ?r) (nat_of_digits (rs_cursor resp)) ?feed (map wire_row (rs_projects resp))"
    using fo False by (simp_all add: flight_ok_def)
  note fields = drain_response_fields [OF False, of ?sn ?r, folded r']
  have pend: "pend r' \<subseteq> pend ?r"
    by (auto simp: pend_iff fields(1))
  have "synced ?feed (pend r' \<union> (w_dropped w \<union> rejected_ids ?sn resp)) (rp_projects ?r) (cursor_nat ?r)"
  proof (rule synced_taken)
    show "synced ?feed (pend ?r \<union> (w_dropped w \<union> rejected_ids ?sn resp)) (rp_projects ?r) (cursor_nat ?r)"
      using sy by (rule synced_edit) auto
    fix k
    assume "k \<in> pend ?r \<union> (w_dropped w \<union> rejected_ids ?sn resp)"
      "k \<notin> pend r' \<union> (w_dropped w \<union> rejected_ids ?sn resp)"
    then show "taken ?feed (rp_projects ?r) (cursor_nat ?r) k"
      by (intro deliver_taken [OF fo False fields(1)]) auto
  qed
  then have "synced ?feed (pend r' \<union> (w_dropped w \<union> rejected_ids ?sn resp))
      (merge_page (pend r' \<union> (w_dropped w \<union> rejected_ids ?sn resp)) (map wire_row (rs_projects resp)) (rp_projects ?r))
      (nat_of_digits (rs_cursor resp))"
    using project_feed_ok [OF ok(1), of tid] by (intro synced_merge [OF _ _ cov]) (simp_all add: feed_ok_def)
  then have "synced ?feed (pend r' \<union> (w_dropped w \<union> rejected_ids ?sn resp)) (rp_projects r')
      (nat_of_digits (rs_cursor resp))"
    by (rule synced_edit) (simp add: fields(4) merge_page_shield)
  moreover have "deletes_hidden r'"
    using fields(4) by (intro deliver_deletes_hidden [OF r0 ok(2,3) seen fields(1)]) (simp add: merge_page_shielded)
  moreover have "outbox_ok r'"
    by (rule filter_outbox_ok [OF ok(2) fields(1,2)])
  ultimately show ?thesis
    using ok(1) n False by (simp add: run_ok_def cursor_nat_def fields(3))
qed

theorem sync_step_keeps_run_ok:
  assumes "sync_step tid w w'" and "run_ok tid w"
  shows "run_ok tid w'"
  using assms
proof cases
  case (edit r' e now)
  then show ?thesis
    using edit_keeps_run_ok [OF assms(2)] by simp
next
  case (send cid now resp srv)
  then show ?thesis
    using send_keeps_run_ok [OF assms(2)] by simp
next
  case (deliver r0 resp r')
  then show ?thesis
    using deliver_keeps_run_ok [OF assms(2)] by simp
next
  case lose
  then show ?thesis
    using assms(2) by (simp add: run_ok_def)
next
  case (others srv session body now)
  then show ?thesis
    using server_keeps_run_ok [OF assms(2) good_sync_post] by simp
qed

lemma empty_replica_fields [simp]:
  "rp_outbox empty_replica = []" "rp_projects empty_replica = (\<lambda>_. None)" "cursor_nat empty_replica = 0"
  by (simp_all add: empty_replica_def cursor_nat_def cursor_of_def nat_of_digits_def)

lemma reachable_run_ok: "reachable tid w \<Longrightarrow> run_ok tid w"
proof (induction rule: reachable.induct)
  case (start srv)
  then show ?case
    using project_feed_ok [OF start, of tid]
    by (auto simp: run_ok_def outbox_ok_def deletes_hidden_def synced_def feed_ok_def)
next
  case (step w w')
  then show ?case
    using sync_step_keeps_run_ok by blast
qed

end
