(* ===== verification/Sync_Convergence.thy ===== *)
theory Sync_Convergence
  imports Sync_Run
begin

text \<open>
  What sync gives its users: the contract of the cursor in every reachable state, edits that survive
  a drain in flight, workspaces kept apart, and a drain that ends with both sides equal. Two
  observations show where the code falls short: an initial sync that can never pass the horizon of
  the tombstone collection, and two browsers that keep different tasks for good.
\<close>

section \<open>A pull makes progress\<close>

definition rows_above :: "string \<Rightarrow> nat \<Rightarrow> sync_db \<Rightarrow> nat" where
  "rows_above tid c s =
     count_where (\<lambda>p. sp_tenantId p = tid \<and> c < sp_rowVersion p) (sd_projects s)
     + count_where (\<lambda>t. st_tenantId t = tid \<and> c < st_rowVersion t) (sd_tasks s)"

lemma count_where_anti:
  "c \<le> n \<Longrightarrow> count_where (\<lambda>r. tenant r = tid \<and> (n :: nat) < ver r) rows \<le> count_where (\<lambda>r. tenant r = tid \<and> c < ver r) rows"
  unfolding count_where_def by (induction rows) auto

lemma full_page_progress:
  assumes "unique_on ver rows" and "length (pull_page tenant ver tid c l rows) = l"
    and "page_max ver c (pull_page tenant ver tid c l rows) \<le> n" and "c \<le> n"
  shows "count_where (\<lambda>r. tenant r = tid \<and> n < ver r) rows + l \<le> count_where (\<lambda>r. tenant r = tid \<and> c < ver r) rows"
proof -
  let ?page = "pull_page tenant ver tid c l rows"
  have d: "distinct ?page"
    using page_unique [OF assms(1), of tenant ver tid c l] by (simp add: unique_on_def distinct_map)
  have sub: "set ?page \<subseteq> set (filter (\<lambda>r. tenant r = tid \<and> c < ver r \<and> ver r \<le> n) rows)"
    using page_subset [of tenant ver tid c l rows] page_max_ge [of _ tenant ver tid c l rows] assms(3)
    by fastforce
  have "l = card (set ?page)"
    using d assms(2) by (simp add: distinct_card)
  also have "\<dots> \<le> card (set (filter (\<lambda>r. tenant r = tid \<and> c < ver r \<and> ver r \<le> n) rows))"
    by (rule card_mono [OF _ sub]) simp
  also have "\<dots> \<le> length (filter (\<lambda>r. tenant r = tid \<and> c < ver r \<and> ver r \<le> n) rows)"
    by (rule card_length)
  finally have l: "l \<le> length (filter (\<lambda>r. tenant r = tid \<and> c < ver r \<and> ver r \<le> n) rows)" .
  have "length (filter (\<lambda>r. tenant r = tid \<and> c < ver r) rows) =
      length (filter (\<lambda>r. tenant r = tid \<and> c < ver r \<and> ver r \<le> n) rows)
      + length (filter (\<lambda>r. tenant r = tid \<and> n < ver r) rows)"
    using assms(4) by (induction rows) auto
  then show ?thesis
    using l by (simp add: count_where_def)
qed

lemma page_max_tight:
  assumes "0 < l" and "pr_hasMore (pullChanges tid c l s)"
  shows "(length (pr_projects (pullChanges tid c l s)) = l
        \<and> page_max sp_rowVersion c (pr_projects (pullChanges tid c l s)) \<le> pr_cursor (pullChanges tid c l s))
     \<or> (length (pr_tasks (pullChanges tid c l s)) = l
        \<and> page_max st_rowVersion c (pr_tasks (pullChanges tid c l s)) \<le> pr_cursor (pullChanges tid c l s))"
  using assms(2) by (auto simp: pull_fields(3,4) next_cursor_def Let_def)

lemma pull_progress:
  assumes "sync_ok s" and "0 < l" and "pr_hasMore (pullChanges tid c l s)"
  shows "rows_above tid (pr_cursor (pullChanges tid c l s)) s + l \<le> rows_above tid c s"
proof -
  let ?p = "pullChanges tid c l s"
  have le: "c \<le> pr_cursor ?p"
    by (rule pull_cursor_facts(1) [OF assms(2)])
  have u: "unique_on sp_rowVersion (sd_projects s)" "unique_on st_rowVersion (sd_tasks s)"
    using assms(1) by (simp_all add: sync_ok_def table_ok_def)
  show ?thesis
    using page_max_tight [OF assms(2,3)]
  proof
    assume "length (pr_projects ?p) = l \<and> page_max sp_rowVersion c (pr_projects ?p) \<le> pr_cursor ?p"
    then show ?thesis
      using full_page_progress [OF u(1), of sp_tenantId tid c l "pr_cursor ?p"] le
        count_where_anti [OF le, of st_tenantId tid st_rowVersion "sd_tasks s"]
      by (simp add: rows_above_def pull_fields(1))
  next
    assume "length (pr_tasks ?p) = l \<and> page_max st_rowVersion c (pr_tasks ?p) \<le> pr_cursor ?p"
    then show ?thesis
      using full_page_progress [OF u(2), of st_tenantId tid c l "pr_cursor ?p"] le
        count_where_anti [OF le, of sp_tenantId tid sp_rowVersion "sd_projects s"]
      by (simp add: rows_above_def pull_fields(2))
  qed
qed

section \<open>One round of the drain\<close>

text \<open>A browser at rest: no answer on its way.\<close>

definition at_rest :: "sync_db \<Rightarrow> replica \<Rightarrow> string set \<Rightarrow> world" where
  "at_rest s r dropped = \<lparr>w_server = s, w_local = r, w_flight = None, w_dropped = dropped\<rparr>"

lemma answered_all:
  "m \<in> set ms \<Longrightarrow> m_seq m \<in> set (fst (fst (applyMutations tid now ms s)))
     \<union> fst ` set (snd (fst (applyMutations tid now ms s)))"
proof (induction ms arbitrary: s)
  case (Cons x xs)
  obtain v s1 ok no s2 where ap: "apply_mutation tid now x s = (v, s1)" "applyMutations tid now xs s1 = ((ok, no), s2)"
    by (metis prod.collapse)
  show ?case
  proof (cases "m = x")
    case True
    then show ?thesis
      using ap by (cases v) auto
  next
    case False
    then have "m_seq m \<in> set ok \<union> fst ` set no"
      using Cons.IH [of s1] Cons.prems ap by auto
    then show ?thesis
      using ap by (cases v) auto
  qed
qed simp

text \<open>With no edit in between, the answer to a drain empties the outbox.\<close>

lemma drained:
  assumes "outbox_ok r" and post: "sync_post (Some tid) (Some (drain_request cid (snapshotForDrain r) r)) now s = (Answer resp, s')"
    and "\<not> rs_resyncRequired resp"
  shows "rp_outbox (drain_response (snapshotForDrain r) resp r) = []"
proof -
  let ?sn = "snapshotForDrain r"
  obtain ok no where ap: "applyMutations tid now (map to_mutation (sn_toSend ?sn)) s = ((ok, no), s')"
    and resp: "rs_applied resp = ok" "rs_rejected resp = no"
    by (rule sync_post_Answer [OF post]) (simp add: drain_request_def)
  have "ob_seq m \<in> settled ?sn resp" if m: "m \<in> set (rp_outbox r)" for m
  proof -
    have "rows_of (row_key m) (rp_outbox r) \<noteq> []"
      using m by (auto simp: rows_of_def filter_empty_conv)
    then have t: "last (rows_of (row_key m) (rp_outbox r)) \<in> set (rp_outbox r)"
      "row_key (last (rows_of (row_key m) (rp_outbox r))) = row_key m"
      using last_in_set [of "rows_of (row_key m) (rp_outbox r)"] by (auto simp: rows_of_def)
    define t where "t = last (rows_of (row_key m) (rp_outbox r))"
    have sent: "t \<in> set (sn_toSend ?sn)"
      using t last_rows_of [OF assms(1) t(1)] toSend_iff [OF assms(1), of t] by (simp add: t_def)
    then have "to_mutation t \<in> set (map to_mutation (sn_toSend ?sn))"
      by simp
    then have "m_seq (to_mutation t) \<in> set ok \<union> fst ` set no"
      using answered_all [of "to_mutation t" _ tid now s] ap by (metis fst_conv snd_conv)
    then have "int (ob_seq t) \<in> set ok \<union> fst ` set no"
      by (simp add: to_mutation_def)
    then show ?thesis
      using settled_iff [OF assms(1) m, of resp] sent t(2) resp by (auto simp: t_def)
  qed
  then show ?thesis
    by (simp add: drain_response_fields(1) [OF assms(3)] filter_empty_conv)
qed

lemma nothing_sent: "rp_outbox r = [] \<Longrightarrow> sn_toSend (snapshotForDrain r) = []"
  by (simp add: snapshotForDrain_def Let_def)

lemma round_keeps_run_ok:
  assumes "run_ok tid (at_rest s r dropped)" and "\<not> rs_resyncRequired resp"
    and post: "sync_post (Some tid) (Some (drain_request cid (snapshotForDrain r) r)) now s = (Answer resp, s')"
  shows "run_ok tid (at_rest s' (drain_response (snapshotForDrain r) resp r)
    (dropped \<union> rejected_ids (snapshotForDrain r) resp))"
proof -
  have "run_ok tid (at_rest s r dropped\<lparr>w_server := s', w_flight := Some (r, resp)\<rparr>)"
    using send_keeps_run_ok [OF assms(1), of cid now resp s'] post by (simp add: at_rest_def)
  from deliver_keeps_run_ok [OF this, of r resp "drain_response (snapshotForDrain r) resp r"]
  show ?thesis
    using assms(2) by (simp add: at_rest_def)
qed

section \<open>The drain ends with both sides equal\<close>

lemma run_ok_shown:
  assumes "run_ok tid (at_rest s r dropped)" and "rp_outbox r = []" and "i \<notin> dropped"
    and "\<And>q. q \<in> set (project_feed tid s) \<Longrightarrow> fr_ver q \<le> cursor_nat r"
  shows "rp_projects r i = shown (project_feed tid s) i"
  using synced_shown [of "project_feed tid s" "pend r \<union> dropped" "rp_projects r" "cursor_nat r" i] assms
  by (auto simp: run_ok_def at_rest_def pend_iff)

lemma good_horizon: "good s s' \<Longrightarrow> sd_horizon s' = sd_horizon s"
  by (simp add: good_def evolves_def)

text \<open>
  A browser whose cursor has reached the collection horizon (0 on the database the migration makes, so
  then every browser) is not told to start over, and stays so, as cursors only grow.
\<close>

definition past_horizon :: "sync_db \<Rightarrow> replica \<Rightarrow> bool" where
  "past_horizon s r \<longleftrightarrow> nullish (sd_horizon s) 0 \<le> cursor_nat r"

lemma past_horizon_served: "past_horizon s r \<Longrightarrow> \<not> behind_horizon (cursor_nat r) s"
  by (auto simp: past_horizon_def behind_horizon_def split: option.split)

lemma past_horizon_mono:
  "past_horizon s r \<Longrightarrow> sd_horizon s' = sd_horizon s \<Longrightarrow> cursor_nat r \<le> cursor_nat r' \<Longrightarrow> past_horizon s' r'"
  by (simp add: past_horizon_def)

lemma one_round:
  fixes tid cid ls now r s k
  defines "sn \<equiv> snapshotForDrain r"
  assumes ok: "run_ok tid (at_rest s r dropped)" and valid: "valid_request (drain_request cid sn r)"
    and hor: "past_horizon s r"
    and ap: "applyMutations tid now (map to_mutation (sn_toSend sn)) s = ((applied, []), s1)"
    and few: "rows_above tid (cursor_nat r) s1 < Suc k * 1000"
  obtains r1 where "run_ok tid (at_rest s1 r1 dropped)" and "rp_outbox r1 = []" and "past_horizon s1 r1"
    and "list_all is_digit (cursor_of r1) \<and> cursor_of r1 \<noteq> []"
    and "sync_loop (Suc k) (endpoint tid now) cid ls now r s = sync_loop k (endpoint tid now) cid ls now r1 s1
           \<and> rows_above tid (cursor_nat r1) s1 < k * 1000
       \<or> sync_loop (Suc k) (endpoint tid now) cid ls now r s = (Idle (Some now), r1\<lparr>rp_lastSyncedAt := Some now\<rparr>, s1)
           \<and> (\<forall>i. i \<notin> dropped \<longrightarrow> rp_projects r1 i = shown (project_feed tid s1) i)"
proof -
  let ?rq = "drain_request cid sn r" and ?p = "pullChanges tid (cursor_nat r) 1000 s1"
  have g: "good s s1"
    using good_applyMutations [of s tid now "map to_mutation (sn_toSend sn)"] ap by simp
  have s: "sync_ok s" "outbox_ok r"
    using ok by (simp_all add: run_ok_def at_rest_def)
  have s1: "sync_ok s1" "past_horizon s1 r"
    using g s(1) past_horizon_mono [OF hor good_horizon [OF g]] by (simp_all add: good_def)
  have lim: "pull_limit None = 1000"
    by (simp add: pull_limit_def DEFAULT_PULL_LIMIT_def MAX_PULL_LIMIT_def)
  define resp where "resp = \<lparr>rs_applied = applied, rs_rejected = [],
      rs_projects = map wire_of_project (pr_projects ?p), rs_tasks = map wire_of_task (pr_tasks ?p),
      rs_cursor = digits_of (pr_cursor ?p), rs_hasMore = pr_hasMore ?p, rs_resyncRequired = False\<rparr>"
  have post: "sync_post (Some tid) (Some ?rq) now s = (Answer resp, s1)"
    using valid ap past_horizon_served [OF s1(2)]
    by (simp add: sync_post_def drain_request_def lim resp_def cursor_nat_def Let_def)
  have resync: "\<not> rs_resyncRequired resp" and more: "rs_hasMore resp = pr_hasMore ?p"
    by (simp_all add: resp_def)
  define r1 where "r1 = drain_response sn resp r"
  have r1: "run_ok tid (at_rest s1 r1 dropped)"
    using round_keeps_run_ok [OF ok resync, of cid now s1] post
    by (simp add: r1_def sn_def rejected_ids_def resp_def)
  have empty: "rp_outbox r1 = []"
    using drained [OF s(2), of tid cid now s resp s1] post resync by (simp add: r1_def sn_def)
  have cur: "cursor_of r1 = digits_of (pr_cursor ?p)"
    using drain_response_fields(3) [OF resync, of sn r] by (simp add: r1_def resp_def)
  then have curn: "cursor_nat r1 = pr_cursor ?p"
    by (simp add: cursor_nat_def)
  have past: "past_horizon s1 r1"
    using pull_cursor_facts(1) [where tid = tid and c = "cursor_nat r" and l = 1000 and s = s1]
    by (intro past_horizon_mono [OF s1(2)]) (simp_all add: curn)
  have run: "sync_loop (Suc k) (endpoint tid now) cid ls now r s =
      (if pr_hasMore ?p then sync_loop k (endpoint tid now) cid ls now r1 s1
       else (Idle (Some now), r1\<lparr>rp_lastSyncedAt := Some now\<rparr>, s1))"
    using post resync more by (simp add: endpoint_def Let_def r1_def sn_def [symmetric])
  show ?thesis
  proof (rule that [OF r1 empty past])
    show "list_all is_digit (cursor_of r1) \<and> cursor_of r1 \<noteq> []"
      by (simp add: cur digits_of_digits)
    show "sync_loop (Suc k) (endpoint tid now) cid ls now r s = sync_loop k (endpoint tid now) cid ls now r1 s1
           \<and> rows_above tid (cursor_nat r1) s1 < k * 1000
       \<or> sync_loop (Suc k) (endpoint tid now) cid ls now r s = (Idle (Some now), r1\<lparr>rp_lastSyncedAt := Some now\<rparr>, s1)
           \<and> (\<forall>i. i \<notin> dropped \<longrightarrow> rp_projects r1 i = shown (project_feed tid s1) i)"
    proof (cases "pr_hasMore ?p")
      case True
      then show ?thesis
        using pull_progress [OF s1(1), of 1000 tid "cursor_nat r"] few run by (simp add: curn)
    next
      case False
      have "project_pull None tid (cursor_nat r) s1 = (map project_row (pr_projects ?p), pr_cursor ?p, False)"
        using False by (simp add: project_pull_def Let_def lim)
      then have "fr_ver q \<le> cursor_nat r1" if "q \<in> set (project_feed tid s1)" for q
        using project_pages.last_page [OF s1(1)] that by (simp add: curn)
      then show ?thesis
        using run_ok_shown [OF r1 empty] run False by simp
    qed
  qed
qed

lemma idle_loop:
  assumes "run_ok tid (at_rest s r dropped)" and "rp_outbox r = []" and "past_horizon s r"
    and "list_all is_digit (cursor_of r) \<and> cursor_of r \<noteq> []" and "length cid \<le> 100"
    and "rows_above tid (cursor_nat r) s < k * 1000"
  shows "\<exists>r'. sync_loop k (endpoint tid now) cid ls now r s = (Idle (Some now), r', s) \<and> rp_outbox r' = []
    \<and> (\<forall>i. i \<notin> dropped \<longrightarrow> rp_projects r' i = shown (project_feed tid s) i)"
  using assms
proof (induction k arbitrary: r)
  case (Suc k)
  have none: "sn_toSend (snapshotForDrain r) = []"
    by (rule nothing_sent [OF Suc.prems(2)])
  have "valid_request (drain_request cid (snapshotForDrain r) r)"
    using Suc.prems(4,5) by (simp add: valid_request_def drain_request_def none)
  then obtain r1 where r1: "run_ok tid (at_rest s r1 dropped)" "rp_outbox r1 = []" "past_horizon s r1"
      "list_all is_digit (cursor_of r1) \<and> cursor_of r1 \<noteq> []"
    and run: "sync_loop (Suc k) (endpoint tid now) cid ls now r s = sync_loop k (endpoint tid now) cid ls now r1 s
           \<and> rows_above tid (cursor_nat r1) s < k * 1000
       \<or> sync_loop (Suc k) (endpoint tid now) cid ls now r s = (Idle (Some now), r1\<lparr>rp_lastSyncedAt := Some now\<rparr>, s)
           \<and> (\<forall>i. i \<notin> dropped \<longrightarrow> rp_projects r1 i = shown (project_feed tid s) i)"
    using one_round [OF Suc.prems(1) _ Suc.prems(3), of cid now "[]" s k ls] none Suc.prems(6)
    by (metis applyMutations.simps(1) list.map(1))
  from run show ?case
  proof (elim disjE conjE)
    assume "sync_loop (Suc k) (endpoint tid now) cid ls now r s = sync_loop k (endpoint tid now) cid ls now r1 s"
      and "rows_above tid (cursor_nat r1) s < k * 1000"
    then show ?thesis
      using Suc.IH [OF r1(1-4) Suc.prems(5)] by simp
  qed (use r1(2) in auto)
qed simp

lemma getClientId_fields:
  assumes "getClientId uuid r = (cid, r1)"
  shows "rp_outbox r1 = rp_outbox r" "rp_projects r1 = rp_projects r" "rp_lastSeq r1 = rp_lastSeq r"
    "cursor_of r1 = cursor_of r"
  using assms by (auto simp: getClientId_def cursor_of_def split: option.splits if_splits)

lemma run_ok_client_id:
  assumes "getClientId uuid r = (cid, r1)" and "run_ok tid (at_rest s r dropped)"
  shows "run_ok tid (at_rest s r1 dropped)"
  using getClientId_fields [OF assms(1)] assms(2)
  by (simp add: run_ok_def at_rest_def outbox_ok_def deletes_hidden_def cursor_nat_def pend_def hasPending_def)

lemma settles_from_rest:
  assumes ok: "run_ok tid (at_rest s r dropped)" and hor: "past_horizon s r"
    and id: "getClientId uuid r = (cid, r1)"
    and valid: "valid_request (drain_request cid (snapshotForDrain r) r)"
    and ap: "applyMutations tid now (map to_mutation (sn_toSend (snapshotForDrain r))) s = ((applied, []), s1)"
    and few: "rows_above tid (cursor_nat r) s1 < 50000"
  shows "\<exists>r'. syncOnce (endpoint tid now) uuid now r s = (Idle (Some now), r', s1) \<and> rp_outbox r' = []
    \<and> (\<forall>i. i \<notin> dropped \<longrightarrow> rp_projects r' i = shown (project_feed tid s1) i)"
proof -
  note f = getClientId_fields [OF id]
  have sn: "snapshotForDrain r1 = snapshotForDrain r"
    by (simp add: snapshotForDrain_def f)
  have rq: "drain_request cid (snapshotForDrain r1) r1 = drain_request cid (snapshotForDrain r) r"
    by (simp add: sn drain_request_def f)
  have hor1: "past_horizon s r1"
    using hor by (simp add: past_horizon_def cursor_nat_def f)
  have cid: "length cid \<le> 100"
    using valid by (simp add: valid_request_def drain_request_def)
  have loop: "syncOnce (endpoint tid now) uuid now r s =
      sync_loop (Suc 49) (endpoint tid now) cid (rp_lastSyncedAt r) now r1 s"
    by (simp add: syncOnce_def id MAX_PULL_LOOPS_def)
  obtain r2 where r2: "run_ok tid (at_rest s1 r2 dropped)" "rp_outbox r2 = []" "past_horizon s1 r2"
      "list_all is_digit (cursor_of r2) \<and> cursor_of r2 \<noteq> []"
    and run: "sync_loop (Suc 49) (endpoint tid now) cid (rp_lastSyncedAt r) now r1 s
          = sync_loop 49 (endpoint tid now) cid (rp_lastSyncedAt r) now r2 s1
           \<and> rows_above tid (cursor_nat r2) s1 < 49 * 1000
       \<or> sync_loop (Suc 49) (endpoint tid now) cid (rp_lastSyncedAt r) now r1 s
          = (Idle (Some now), r2\<lparr>rp_lastSyncedAt := Some now\<rparr>, s1)
           \<and> (\<forall>i. i \<notin> dropped \<longrightarrow> rp_projects r2 i = shown (project_feed tid s1) i)"
  proof (rule one_round [OF run_ok_client_id [OF id ok] _ hor1, of cid now applied s1 49 "rp_lastSyncedAt r"])
    show "valid_request (drain_request cid (snapshotForDrain r1) r1)"
      using valid by (simp add: rq)
    show "applyMutations tid now (map to_mutation (sn_toSend (snapshotForDrain r1))) s = ((applied, []), s1)"
      using ap by (simp add: sn)
    show "rows_above tid (cursor_nat r1) s1 < Suc 49 * 1000"
      using few by (simp add: cursor_nat_def f)
  qed
  from run show ?thesis
  proof (elim disjE conjE)
    assume "sync_loop (Suc 49) (endpoint tid now) cid (rp_lastSyncedAt r) now r1 s
          = sync_loop 49 (endpoint tid now) cid (rp_lastSyncedAt r) now r2 s1"
      and "rows_above tid (cursor_nat r2) s1 < 49 * 1000"
    then show ?thesis
      using idle_loop [OF r2 cid, of 49 now "rp_lastSyncedAt r"] loop by simp
  qed (use r2(2) loop in auto)
qed

text \<open>A task with a pending edit is left alone by an answer that deletes no project of its.\<close>

lemma pull_outbox [simp]:
  "rp_outbox (pull_project r p) = rp_outbox r" "rp_outbox (pull_task r t) = rp_outbox r"
  by (simp_all add: pull_project_def pull_task_def drop_project_def put_project_def put_task_def)

lemma pull_projects_keep_task:
  assumes "\<And>t p. rp_tasks r i = Some t \<Longrightarrow> p \<in> set ps \<Longrightarrow> wp_id p = lt_projectId t \<Longrightarrow> wp_deletedAt p = None"
  shows "rp_tasks (foldl pull_project r ps) i = rp_tasks r i \<and> rp_outbox (foldl pull_project r ps) = rp_outbox r"
  using assms
proof (induction ps arbitrary: r)
  case (Cons p ps)
  have "rp_tasks (pull_project r p) i = rp_tasks r i"
    using Cons.prems [of _ p]
    by (auto simp: pull_project_def drop_project_def put_project_def split: option.split)
  then show ?case
    using Cons.IH [of "pull_project r p"] Cons.prems by simp
qed simp

lemma pull_tasks_keep_task:
  assumes "hasPending OfTask i r"
  shows "rp_tasks (foldl pull_task r ts) i = rp_tasks r i \<and> rp_outbox (foldl pull_task r ts) = rp_outbox r"
  using assms
proof (induction ts arbitrary: r)
  case (Cons t ts)
  have "rp_tasks (pull_task r t) i = rp_tasks r i" "hasPending OfTask i (pull_task r t)"
    using Cons.prems by (auto simp: pull_task_def put_task_def hasPending_def)
  then show ?case
    using Cons.IH [of "pull_task r t"] by simp
qed simp

lemma drain_keeps_task:
  assumes "\<not> rs_resyncRequired resp" and "hasPending OfTask i (drain_response sn resp r)"
    and "\<And>t p. rp_tasks r i = Some t \<Longrightarrow> p \<in> set (rs_projects resp) \<Longrightarrow> wp_id p = lt_projectId t
      \<Longrightarrow> wp_deletedAt p = None"
  shows "rp_tasks (drain_response sn resp r) i = rp_tasks r i"
proof -
  define r2 where "r2 = bulkDelete (seqs_of_rows sn (map fst (rs_rejected resp))) (deleteApplied sn (rs_applied resp) r)"
  have r2: "rp_tasks r2 = rp_tasks r"
    by (simp add: r2_def bulkDelete_def deleteApplied_def)
  have d: "drain_response sn resp r = (apply_changes resp r2)\<lparr>rp_cursor := Some (rs_cursor resp)\<rparr>"
    using assms(1) by (simp add: drain_response_def r2_def Let_def)
  have ps: "rp_tasks (foldl pull_project r2 (rs_projects resp)) i = rp_tasks r i"
    "rp_outbox (foldl pull_project r2 (rs_projects resp)) = rp_outbox r2"
    using pull_projects_keep_task [of r2 i "rs_projects resp"] assms(3) by (simp_all add: r2)
  have outb: "rp_outbox (foldl pull_task x ts) = rp_outbox x" for x ts
    by (induction ts arbitrary: x) simp_all
  have "hasPending OfTask i (foldl pull_project r2 (rs_projects resp))"
    using assms(2) by (simp add: d apply_changes_def hasPending_def outb)
  then show ?thesis
    using pull_tasks_keep_task ps(1) by (simp add: d apply_changes_def)
qed

section \<open>The properties\<close>

definition sample_sync :: sync_db where
  "sample_sync = \<lparr>sd_projects = [\<lparr>sp_id = ''p1'', sp_tenantId = ''t1'', sp_name = ''One'', sp_description = None,
     sp_status = ''Active'', sp_deletedAt = None, sp_rowVersion = 1, sp_updatedAt = 5\<rparr>,
     \<lparr>sp_id = ''p9'', sp_tenantId = ''t9'', sp_name = ''Nine'', sp_description = None,
     sp_status = ''Active'', sp_deletedAt = None, sp_rowVersion = 2, sp_updatedAt = 5\<rparr>],
     sd_tasks = [], sd_seq = 2, sd_horizon = Some 0\<rparr>"

lemma sample_sync_ok: "sync_ok sample_sync"
  by code_simp


definition sample_answer :: sync_response where
  "sample_answer = \<lparr>rs_applied = [], rs_rejected = [],
     rs_projects = [wire_of_project (hd (sd_projects sample_sync))], rs_tasks = [], rs_cursor = ''1'',
     rs_hasMore = False, rs_resyncRequired = False\<rparr>"

definition sample_world :: world where
  "sample_world = \<lparr>w_server = sample_sync,
     w_local = drain_response (snapshotForDrain empty_replica) sample_answer empty_replica,
     w_flight = None, w_dropped = {}\<rparr>"

lemma sample_post:
  "sync_post (Some ''t1'') (Some (drain_request ''c'' (snapshotForDrain empty_replica) empty_replica)) 7 sample_sync
     = (Answer sample_answer, sample_sync)"
  by code_simp

lemma sample_world_reachable: "reachable ''t1'' sample_world"
proof -
  let ?w0 = "\<lparr>w_server = sample_sync, w_local = empty_replica, w_flight = None, w_dropped = {}\<rparr>"
  let ?w1 = "?w0\<lparr>w_flight := Some (empty_replica, sample_answer)\<rparr>"
  have "reachable ''t1'' ?w0"
    by (rule reachable.start [OF sample_sync_ok])
  moreover have "sync_step ''t1'' ?w0 (?w0\<lparr>w_server := sample_sync, w_flight := Some (w_local ?w0, sample_answer)\<rparr>)"
    by (rule sync_step.send [where cid = "''c''" and now = 7]) (simp_all add: sample_post)
  moreover have "sync_step ''t1'' ?w1 (?w1\<lparr>w_local := w_local sample_world, w_flight := None,
      w_dropped := (if rs_resyncRequired sample_answer then {}
        else w_dropped ?w1 \<union> rejected_ids (snapshotForDrain empty_replica) sample_answer)\<rparr>)"
    by (rule sync_step.deliver) (simp_all add: sample_world_def)
  moreover have "?w1\<lparr>w_local := w_local sample_world, w_flight := None, w_dropped :=
      (if rs_resyncRequired sample_answer then {}
       else w_dropped ?w1 \<union> rejected_ids (snapshotForDrain empty_replica) sample_answer)\<rparr> = sample_world"
    by (simp add: sample_world_def sample_answer_def rejected_ids_def)
  ultimately show ?thesis
    using reachable.step [of "''t1''" ?w0 ?w1] reachable.step [of "''t1''" ?w1 sample_world] by simp
qed


text \<open>
  C8: A drain settles. From any reachable rest state in which no edit was given up, if the server takes
  the pending edits, the cursor has reached the collection horizon (0 on the database the migration
  makes) and fewer than 50000 rows are new to the browser, one \<open>syncOnce\<close> reports success within its 50
  rounds, leaves the outbox empty and the browser showing exactly the workspace's live projects. Of
  the tasks that is not claimed: two browsers can end with different ones, as shown below.
\<close>

theorem sync_settles:
  assumes "reachable tid w" and "w_flight w = None" and "w_dropped w = {}"
    and "nullish (sd_horizon (w_server w)) 0 \<le> cursor_nat (w_local w)" and "getClientId uuid (w_local w) = (cid, r1)"
    and "valid_request (drain_request cid (snapshotForDrain (w_local w)) (w_local w))"
    and "applyMutations tid now (map to_mutation (sn_toSend (snapshotForDrain (w_local w)))) (w_server w)
      = ((applied, []), s1)"
    and "rows_above tid (cursor_nat (w_local w)) s1 < 50000"
  shows "\<exists>r'. syncOnce (endpoint tid now) uuid now (w_local w) (w_server w) = (Idle (Some now), r', s1)
    \<and> rp_outbox r' = [] \<and> (\<forall>i. rp_projects r' i = shown (project_feed tid s1) i)"
proof -
  have "w = at_rest (w_server w) (w_local w) {}"
    using assms(2,3) by (simp add: at_rest_def)
  then have ok: "run_ok tid (at_rest (w_server w) (w_local w) {})"
    using reachable_run_ok [OF assms(1)] by simp
  show ?thesis
    using settles_from_rest [OF ok _ assms(5-8)] assms(4) by (simp add: past_horizon_def)
qed

lemma sync_settles_witness:
  "\<exists>r'. syncOnce (endpoint ''t1'' 9) ''c'' 9 (w_local sample_world) sample_sync = (Idle (Some 9), r', sample_sync)
    \<and> rp_outbox r' = [] \<and> rp_projects r' ''p1'' = local_of_project (hd (sd_projects sample_sync))
    \<and> rp_projects r' ''p9'' = None"
proof -
  let ?r = "w_local sample_world"
  have w: "w_server sample_world = sample_sync" "w_flight sample_world = None" "w_dropped sample_world = {}"
    by (simp_all add: sample_world_def)
  have id: "getClientId ''c'' ?r = (''c'', ?r\<lparr>rp_clientId := Some ''c''\<rparr>)"
    by (simp add: getClientId_def sample_world_def empty_replica_def drain_response_def sample_answer_def
        Let_def apply_changes_def pull_project_def hasPending_def deleteApplied_def bulkDelete_def
        wire_of_project_def sample_sync_def put_project_def)
  have "valid_request (drain_request ''c'' (snapshotForDrain ?r) ?r)" "rows_above ''t1'' (cursor_nat ?r) sample_sync = 0"
    "applyMutations ''t1'' 9 (map to_mutation (sn_toSend (snapshotForDrain ?r))) sample_sync = (([], []), sample_sync)"
    "shown (project_feed ''t1'' sample_sync) ''p1'' = local_of_project (hd (sd_projects sample_sync))"
    "shown (project_feed ''t1'' sample_sync) ''p9'' = None"
    by code_simp+
  then show ?thesis
    using sync_settles [OF sample_world_reachable w(2,3), of "''c''" "''c''" _ 9 "[]" sample_sync] id w(1)
    by (auto simp: sample_sync_def)
qed

text \<open>
  C20: Edits made while a drain is in flight survive it. Whatever the server answered, an outbox row
  younger than the database the drain read is still pending after the answer is applied. Short of an
  order to start over, which clears the rows until the next page, the project it edits is shown as the
  user left it; and so is the task it edits, unless the answer deletes the project of that task, which
  takes the task with it.
\<close>

theorem mid_flight_edit_survives:
  assumes "outbox_ok r0" and "m \<in> set (rp_outbox r)" and "rp_lastSeq r0 < ob_seq m"
    and "drain_response (snapshotForDrain r0) resp r = r'"
  shows "m \<in> set (rp_outbox r')
    \<and> (\<not> rs_resyncRequired resp \<and> ob_table m = OfProject \<longrightarrow> rp_projects r' (ob_rowId m) = rp_projects r (ob_rowId m))
    \<and> (\<not> rs_resyncRequired resp \<and> ob_table m = OfTask
        \<and> (\<forall>t p. rp_tasks r (ob_rowId m) = Some t \<and> p \<in> set (rs_projects resp) \<and> wp_id p = lt_projectId t
              \<longrightarrow> wp_deletedAt p = None)
        \<longrightarrow> rp_tasks r' (ob_rowId m) = rp_tasks r (ob_rowId m))"
proof (cases "rs_resyncRequired resp")
  case True
  then show ?thesis
    using assms(2,4) by (auto simp: drain_response_def wipe_replica_def)
next
  case False
  have m: "m \<in> set (rp_outbox r')"
    using assms settled_seen [OF assms(1)] by (fastforce simp: drain_response_fields(1) [OF False])
  have "ob_rowId m \<in> pend r'" if "ob_table m = OfProject"
    using that m by (auto simp: pend_iff row_key_def)
  moreover have "hasPending OfTask (ob_rowId m) r'" if "ob_table m = OfTask"
    using that m by (auto simp: hasPending_def list_ex_iff)
  ultimately show ?thesis
    using m drain_keeps_task [OF False, where sn = "snapshotForDrain r0" and r = r and i = "ob_rowId m"] assms(4)
    by (auto simp: drain_response_fields(4) [OF False] merge_page_shielded)
qed

text \<open>A project made, a drain started, and the project renamed before the answer arrived.\<close>

definition sample_drained :: replica where
  "sample_drained = snd (createProject ''a'' ''First'' 5 empty_replica)"

definition sample_edited :: replica where
  "sample_edited = renameProject ''prj_a'' ''Second'' 6 sample_drained"

definition sample_received :: replica where
  "sample_received = drain_response (snapshotForDrain sample_drained) (sample_answer\<lparr>rs_applied := [1]\<rparr>) sample_edited"

lemma mid_flight_edit_survives_witness:
  "map ob_seq (rp_outbox sample_received) = [2]
   \<and> map_option lp_name (rp_projects sample_received ''prj_a'') = Some ''Second''"
proof -
  let ?m = "last (rp_outbox sample_edited)"
  have eval: "map ob_seq (rp_outbox sample_received) = [2]" "rp_outbox sample_edited \<noteq> []"
    "outbox_ok sample_drained" "rp_lastSeq sample_drained = 1" "ob_seq ?m = 2" "ob_table ?m = OfProject"
    "ob_rowId ?m = ''prj_a''" "map_option lp_name (rp_projects sample_edited ''prj_a'') = Some ''Second''"
    "\<not> rs_resyncRequired (sample_answer\<lparr>rs_applied := [1]\<rparr>)"
    by code_simp+
  then have "rp_projects sample_received ''prj_a'' = rp_projects sample_edited ''prj_a''"
    using mid_flight_edit_survives [OF eval(3) last_in_set [OF eval(2)] _ sample_received_def [symmetric]] by simp
  then show ?thesis
    using eval(1,8) by simp
qed

text \<open>
  C10: Workspaces are apart. A sync request changes no project and no task of another workspace, whatever
  ids its mutations name, and everything it is sent is its own.
\<close>

theorem sync_confined:
  assumes "sync_ok s" and "sync_post (Some tid) body now s = (a, s')"
  shows "foreign tid s' = foreign tid s
    \<and> (\<forall>resp. a = Answer resp \<longrightarrow>
        set (rs_projects resp) \<subseteq> wire_of_project ` {p \<in> set (sd_projects s'). sp_tenantId p = tid}
        \<and> set (rs_tasks resp) \<subseteq> wire_of_task ` {t \<in> set (sd_tasks s'). st_tenantId t = tid})"
proof (cases "\<exists>rq. body = Some rq \<and> valid_request rq")
  case True
  then obtain rq where rq: "body = Some rq" "valid_request rq"
    by blast
  obtain ok no s1 where ap: "applyMutations tid now (rq_mutations rq) s = ((ok, no), s1)"
    by (metis prod.collapse)
  have s1: "s' = s1"
    using assms(2) rq ap by (simp add: sync_post_def Let_def split: if_splits)
  have "foreign tid s1 = foreign tid s"
    using foreign_applyMutations [OF assms(1), of tid now "rq_mutations rq"] ap by simp
  moreover have "set (rs_projects resp) \<subseteq> wire_of_project ` {p \<in> set (sd_projects s1). sp_tenantId p = tid}
      \<and> set (rs_tasks resp) \<subseteq> wire_of_task ` {t \<in> set (sd_tasks s1). st_tenantId t = tid}"
    if "a = Answer resp" for resp
  proof -
    have sub: "set (pr_projects (pullChanges tid c l s1)) \<subseteq> {p \<in> set (sd_projects s1). sp_tenantId p = tid}"
      "set (pr_tasks (pullChanges tid c l s1)) \<subseteq> {t \<in> set (sd_tasks s1). st_tenantId t = tid}" for c l
      using page_subset [of sp_tenantId sp_rowVersion tid c l "sd_projects s1"]
        page_subset [of st_tenantId st_rowVersion tid c l "sd_tasks s1"]
      by (auto simp: pull_fields(1,2))
    have post: "sync_post (Some tid) (Some rq) now s = (Answer resp, s1)"
      using assms(2) rq(1) that s1 by simp
    show ?thesis
    proof (cases "rs_resyncRequired resp")
      case True
      then have "rs_projects resp = [] \<and> rs_tasks resp = []"
        using post rq ap by (auto simp: sync_post_def Let_def split: if_splits)
      then show ?thesis
        by simp
    next
      case False
      then show ?thesis
        by (rule_tac sync_post_Answer [OF post]) (use sub in \<open>simp add: image_mono\<close>)
    qed
  qed
  ultimately show ?thesis
    by (simp add: s1)
next
  case False
  then have "s' = s" "\<forall>resp. a \<noteq> Answer resp"
    using assms(2) by (auto simp: sync_post_def split: option.splits)
  then show ?thesis
    by simp
qed

text \<open>An edit of another workspace's project.\<close>

definition hostile_request :: sync_request where
  "hostile_request = \<lparr>rq_clientId = ''c'', rq_cursor = ''0'', rq_pullLimit = None,
     rq_mutations = [\<lparr>m_seq = 1, m_table = OfProject, m_op = Tombstone, m_id = ''p9'', m_data = None\<rparr>]\<rparr>"

lemma sync_confined_witness:
  "foreign ''t1'' (snd (sync_post (Some ''t1'') (Some hostile_request) 7 sample_sync)) = foreign ''t1'' sample_sync
   \<and> (case fst (sync_post (Some ''t1'') (Some hostile_request) 7 sample_sync) of
        Answer resp \<Rightarrow> rs_rejected resp = [(1, IdConflict)] | Refused _ _ \<Rightarrow> False)"
proof -
  obtain a s' where post: "sync_post (Some ''t1'') (Some hostile_request) 7 sample_sync = (a, s')"
    by (metis prod.collapse)
  have "case fst (sync_post (Some ''t1'') (Some hostile_request) 7 sample_sync) of
      Answer resp \<Rightarrow> rs_rejected resp = [(1, IdConflict)] | Refused _ _ \<Rightarrow> False"
    by code_simp
  then show ?thesis
    using sync_confined [OF sample_sync_ok post] post by simp
qed

text \<open>
  The cursor survives the wire. The cursor a browser stores from an answer is a string its next
  request passes validation with, and reads back as the number the server computed.
\<close>

theorem cursor_roundtrip:
  assumes "sync_post (Some tid) (Some rq) now s = (Answer resp, s')" and "\<not> rs_resyncRequired resp"
  shows "cursor_nat (drain_response sn resp r) =
      pr_cursor (pullChanges tid (nat_of_digits (rq_cursor rq)) (pull_limit (rq_pullLimit rq)) s')
    \<and> list_all is_digit (cursor_of (drain_response sn resp r)) \<and> cursor_of (drain_response sn resp r) \<noteq> []"
  by (rule sync_post_Answer [OF assms(1)])
    (use assms(2) in \<open>simp add: cursor_nat_def drain_response_fields(3) digits_of_digits\<close>)

lemma cursor_roundtrip_witness:
  "cursor_nat (drain_response (snapshotForDrain empty_replica) sample_answer empty_replica)
     = pr_cursor (pullChanges ''t1'' 0 1000 sample_sync)"
proof -
  have "nat_of_digits (rq_cursor (drain_request ''c'' (snapshotForDrain empty_replica) empty_replica)) = 0"
    "pull_limit (rq_pullLimit (drain_request ''c'' (snapshotForDrain empty_replica) empty_replica)) = 1000"
    "\<not> rs_resyncRequired sample_answer"
    by code_simp+
  then show ?thesis
    using cursor_roundtrip [OF sample_post, of "snapshotForDrain empty_replica" empty_replica] by simp
qed

section \<open>Observations\<close>

text \<open>
  A browser that starts from cursor 0 passes the horizon check, but its second page does not when the
  first one ended below the horizon: it is told to start over, from cursor 0. With a first page that
  is full and ends below the horizon, no number of rounds suffices.
\<close>

lemma sync_round_below_horizon:
  assumes "rp_outbox r = []" and "length cid \<le> 100" and cur: "list_all is_digit (cursor_of r)" "cursor_of r \<noteq> []"
    and at: "cursor_nat r = 0 \<or> cursor_nat r = pr_cursor (pullChanges tid 0 1000 s)"
    and "pr_hasMore (pullChanges tid 0 1000 s)" and "sd_horizon s = Some h"
    and "pr_cursor (pullChanges tid 0 1000 s) < h"
  obtains r1 where "sync_loop (Suc k) (endpoint tid now) cid ls now r s = sync_loop k (endpoint tid now) cid ls now r1 s"
    and "rp_outbox r1 = []" and "list_all is_digit (cursor_of r1)" "cursor_of r1 \<noteq> []"
    and "cursor_nat r1 = 0 \<or> cursor_nat r1 = pr_cursor (pullChanges tid 0 1000 s)"
proof -
  let ?p = "pullChanges tid 0 1000 s" and ?sn = "snapshotForDrain r"
  let ?rq = "drain_request cid ?sn r"
  have none: "sn_toSend ?sn = []"
    by (rule nothing_sent [OF assms(1)])
  have valid: "valid_request ?rq"
    using assms(2) cur by (simp add: valid_request_def drain_request_def none)
  have lim: "pull_limit None = 1000"
    by (simp add: pull_limit_def DEFAULT_PULL_LIMIT_def MAX_PULL_LIMIT_def)
  have pos: "0 < pr_cursor ?p"
    using pull_cursor_facts(2) [where l = 1000 and c = 0 and tid = tid and s = s] assms(6) by simp
  show ?thesis
  proof (cases "cursor_nat r = 0")
    case True
    define resp where "resp = \<lparr>rs_applied = [], rs_rejected = [],
        rs_projects = map wire_of_project (pr_projects ?p), rs_tasks = map wire_of_task (pr_tasks ?p),
        rs_cursor = digits_of (pr_cursor ?p), rs_hasMore = True, rs_resyncRequired = False\<rparr>"
    have "sync_post (Some tid) (Some ?rq) now s = (Answer resp, s)"
      using valid True assms(6) by (simp add: sync_post_def drain_request_def none behind_horizon_def
          assms(7) lim resp_def cursor_nat_def Let_def)
    then have "sync_loop (Suc k) (endpoint tid now) cid ls now r s
        = sync_loop k (endpoint tid now) cid ls now (drain_response ?sn resp r) s"
      by (simp add: endpoint_def Let_def resp_def)
    then show ?thesis
    proof (rule that)
      have nr: "\<not> rs_resyncRequired resp" and "rs_cursor resp = digits_of (pr_cursor ?p)"
        by (simp_all add: resp_def)
      then have c: "cursor_of (drain_response ?sn resp r) = digits_of (pr_cursor ?p)"
        by (simp add: drain_response_fields(3))
      show "rp_outbox (drain_response ?sn resp r) = []"
        by (simp add: drain_response_fields(1) [OF nr] assms(1))
      show "list_all is_digit (cursor_of (drain_response ?sn resp r))"
        "cursor_of (drain_response ?sn resp r) \<noteq> []"
        "cursor_nat (drain_response ?sn resp r) = 0 \<or> cursor_nat (drain_response ?sn resp r) = pr_cursor ?p"
        by (simp_all add: c cursor_nat_def digits_of_digits)
    qed
  next
    case False
    then have c: "cursor_nat r = pr_cursor ?p"
      using at by simp
    define resp where "resp = \<lparr>rs_applied = [], rs_rejected = [], rs_projects = [], rs_tasks = [],
        rs_cursor = cursor_of r, rs_hasMore = False, rs_resyncRequired = True\<rparr>"
    have "sync_post (Some tid) (Some ?rq) now s = (Answer resp, s)"
      using valid c pos assms(8) by (simp add: sync_post_def drain_request_def none behind_horizon_def
          assms(7) resp_def cursor_nat_def Let_def)
    then have "sync_loop (Suc k) (endpoint tid now) cid ls now r s
        = sync_loop k (endpoint tid now) cid ls now (wipe_replica r) s"
      by (simp add: endpoint_def Let_def resp_def drain_response_def)
    then show ?thesis
      by (rule that) (simp_all add: wipe_replica_def assms(1) cursor_of_def cursor_nat_def is_digit_def
          nat_of_digits_def)
  qed
qed

theorem initial_sync_stuck_below_horizon:
  assumes "rp_outbox r = []" and "length cid \<le> 100" and "rp_cursor r = None"
    and "pr_hasMore (pullChanges tid 0 1000 s)" and "sd_horizon s = Some h"
    and "pr_cursor (pullChanges tid 0 1000 s) < h"
  shows "fst (sync_loop k (endpoint tid now) cid ls now r s) = Errored ''Sync did not converge'' ls"
proof -
  have "fst (sync_loop k (endpoint tid now) cid ls now r s) = Errored ''Sync did not converge'' ls"
    if "rp_outbox r = []" "list_all is_digit (cursor_of r)" "cursor_of r \<noteq> []"
      "cursor_nat r = 0 \<or> cursor_nat r = pr_cursor (pullChanges tid 0 1000 s)" for r
    using that
  proof (induction k arbitrary: r)
    case (Suc k)
    show ?case
      by (rule sync_round_below_horizon [OF Suc.prems(1) assms(2) Suc.prems(2-4) assms(4-6), of k now ls])
        (use Suc.IH in \<open>simp del: sync_loop.simps\<close>)
  qed simp
  then show ?thesis
    using assms(1,3) by (simp add: cursor_of_def cursor_nat_def is_digit_def nat_of_digits_def)
qed

text \<open>
  Two browsers of one workspace can end with different tasks. The first has seen project and task
  before another browser deletes the project, and drops the task with it; the second starts after
  the deletion and keeps the task, which the server never deleted. When the project comes back (an
  upsert lifts the tombstone) both report success at the same cursor, and only one shows the task.
\<close>

definition shared_db :: sync_db where
  "shared_db = \<lparr>sd_projects = [\<lparr>sp_id = ''p1'', sp_tenantId = ''t1'', sp_name = ''One'', sp_description = None,
     sp_status = ''Active'', sp_deletedAt = None, sp_rowVersion = 1, sp_updatedAt = 5\<rparr>],
     sd_tasks = [\<lparr>st_id = ''k1'', st_tenantId = ''t1'', st_projectId = ''p1'', st_title = ''Do'', st_done = False,
       st_deletedAt = None, st_rowVersion = 2, st_updatedAt = 5\<rparr>], sd_seq = 2, sd_horizon = Some 0\<rparr>"

definition deleted_db :: sync_db where
  "deleted_db = snd (applyMutations ''t1'' 6 [\<lparr>m_seq = 1, m_table = OfProject, m_op = Tombstone, m_id = ''p1'',
     m_data = None\<rparr>] shared_db)"

definition restored_db :: sync_db where
  "restored_db = snd (applyMutations ''t1'' 7 [\<lparr>m_seq = 2, m_table = OfProject, m_op = Upsert, m_id = ''p1'',
     m_data = Some (project_payload ''One'' None ''Active'')\<rparr>] deleted_db)"

definition browser_after :: "sync_db \<Rightarrow> replica \<Rightarrow> replica" where
  "browser_after s r = fst (snd (syncOnce (endpoint ''t1'' 9) ''c'' 9 r s))"

definition early_browser :: replica where
  "early_browser = browser_after restored_db (browser_after deleted_db (browser_after shared_db empty_replica))"

definition late_browser :: replica where
  "late_browser = browser_after restored_db (browser_after deleted_db empty_replica)"

lemma replicas_disagree_on_tasks:
  "rp_cursor early_browser = rp_cursor late_browser
   \<and> rp_projects early_browser ''p1'' = rp_projects late_browser ''p1''
   \<and> rp_tasks early_browser ''k1'' = None \<and> rp_tasks late_browser ''k1'' \<noteq> None"
  by code_simp

text \<open>More than 5000 rows with pending edits: every drain is refused, and nothing leaves the outbox.\<close>

lemma big_outbox_never_drains:
  assumes "5000 < length (sn_toSend (snapshotForDrain r))"
  shows "sync_loop (Suc k) (endpoint tid now) cid ls now r s = (Errored ''Invalid sync request'' ls, r, s)"
  using assms by (simp add: endpoint_def sync_post_def valid_request_def drain_request_def failure_message_def
      Let_def)

end
