(* ===== verification/Sdk.thy ===== *)
theory Sdk
  imports Passkeys "HOL-Library.AList"
begin

text \<open>
  The server-side library apps use (\<open>packages/sdk-node/src\<close>): the key cache (\<open>jwks.ts\<close>), token
  verification and the requests of every method (\<open>client.ts\<close>), the middleware (\<open>middleware.ts\<close>)
  and the client of the Ask AI service (\<open>askai.ts\<close>).

  \<^item> \<open>jsonwebtoken\<close> is an argument: \<open>sv_decode\<close> and \<open>sv_verify\<close> of the record \<open>sdk_lib\<close>. So is the
    key set that the platform serves, as the answer to one fetch.
  \<^item> A method is the request it sends; what it returns is \<open>sdk_answer\<close> of the response. A parameter
    object is the list of its fields, as the code spreads it into the body.
\<close>

section \<open>Errors and options\<close>

datatype sdk_error =
    TokenError string
  | ConfigError string
  | PlatformError nat string

type_synonym 'a sdk_res = "sdk_error + 'a"

record sdk_opts =
  so_platformUrl :: string
  so_clientId :: "string option"
  so_clientSecret :: "string option"
  so_issuer :: "string option"
  so_ttlMs :: int
  so_minRefreshMs :: int

definition strip_slashes :: "string \<Rightarrow> string" where
  "strip_slashes url = rev (dropWhile (\<lambda>c. c = CHR ''/'') (rev url))"

definition sdk_issuer :: "sdk_opts \<Rightarrow> string" where
  "sdk_issuer o1 = nullish (so_issuer o1) ''evoplatform''"

section \<open>The key cache\<close>

record jwks_cache =
  jc_pems :: "(string \<times> string) list"
  jc_fetchedAt :: time
  jc_lastMissAt :: time

definition new_cache :: jwks_cache where
  "new_cache = \<lparr>jc_pems = [], jc_fetchedAt = 0, jc_lastMissAt = 0\<rparr>"

text \<open>What a fetch of the key set gives: the status of a failure, or the keys with their ids.\<close>

datatype key_set = Keys "(string \<times> string) list" | FetchFailed nat

definition jwks_refresh :: "key_set \<Rightarrow> time \<Rightarrow> jwks_cache \<Rightarrow> unit sdk_res \<times> jwks_cache" where
  "jwks_refresh ks ended c =
     (case ks of
        FetchFailed status \<Rightarrow> (Inl (TokenError (''JWKS fetch failed with status '' @ digits_of status)), c)
      | Keys keys \<Rightarrow>
          (Inr (), c\<lparr>jc_pems := foldl (\<lambda>pems (kid, pem). if kid = [] then pems else AList.update kid pem pems)
             [] keys, jc_fetchedAt := ended\<rparr>))"

definition wants_refresh :: "sdk_opts \<Rightarrow> string \<Rightarrow> time \<Rightarrow> jwks_cache \<Rightarrow> bool" where
  "wants_refresh o1 kid now c \<longleftrightarrow>
     so_ttlMs o1 < now - jc_fetchedAt c
     \<or> map_of (jc_pems c) kid = None \<and> so_minRefreshMs o1 < now - jc_lastMissAt c"

text \<open>\<open>now\<close> is the time of the call, \<open>ended\<close> that of the answer to the fetch it may make.\<close>

definition getPem ::
  "sdk_opts \<Rightarrow> key_set \<Rightarrow> string \<Rightarrow> time \<Rightarrow> time \<Rightarrow> jwks_cache \<Rightarrow> string sdk_res \<times> jwks_cache" where
  "getPem o1 ks kid now ended c =
     (let refreshed = wants_refresh o1 kid now c;
          unknown = TokenError (''Unknown signing key: '' @ kid)
      in case (if refreshed then jwks_refresh ks ended c else (Inr (), c)) of
           (Inl e, c1) \<Rightarrow> (Inl e, c1)
         | (Inr _, c1) \<Rightarrow>
             (case map_of (jc_pems c1) kid of
                Some pem \<Rightarrow>
                  if pem = [] then (Inl unknown, if refreshed then c1\<lparr>jc_lastMissAt := ended\<rparr> else c1)
                  else (Inr pem, c1)
              | None \<Rightarrow> (Inl unknown, if refreshed then c1\<lparr>jc_lastMissAt := ended\<rparr> else c1)))"

section \<open>Token verification\<close>

text \<open>
  \<open>sv_decode\<close>: \<open>None\<close> for a malformed token, else the \<open>kid\<close> of its header. \<open>sv_verify\<close>: the
  message it throws, or the claims of a token signed RS256 by the key and the issuer, in time.
\<close>

record sdk_lib =
  sv_decode :: "string \<Rightarrow> string option option"
  sv_verify :: "string \<Rightarrow> string \<Rightarrow> time \<Rightarrow> string \<Rightarrow> string + claims"

text \<open>\<open>String(v)\<close> of a JSON value.\<close>

fun js_string :: "json \<Rightarrow> string" where
  "js_string JNull = ''null''"
| "js_string (JBool b) = (if b then ''true'' else ''false'')"
| "js_string (JNum n) = show_int n"
| "js_string (JStr s) = s"
| "js_string (JDate t) = show_int t"
| "js_string (JArr xs) = join '','' (map (\<lambda>x. case x of JNull \<Rightarrow> [] | _ \<Rightarrow> js_string x) xs)"
| "js_string (JObj kvs) = ''[object Object]''"

definition verify_claims :: "sdk_opts \<Rightarrow> bool \<Rightarrow> claims \<Rightarrow> claims sdk_res" where
  "verify_claims o1 audience c =
     (case map_of c ''purpose'' of
        Some p \<Rightarrow>
          Inl (TokenError (''Token is a single-purpose \"'' @ js_string p @ ''\" token, not an access token''))
      | None \<Rightarrow>
          if \<not> audience then Inr c
          else if \<not> truthy (so_clientId o1)
          then Inl (ConfigError (''verifyToken requires clientId so the token can be bound to this app. ''
                 @ ''Pass clientId to the constructor, or verifyToken(token, { audience: false }) ''
                 @ ''to deliberately accept tokens minted for any app.''))
          else if map_of c ''app'' \<noteq> Some (JStr (the (so_clientId o1)))
          then Inl (TokenError (''Token was issued for app \"''
                 @ (case map_of c ''app'' of None \<Rightarrow> ''none'' | Some JNull \<Rightarrow> ''none'' | Some v \<Rightarrow> js_string v)
                 @ ''\", not \"'' @ the (so_clientId o1) @ ''\"''))
          else Inr c)"

definition verifyToken ::
  "sdk_lib \<Rightarrow> sdk_opts \<Rightarrow> key_set \<Rightarrow> bool \<Rightarrow> string \<Rightarrow> time \<Rightarrow> time \<Rightarrow> jwks_cache \<Rightarrow>
   claims sdk_res \<times> jwks_cache" where
  "verifyToken lib o1 ks audience token now ended c =
     (case sv_decode lib token of
        None \<Rightarrow> (Inl (TokenError ''Malformed token''), c)
      | Some kid \<Rightarrow>
          if \<not> truthy kid then (Inl (TokenError ''Token has no kid header''), c)
          else (case getPem o1 ks (the kid) now ended c of
                  (Inl e, c1) \<Rightarrow> (Inl e, c1)
                | (Inr pem, c1) \<Rightarrow>
                    (case sv_verify lib pem (sdk_issuer o1) ended token of
                       Inl msg \<Rightarrow> (Inl (TokenError msg), c1)
                     | Inr claims \<Rightarrow> (verify_claims o1 audience claims, c1))))"

section \<open>Middleware\<close>

datatype guarded = Next claims | Stop nat string

text \<open>\<open>header\<close> holds the values of \<open>Authorization\<close>; the first one counts.\<close>

definition requireAuth ::
  "sdk_lib \<Rightarrow> sdk_opts \<Rightarrow> key_set \<Rightarrow> string list \<Rightarrow> time \<Rightarrow> time \<Rightarrow> jwks_cache \<Rightarrow> guarded \<times> jwks_cache" where
  "requireAuth lib o1 ks header now ended c =
     (case header of
        [] \<Rightarrow> (Stop 401 ''Missing bearer token'', c)
      | v # _ \<Rightarrow>
          if \<not> starts_with v ''Bearer '' then (Stop 401 ''Missing bearer token'', c)
          else (case verifyToken lib o1 ks True (drop 7 v) now ended c of
                  (Inl _, c1) \<Rightarrow> (Stop 401 ''Invalid or expired token'', c1)
                | (Inr cl, c1) \<Rightarrow> (Next cl, c1)))"

definition requireRole :: "string \<Rightarrow> claims option \<Rightarrow> guarded" where
  "requireRole r evo =
     (case evo of
        None \<Rightarrow> Stop 403 (''Role \"'' @ r @ ''\" required'')
      | Some c \<Rightarrow>
          (case map_of c ''roles'' of
             Some (JArr rs) \<Rightarrow>
               if JStr r \<in> set rs then Next c else Stop 403 (''Role \"'' @ r @ ''\" required'')
           | _ \<Rightarrow> Stop 403 (''Role \"'' @ r @ ''\" required'')))"

section \<open>Requests\<close>

type_synonym params = "(string \<times> json) list"

record http_request =
  hr_method :: string
  hr_url :: string
  hr_headers :: "(string \<times> string) list"
  hr_body :: "params option"

text \<open>\<open>{ ...params, key: value }\<close>; an \<open>undefined\<close> value takes the key out of the JSON text.\<close>

definition spread_put :: "string \<Rightarrow> string option \<Rightarrow> params \<Rightarrow> params" where
  "spread_put k v ps =
     (case v of None \<Rightarrow> AList.delete k ps | Some x \<Rightarrow> AList.update k (JStr x) ps)"

definition sdk_request ::
  "sdk_opts \<Rightarrow> string \<Rightarrow> string \<Rightarrow> params option \<Rightarrow> (string \<times> string) list \<Rightarrow> http_request" where
  "sdk_request o1 meth path body headers =
     \<lparr>hr_method = meth, hr_url = strip_slashes (so_platformUrl o1) @ path,
      hr_headers = (''Content-Type'', ''application/json'') # headers, hr_body = body\<rparr>"

definition sdk_post :: "sdk_opts \<Rightarrow> string \<Rightarrow> params \<Rightarrow> (string \<times> string) list \<Rightarrow> http_request" where
  "sdk_post o1 path body headers = sdk_request o1 ''POST'' path (Some body) headers"

definition bearer :: "string \<Rightarrow> (string \<times> string) list" where
  "bearer token = [(''Authorization'', ''Bearer '' @ token)]"

definition originHeader :: "string option \<Rightarrow> (string \<times> string) list" where
  "originHeader origin = (if truthy origin then [(''Origin'', the origin)] else [])"

definition clientHeaders :: "sdk_opts \<Rightarrow> (string \<times> string) list sdk_res" where
  "clientHeaders o1 =
     (if \<not> truthy (so_clientId o1) \<or> \<not> truthy (so_clientSecret o1)
      then Inl (ConfigError ''clientId and clientSecret are required for this call'')
      else Inr [(''x-client-id'', the (so_clientId o1)), (''x-client-secret'', the (so_clientSecret o1))])"

text \<open>\<open>...(clientId ? { clientId } : {})\<close>.\<close>

definition with_client_id :: "sdk_opts \<Rightarrow> params \<Rightarrow> params" where
  "with_client_id o1 ps = (if truthy (so_clientId o1) then spread_put ''clientId'' (so_clientId o1) ps else ps)"

subsection \<open>The methods\<close>

datatype auth_call =
    LoginCall params
  | RefreshCall string
  | SignupCall params
  | LogoutCall string
  | SendVerificationEmail params
  | VerifyEmail string
  | ForgotWorkspace params
  | ForgotPassword params
  | ResetPasswordCall string string

definition auth_request :: "sdk_opts \<Rightarrow> auth_call \<Rightarrow> http_request" where
  "auth_request o1 call =
     (case call of
        LoginCall ps \<Rightarrow> sdk_post o1 ''/auth/login'' (spread_put ''clientId'' (so_clientId o1) ps) []
      | RefreshCall t \<Rightarrow> sdk_post o1 ''/auth/refresh'' [(''refreshToken'', JStr t)] []
      | SignupCall ps \<Rightarrow> sdk_post o1 ''/auth/signup'' (spread_put ''clientId'' (so_clientId o1) ps) []
      | LogoutCall t \<Rightarrow> sdk_post o1 ''/auth/logout'' [(''refreshToken'', JStr t)] []
      | SendVerificationEmail ps \<Rightarrow> sdk_post o1 ''/auth/verify/send'' ps []
      | VerifyEmail t \<Rightarrow> sdk_post o1 ''/auth/verify'' [(''token'', JStr t)] []
      | ForgotWorkspace ps \<Rightarrow> sdk_post o1 ''/auth/workspaces'' (with_client_id o1 ps) []
      | ForgotPassword ps \<Rightarrow> sdk_post o1 ''/auth/forgot'' (with_client_id o1 ps) []
      | ResetPasswordCall t pw \<Rightarrow>
          sdk_post o1 ''/auth/reset'' [(''token'', JStr t), (''password'', JStr pw)] [])"

datatype passkey_call =
    PasskeyRegisterOptions string "string option"
  | PasskeyRegisterVerify string params
  | ListPasskeys string
  | DeletePasskey string string
  | PasskeyLoginOptions params "string option"
  | PasskeyLoginVerify params

definition passkey_request :: "sdk_opts \<Rightarrow> passkey_call \<Rightarrow> http_request" where
  "passkey_request o1 call =
     (case call of
        PasskeyRegisterOptions t origin \<Rightarrow>
          sdk_request o1 ''POST'' ''/auth/passkeys/register/options'' (Some []) (bearer t @ originHeader origin)
      | PasskeyRegisterVerify t ps \<Rightarrow>
          sdk_request o1 ''POST'' ''/auth/passkeys/register/verify'' (Some ps) (bearer t)
      | ListPasskeys t \<Rightarrow> sdk_request o1 ''GET'' ''/auth/passkeys'' None (bearer t)
      | DeletePasskey t i \<Rightarrow> sdk_request o1 ''DELETE'' (''/auth/passkeys/'' @ i) None (bearer t)
      | PasskeyLoginOptions ps origin \<Rightarrow>
          sdk_request o1 ''POST'' ''/auth/passkeys/login/options'' (Some ps) (originHeader origin)
      | PasskeyLoginVerify ps \<Rightarrow>
          sdk_request o1 ''POST'' ''/auth/passkeys/login/verify''
            (Some (spread_put ''clientId'' (so_clientId o1) ps)) [])"

datatype member_call =
    ListTenantMembers
  | ListTenantRoles
  | CreateTenantMember params
  | UpdateTenantMember string params
  | DeactivateTenantMember string
  | RestoreTenantMember string
  | SetTenantMemberRoles string "string list"
  | ListTenantInvites
  | CreateTenantInvite params
  | ResendTenantInvite string
  | RevokeTenantInvite string

definition member_request :: "sdk_opts \<Rightarrow> string \<Rightarrow> member_call \<Rightarrow> http_request" where
  "member_request o1 accessToken call =
     (let ask = (\<lambda>meth path body. sdk_request o1 meth path body (bearer accessToken))
      in case call of
        ListTenantMembers \<Rightarrow> ask ''GET'' ''/tenant/users'' None
      | ListTenantRoles \<Rightarrow> ask ''GET'' ''/tenant/roles'' None
      | CreateTenantMember ps \<Rightarrow> ask ''POST'' ''/tenant/users'' (Some ps)
      | UpdateTenantMember i ps \<Rightarrow> ask ''PATCH'' (''/tenant/users/'' @ i) (Some ps)
      | DeactivateTenantMember i \<Rightarrow> ask ''DELETE'' (''/tenant/users/'' @ i) None
      | RestoreTenantMember i \<Rightarrow> ask ''POST'' (''/tenant/users/'' @ i @ ''/restore'') None
      | SetTenantMemberRoles i ids \<Rightarrow>
          ask ''PUT'' (''/tenant/users/'' @ i @ ''/roles'') (Some [(''roleIds'', JArr (map JStr ids))])
      | ListTenantInvites \<Rightarrow> ask ''GET'' ''/tenant/invites'' None
      | CreateTenantInvite ps \<Rightarrow> ask ''POST'' ''/tenant/invites'' (Some ps)
      | ResendTenantInvite i \<Rightarrow> ask ''POST'' (''/tenant/invites/'' @ i @ ''/resend'') None
      | RevokeTenantInvite i \<Rightarrow> ask ''DELETE'' (''/tenant/invites/'' @ i) None)"

definition acceptInvite_request :: "sdk_opts \<Rightarrow> params \<Rightarrow> http_request" where
  "acceptInvite_request o1 ps = sdk_post o1 ''/auth/invites/accept'' ps []"

datatype service_call =
    GetEntitlement string
  | ListPrices
  | CreateCheckout params
  | CreateBillingPortal params
  | SendEmail params
  | GetBrand
  | PushEvent params

text \<open>\<open>enc\<close> is \<open>encodeURIComponent\<close>.\<close>

definition service_request :: "(string \<Rightarrow> string) \<Rightarrow> sdk_opts \<Rightarrow> service_call \<Rightarrow> http_request sdk_res" where
  "service_request enc o1 call =
     (case clientHeaders o1 of
        Inl e \<Rightarrow> Inl e
      | Inr hs \<Rightarrow> Inr (case call of
            GetEntitlement tid \<Rightarrow> sdk_request o1 ''GET'' (''/billing/entitlement?tenantId='' @ enc tid) None hs
          | ListPrices \<Rightarrow> sdk_request o1 ''GET'' ''/billing/prices'' None hs
          | CreateCheckout ps \<Rightarrow> sdk_post o1 ''/billing/checkout'' ps hs
          | CreateBillingPortal ps \<Rightarrow> sdk_post o1 ''/billing/portal'' ps hs
          | SendEmail ps \<Rightarrow> sdk_post o1 ''/email/send'' ps hs
          | GetBrand \<Rightarrow> sdk_request o1 ''GET'' ''/brand'' None hs
          | PushEvent ps \<Rightarrow> sdk_post o1 ''/events'' ps hs))"

datatype sdk_call =
    AuthCall auth_call
  | PasskeyCall passkey_call
  | MemberCall string member_call
  | AcceptInviteCall params
  | ServiceCall service_call

definition call_request :: "(string \<Rightarrow> string) \<Rightarrow> sdk_opts \<Rightarrow> sdk_call \<Rightarrow> http_request sdk_res" where
  "call_request enc o1 call =
     (case call of
        AuthCall c \<Rightarrow> Inr (auth_request o1 c)
      | PasskeyCall c \<Rightarrow> Inr (passkey_request o1 c)
      | MemberCall t c \<Rightarrow> Inr (member_request o1 t c)
      | AcceptInviteCall ps \<Rightarrow> Inr (acceptInvite_request o1 ps)
      | ServiceCall c \<Rightarrow> service_request enc o1 c)"

subsection \<open>The answer\<close>

text \<open>The text of a response: empty, JSON, or neither.\<close>

datatype response_text = NoText | JsonText json | OtherText string

definition sdk_answer :: "nat \<Rightarrow> response_text \<Rightarrow> response_text sdk_res" where
  "sdk_answer status body =
     (if 200 \<le> status \<and> status < 300 then Inr body
      else Inl (PlatformError status
        (case body of
           JsonText (JObj kvs) \<Rightarrow>
             (case map_of kvs ''message'' of
                Some m \<Rightarrow> js_string m
              | None \<Rightarrow> ''Platform request failed with status '' @ digits_of status)
         | _ \<Rightarrow> ''Platform request failed with status '' @ digits_of status)))"

section \<open>Ask AI\<close>

record ask_params =
  ak_question :: string
  ak_tenantId :: "string option"
  ak_accessToken :: "string option"
  ak_userId :: "string option"
  ak_history :: "json option"
  ak_sourceTypes :: "string list option"
  ak_collection :: "string option"
  ak_allowActions :: "bool option"

definition ask_headers :: "string option \<Rightarrow> ask_params \<Rightarrow> (string \<times> string) list sdk_res" where
  "ask_headers serviceKey ps =
     (if truthy (ak_accessToken ps)
      then if truthy (ak_tenantId ps)
           then Inl (ConfigError (''Pass either accessToken or tenantId, not both '' @ [CHR 0x97]
                  @ '' with a user token the tenant comes from its verified claims''))
           else Inr (bearer (the (ak_accessToken ps)))
      else if \<not> truthy serviceKey
      then Inl (ConfigError ''AskAi.ask needs either a serviceKey on the client or an accessToken on the call'')
      else if \<not> truthy (ak_tenantId ps)
      then Inl (ConfigError (''tenantId is required when authenticating with a service key '' @ [CHR 0x97]
             @ '' the key identifies your application, not the customer''))
      else Inr (bearer (the serviceKey) @ [(''X-Data-Tenant'', the (ak_tenantId ps))]))"

definition ask_body :: "ask_params \<Rightarrow> params" where
  "ask_body ps =
     [(''question'', JStr (ak_question ps)), (''history'', nullish (ak_history ps) (JArr [])),
      (''source_types'', json_opt (\<lambda>ts. JArr (map JStr ts)) (ak_sourceTypes ps)),
      (''collection'', JStr (nullish (ak_collection ps) ''default'')),
      (''allow_actions'', JBool (nullish (ak_allowActions ps) False)),
      (''user_id'', json_opt JStr (ak_userId ps))]"

definition ask_request :: "string \<Rightarrow> string option \<Rightarrow> ask_params \<Rightarrow> http_request sdk_res" where
  "ask_request url serviceKey ps =
     (if url = [] then Inl (ConfigError ''AskAi requires a url'')
      else case ask_headers serviceKey ps of
             Inl e \<Rightarrow> Inl e
           | Inr hs \<Rightarrow> Inr \<lparr>hr_method = ''POST'', hr_url = strip_slashes url @ ''/query'',
               hr_headers = (''Content-Type'', ''application/json'') # hs, hr_body = Some (ask_body ps)\<rparr>)"

text \<open>What became of the request to the service: a timeout, another failure, or a response.\<close>

datatype ask_sent = TimedOut | Unreachable string | AskResponse nat response_text

record ask_result =
  ar_answer :: json
  ar_question :: json
  ar_sources :: json
  ar_actionProposal :: json
  ar_gated :: bool
  ar_unconfigured :: bool

text \<open>A field of the answer with its default, where \<open>undefined\<close> and \<open>null\<close> count as missing.\<close>

definition ans_field :: "(string \<times> json) list \<Rightarrow> string \<Rightarrow> json \<Rightarrow> json" where
  "ans_field kvs k d = (case map_of kvs k of None \<Rightarrow> d | Some JNull \<Rightarrow> d | Some v \<Rightarrow> v)"

definition ask_answer :: "int \<Rightarrow> string \<Rightarrow> ask_sent \<Rightarrow> ask_result sdk_res" where
  "ask_answer timeoutMs question sent =
     (case sent of
        TimedOut \<Rightarrow>
          Inl (PlatformError 504 (''Ask AI request timed out after '' @ show_int timeoutMs @ ''ms''))
      | Unreachable msg \<Rightarrow> Inl (PlatformError 0 (''Ask AI is unreachable: '' @ msg))
      | AskResponse status body \<Rightarrow>
          if \<not> (200 \<le> status \<and> status < 300)
          then Inl (PlatformError status
                 (case body of
                    JsonText (JObj kvs) \<Rightarrow>
                      (case map_of kvs ''detail'' of
                         Some m \<Rightarrow> js_string m
                       | None \<Rightarrow> ''Ask AI request failed with status '' @ digits_of status)
                  | _ \<Rightarrow> ''Ask AI request failed with status '' @ digits_of status))
          else let kvs = (case body of JsonText (JObj kvs) \<Rightarrow> kvs | _ \<Rightarrow> [])
               in Inr \<lparr>ar_answer = ans_field kvs ''answer'' (JStr []),
                    ar_question = ans_field kvs ''question'' (JStr question),
                    ar_sources = ans_field kvs ''sources'' (JArr []),
                    ar_actionProposal = ans_field kvs ''action_proposal'' JNull,
                    ar_gated = claim_truthy kvs ''gated'', ar_unconfigured = claim_truthy kvs ''unconfigured''\<rparr>)"

section \<open>What a verified token is\<close>

lemma verify_claims_Inr:
  "verify_claims o1 audience c = Inr c' \<longleftrightarrow> c' = c \<and> map_of c ''purpose'' = None
     \<and> (audience \<longrightarrow> truthy (so_clientId o1) \<and> map_of c ''app'' = Some (JStr (the (so_clientId o1))))"
  by (auto simp: verify_claims_def split: option.splits)

lemma starts_with_split: "starts_with s p \<Longrightarrow> s = p @ drop (length p) s"
  by (metis append_take_drop_id starts_with_def)

lemma getPem_Inr:
  "getPem o1 ks kid now ended c = (Inr pem, c') \<Longrightarrow> map_of (jc_pems c') kid = Some pem"
  by (auto simp: getPem_def Let_def jwks_refresh_def split: if_splits option.splits key_set.splits)

lemma getPem_cached:
  assumes "map_of (jc_pems c) kid = Some pem" and "pem \<noteq> []" and "now - jc_fetchedAt c \<le> so_ttlMs o1"
  shows "getPem o1 ks kid now ended c = (Inr pem, c)"
  using assms by (simp add: getPem_def wants_refresh_def)

text \<open>
  Only a genuine token passes the middleware. What \<open>requireAuth\<close> lets through was verified by a key
  the platform's key set holds under the token's own key id, carries no single purpose, and was
  minted for this very app; without a client id nothing passes.
\<close>

theorem middleware_admits_own_tokens:
  assumes "requireAuth lib o1 ks header now ended c = (Next claims, c')"
  shows "\<exists>token kid pem. hd header = ''Bearer '' @ token \<and> sv_decode lib token = Some (Some kid)
    \<and> map_of (jc_pems c') kid = Some pem \<and> sv_verify lib pem (sdk_issuer o1) ended token = Inr claims
    \<and> map_of claims ''purpose'' = None
    \<and> truthy (so_clientId o1) \<and> map_of claims ''app'' = Some (JStr (the (so_clientId o1)))"
proof -
  obtain v vs where h: "header = v # vs" "starts_with v ''Bearer ''"
    and v: "verifyToken lib o1 ks True (drop 7 v) now ended c = (Inr claims, c')"
    using assms by (auto simp: requireAuth_def split: list.splits if_splits prod.splits sum.splits)
  have "v = ''Bearer '' @ drop 7 v"
    using starts_with_split [OF h(2)] by (simp add: eval_nat_numeral)
  moreover obtain kid pem where "sv_decode lib (drop 7 v) = Some (Some kid)"
    "getPem o1 ks kid now ended c = (Inr pem, c')"
    "sv_verify lib pem (sdk_issuer o1) ended (drop 7 v) = Inr claims" "verify_claims o1 True claims = Inr claims"
    using v by (auto simp: verifyToken_def verify_claims_Inr split: option.splits if_splits prod.splits sum.splits
        dest: truthy_the)
  ultimately show ?thesis
    using h(1) getPem_Inr by (auto simp: verify_claims_Inr)
qed

section \<open>The fetches of a flood\<close>

text \<open>Calls one after another, each with its time and the time of the answer; the fetches they make.\<close>

fun fetch_times :: "sdk_opts \<Rightarrow> (time \<Rightarrow> key_set) \<Rightarrow> (string \<times> time \<times> time) list \<Rightarrow> jwks_cache \<Rightarrow> time list" where
  "fetch_times o1 served [] c = []"
| "fetch_times o1 served ((kid, now, ended) # calls) c =
     (if wants_refresh o1 kid now c then [now] else [])
     @ fetch_times o1 served calls (snd (getPem o1 (served now) kid now ended c))"

fun chronological :: "time \<Rightarrow> (string \<times> time \<times> time) list \<Rightarrow> time \<Rightarrow> bool" where
  "chronological t [] until \<longleftrightarrow> t \<le> until"
| "chronological t ((kid, now, ended) # calls) until \<longleftrightarrow> t \<le> now \<and> now \<le> ended \<and> chronological ended calls until"

definition served_without :: "(time \<Rightarrow> key_set) \<Rightarrow> string set \<Rightarrow> bool" where
  "served_without served kids \<longleftrightarrow> (\<forall>t. \<exists>keys. served t = Keys keys \<and> (\<forall>kid \<in> kids. kid \<notin> fst ` set keys))"

lemma chronological_le: "chronological t calls until \<Longrightarrow> t \<le> until"
  by (induction calls arbitrary: t) force+

lemma pems_of_keys:
  "map_of (foldl (\<lambda>pems (kid, pem). if kid = [] then pems else AList.update kid pem pems) [] keys) kid \<noteq> None
   \<Longrightarrow> kid \<in> fst ` set keys"
  by (induction keys rule: rev_induct) (auto simp: update_conv split: if_splits)

lemma getPem_miss:
  assumes "served_without served kids" and "kid \<in> kids" and "wants_refresh o1 kid now c"
  shows "jc_fetchedAt (snd (getPem o1 (served now) kid now ended c)) = ended
    \<and> jc_lastMissAt (snd (getPem o1 (served now) kid now ended c)) = ended"
proof -
  obtain keys where k: "served now = Keys keys" "kid \<notin> fst ` set keys"
    using assms(1,2) unfolding served_without_def by metis
  then have "map_of (foldl (\<lambda>pems (kid, pem). if kid = [] then pems else AList.update kid pem pems) [] keys) kid = None"
    using pems_of_keys by blast
  then show ?thesis
    by (simp add: getPem_def assms(3) jwks_refresh_def k(1))
qed

lemma getPem_quiet:
  "\<not> wants_refresh o1 kid now c \<Longrightarrow> snd (getPem o1 ks kid now ended c) = c"
  by (auto simp: getPem_def Let_def split: option.splits)

lemma fetches_apart:
  assumes "served_without served kids" and "fst ` set calls \<subseteq> kids" and "chronological t calls until"
    and "f \<le> jc_fetchedAt c" "f \<le> jc_lastMissAt c"
  shows "int (length (fetch_times o1 served calls c)) * min (so_ttlMs o1) (so_minRefreshMs o1) \<le> Orderings.max 0 (until - f)"
  using assms(2-5)
proof (induction calls arbitrary: t f c)
  case (Cons call calls)
  obtain kid now ended where call: "call = (kid, now, ended)"
    by (cases call)
  have ch: "t \<le> now" "now \<le> ended" "chronological ended calls until"
    using Cons.prems(2) by (simp_all add: call)
  let ?c = "snd (getPem o1 (served now) kid now ended c)"
  show ?case
  proof (cases "wants_refresh o1 kid now c")
    case True
    have c: "jc_fetchedAt ?c = ended" "jc_lastMissAt ?c = ended"
      using getPem_miss [OF assms(1) _ True] Cons.prems(1) by (auto simp: call)
    have "int (length (fetch_times o1 served calls ?c)) * min (so_ttlMs o1) (so_minRefreshMs o1)
        \<le> Orderings.max 0 (until - ended)"
      using Cons.IH [OF _ ch(3), of ended ?c] Cons.prems(1) c by simp
    moreover have "min (so_ttlMs o1) (so_minRefreshMs o1) < now - f"
      using True Cons.prems(3,4) by (auto simp: wants_refresh_def)
    ultimately show ?thesis
      using ch(2) chronological_le [OF ch(3)] True by (simp add: call algebra_simps)
  next
    case False
    then show ?thesis
      using Cons.IH [OF _ ch(3) Cons.prems(3,4)] Cons.prems(1) by (simp add: call getPem_quiet)
  qed
qed simp

text \<open>
  A flood of unknown key ids costs the platform little. While the platform answers and serves none
  of them, any number of calls made one after another up to a time cause at most one fetch more than
  there are quiet intervals (or cache lifetimes, if those are shorter) in that time.
\<close>

theorem flood_fetches_bounded:
  assumes "served_without served (fst ` set calls)" and "chronological start calls until"
    and "0 < min (so_ttlMs o1) (so_minRefreshMs o1)"
  shows "(int (length (fetch_times o1 served calls c)) - 1) * min (so_ttlMs o1) (so_minRefreshMs o1) \<le> until - start"
  using assms(1,2)
proof (induction calls arbitrary: start c)
  case Nil
  then show ?case
    using assms(3) by (auto simp: min_def)
next
  case (Cons call calls)
  obtain kid now ended where call: "call = (kid, now, ended)"
    by (cases call)
  have ch: "start \<le> now" "now \<le> ended" "chronological ended calls until"
    using Cons.prems(2) by (simp_all add: call)
  let ?c = "snd (getPem o1 (served now) kid now ended c)"
  have sw: "served_without served (fst ` set calls)"
    using Cons.prems(1) by (auto simp: served_without_def)
  show ?case
  proof (cases "wants_refresh o1 kid now c")
    case True
    have c: "jc_fetchedAt ?c = ended" "jc_lastMissAt ?c = ended"
      using getPem_miss [OF Cons.prems(1) _ True] by (auto simp: call)
    have "int (length (fetch_times o1 served calls ?c)) * min (so_ttlMs o1) (so_minRefreshMs o1)
        \<le> Orderings.max 0 (until - ended)"
      using fetches_apart [OF sw _ ch(3), of ended ?c o1] c by simp
    then show ?thesis
      using True ch chronological_le [OF ch(3)] by (simp add: call)
  next
    case False
    then show ?thesis
      using Cons.IH [OF sw ch(3), of c] ch by (simp add: call getPem_quiet)
  qed
qed

definition sample_sdk :: sdk_opts where
  "sample_sdk = \<lparr>so_platformUrl = ''https://p.example/'', so_clientId = Some ''c1'', so_clientSecret = Some ''secret'',
     so_issuer = None, so_ttlMs = 600000, so_minRefreshMs = 30000\<rparr>"

definition sample_lib :: sdk_lib where
  "sample_lib = \<lparr>sv_decode = (\<lambda>tok. Some (Some ''k1'')),
     sv_verify = (\<lambda>pem iss now tok. if tok = ''good'' then Inr [(''sub'', JStr ''u1''), (''app'', JStr ''c1'')]
       else if tok = ''challenge'' then Inr [(''sub'', JStr ''u1''), (''purpose'', JStr ''passkey_login'')] else Inl ''bad'')\<rparr>"

definition sample_admits :: "string \<Rightarrow> guarded \<times> jwks_cache" where
  "sample_admits token = requireAuth sample_lib sample_sdk (Keys [(''k1'', ''pem'')]) [''Bearer '' @ token]
     700000 700001 new_cache"

definition passed :: "guarded \<Rightarrow> bool" where
  "passed g = (case g of Next _ \<Rightarrow> True | Stop _ _ \<Rightarrow> False)"

lemma passedE: "passed (fst x) \<Longrightarrow> (\<And>claims c. x = (Next claims, c) \<Longrightarrow> thesis) \<Longrightarrow> thesis"
  by (cases x) (auto simp: passed_def split: guarded.splits)

lemma middleware_admits_own_tokens_witness:
  "(\<exists>claims c'. sample_admits ''good'' = (Next claims, c') \<and> map_of claims ''app'' = Some (JStr ''c1''))
   \<and> fst (sample_admits ''challenge'') = Stop 401 ''Invalid or expired token''"
proof
  have "passed (fst (sample_admits ''good''))"
    by code_simp
  then obtain claims c' where ok: "sample_admits ''good'' = (Next claims, c')"
    by (rule passedE)
  then have "map_of claims ''app'' = Some (JStr ''c1'')"
    using middleware_admits_own_tokens [OF ok [unfolded sample_admits_def]] by (auto simp: sample_sdk_def)
  then show "\<exists>claims c'. sample_admits ''good'' = (Next claims, c') \<and> map_of claims ''app'' = Some (JStr ''c1'')"
    using ok by blast
qed code_simp

text \<open>Four forged ids within a minute of a platform that serves one key.\<close>

definition sample_flood :: "(string \<times> time \<times> time) list" where
  "sample_flood = [(''x1'', 1000000, 1000100), (''x2'', 1010000, 1010000), (''x3'', 1020000, 1020000),
     (''x4'', 1040000, 1040100)]"

lemma flood_fetches_bounded_witness:
  "fetch_times sample_sdk (\<lambda>_. Keys [(''k1'', ''pem'')]) sample_flood new_cache = [1000000, 1040000]
   \<and> (int (length (fetch_times sample_sdk (\<lambda>_. Keys [(''k1'', ''pem'')]) sample_flood new_cache)) - 1) * 30000 \<le> 60000"
proof
  show "fetch_times sample_sdk (\<lambda>_. Keys [(''k1'', ''pem'')]) sample_flood new_cache = [1000000, 1040000]"
    by code_simp
  have "served_without (\<lambda>_. Keys [(''k1'', ''pem'')]) (fst ` set sample_flood)"
    by (simp add: served_without_def sample_flood_def)
  moreover have "chronological 1000000 sample_flood 1060000" "min (so_ttlMs sample_sdk) (so_minRefreshMs sample_sdk) = 30000"
    by code_simp+
  ultimately show "(int (length (fetch_times sample_sdk (\<lambda>_. Keys [(''k1'', ''pem'')]) sample_flood new_cache)) - 1) * 30000 \<le> 60000"
    using flood_fetches_bounded [of "\<lambda>_. Keys [(''k1'', ''pem'')]" sample_flood 1000000 1060000 sample_sdk new_cache]
    by simp
qed

section \<open>Where the secret goes\<close>

definition is_service :: "sdk_call \<Rightarrow> bool" where
  "is_service call = (case call of ServiceCall _ \<Rightarrow> True | _ \<Rightarrow> False)"

text \<open>
  The client secret travels in one header of one kind of call. A call that is not a
  client-credential service does not depend on the secret at all; a service call refuses to go out
  without both credentials, and else carries the secret in \<open>x-client-secret\<close>, its method, address
  and body not depending on it.
\<close>

theorem secret_in_one_header:
  "(\<not> is_service call \<longrightarrow> call_request enc (o1\<lparr>so_clientSecret := x\<rparr>) call = call_request enc o1 call)
   \<and> (is_service call \<longrightarrow>
       (case call_request enc o1 call of
          Inl e \<Rightarrow> \<not> truthy (so_clientId o1) \<or> \<not> truthy (so_clientSecret o1)
        | Inr rq \<Rightarrow> hr_headers rq = [(''Content-Type'', ''application/json''), (''x-client-id'', the (so_clientId o1)),
              (''x-client-secret'', the (so_clientSecret o1))]
            \<and> (truthy x \<longrightarrow> call_request enc (o1\<lparr>so_clientSecret := x\<rparr>) call
                 = Inr (rq\<lparr>hr_headers := [(''Content-Type'', ''application/json''),
                     (''x-client-id'', the (so_clientId o1)), (''x-client-secret'', the x)]\<rparr>))))"
proof (cases call)
  case (AuthCall c)
  then show ?thesis
    by (cases c) (simp_all add: is_service_def call_request_def auth_request_def sdk_post_def sdk_request_def with_client_id_def)
next
  case (PasskeyCall c)
  then show ?thesis
    by (cases c) (simp_all add: is_service_def call_request_def passkey_request_def sdk_request_def)
next
  case (MemberCall t c)
  then show ?thesis
    by (cases c) (simp_all add: is_service_def call_request_def member_request_def sdk_request_def)
next
  case (AcceptInviteCall ps)
  then show ?thesis
    by (simp add: is_service_def call_request_def acceptInvite_request_def sdk_post_def sdk_request_def)
next
  case (ServiceCall c)
  then show ?thesis
    by (cases c) (simp_all add: is_service_def call_request_def service_request_def clientHeaders_def sdk_post_def sdk_request_def)
qed

lemma secret_in_one_header_witness:
  "call_request (\<lambda>x. x) (sample_sdk\<lparr>so_clientSecret := None\<rparr>) (AuthCall (LoginCall [(''email'', JStr ''a@x'')]))
     = call_request (\<lambda>x. x) sample_sdk (AuthCall (LoginCall [(''email'', JStr ''a@x'')]))"
  using secret_in_one_header [where call = "AuthCall (LoginCall [(''email'', JStr ''a@x'')])" and enc = "\<lambda>x. x"
      and ?o1.0 = sample_sdk and x = None]
  by (simp add: is_service_def)

text \<open>
  A request to Ask AI names a workspace exactly when it goes out under the service key: with a user's
  token the workspace comes from the token, and naming one as well is refused before anything is sent.
\<close>

theorem ask_names_tenant_with_key_only:
  "case ask_headers serviceKey ps of
     Inl e \<Rightarrow> truthy (ak_accessToken ps) \<and> truthy (ak_tenantId ps)
       \<or> \<not> truthy (ak_accessToken ps) \<and> (\<not> truthy serviceKey \<or> \<not> truthy (ak_tenantId ps))
   | Inr hs \<Rightarrow>
       if truthy (ak_accessToken ps)
       then hs = [(''Authorization'', ''Bearer '' @ the (ak_accessToken ps))]
       else hs = [(''Authorization'', ''Bearer '' @ the serviceKey), (''X-Data-Tenant'', the (ak_tenantId ps))]
         \<and> truthy serviceKey \<and> truthy (ak_tenantId ps)"
  by (simp add: ask_headers_def bearer_def)

section \<open>Platform and library together\<close>

text \<open>
  What the library relies on: when a token of the platform verifies, under whatever key and at whatever
  time, what is read is the claims it was signed with and the three registered ones.
\<close>

definition reads_back :: "env \<Rightarrow> sdk_lib \<Rightarrow> bool" where
  "reads_back env lib \<longleftrightarrow>
     (\<forall>c ttl t0 pem iss t x. sv_verify lib pem iss t (jwt_sign env c ttl t0) = Inr x \<longrightarrow>
        (\<forall>k. k \<in> fst ` set c \<longrightarrow> map_of x k = map_of c k) \<and> fst ` set x \<subseteq> fst ` set c \<union> {''iat'', ''exp'', ''iss''})"

text \<open>The three requests that open a session, and the app each asks it for: the one it names, or for a
  refresh the one that the stored token was issued for.\<close>

datatype session_request =
    ByPassword login_dto "string option"
  | ByPasskey passkey_login_dto "string option"
  | ByRefresh string

definition open_session ::
  "env \<Rightarrow> config \<Rightarrow> webauthn_cfg \<Rightarrow> webauthn \<Rightarrow> session_request \<Rightarrow> drawn \<Rightarrow> time \<Rightarrow> db \<Rightarrow> session res \<times> db" where
  "open_session env cfg wc wa rq dr now s = (case rq of
     ByPassword dto ip \<Rightarrow> login env cfg dto ip dr now s
   | ByPasskey dto ip \<Rightarrow> passkey_login env cfg wc wa dto ip dr now s
   | ByRefresh raw \<Rightarrow> refresh env cfg raw dr now s)"

definition asked_for :: "env \<Rightarrow> db \<Rightarrow> session_request \<Rightarrow> string option" where
  "asked_for env s rq = (case rq of
     ByPassword dto ip \<Rightarrow> lg_clientId dto
   | ByPasskey dto ip \<Rightarrow> pl_clientId dto
   | ByRefresh raw \<Rightarrow> Option.bind (token_by_hash s (sha256 env raw)) rt_appClientId)"

lemma issued_token:
  assumes "issueTokens env cfg u tenant cid dr now s = (Inr ses, s')"
  shows "ss_accessToken ses = jwt_sign env (access_claims s u tenant cid) (accessTtlSec cfg) now
    \<and> map_option fst (ss_tenant ses) = map_option tn_id tenant"
  using assms by (auto simp: issueTokens_def Let_def option.map_comp comp_def split: sum.splits prod.splits)

lemma completed_token:
  assumes "completeLogin env cfg u tenant cid ip m dr now s = (Inr ses, s')"
  shows "ss_accessToken ses = jwt_sign env (access_claims s u tenant cid) (accessTtlSec cfg) now
    \<and> map_option fst (ss_tenant ses) = map_option tn_id tenant"
proof -
  obtain s1 where "issueTokens env cfg u tenant cid dr now s = (Inr ses, s1)"
    using assms by (auto simp: completeLogin_def split: if_splits sum.splits prod.splits)
  then show ?thesis
    by (rule issued_token)
qed

lemma session_token:
  assumes "open_session env cfg wc wa rq dr now s = (Inr ses, s')"
  obtains s0 u tenant where "ss_accessToken ses =
      jwt_sign env (access_claims s0 u tenant (asked_for env s rq)) (accessTtlSec cfg) now"
    and "map_option fst (ss_tenant ses) = map_option tn_id tenant"
proof (cases rq)
  case (ByPassword dto ip)
  then have "login env cfg dto ip dr now s = (Inr ses, s')"
    using assms by (simp add: open_session_def)
  then obtain u tenant where "completeLogin env cfg u tenant (lg_clientId dto) ip ''password'' dr now s = (Inr ses, s')"
    by (rule login_Inr)
  then show ?thesis
    using that [of s u tenant] completed_token ByPassword by (simp add: asked_for_def)
next
  case (ByPasskey dto ip)
  then have "passkey_login env cfg wc wa dto ip dr now s = (Inr ses, s')"
    using assms by (simp add: open_session_def)
  then obtain s1 u where "completeLogin env cfg u (tenant_of s1 u) (pl_clientId dto) ip ''passkey'' dr now s1 = (Inr ses, s')"
    by (auto simp: passkey_login_def split: sum.splits prod.splits option.splits)
  then show ?thesis
    using that [of s1 u "tenant_of s1 u"] completed_token ByPasskey by (simp add: asked_for_def)
next
  case (ByRefresh raw)
  then have r: "refresh env cfg raw dr now s = (Inr ses, s')"
    using assms by (simp add: open_session_def)
  then obtain stored u tenant s1 where c: "refresh_check env raw now s = (Inr (stored, u, tenant), s1)"
    and rot: "refresh_rotate env cfg (stored, u, tenant) dr now s1 = (Inr ses, s')"
    by (auto simp: refresh_def split: sum.splits prod.splits)
  obtain s2 where "issueTokens env cfg u tenant (rt_appClientId stored) dr now s2 = (Inr ses, s')"
    using rot by (auto simp: refresh_rotate_def)
  moreover have "asked_for env s rq = rt_appClientId stored"
    using refresh_check_Inr [OF c] ByRefresh by (simp add: asked_for_def)
  ultimately show ?thesis
    using that [of s2 u tenant] issued_token by simp
qed

lemma access_claims_read:
  assumes "\<And>k. k \<in> fst ` set (access_claims s u tenant clientId) \<Longrightarrow> map_of x k = map_of (access_claims s u tenant clientId) k"
    and "fst ` set x \<subseteq> fst ` set (access_claims s u tenant clientId) \<union> {''iat'', ''exp'', ''iss''}"
  shows "map_of x ''purpose'' = None" and "map_of x ''app'' = Some (json_opt JStr clientId)"
    and "map_of x ''tenant_id'' = Some (json_opt (JStr \<circ> tn_id) tenant)"
proof -
  have "''purpose'' \<notin> fst ` set (access_claims s u tenant clientId) \<union> {''iat'', ''exp'', ''iss''}"
    by (simp add: access_claims_def)
  then show "map_of x ''purpose'' = None"
    using assms(2) by (auto simp: map_of_eq_None_iff)
qed (simp_all add: assms(1) access_claims_def)

text \<open>A token is refused before its claims are looked at, whatever the app, or its claims decide.\<close>

lemma verifyToken_cases:
  "(\<exists>e. \<forall>aud. fst (verifyToken lib o1 ks aud tok at ended c) = Inl e)
   \<or> (\<exists>pem x. sv_verify lib pem (sdk_issuer o1) ended tok = Inr x
        \<and> (\<forall>aud. fst (verifyToken lib o1 ks aud tok at ended c) = verify_claims o1 aud x))"
proof (cases "sv_decode lib tok")
  case (Some kid)
  show ?thesis
  proof (cases "truthy kid")
    case True
    obtain r c1 where g: "getPem o1 ks (the kid) at ended c = (r, c1)"
      by fastforce
    show ?thesis
    proof (cases r)
      case (Inr pem)
      then show ?thesis
        using Some True g by (cases "sv_verify lib pem (sdk_issuer o1) ended tok") (auto simp: verifyToken_def)
    qed (use Some True g in \<open>simp add: verifyToken_def\<close>)
  qed (use Some in \<open>simp add: verifyToken_def\<close>)
qed (simp add: verifyToken_def)

text \<open>
  C22: A session opened for one app is worth nothing at another. Whichever way the platform opened it
  (password, passkey or refresh), and whatever keys the library has cached or fetches, it accepts the
  access token only in the app the session was asked for, and then reads from it the workspace that
  the session belongs to; in that app it refuses only what it would refuse of any app's token
  (malformed, of an unknown key, or failing verification).
\<close>

theorem session_bound_to_app:
  assumes "open_session env cfg wc wa rq dr now s = (Inr ses, s')" and "reads_back env lib"
  shows "case fst (verifyToken lib o1 ks True (ss_accessToken ses) at ended c) of
      Inl e \<Rightarrow> \<not> (truthy (so_clientId o1) \<and> asked_for env s rq = so_clientId o1)
        \<or> fst (verifyToken lib o1 ks False (ss_accessToken ses) at ended c) = Inl e
    | Inr claims \<Rightarrow> truthy (so_clientId o1) \<and> asked_for env s rq = so_clientId o1
        \<and> map_of claims ''tenant_id'' = Some (json_opt JStr (map_option fst (ss_tenant ses)))"
proof (cases "\<exists>pem x. sv_verify lib pem (sdk_issuer o1) ended (ss_accessToken ses) = Inr x
    \<and> (\<forall>aud. fst (verifyToken lib o1 ks aud (ss_accessToken ses) at ended c) = verify_claims o1 aud x)")
  case True
  then obtain pem x where v: "sv_verify lib pem (sdk_issuer o1) ended (ss_accessToken ses) = Inr x"
    and vt: "fst (verifyToken lib o1 ks True (ss_accessToken ses) at ended c) = verify_claims o1 True x"
    by blast
  obtain s0 u tenant where tok: "ss_accessToken ses =
      jwt_sign env (access_claims s0 u tenant (asked_for env s rq)) (accessTtlSec cfg) now"
    and ten: "map_option fst (ss_tenant ses) = map_option tn_id tenant"
    using assms(1) by (rule session_token)
  have read: "map_of x ''purpose'' = None" "map_of x ''app'' = Some (json_opt JStr (asked_for env s rq))"
    "map_of x ''tenant_id'' = Some (json_opt (JStr \<circ> tn_id) tenant)"
    using access_claims_read [where s = s0 and u = u and tenant = tenant and clientId = "asked_for env s rq" and x = x]
      assms(2) v unfolding reads_back_def tok by blast+
  have "json_opt JStr (asked_for env s rq) = JStr (the (so_clientId o1)) \<longleftrightarrow> asked_for env s rq = so_clientId o1"
    if "truthy (so_clientId o1)"
    using truthy_the [OF that] by (cases "asked_for env s rq"; cases "so_clientId o1") (auto simp: json_opt_def)
  moreover have "json_opt (JStr \<circ> tn_id) tenant = json_opt JStr (map_option fst (ss_tenant ses))"
    by (simp add: ten json_opt_def split: option.splits)
  ultimately show ?thesis
    by (auto simp: vt verify_claims_def read)
next
  case False
  have "\<exists>e. \<forall>aud. fst (verifyToken lib o1 ks aud (ss_accessToken ses) at ended c) = Inl e"
    by (rule disjE [OF verifyToken_cases]) (assumption, erule notE [OF False])
  then show ?thesis
    by auto
qed

definition numbered_lib :: sdk_lib where
  "numbered_lib = \<lparr>sv_decode = (\<lambda>tok. Some (Some ''k1'')),
     sv_verify = (\<lambda>pem iss t tok. case from_nat (length tok) of (c, ttl, t0) \<Rightarrow>
       if t0 \<le> t \<and> t < t0 + ttl * second_ms
       then Inr (c @ [(''iat'', JNum t0), (''exp'', JNum (t0 + ttl * second_ms)), (''iss'', JStr iss)])
       else Inl ''jwt expired'')\<rparr>"

lemma numbered_reads_back:
  "reads_back (sample_env\<lparr>jwt_sign := numbered_token\<rparr>) numbered_lib"
  by (auto simp: reads_back_def numbered_lib_def numbered_token_def map_add_def split: if_splits option.splits
      dest: map_of_eq_None_iff [THEN iffD1])

lemma any_signer_login_ok:
  "is_ok (fst (login (sample_env\<lparr>jwt_sign := f\<rparr>) sample_cfg sample_login None (''r1'', ''new'') 10 sample_db))"
  by code_simp

definition warm_cache :: jwks_cache where
  "warm_cache = \<lparr>jc_pems = [(''k1'', ''pem'')], jc_fetchedAt = 0, jc_lastMissAt = 0\<rparr>"

lemma session_bound_to_app_witness:
  "\<exists>ses s'. open_session (sample_env\<lparr>jwt_sign := numbered_token\<rparr>) sample_cfg sample_wc sample_wa
       (ByPassword sample_login None) (''r1'', ''new'') 10 sample_db = (Inr ses, s')
     \<and> isl (fst (verifyToken numbered_lib (sample_sdk\<lparr>so_clientId := Some ''other''\<rparr>) (Keys []) True
          (ss_accessToken ses) 20 20 warm_cache))
     \<and> \<not> isl (fst (verifyToken numbered_lib (sample_sdk\<lparr>so_clientId := lg_clientId sample_login\<rparr>) (Keys []) True
          (ss_accessToken ses) 20 20 warm_cache))"
proof -
  obtain ses s' where l: "login (sample_env\<lparr>jwt_sign := numbered_token\<rparr>) sample_cfg sample_login None
      (''r1'', ''new'') 10 sample_db = (Inr ses, s')"
    using any_signer_login_ok by (rule is_ok_fstE)
  have o1: "open_session (sample_env\<lparr>jwt_sign := numbered_token\<rparr>) sample_cfg sample_wc sample_wa
       (ByPassword sample_login None) (''r1'', ''new'') 10 sample_db = (Inr ses, s')"
    by (simp add: open_session_def l)
  obtain s0 u tenant where tok: "ss_accessToken ses = numbered_token (access_claims s0 u tenant (lg_clientId sample_login))
      (accessTtlSec sample_cfg) 10"
    by (rule session_token [OF o1]) (simp add: asked_for_def)
  have accepted: "\<not> isl (fst (verifyToken numbered_lib (sample_sdk\<lparr>so_clientId := x\<rparr>) (Keys []) False
      (ss_accessToken ses) 20 20 warm_cache))" for x
    by (simp add: tok verifyToken_def numbered_lib_def numbered_token_def getPem_cached warm_cache_def sample_cfg_def
        second_ms_def sample_sdk_def verify_claims_def access_claims_def)
  note bound = session_bound_to_app [OF o1 numbered_reads_back, of _ "Keys []" 20 20 warm_cache]
  have c: "truthy (lg_clientId sample_login)" "lg_clientId sample_login \<noteq> Some ''other''"
    by code_simp+
  show ?thesis
    using o1 bound [of "sample_sdk\<lparr>so_clientId := Some ''other''\<rparr>"] accepted [of "lg_clientId sample_login"]
      bound [of "sample_sdk\<lparr>so_clientId := lg_clientId sample_login\<rparr>"] c
    by (intro exI [of _ ses] exI [of _ s']) (auto simp: isl_def asked_for_def split: sum.splits)
qed

section \<open>Observations\<close>

text \<open>
  A forged key id delays a genuine rotation. After the miss at time 1000000 the platform starts to
  sign with \<open>k2\<close>; a token of that key is refused at 1001000, although the platform serves the key,
  and accepted only when the quiet interval is over.
\<close>

lemma rotation_waits_out_the_quiet_interval:
  "let c = snd (getPem sample_sdk (Keys [(''k1'', ''pem1'')]) ''forged'' 1000000 1000000 new_cache)
   in fst (getPem sample_sdk (Keys [(''k2'', ''pem2'')]) ''k2'' 1001000 1001000 c)
        = Inl (TokenError ''Unknown signing key: k2'')
      \<and> fst (getPem sample_sdk (Keys [(''k2'', ''pem2'')]) ''k2'' 1030001 1030001 c) = Inr ''pem2''"
  by code_simp

text \<open>While the platform fails, every token with an unknown key id causes a fetch.\<close>

lemma failed_fetch_starts_no_quiet_interval:
  "wants_refresh o1 kid now c \<Longrightarrow> snd (getPem o1 (FetchFailed status) kid now ended c) = c"
  by (simp add: getPem_def jwks_refresh_def)

text \<open>Calls that overlap all fetch: the cache they look at changes only when an answer is in.\<close>

lemma concurrent_unknown_ids_all_fetch:
  "\<forall>kid \<in> set kids. map_of (jc_pems c) kid = None \<Longrightarrow> so_minRefreshMs o1 < now - jc_lastMissAt c \<Longrightarrow>
   filter (\<lambda>kid. wants_refresh o1 kid now c) kids = kids"
  by (auto simp: wants_refresh_def filter_id_conv)

end
