(* ===== verification/App_Session.thy ===== *)
theory App_Session
  imports Passkeys
begin

text \<open>
  Sessions of an app made from the template: \<open>templates/next/src/auth.ts\<close> (the two ways to sign in and
  the callbacks that keep a session's scope), \<open>lib/platform.ts\<close> (local rows made from a platform
  login), \<open>lib/auth/dal.ts\<close> (the session a page or a route sees), \<open>lib/member-proxy.ts\<close> and the sudo and
  billing routes, and \<open>proxy.ts\<close> (the redirects by cookie).

  The platform is reached through its library; its answers are the fields of \<open>platform_api\<close>, an
  argument, which \<open>api_of\<close> instantiates with the model of the platform itself. Auth.js, which signs
  the session cookie and calls the callbacks, is not modelled: the session token is the record \<open>jwt\<close>.
\<close>

section \<open>The app's tables\<close>

datatype app_role = OWNER | ADMIN | MEMBER

record workspace =
  ws_id :: string
  ws_name :: string
  ws_slug :: string

record app_user =
  au_id :: string
  au_platformUserId :: "string option"
  au_email :: string
  au_name :: "string option"
  au_passwordHash :: "string option"

record membership =
  mb_userId :: string
  mb_tenantId :: string
  mb_role :: app_role
  mb_createdAt :: time

record verification_token =
  vt_identifier :: string
  vt_token :: string
  vt_expires :: time

record app_audit =
  aa_action :: string
  aa_tenantId :: "string option"
  aa_userId :: "string option"
  aa_detail :: "json option"

record app_db =
  workspaces :: "workspace list"
  app_users :: "app_user list"
  memberships :: "membership list"
  verification_tokens :: "verification_token list"
  app_audits :: "app_audit list"

definition empty_app :: app_db where
  "empty_app = \<lparr>workspaces = [], app_users = [], memberships = [], verification_tokens = [],
     app_audits = []\<rparr>"

definition workspace_by_slug :: "app_db \<Rightarrow> string \<Rightarrow> workspace option" where
  "workspace_by_slug s sl = find (\<lambda>w. ws_slug w = sl) (workspaces s)"

definition account_of_sub :: "app_db \<Rightarrow> string \<Rightarrow> app_user option" where
  "account_of_sub s sub = find (\<lambda>u. au_platformUserId u = Some sub) (app_users s)"

text \<open>\<open>findFirst({ where: { email, platformUserId: null } })\<close>.\<close>

definition standalone_account :: "app_db \<Rightarrow> string \<Rightarrow> app_user option" where
  "standalone_account s email =
     find (\<lambda>u. au_email u = email \<and> au_platformUserId u = None) (app_users s)"

text \<open>\<open>findUnique({ where: { userId_tenantId } })\<close>.\<close>

definition membership_of :: "app_db \<Rightarrow> string \<Rightarrow> string \<Rightarrow> membership option" where
  "membership_of s uid tid = find (\<lambda>m. mb_userId m = uid \<and> mb_tenantId m = tid) (memberships s)"

text \<open>
  The unique indexes and foreign keys of the schema: one workspace per slug, one account per platform
  user, one standalone account per address, one membership per account and workspace. Ids are cuids, so
  not empty.
\<close>

definition app_ok :: "app_db \<Rightarrow> bool" where
  "app_ok s \<longleftrightarrow> unique_on ws_id (workspaces s) \<and> unique_on ws_slug (workspaces s)
     \<and> [] \<notin> ws_id ` set (workspaces s)
     \<and> unique_on au_id (app_users s)
     \<and> unique_on au_platformUserId (filter (\<lambda>u. au_platformUserId u \<noteq> None) (app_users s))
     \<and> unique_on au_email (filter (\<lambda>u. au_platformUserId u = None) (app_users s))
     \<and> unique_on (\<lambda>m. (mb_userId m, mb_tenantId m)) (memberships s)
     \<and> (\<forall>m \<in> set (memberships s). mb_userId m \<in> au_id ` set (app_users s)
          \<and> mb_tenantId m \<in> ws_id ` set (workspaces s))"

section \<open>Local rows from a platform login\<close>

text \<open>The ids and the time new rows take.\<close>

type_synonym row_ids = "string \<times> string \<times> time" \<comment> \<open>workspace id, user id, now\<close>

definition upsert_workspace :: "string \<Rightarrow> string \<Rightarrow> string \<Rightarrow> app_db \<Rightarrow> workspace \<times> app_db" where
  "upsert_workspace wid sl nm s =
     (case workspace_by_slug s sl of
        Some w \<Rightarrow> (w\<lparr>ws_name := nm\<rparr>,
          s\<lparr>workspaces := upd_where (\<lambda>v. ws_slug v = sl) (\<lambda>v. v\<lparr>ws_name := nm\<rparr>) (workspaces s)\<rparr>)
      | None \<Rightarrow> (let w = \<lparr>ws_id = wid, ws_name = nm, ws_slug = sl\<rparr>
          in (w, s\<lparr>workspaces := workspaces s @ [w]\<rparr>)))"

definition upsert_account ::
  "string \<Rightarrow> string \<Rightarrow> string \<Rightarrow> string option \<Rightarrow> app_db \<Rightarrow> app_user \<times> app_db" where
  "upsert_account uid sub email nm s =
     (let f = (\<lambda>u. u\<lparr>au_email := email, au_name := or_else nm (au_name u)\<rparr>)
      in case account_of_sub s sub of
        Some u \<Rightarrow> (f u,
          s\<lparr>app_users := upd_where (\<lambda>v. au_platformUserId v = Some sub) f (app_users s)\<rparr>)
      | None \<Rightarrow> (let u = \<lparr>au_id = uid, au_platformUserId = Some sub, au_email = email, au_name = nm,
            au_passwordHash = None\<rparr>
          in (u, s\<lparr>app_users := app_users s @ [u]\<rparr>)))"

definition follow_role :: "string \<Rightarrow> string \<Rightarrow> app_role \<Rightarrow> time \<Rightarrow> app_db \<Rightarrow> app_db" where
  "follow_role uid tid platformRole now s =
     (case membership_of s uid tid of
        None \<Rightarrow> s\<lparr>memberships := memberships s @
          [\<lparr>mb_userId = uid, mb_tenantId = tid, mb_role = platformRole, mb_createdAt = now\<rparr>]\<rparr>
      | Some existing \<Rightarrow>
          if mb_role existing \<noteq> OWNER \<and> mb_role existing \<noteq> platformRole
          then s\<lparr>memberships := upd_where (\<lambda>m. mb_userId m = uid \<and> mb_tenantId m = tid)
                 (\<lambda>m. m\<lparr>mb_role := platformRole\<rparr>) (memberships s)\<rparr>
          else s)"

definition platform_role :: "json list \<Rightarrow> app_role" where
  "platform_role rs = (if JStr ''admin'' \<in> set rs then ADMIN else MEMBER)"

text \<open>
  \<open>provisionFromPlatform\<close> on the claims of the verified token. A claim of the wrong type makes the
  code throw where it reads it; the platform signs them all with the types read here.
\<close>

definition provisionFromPlatform ::
  "claims \<Rightarrow> session \<Rightarrow> row_ids \<Rightarrow> app_db \<Rightarrow> (app_user \<times> string) option res \<times> app_db" where
  "provisionFromPlatform c result dr s =
     (case dr of (wid, uid, now) \<Rightarrow>
        (case ss_tenant result of
           None \<Rightarrow> (Inr None, s)
         | Some (_, _, tenantName) \<Rightarrow>
           if \<not> claim_truthy c ''tenant_slug'' then (Inr None, s)
           else case claim_string c ''tenant_slug'' of
             None \<Rightarrow> (Inl (UncaughtError ''tenant_slug''), s)
           | Some slug \<Rightarrow>
             (case upsert_workspace wid slug tenantName s of (w, s1) \<Rightarrow>
               (case (claim_string c ''email'', claim_string c ''sub'') of
                  (Some email, Some sub) \<Rightarrow>
                    (case upsert_account uid sub (lower email) (ss_name result) s1 of (u, s2) \<Rightarrow>
                      (case map_of c ''roles'' of
                         Some (JArr rs) \<Rightarrow>
                           (Inr (Some (u, ws_id w)),
                            follow_role (au_id u) (ws_id w) (platform_role rs) now s2)
                       | _ \<Rightarrow> (Inl (UncaughtError ''roles''), s2)))
                | _ \<Rightarrow> (Inl (UncaughtError ''email''), s1)))))"

section \<open>Signing in\<close>

text \<open>The library's answers: login (workspace, address, password), a passkey assertion with its
  ticket, the verification of an access token (what it throws is the error's status and message,
  where it has them), and the four requests of the account forms.\<close>

record platform_api =
  pa_login :: "string option \<Rightarrow> string \<Rightarrow> string \<Rightarrow> session res"
  pa_passkey :: "json \<Rightarrow> string \<Rightarrow> session res"
  pa_verify :: "string \<Rightarrow> (int option \<times> string option) + claims"
  pa_signup :: "string \<Rightarrow> string \<Rightarrow> string \<Rightarrow> string res" \<comment> \<open>company, email, password: the slug\<close>
  pa_forgotPassword :: "string option \<Rightarrow> string \<Rightarrow> unit res"
  pa_forgotWorkspace :: "string \<Rightarrow> unit res"
  pa_sendVerification :: "string option \<Rightarrow> string \<Rightarrow> unit res"

text \<open>The app's environment: the platform where there is one, the default workspace, the libraries, and
  the relay of a standalone app.\<close>

record app_cfg =
  ac_platform :: "platform_api option"
  ac_defaultWorkspace :: "string option"
  ac_verifyPassword :: "string \<Rightarrow> string \<Rightarrow> bool" \<comment> \<open>plain, hash\<close>
  ac_hashPassword :: "string \<Rightarrow> string"
  ac_sha256 :: "string \<Rightarrow> string"
  ac_validEmail :: "string \<Rightarrow> bool" \<comment> \<open>zod's test of an address\<close>
  ac_zodMessage :: "string \<Rightarrow> string" \<comment> \<open>zod's own message for a field\<close>
  ac_authUrl :: "string option"
  ac_uriEncode :: "string \<Rightarrow> string"
  ac_relayAccepts :: "string \<Rightarrow> bool option" \<comment> \<open>the standalone relay: absent, or whether it takes mail for an address\<close>

definition isPlatformMode :: "app_cfg \<Rightarrow> bool" where
  "isPlatformMode cfg = (ac_platform cfg \<noteq> None)"

record authorized =
  az_id :: string
  az_email :: string
  az_name :: "string option"
  az_tenantId :: "string option"

definition provisioned ::
  "platform_api \<Rightarrow> session res \<Rightarrow> row_ids \<Rightarrow> app_db \<Rightarrow> authorized option \<times> app_db" where
  "provisioned api answer dr s =
     (case answer of
        Inl _ \<Rightarrow> (None, s)
      | Inr result \<Rightarrow>
        (case pa_verify api (ss_accessToken result) of
           Inl _ \<Rightarrow> (None, s)
         | Inr c \<Rightarrow>
           (case provisionFromPlatform c result dr s of
              (Inr (Some (u, tid)), s1) \<Rightarrow>
                (Some \<lparr>az_id = au_id u, az_email = au_email u, az_name = au_name u,
                   az_tenantId = Some tid\<rparr>, s1)
            | (_, s1) \<Rightarrow> (None, s1))))"

definition authorize_credentials ::
  "app_cfg \<Rightarrow> string option \<Rightarrow> string option \<Rightarrow> string option \<Rightarrow> row_ids \<Rightarrow> app_db \<Rightarrow>
   authorized option \<times> app_db" where
  "authorize_credentials cfg rawEmail rawPassword rawWorkspace dr s =
     (let email = (case rawEmail of None \<Rightarrow> [] | Some x \<Rightarrow> lower (trim x));
          password = nullish rawPassword []
      in if email = [] \<or> password = [] then (None, s)
         else case ac_platform cfg of
           Some api \<Rightarrow>
             (let workspace = (case rawWorkspace of
                    Some x \<Rightarrow> if trim x \<noteq> [] then Some (lower (trim x)) else ac_defaultWorkspace cfg
                  | None \<Rightarrow> ac_defaultWorkspace cfg)
              in provisioned api (pa_login api workspace email password) dr s)
         | None \<Rightarrow>
             (case standalone_account s email of
                None \<Rightarrow> (None, s)
              | Some u \<Rightarrow>
                  if \<not> truthy (au_passwordHash u) then (None, s)
                  else if \<not> ac_verifyPassword cfg password (the (au_passwordHash u)) then (None, s)
                  else (Some \<lparr>az_id = au_id u, az_email = au_email u, az_name = au_name u,
                          az_tenantId = None\<rparr>, s)))"

text \<open>\<open>JSON.parse\<close> of the credential is an argument, \<open>None\<close> where it throws.\<close>

definition authorize_passkey ::
  "app_cfg \<Rightarrow> json option \<Rightarrow> string \<Rightarrow> row_ids \<Rightarrow> app_db \<Rightarrow> authorized option \<times> app_db" where
  "authorize_passkey cfg credential ticketToken dr s =
     (case (ac_platform cfg, credential) of
        (Some api, Some cred) \<Rightarrow> provisioned api (pa_passkey api cred ticketToken) dr s
      | _ \<Rightarrow> (None, s))"

text \<open>
  The platform as this development models it: login is that of \<open>auth.service.ts\<close> for the app's client
  id, passkey login that of its controller, each on the platform's tables at that moment, and a
  verified token carries the claims it was signed with.
\<close>

definition faithful_api ::
  "env \<Rightarrow> config \<Rightarrow> webauthn_cfg \<Rightarrow> webauthn \<Rightarrow> string option \<Rightarrow> drawn \<Rightarrow> time \<Rightarrow> db \<Rightarrow> platform_api \<Rightarrow> bool" where
  "faithful_api env cfg wc wa cid dr now p api \<longleftrightarrow>
     (\<forall>slug email pw. pa_login api slug email pw = fst (login env cfg
        \<lparr>lg_tenantSlug = slug, lg_email = email, lg_password = pw, lg_clientId = cid\<rparr> None dr now p))
     \<and> (\<forall>cred tok. \<exists>i. pa_passkey api cred tok = fst (passkey_login env cfg wc wa
        \<lparr>pl_credential = \<lparr>as_id = i, as_body = cred\<rparr>, pl_challengeToken = tok, pl_clientId = cid\<rparr>
        None dr now p))
     \<and> (\<forall>c ttl t x k. pa_verify api (jwt_sign env c ttl t) = Inr x \<longrightarrow> k \<in> fst ` set c \<longrightarrow>
        map_of x k = map_of c k)"

section \<open>The session token\<close>

record jwt =
  jt_uid :: "string option"
  jt_email :: "string option"
  jt_tenantId :: "string option"
  jt_role :: "app_role option"
  jt_roleCheckedAt :: "time option"

definition ROLE_REFRESH_MS :: int where "ROLE_REFRESH_MS = 60000"

definition oldest_membership :: "app_db \<Rightarrow> string \<Rightarrow> membership option" where
  "oldest_membership s uid =
     (case sort_key mb_createdAt (filter (\<lambda>m. mb_userId m = uid) (memberships s)) of
        [] \<Rightarrow> None | m # _ \<Rightarrow> Some m)"

definition jwt_sign_in :: "authorized \<Rightarrow> time \<Rightarrow> app_db \<Rightarrow> jwt" where
  "jwt_sign_in u now s =
     (let m = (if truthy (az_tenantId u) then membership_of s (az_id u) (the (az_tenantId u))
               else oldest_membership s (az_id u))
      in \<lparr>jt_uid = Some (az_id u), jt_email = Some (az_email u), jt_tenantId = map_option mb_tenantId m,
          jt_role = map_option mb_role m, jt_roleCheckedAt = Some now\<rparr>)"

definition jwt_refresh :: "jwt \<Rightarrow> time \<Rightarrow> app_db \<Rightarrow> jwt" where
  "jwt_refresh t now s =
     (if truthy (jt_uid t) \<and> truthy (jt_tenantId t) then
        (let checkedAt = nullish (jt_roleCheckedAt t) 0
         in if ROLE_REFRESH_MS < now - checkedAt then
              (let m = membership_of s (the (jt_uid t)) (the (jt_tenantId t))
               in t\<lparr>jt_role := map_option mb_role m, jt_tenantId := map_option mb_tenantId m,
                    jt_roleCheckedAt := Some now\<rparr>)
            else t)
      else t)"

record app_session =
  as_user :: string
  as_tenant :: "string option"
  as_role :: "app_role option"
  as_email :: "string option"

definition session_of :: "jwt \<Rightarrow> app_session" where
  "session_of t = \<lparr>as_user = nullish (jt_uid t) [], as_tenant = jt_tenantId t, as_role = jt_role t,
     as_email = jt_email t\<rparr>"

text \<open>\<open>auth()\<close>: the session the callbacks make of the cookie's token, if there is one.\<close>

definition auth :: "jwt option \<Rightarrow> time \<Rightarrow> app_db \<Rightarrow> app_session option" where
  "auth cookie now s = map_option (\<lambda>t. session_of (jwt_refresh t now s)) cookie"

record session_context =
  sx_userId :: string
  sx_tenantId :: string
  sx_role :: app_role
  sx_email :: string

text \<open>\<open>verifySession\<close> redirects to the login page where \<open>requireApiSession\<close> answers 401: both are
  the left side.\<close>

definition requireApiSession :: "jwt option \<Rightarrow> time \<Rightarrow> app_db \<Rightarrow> session_context res" where
  "requireApiSession cookie now s =
     (case auth cookie now s of
        None \<Rightarrow> Inl (Unauthorized ''Unauthorized'')
      | Some ses \<Rightarrow>
          if as_user ses = [] \<or> \<not> truthy (as_tenant ses) then Inl (Unauthorized ''Unauthorized'')
          else Inr \<lparr>sx_userId = as_user ses, sx_tenantId = the (as_tenant ses),
                 sx_role = nullish (as_role ses) MEMBER, sx_email = nullish (as_email ses) []\<rparr>)"

section \<open>The proxied platform calls\<close>

definition memberProxyGate ::
  "app_cfg \<Rightarrow> jwt option \<Rightarrow> string option \<Rightarrow> time \<Rightarrow> app_db \<Rightarrow> string res" where
  "memberProxyGate cfg cookie sudo now s =
     (if \<not> isPlatformMode cfg then Inl (NotFound ''Not available'')
      else case requireApiSession cookie now s of
        Inl e \<Rightarrow> Inl e
      | Inr _ \<Rightarrow> if truthy sudo then Inr (the sudo) else Inl (Unauthorized ''sudo-required''))"

text \<open>The platform's status, where the error carries one that is a number other than zero.\<close>

definition platformErrorResponse :: "(int option \<times> string option) \<Rightarrow> int \<times> string" where
  "platformErrorResponse err =
     (case err of (status, message) \<Rightarrow>
        ((case status of None \<Rightarrow> 502 | Some n \<Rightarrow> if n = 0 then 502 else n),
         nullish message ''Platform request failed''))"

text \<open>
  The billing routes: only a token of a workspace administrator, and always for the workspace the
  token names. The result is the tenant id and the URLs handed to the platform. The platform signs
  \<open>tenant_id\<close> as a string or \<open>null\<close>.
\<close>

definition billing_gate :: "platform_api \<Rightarrow> string \<Rightarrow> (int \<times> string) + string" where
  "billing_gate api token =
     (case pa_verify api token of
        Inl e \<Rightarrow> Inl (platformErrorResponse e)
      | Inr c \<Rightarrow>
          if \<not> claim_truthy c ''tenant_admin'' \<or> \<not> claim_truthy c ''tenant_id''
          then Inl (403, ''Tenant admin required'')
          else (case claim_string c ''tenant_id'' of
                  None \<Rightarrow> Inl (502, ''Platform request failed'') | Some tid \<Rightarrow> Inr tid))"

definition checkout_call :: "platform_api \<Rightarrow> string \<Rightarrow> string \<Rightarrow>
   (int \<times> string) + (string \<times> string \<times> string)" where
  "checkout_call api token origin =
     (case billing_gate api token of Inl e \<Rightarrow> Inl e
      | Inr tid \<Rightarrow> Inr (tid, origin @ ''/members?billing=success'', origin @ ''/members''))"

definition portal_call :: "platform_api \<Rightarrow> string \<Rightarrow> string \<Rightarrow> (int \<times> string) + (string \<times> string)" where
  "portal_call api token origin =
     (case billing_gate api token of Inl e \<Rightarrow> Inl e | Inr tid \<Rightarrow> Inr (tid, origin @ ''/members''))"

section \<open>Redirects by cookie\<close>

definition PUBLIC_PATHS :: "string list" where
  "PUBLIC_PATHS = [''/login'', ''/signup'', ''/forgot-password'', ''/forgot-workspace'', ''/reset-password'']"

definition PUBLIC_WITH_SESSION :: "string list" where
  "PUBLIC_WITH_SESSION = [''/reset-password'']"

definition SESSION_COOKIES :: "string list" where
  "SESSION_COOKIES = [''evoapp.session-token'', ''__Secure-evoapp.session-token'']"

definition under :: "string \<Rightarrow> string list \<Rightarrow> bool" where
  "under path ps = list_ex (\<lambda>p. path = p \<or> starts_with path (p @ ''/'')) ps"

text \<open>\<open>None\<close> lets the request through; \<open>Some path\<close> redirects there, without a query.\<close>

definition proxy :: "string list \<Rightarrow> string \<Rightarrow> string option" where
  "proxy cookies path =
     (let hasSession = list_ex (\<lambda>c. c \<in> set cookies) SESSION_COOKIES;
          isPublic = under path PUBLIC_PATHS
      in if \<not> hasSession \<and> \<not> isPublic then Some ''/login''
         else if hasSession \<and> isPublic \<and> \<not> under path PUBLIC_WITH_SESSION then Some ''/''
         else None)"

section \<open>Facts about provisioning\<close>

lemma workspace_by_slugD: "workspace_by_slug s sl = Some w \<Longrightarrow> w \<in> set (workspaces s) \<and> ws_slug w = sl"
  unfolding workspace_by_slug_def by (drule find_SomeD) simp

lemma account_of_subD:
  "account_of_sub s sub = Some u \<Longrightarrow> u \<in> set (app_users s) \<and> au_platformUserId u = Some sub"
  unfolding account_of_sub_def by (drule find_SomeD) simp

lemma membership_ofD:
  "membership_of s uid tid = Some m \<Longrightarrow>
   m \<in> set (memberships s) \<and> mb_userId m = uid \<and> mb_tenantId m = tid"
  unfolding membership_of_def by (drule find_SomeD) simp

definition role_in :: "app_db \<Rightarrow> string \<Rightarrow> string \<Rightarrow> app_role option" where
  "role_in s uid tid = map_option mb_role (membership_of s uid tid)"

lemma upsert_workspace_fields [simp]:
  "app_users (snd (upsert_workspace wid sl nm s)) = app_users s"
  "memberships (snd (upsert_workspace wid sl nm s)) = memberships s"
  "verification_tokens (snd (upsert_workspace wid sl nm s)) = verification_tokens s"
  by (simp_all add: upsert_workspace_def Let_def split: option.split)

lemma upsert_workspace_slug:
  "ws_slug (fst (upsert_workspace wid sl nm s)) = sl"
  "fst (upsert_workspace wid sl nm s) \<in> set (workspaces (snd (upsert_workspace wid sl nm s)))"
  by (auto simp: upsert_workspace_def Let_def in_upd_where split: option.split dest!: workspace_by_slugD)

lemma upsert_account_fields [simp]:
  "workspaces (snd (upsert_account uid sub em nm s)) = workspaces s"
  "memberships (snd (upsert_account uid sub em nm s)) = memberships s"
  "verification_tokens (snd (upsert_account uid sub em nm s)) = verification_tokens s"
  by (simp_all add: upsert_account_def Let_def split: option.split)

lemma upsert_account_user:
  "au_platformUserId (fst (upsert_account uid sub em nm s)) = Some sub"
  "au_email (fst (upsert_account uid sub em nm s)) = em"
  "fst (upsert_account uid sub em nm s) \<in> set (app_users (snd (upsert_account uid sub em nm s)))"
  by (auto simp: upsert_account_def Let_def in_upd_where split: option.split dest!: account_of_subD)

lemma upsert_account_others:
  "filter (\<lambda>u. au_platformUserId u \<noteq> Some sub) (app_users (snd (upsert_account uid sub em nm s)))
     = filter (\<lambda>u. au_platformUserId u \<noteq> Some sub) (app_users s)"
  by (auto simp: upsert_account_def Let_def filter_upd_where_other split: option.split)

lemma follow_role_fields [simp]:
  "workspaces (follow_role uid tid r now s) = workspaces s"
  "app_users (follow_role uid tid r now s) = app_users s"
  "verification_tokens (follow_role uid tid r now s) = verification_tokens s"
  by (simp_all add: follow_role_def split: option.split)

lemma follow_role_role:
  "role_in (follow_role uid tid r now s) uid' tid' =
     (if uid' = uid \<and> tid' = tid then Some (if role_in s uid tid = Some OWNER then OWNER else r)
      else role_in s uid' tid')"
proof (cases "membership_of s uid tid")
  case None
  then show ?thesis
    by (auto simp: follow_role_def role_in_def membership_of_def find_append split: option.splits)
next
  case (Some m)
  have "membership_of (s\<lparr>memberships := upd_where (\<lambda>m. mb_userId m = uid \<and> mb_tenantId m = tid)
           (\<lambda>m. m\<lparr>mb_role := r\<rparr>) (memberships s)\<rparr>) uid' tid'
      = map_option (\<lambda>m. if mb_userId m = uid \<and> mb_tenantId m = tid then m\<lparr>mb_role := r\<rparr> else m)
          (membership_of s uid' tid')"
    unfolding membership_of_def by (simp add: find_upd_where)
  then show ?thesis
    using Some membership_ofD [of s uid' tid']
    by (cases "membership_of s uid' tid'") (auto simp: follow_role_def role_in_def)
qed

lemma provision_Inr:
  assumes "provisionFromPlatform c result (wid, uid, now) s = (Inr (Some (u, tid)), s')"
  obtains slug nm email sub rs w s1 s2 where
    "claim_string c ''tenant_slug'' = Some slug" "claim_string c ''email'' = Some email"
    "claim_string c ''sub'' = Some sub" "map_of c ''roles'' = Some (JArr rs)"
    "upsert_workspace wid slug nm s = (w, s1)" "tid = ws_id w"
    "upsert_account uid sub (lower email) (ss_name result) s1 = (u, s2)"
    "s' = follow_role (au_id u) (ws_id w) (platform_role rs) now s2"
proof -
  obtain t1 t2 nm where t: "ss_tenant result = Some (t1, t2, nm)"
    using assms by (auto simp: provisionFromPlatform_def split: option.splits)
  obtain slug where slug: "claim_truthy c ''tenant_slug''" "claim_string c ''tenant_slug'' = Some slug"
    using assms t by (auto simp: provisionFromPlatform_def split: option.splits if_splits)
  obtain w s1 where w: "upsert_workspace wid slug nm s = (w, s1)"
    by fastforce
  obtain email sub where e: "claim_string c ''email'' = Some email" "claim_string c ''sub'' = Some sub"
    using assms t slug w by (auto simp: provisionFromPlatform_def split: option.splits)
  obtain u' s2 where u: "upsert_account uid sub (lower email) (ss_name result) s1 = (u', s2)"
    by fastforce
  obtain rs where rs: "map_of c ''roles'' = Some (JArr rs)"
    using assms t slug w e u
    by (auto simp: provisionFromPlatform_def split: option.splits json.splits)
  show thesis
    by (rule that [of slug email sub rs nm w s1 s2])
       (use assms t slug w e u rs in \<open>auto simp: provisionFromPlatform_def\<close>)
qed

text \<open>What a platform sign-in leaves behind, whatever was there.\<close>

lemma provision_outcome:
  assumes "provisionFromPlatform c result (wid, uid, now) s = (Inr (Some (u, tid)), s')"
  shows "\<exists>slug email sub rs. claim_string c ''tenant_slug'' = Some slug
    \<and> claim_string c ''email'' = Some email \<and> claim_string c ''sub'' = Some sub
    \<and> map_of c ''roles'' = Some (JArr rs)
    \<and> (\<exists>w \<in> set (workspaces s'). ws_id w = tid \<and> ws_slug w = slug)
    \<and> u \<in> set (app_users s') \<and> au_platformUserId u = Some sub \<and> au_email u = lower email
    \<and> (\<forall>uid' tid'. role_in s' uid' tid' = (if uid' = au_id u \<and> tid' = tid
          then Some (if role_in s (au_id u) tid = Some OWNER then OWNER else platform_role rs)
          else role_in s uid' tid'))
    \<and> filter (\<lambda>v. au_platformUserId v \<noteq> Some sub) (app_users s')
        = filter (\<lambda>v. au_platformUserId v \<noteq> Some sub) (app_users s)"
  using assms
proof (rule provision_Inr)
  fix slug nm email sub rs w s1 s2
  assume p: "claim_string c ''tenant_slug'' = Some slug" "claim_string c ''email'' = Some email"
    "claim_string c ''sub'' = Some sub" "map_of c ''roles'' = Some (JArr rs)"
    "upsert_workspace wid slug nm s = (w, s1)" "tid = ws_id w"
    "upsert_account uid sub (lower email) (ss_name result) s1 = (u, s2)"
    "s' = follow_role (au_id u) (ws_id w) (platform_role rs) now s2"
  have "w \<in> set (workspaces s1)" "ws_slug w = slug" "memberships s1 = memberships s"
    "app_users s1 = app_users s"
    using p(5) upsert_workspace_slug [of wid slug nm s] upsert_workspace_fields [of wid slug nm s] by simp_all
  moreover have "workspaces s2 = workspaces s1" "memberships s2 = memberships s1"
    "au_platformUserId u = Some sub" "au_email u = lower email" "u \<in> set (app_users s2)"
    "filter (\<lambda>u. au_platformUserId u \<noteq> Some sub) (app_users s2)
      = filter (\<lambda>u. au_platformUserId u \<noteq> Some sub) (app_users s1)"
    using p(7) upsert_account_fields [of uid sub "lower email" "ss_name result" s1]
      upsert_account_user [of uid sub "lower email" "ss_name result" s1]
      upsert_account_others [of sub uid "lower email" "ss_name result" s1] by simp_all
  moreover have "role_in s2 = role_in s"
    using calculation by (simp add: role_in_def membership_of_def fun_eq_iff)
  ultimately show ?thesis
    using p by (intro exI [of _ slug] exI [of _ email] exI [of _ sub] exI [of _ rs])
      (auto simp: follow_role_role)
qed

text \<open>The ids a create draws are new.\<close>

definition fresh_ids :: "row_ids \<Rightarrow> app_db \<Rightarrow> bool" where
  "fresh_ids dr s \<longleftrightarrow> (case dr of (wid, uid, now) \<Rightarrow>
     wid \<noteq> [] \<and> wid \<notin> ws_id ` set (workspaces s) \<and> uid \<notin> au_id ` set (app_users s))"

lemma upsert_workspace_ok:
  assumes "app_ok s" and "wid \<notin> ws_id ` set (workspaces s)" and "wid \<noteq> []"
  shows "app_ok (snd (upsert_workspace wid sl nm s))"
proof (cases "workspace_by_slug s sl")
  case None
  then have "sl \<notin> ws_slug ` set (workspaces s)"
    by (auto simp: workspace_by_slug_def find_None_iff)
  then show ?thesis
    using assms None by (auto simp: upsert_workspace_def app_ok_def Let_def unique_on_append_one)
next
  case (Some w)
  then show ?thesis
    using assms by (simp add: upsert_workspace_def app_ok_def unique_on_upd_where image_upd_where_same)
qed

lemma filter_upd_where_keep: "(\<And>r. P r \<Longrightarrow> Q (f r) = Q r) \<Longrightarrow>
    filter Q (upd_where P f rows) = upd_where P f (filter Q rows)"
  by (induction rows) auto

lemma upsert_account_ok:
  assumes "app_ok s" and "uid \<notin> au_id ` set (app_users s)"
  shows "app_ok (snd (upsert_account uid sub em nm s))"
proof (cases "account_of_sub s sub")
  case None
  then have "Some sub \<notin> au_platformUserId ` set (app_users s)"
    by (fastforce simp: account_of_sub_def find_None_iff)
  then show ?thesis
    using assms None by (auto simp: upsert_account_def app_ok_def Let_def unique_on_append_one)
next
  case (Some u)
  have "filter (\<lambda>u. au_platformUserId u = None)
      (upd_where (\<lambda>v. au_platformUserId v = Some sub)
        (\<lambda>u. u\<lparr>au_email := em, au_name := or_else nm (au_name u)\<rparr>) (app_users s))
      = filter (\<lambda>u. au_platformUserId u = None) (app_users s)"
    by (rule filter_upd_where_other) auto
  then show ?thesis
    using assms(1) Some
    by (simp add: upsert_account_def app_ok_def unique_on_upd_where image_upd_where_same filter_upd_where_keep)
qed

lemma follow_role_ok:
  assumes "app_ok s" and "uid \<in> au_id ` set (app_users s)" and "tid \<in> ws_id ` set (workspaces s)"
  shows "app_ok (follow_role uid tid r now s)"
proof (cases "membership_of s uid tid")
  case None
  then have "(uid, tid) \<notin> (\<lambda>m. (mb_userId m, mb_tenantId m)) ` set (memberships s)"
    by (auto simp: membership_of_def find_None_iff)
  then show ?thesis
    using assms None by (auto simp: follow_role_def app_ok_def unique_on_append_one)
next
  case (Some m)
  then show ?thesis
    using assms by (auto simp: follow_role_def app_ok_def unique_on_upd_where ball_upd_where)
qed

lemma provision_ok:
  assumes "app_ok s" and "fresh_ids (wid, uid, now) s"
  shows "app_ok (snd (provisionFromPlatform c result (wid, uid, now) s))"
proof -
  have "app_ok (snd (upsert_workspace wid slug nm s))" for slug nm
    by (rule upsert_workspace_ok) (use assms in \<open>auto simp: fresh_ids_def\<close>)
  moreover have "app_ok (snd (upsert_account uid sub em nm (snd (upsert_workspace wid slug wn s))))"
    for sub em nm slug wn
    by (rule upsert_account_ok [OF calculation]) (use assms(2) in \<open>simp add: fresh_ids_def\<close>)
  moreover have "app_ok (follow_role (au_id (fst (upsert_account uid sub em nm (snd (upsert_workspace wid slug wn s)))))
      (ws_id (fst (upsert_workspace wid slug wn s))) r now
      (snd (upsert_account uid sub em nm (snd (upsert_workspace wid slug wn s)))))" for sub em nm slug wn r
    by (rule follow_role_ok [OF calculation(2)])
       (use upsert_account_user(3) upsert_workspace_slug(2) in \<open>auto intro!: imageI\<close>)
  ultimately show ?thesis
    using assms(1)
    by (auto simp: provisionFromPlatform_def split: option.splits prod.splits json.splits)
       (metis fst_conv snd_conv)+
qed

section \<open>A session's life\<close>

text \<open>
  The token of a session after a sign-in and the calls of \<open>auth()\<close> that followed, each at its time
  and on the tables of that moment.
\<close>

fun token_run :: "jwt \<Rightarrow> (time \<times> app_db) list \<Rightarrow> jwt" where
  "token_run t [] = t"
| "token_run t ((now, s) # h) = token_run (jwt_refresh t now s) h"

lemma token_run_append: "token_run t (h @ [(now, s)]) = jwt_refresh (token_run t h) now s"
  by (induction t h rule: token_run.induct) auto

lemma jwt_refresh_uid [simp]: "jt_uid (jwt_refresh t now s) = jt_uid t"
  by (simp add: jwt_refresh_def Let_def)

lemma token_run_uid [simp]: "jt_uid (token_run t h) = jt_uid t"
  by (induction t h rule: token_run.induct) auto

text \<open>
  Of a history of moments and tables: the role and scope of a token are what the tables held at the
  moment \<open>t0\<close> of its last check, or the token has lost its scope.
\<close>

definition seen :: "(time \<times> app_db) list \<Rightarrow> time \<Rightarrow> jwt \<Rightarrow> bool" where
  "seen h t0 t \<longleftrightarrow> jt_roleCheckedAt t = Some t0 \<and> jt_role t \<noteq> None \<and> jt_tenantId t \<noteq> None
     \<and> (\<exists>s. (t0, s) \<in> set h \<and> role_in s (nullish (jt_uid t) []) (nullish (jt_tenantId t) []) = jt_role t)"

definition scopeless :: "jwt \<Rightarrow> bool" where
  "scopeless t \<longleftrightarrow> jt_tenantId t = None \<and> jt_role t = None"

lemma seen_mono: "seen h t0 t \<Longrightarrow> set h \<subseteq> set h' \<Longrightarrow> seen h' t0 t"
  unfolding seen_def by blast

lemma scopeless_refresh: "scopeless t \<Longrightarrow> scopeless (jwt_refresh t now s)"
  by (simp add: scopeless_def jwt_refresh_def)

lemma seen_refresh:
  assumes "seen h t0 t"
  shows "scopeless (jwt_refresh t now s)
    \<or> (\<exists>t1. seen ((now, s) # h) t1 (jwt_refresh t now s)
         \<and> (truthy (jt_uid t) \<and> truthy (jt_tenantId t) \<longrightarrow> now - t1 \<le> ROLE_REFRESH_MS))"
proof (cases "truthy (jt_uid t) \<and> truthy (jt_tenantId t) \<and> ROLE_REFRESH_MS < now - t0")
  case True
  then obtain uid tid where ids: "jt_uid t = Some uid" "jt_tenantId t = Some tid" "uid \<noteq> []" "tid \<noteq> []"
    by (cases "jt_uid t"; cases "jt_tenantId t") auto
  have r: "jwt_refresh t now s = t\<lparr>jt_role := map_option mb_role (membership_of s uid tid),
      jt_tenantId := map_option mb_tenantId (membership_of s uid tid), jt_roleCheckedAt := Some now\<rparr>"
    using True ids assms by (auto simp: jwt_refresh_def seen_def Let_def)
  show ?thesis
  proof (cases "membership_of s uid tid")
    case None
    then show ?thesis
      by (simp add: r scopeless_def)
  next
    case (Some m)
    then have "seen ((now, s) # h) now (jwt_refresh t now s)"
      using ids membership_ofD [OF Some] by (auto simp: r seen_def role_in_def)
    then show ?thesis
      by (auto simp: ROLE_REFRESH_MS_def)
  qed
next
  case False
  then have "jwt_refresh t now s = t"
    using assms by (auto simp: jwt_refresh_def seen_def)
  moreover have "seen ((now, s) # h) t0 t"
    by (rule seen_mono [OF assms]) auto
  ultimately show ?thesis
    using False by auto
qed

lemma seen_run:
  "scopeless t \<or> (\<exists>t0. seen h0 t0 t) \<Longrightarrow> scopeless (token_run t h) \<or> (\<exists>t0. seen (rev h @ h0) t0 (token_run t h))"
proof (induction t h arbitrary: h0 rule: token_run.induct)
  case (2 t now s h)
  have "scopeless (jwt_refresh t now s) \<or> (\<exists>t0. seen ((now, s) # h0) t0 (jwt_refresh t now s))"
    using 2(2) scopeless_refresh seen_refresh by blast
  from 2(1) [OF this] show ?case
    by simp
qed simp

lemma oldest_membershipD:
  assumes "oldest_membership s uid = Some m"
  shows "m \<in> set (memberships s) \<and> mb_userId m = uid"
proof -
  have "m \<in> set (sort_key mb_createdAt (filter (\<lambda>m. mb_userId m = uid) (memberships s)))"
    using assms by (cases "sort_key mb_createdAt (filter (\<lambda>m. mb_userId m = uid) (memberships s))")
      (simp_all add: oldest_membership_def)
  then show ?thesis
    by simp
qed

lemma membership_of_unique:
  assumes "app_ok s" and "m \<in> set (memberships s)"
  shows "membership_of s (mb_userId m) (mb_tenantId m) = Some m"
  unfolding membership_of_def
  by (rule find_unique_in [where key = "\<lambda>m. (mb_userId m, mb_tenantId m)"])
     (use assms in \<open>auto simp: app_ok_def\<close>)

lemma seen_sign_in:
  assumes "app_ok s"
  shows "scopeless (jwt_sign_in az now s) \<or> seen [(now, s)] now (jwt_sign_in az now s)"
proof -
  define m where "m = (if truthy (az_tenantId az) then membership_of s (az_id az) (the (az_tenantId az))
      else oldest_membership s (az_id az))"
  have "membership_of s (az_id az) (mb_tenantId v) = Some v" if "m = Some v" for v
  proof -
    have "v \<in> set (memberships s)" "mb_userId v = az_id az"
      using that unfolding m_def by (auto split: if_splits dest: membership_ofD oldest_membershipD)
    then show ?thesis
      using membership_of_unique [OF assms] by metis
  qed
  then show ?thesis
    by (cases m) (simp_all add: jwt_sign_in_def m_def [symmetric] scopeless_def seen_def role_in_def)
qed

lemma jt_uid_sign_in [simp]: "jt_uid (jwt_sign_in az now s) = Some (az_id az)"
  by (simp add: jwt_sign_in_def Let_def)

lemma requireApiSession_Inr:
  assumes "requireApiSession (Some t) now s = Inr cx"
  shows "jt_uid (jwt_refresh t now s) = Some (sx_userId cx)" "sx_userId cx \<noteq> []"
    "jt_tenantId (jwt_refresh t now s) = Some (sx_tenantId cx)" "sx_tenantId cx \<noteq> []"
    "sx_role cx = nullish (jt_role (jwt_refresh t now s)) MEMBER"
  using assms
  by (cases "jt_uid t"; cases "jt_tenantId (jwt_refresh t now s)";
      auto simp: requireApiSession_def auth_def session_of_def split: if_splits)+

lemma find_filter_implied: "(\<And>x. P x \<Longrightarrow> Q x) \<Longrightarrow> find P (filter Q xs) = find P xs"
  by (induction xs) auto

text \<open>The rows a provisioning leaves alone, and the ones it takes when they are there.\<close>

lemma provision_frame:
  assumes "provisionFromPlatform c result dr s = (Inr (Some (u, tid)), s')"
    and "claim_string c ''tenant_slug'' = Some slug" and "claim_string c ''sub'' = Some sub"
  shows "filter (\<lambda>w. ws_slug w \<noteq> slug) (workspaces s') = filter (\<lambda>w. ws_slug w \<noteq> slug) (workspaces s)"
    "filter (\<lambda>m. (mb_userId m, mb_tenantId m) \<noteq> (au_id u, tid)) (memberships s')
      = filter (\<lambda>m. (mb_userId m, mb_tenantId m) \<noteq> (au_id u, tid)) (memberships s)"
    "verification_tokens s' = verification_tokens s" "app_audits s' = app_audits s"
    "account_of_sub s sub = Some v \<Longrightarrow> au_id v = au_id u"
    "workspace_by_slug s slug = Some w \<Longrightarrow> ws_id w = tid"
proof -
  obtain wid uid now where dr: "dr = (wid, uid, now)"
    by (cases dr)
  obtain nm where nm: "ss_tenant result = Some nm" "claim_truthy c ''tenant_slug''"
    using assms(1) by (cases "ss_tenant result") (auto simp: provisionFromPlatform_def dr split: if_splits)
  obtain w1 s1 where w1: "upsert_workspace wid slug (snd (snd nm)) s = (w1, s1)"
    by fastforce
  obtain email where em: "claim_string c ''email'' = Some email"
    using assms nm w1
    by (cases "claim_string c ''email''") (auto simp: provisionFromPlatform_def dr split: prod.splits)
  obtain u1 s2 where u1: "upsert_account uid sub (lower email) (ss_name result) s1 = (u1, s2)"
    by fastforce
  obtain rs where rs: "u = u1" "tid = ws_id w1"
    "s' = follow_role (au_id u1) (ws_id w1) (platform_role rs) now s2"
    using assms nm w1 em u1
    by (auto simp: provisionFromPlatform_def dr split: prod.splits option.splits json.splits)
  have ws: "workspaces s2 = workspaces s1" "workspaces s' = workspaces s2" "app_users s1 = app_users s"
    "memberships s2 = memberships s" "verification_tokens s2 = verification_tokens s" "app_audits s2 = app_audits s"
    using w1 u1 rs
    by (auto simp: follow_role_def upsert_account_def upsert_workspace_def Let_def split: option.splits)
  show "filter (\<lambda>w. ws_slug w \<noteq> slug) (workspaces s') = filter (\<lambda>w. ws_slug w \<noteq> slug) (workspaces s)"
    using w1 ws by (auto simp: upsert_workspace_def filter_upd_where_other Let_def split: option.splits)
  show "filter (\<lambda>m. (mb_userId m, mb_tenantId m) \<noteq> (au_id u, tid)) (memberships s')
      = filter (\<lambda>m. (mb_userId m, mb_tenantId m) \<noteq> (au_id u, tid)) (memberships s)"
    using ws rs by (auto simp: follow_role_def filter_upd_where_other split: option.splits)
  show "verification_tokens s' = verification_tokens s" "app_audits s' = app_audits s"
    using ws rs by (auto simp: follow_role_def split: option.splits)
  show "account_of_sub s sub = Some v \<Longrightarrow> au_id v = au_id u"
    using u1 rs ws by (auto simp: upsert_account_def account_of_sub_def Let_def)
  show "workspace_by_slug s slug = Some w \<Longrightarrow> ws_id w = tid"
    using w1 rs by (auto simp: upsert_workspace_def)
qed

text \<open>The same as a statement about lookups, on tables that keep the constraints.\<close>

lemma provisioning_outcome_of:
  assumes "app_ok s" and "fresh_ids dr s"
    and "provisionFromPlatform c result dr s = (Inr (Some (u, tid)), s')"
  shows "app_ok s' \<and> (\<exists>slug sub rs. claim_string c ''tenant_slug'' = Some slug
    \<and> claim_string c ''sub'' = Some sub \<and> map_of c ''roles'' = Some (JArr rs)
    \<and> account_of_sub s' sub = Some u \<and> map_option ws_id (workspace_by_slug s' slug) = Some tid
    \<and> (\<forall>uid' tid'. role_in s' uid' tid' = (if uid' = au_id u \<and> tid' = tid
          then Some (if role_in s (au_id u) tid = Some OWNER then OWNER
                     else if JStr ''admin'' \<in> set rs then ADMIN else MEMBER)
          else role_in s uid' tid'))
    \<and> filter (\<lambda>v. au_platformUserId v \<noteq> Some sub) (app_users s')
        = filter (\<lambda>v. au_platformUserId v \<noteq> Some sub) (app_users s)
    \<and> (\<forall>v. account_of_sub s sub = Some v \<longrightarrow> au_id v = au_id u)
    \<and> (\<forall>w. workspace_by_slug s slug = Some w \<longrightarrow> ws_id w = tid)
    \<and> filter (\<lambda>w. ws_slug w \<noteq> slug) (workspaces s') = filter (\<lambda>w. ws_slug w \<noteq> slug) (workspaces s)
    \<and> filter (\<lambda>m. (mb_userId m, mb_tenantId m) \<noteq> (au_id u, tid)) (memberships s')
        = filter (\<lambda>m. (mb_userId m, mb_tenantId m) \<noteq> (au_id u, tid)) (memberships s)
    \<and> verification_tokens s' = verification_tokens s \<and> app_audits s' = app_audits s)"
proof -
  obtain wid uid now where dr: "dr = (wid, uid, now)"
    by (cases dr)
  have ok: "app_ok s'"
    using provision_ok [OF assms(1), of wid uid now c result] assms(2,3) by (simp add: dr)
  obtain slug email sub rs w where p: "claim_string c ''tenant_slug'' = Some slug"
    "claim_string c ''email'' = Some email" "claim_string c ''sub'' = Some sub"
    "map_of c ''roles'' = Some (JArr rs)" "w \<in> set (workspaces s')" "ws_id w = tid" "ws_slug w = slug"
    "u \<in> set (app_users s')" "au_platformUserId u = Some sub"
    "\<forall>uid' tid'. role_in s' uid' tid' = (if uid' = au_id u \<and> tid' = tid
          then Some (if role_in s (au_id u) tid = Some OWNER then OWNER else platform_role rs)
          else role_in s uid' tid')"
    "filter (\<lambda>v. au_platformUserId v \<noteq> Some sub) (app_users s')
        = filter (\<lambda>v. au_platformUserId v \<noteq> Some sub) (app_users s)"
    using provision_outcome [OF assms(3) [unfolded dr]] by metis
  have "account_of_sub s' sub = Some u"
  proof -
    have "find (\<lambda>v. au_platformUserId v = Some sub) (filter (\<lambda>u. au_platformUserId u \<noteq> None) (app_users s')) = Some u"
      by (rule find_unique_in [where key = au_platformUserId]) (use ok p(8,9) in \<open>auto simp: app_ok_def\<close>)
    then show ?thesis
      by (subst (asm) find_filter_implied) (auto simp: account_of_sub_def)
  qed
  moreover have "workspace_by_slug s' slug = Some w"
    unfolding workspace_by_slug_def
    by (rule find_unique_in [where key = ws_slug]) (use ok p in \<open>auto simp: app_ok_def\<close>)
  then have "map_option ws_id (workspace_by_slug s' slug) = Some tid"
    by (simp add: p(6))
  moreover note p(10) [unfolded platform_role_def]
  moreover have "\<forall>v. account_of_sub s sub = Some v \<longrightarrow> au_id v = au_id u"
    "\<forall>w. workspace_by_slug s slug = Some w \<longrightarrow> ws_id w = tid"
    using provision_frame(5,6) [OF assms(3) p(1,3)] by blast+
  ultimately show ?thesis
    using ok p(1,3,4,11) provision_frame(1-4) [OF assms(3) p(1,3)]
    by (intro conjI exI [of _ slug] exI [of _ sub] exI [of _ rs]) assumption+
qed

section \<open>Signing in through the platform\<close>

lemma completeLogin_token:
  "completeLogin env cfg u tenant cid ip m dr now p = (Inr ses, p') \<Longrightarrow>
   ss_accessToken ses = jwt_sign env (access_claims p u tenant cid) (accessTtlSec cfg) now"
  by (auto simp: completeLogin_def issueTokens_def insert_refresh_token_def Let_def
      split: if_splits sum.splits prod.splits)

text \<open>The local rows a session of a platform user leads to.\<close>

lemma provisioned_session:
  assumes "faithful_api env cfg wc wa cid dr at p api" and "app_ok s" and "fresh_ids ids s"
    and "completeLogin env cfg u tenant cid ip m dr at p0 = (Inr ses, p')"
    and "provisioned api (Inr ses) ids s = (Some az, s')"
  shows "\<exists>t a w. tenant = Some t \<and> account_of_sub s' (u_id u) = Some a \<and> az_id az = au_id a
    \<and> workspace_by_slug s' (tn_slug t) = Some w \<and> az_tenantId az = Some (ws_id w) \<and> ws_id w \<noteq> []
    \<and> role_in s' (au_id a) (ws_id w) = Some (if role_in s (au_id a) (ws_id w) = Some OWNER then OWNER
         else platform_role (map JStr (rolesForApp p0 u cid)))"
proof -
  obtain c a tid where c: "pa_verify api (ss_accessToken ses) = Inr c"
    and pr: "provisionFromPlatform c ses ids s = (Inr (Some (a, tid)), s')"
    and az: "az_id az = au_id a" "az_tenantId az = Some tid"
    using assms(5) by (auto simp: provisioned_def split: sum.splits prod.splits option.splits)
  note out = provisioning_outcome_of [OF assms(2,3) pr]
  have claims: "map_of c k = map_of (access_claims p0 u tenant cid) k"
    if "k \<in> {''sub'', ''tenant_slug'', ''roles''}" for k
  proof -
    have "k \<in> fst ` set (access_claims p0 u tenant cid)"
      using that by (auto simp: access_claims_def)
    then show ?thesis
      using assms(1) c completeLogin_token [OF assms(4)] unfolding faithful_api_def by metis
  qed
  have cl: "claim_string c ''sub'' = Some (u_id u)"
    "map_of c ''roles'' = Some (JArr (map JStr (rolesForApp p0 u cid)))"
    "claim_string c ''tenant_slug'' = map_option tn_slug tenant"
    using claims by (auto simp: access_claims_def claim_string_def json_opt_def split: option.split)
  obtain t where t: "tenant = Some t"
    using out cl(3) by (cases tenant) auto
  obtain w where w: "workspace_by_slug s' (tn_slug t) = Some w" "ws_id w = tid"
    using out cl(3) t by auto
  have "ws_id w \<noteq> []"
    using conjunct1 [OF out] workspace_by_slugD [OF w(1)] unfolding app_ok_def by (metis imageI)
  then show ?thesis
    using out cl t w az by (auto simp: platform_role_def)
qed

section \<open>A small app\<close>

definition sample_claims :: claims where
  "sample_claims = [(''sub'', JStr ''u1''), (''email'', JStr ''A@x''), (''tenant_slug'', JStr ''acme''),
     (''roles'', JArr [JStr ''admin''])]"

definition sample_session :: session where
  "sample_session = \<lparr>ss_accessToken = ''jwt'', ss_refreshToken = ''new'', ss_expiresIn = 900,
     ss_userId = ''u1'', ss_email = ''a@x'', ss_name = None, ss_platformAdmin = False,
     ss_tenantAdmin = True, ss_tenant = Some (''t1'', ''acme'', ''Acme'')\<rparr>"

definition sample_ids :: row_ids where "sample_ids = (''w1'', ''l1'', 10)"

definition sample_app_db :: app_db where
  "sample_app_db = empty_app\<lparr>workspaces := [\<lparr>ws_id = ''w0'', ws_name = ''Old'', ws_slug = ''acme''\<rparr>],
     app_users := [\<lparr>au_id = ''l0'', au_platformUserId = Some ''u9'', au_email = ''a@x'', au_name = None,
       au_passwordHash = None\<rparr>],
     memberships := [\<lparr>mb_userId = ''l0'', mb_tenantId = ''w0'', mb_role = OWNER, mb_createdAt = 1\<rparr>]\<rparr>"

definition provisioned_db :: app_db where
  "provisioned_db = snd (provisionFromPlatform sample_claims sample_session sample_ids sample_app_db)"

definition provisioned_user :: app_user where
  "provisioned_user = \<lparr>au_id = ''l1'', au_platformUserId = Some ''u1'', au_email = ''a@x'',
     au_name = None, au_passwordHash = None\<rparr>"

definition sample_az :: authorized where
  "sample_az = \<lparr>az_id = ''l1'', az_email = ''a@x'', az_name = None, az_tenantId = Some ''w0''\<rparr>"

lemma sample_app_ok: "app_ok sample_app_db" "fresh_ids sample_ids sample_app_db"
  by (code_simp, code_simp)

lemma sample_provision:
  "provisionFromPlatform sample_claims sample_session sample_ids sample_app_db
     = (Inr (Some (provisioned_user, ''w0'')), provisioned_db)"
proof -
  have "fst (provisionFromPlatform sample_claims sample_session sample_ids sample_app_db)
      = Inr (Some (provisioned_user, ''w0''))"
    by code_simp
  then show ?thesis
    unfolding provisioned_db_def by (metis prod.collapse)
qed

definition sample_api :: platform_api where
  "sample_api = \<lparr>pa_login = (\<lambda>slug email pw. fst (login numbered_env sample_cfg
       \<lparr>lg_tenantSlug = slug, lg_email = email, lg_password = pw, lg_clientId = Some ''swag''\<rparr>
       None (''r1'', ''new'') 10 sample_db)),
     pa_passkey = (\<lambda>cred tok. fst (passkey_login numbered_env sample_cfg sample_wc sample_wa
       \<lparr>pl_credential = \<lparr>as_id = ''cred1'', as_body = cred\<rparr>, pl_challengeToken = tok,
        pl_clientId = Some ''swag''\<rparr> None (''r1'', ''new'') 10 sample_db)),
     pa_verify = (\<lambda>tok. case jwt_verify numbered_env 20 tok of None \<Rightarrow> Inl (Some 401, None) | Some c \<Rightarrow> Inr c),
     pa_signup = (\<lambda>company email pw. Inr company), pa_forgotPassword = (\<lambda>slug email. Inr ()),
     pa_forgotWorkspace = (\<lambda>email. Inr ()), pa_sendVerification = (\<lambda>slug email. Inr ())\<rparr>"

definition sample_app_cfg :: app_cfg where
  "sample_app_cfg = \<lparr>ac_platform = Some sample_api, ac_defaultWorkspace = None,
     ac_verifyPassword = (\<lambda>plain h. h = plain), ac_hashPassword = (\<lambda>x. x), ac_sha256 = (\<lambda>x. CHR ''h'' # x),
     ac_validEmail = (\<lambda>x. CHR ''@'' \<in> set x), ac_zodMessage = (\<lambda>x. x), ac_authUrl = None,
     ac_uriEncode = (\<lambda>x. x), ac_relayAccepts = (\<lambda>to. Some True)\<rparr>"

lemma sample_faithful:
  "faithful_api numbered_env sample_cfg sample_wc sample_wa (Some ''swag'') (''r1'', ''new'') 10 sample_db sample_api"
  unfolding faithful_api_def
proof (intro conjI allI impI)
  fix c ttl t x k
  assume "pa_verify sample_api (jwt_sign numbered_env c ttl t) = Inr x" and "k \<in> fst ` set c"
  then have "jwt_verify numbered_env 20 (jwt_sign numbered_env c ttl t) = Some x"
    by (simp add: sample_api_def split: option.splits)
  then show "map_of x k = map_of c k"
    using numbered_laws(1) \<open>k \<in> fst ` set c\<close> unfolding token_laws_def by blast
qed (auto simp: sample_api_def)

lemma any_signer_login:
  "is_ok (fst (login (sample_env\<lparr>jwt_sign := a, jwt_verify := b, jwt_decode := c, encrypt_secret := d,
     decrypt_secret := e\<rparr>) sample_cfg \<lparr>lg_tenantSlug = Some ''acme'', lg_email = ''a@x'', lg_password = ''pw'',
     lg_clientId = Some ''swag''\<rparr> None (''r1'', ''new'') 10 sample_db))"
  by code_simp

lemma sample_sign_in:
  "fst (authorize_credentials sample_app_cfg (Some ''a@x'') (Some ''pw'') (Some ''acme'') sample_ids empty_app) \<noteq> None"
proof -
  let ?dto = "\<lparr>lg_tenantSlug = Some ''acme'', lg_email = ''a@x'', lg_password = ''pw'', lg_clientId = Some ''swag''\<rparr>"
  have "is_ok (fst (login numbered_env sample_cfg ?dto None (''r1'', ''new'') 10 sample_db))"
    unfolding numbered_env_def by (rule any_signer_login)
  then obtain ses p' where l: "login numbered_env sample_cfg ?dto None (''r1'', ''new'') 10 sample_db = (Inr ses, p')"
    by (rule is_ok_fstE)
  then obtain u tenant where u: "tenant = live_tenant_by_slug sample_db ''acme''"
    "live_user_by_email sample_db (map_option tn_id tenant) (lower ''a@x'') = Some u"
    "completeLogin numbered_env sample_cfg u tenant (Some ''swag'') None ''password'' (''r1'', ''new'') 10
       sample_db = (Inr ses, p')"
    by (rule login_Inr) simp
  have t: "tenant = Some sample_tenant"
    unfolding u(1) by code_simp
  have c: "pa_verify sample_api (ss_accessToken ses)
      = Inr (access_claims sample_db u tenant (Some ''swag'') @ [(''iat'', JNum 10)])"
    unfolding completeLogin_token [OF u(3)]
    by (simp add: sample_api_def numbered_verifies sample_cfg_def second_ms_def)
  have "lower (trim ''a@x'') = ''a@x''" "trim ''acme'' \<noteq> []" "lower (trim ''acme'') = ''acme''"
    by code_simp+
  moreover have "\<exists>w s1. upsert_workspace ''w1'' sl nm empty_app = (w, s1)" for sl nm
    by fastforce
  ultimately show ?thesis
    using l c t completeLogin_Inr [OF u(3)]
    by (auto simp: authorize_credentials_def sample_app_cfg_def sample_api_def provisioned_def
        provisionFromPlatform_def sample_ids_def access_claims_def claim_truthy_def claim_string_def json_opt_def
        sample_tenant_def Let_def split: prod.splits)
qed

section \<open>Properties\<close>

text \<open>
  C9: A session's role is never older than the refresh interval. Whatever happened between a sign-in and a
  request, the role the request is served with is one that the app's tables held, for that user and
  workspace, at a moment at most a minute ago: a member removed from the workspace is refused.
\<close>

theorem session_role_fresh:
  assumes "app_ok s0"
    and "requireApiSession (Some (token_run (jwt_sign_in az at s0) h)) now s = Inr cx"
  shows "\<exists>(t1, s1) \<in> set ((at, s0) # h @ [(now, s)]). now - t1 \<le> ROLE_REFRESH_MS
    \<and> role_in s1 (sx_userId cx) (sx_tenantId cx) = Some (sx_role cx)"
proof -
  let ?t = "token_run (jwt_sign_in az at s0) h"
  have "scopeless ?t \<or> (\<exists>t0. seen (rev h @ [(at, s0)]) t0 ?t)"
    using seen_sign_in [OF assms(1)] by (intro seen_run) blast
  then have "scopeless (jwt_refresh ?t now s) \<or> (\<exists>t1. seen ((now, s) # rev h @ [(at, s0)]) t1 (jwt_refresh ?t now s)
      \<and> (truthy (jt_uid ?t) \<and> truthy (jt_tenantId ?t) \<longrightarrow> now - t1 \<le> ROLE_REFRESH_MS))"
    using scopeless_refresh seen_refresh by blast
  moreover have tok: "jt_uid (jwt_refresh ?t now s) = Some (sx_userId cx)" "sx_userId cx \<noteq> []"
    "jt_tenantId (jwt_refresh ?t now s) = Some (sx_tenantId cx)" "sx_tenantId cx \<noteq> []"
    "sx_role cx = nullish (jt_role (jwt_refresh ?t now s)) MEMBER"
    using requireApiSession_Inr [OF assms(2)] by auto
  moreover have "truthy (jt_tenantId ?t)"
    using tok(3,4) by (cases "truthy (jt_tenantId ?t)") (auto simp: jwt_refresh_def)
  ultimately obtain t1 where t1: "seen ((now, s) # rev h @ [(at, s0)]) t1 (jwt_refresh ?t now s)"
    "now - t1 \<le> ROLE_REFRESH_MS"
    by (auto simp: scopeless_def)
  then obtain s1 where "(t1, s1) \<in> set ((now, s) # rev h @ [(at, s0)])"
    "role_in s1 (sx_userId cx) (sx_tenantId cx) = jt_role (jwt_refresh ?t now s)"
    "jt_role (jwt_refresh ?t now s) \<noteq> None"
    using tok by (auto simp: seen_def)
  then show ?thesis
    using t1(2) tok(5) by (intro bexI [of _ "(t1, s1)"]) auto
qed

lemma session_role_fresh_witness:
  "\<exists>cx. requireApiSession (Some (token_run (jwt_sign_in sample_az 10 provisioned_db)
       [(100000, provisioned_db)])) 120000 provisioned_db = Inr cx
     \<and> role_in provisioned_db (sx_userId cx) (sx_tenantId cx) = Some (sx_role cx)"
proof -
  have "is_ok (requireApiSession (Some (token_run (jwt_sign_in sample_az 10 provisioned_db)
       [(100000, provisioned_db)])) 120000 provisioned_db)" "app_ok provisioned_db"
    by (code_simp, code_simp)
  then obtain cx where "requireApiSession (Some (token_run (jwt_sign_in sample_az 10 provisioned_db)
       [(100000, provisioned_db)])) 120000 provisioned_db = Inr cx"
    by (auto simp: is_ok_iff)
  then show ?thesis
    using session_role_fresh [OF \<open>app_ok provisioned_db\<close>] by fastforce
qed

text \<open>
  C19: The platform decides the roles of the accounts it provisions, in both directions. After a sign-in
  the account is the one of the platform user and the workspace the one of the token, those that were
  there before if they were; the role in it is what the token says, unless it was OWNER. No other
  account, workspace or membership has changed, nor any other table, and the schema's constraints hold
  as before.
\<close>

theorem provisioning_follows_platform:
  assumes "app_ok s" and "fresh_ids dr s"
    and "provisionFromPlatform c result dr s = (Inr (Some (u, tid)), s')"
  shows "app_ok s' \<and> (\<exists>slug sub rs. claim_string c ''tenant_slug'' = Some slug
    \<and> claim_string c ''sub'' = Some sub \<and> map_of c ''roles'' = Some (JArr rs)
    \<and> account_of_sub s' sub = Some u \<and> map_option ws_id (workspace_by_slug s' slug) = Some tid
    \<and> (\<forall>uid' tid'. role_in s' uid' tid' = (if uid' = au_id u \<and> tid' = tid
          then Some (if role_in s (au_id u) tid = Some OWNER then OWNER
                     else if JStr ''admin'' \<in> set rs then ADMIN else MEMBER)
          else role_in s uid' tid'))
    \<and> filter (\<lambda>v. au_platformUserId v \<noteq> Some sub) (app_users s')
        = filter (\<lambda>v. au_platformUserId v \<noteq> Some sub) (app_users s)
    \<and> (\<forall>v. account_of_sub s sub = Some v \<longrightarrow> au_id v = au_id u)
    \<and> (\<forall>w. workspace_by_slug s slug = Some w \<longrightarrow> ws_id w = tid)
    \<and> filter (\<lambda>w. ws_slug w \<noteq> slug) (workspaces s') = filter (\<lambda>w. ws_slug w \<noteq> slug) (workspaces s)
    \<and> filter (\<lambda>m. (mb_userId m, mb_tenantId m) \<noteq> (au_id u, tid)) (memberships s')
        = filter (\<lambda>m. (mb_userId m, mb_tenantId m) \<noteq> (au_id u, tid)) (memberships s)
    \<and> verification_tokens s' = verification_tokens s \<and> app_audits s' = app_audits s)"
  by (rule provisioning_outcome_of [OF assms])

lemma provisioning_follows_platform_witness:
  "role_in provisioned_db ''l1'' ''w0'' = Some ADMIN \<and> role_in provisioned_db ''l0'' ''w0'' = Some OWNER"
proof -
  have "map_of sample_claims ''roles'' = Some (JArr [JStr ''admin''])" "role_in sample_app_db ''l1'' ''w0'' = None"
    "role_in sample_app_db ''l0'' ''w0'' = Some OWNER" "au_id provisioned_user = ''l1''"
    by code_simp+
  then show ?thesis
    using provisioning_follows_platform [OF sample_app_ok sample_provision] by auto
qed

text \<open>
  A platform sign-in never reaches a standalone account, and two platform users never share one:
  whoever signs in with the same address in another workspace gets an account of its own.
\<close>

theorem accounts_keyed_on_platform_user:
  assumes "app_ok s" and "fresh_ids dr s"
    and "provisionFromPlatform c result dr s = (Inr (Some (u, tid)), s')"
    and "v \<in> set (app_users s)" and "au_platformUserId v \<noteq> au_platformUserId u"
  shows "v \<in> set (app_users s') \<and> au_id v \<noteq> au_id u"
proof -
  obtain sub where sub: "account_of_sub s' sub = Some u" "app_ok s'"
    "filter (\<lambda>v. au_platformUserId v \<noteq> Some sub) (app_users s')
        = filter (\<lambda>v. au_platformUserId v \<noteq> Some sub) (app_users s)"
    using provisioning_outcome_of [OF assms(1-3)] by blast
  have u: "u \<in> set (app_users s')" "au_platformUserId u = Some sub"
    using account_of_subD [OF sub(1)] by auto
  have "v \<in> set (filter (\<lambda>v. au_platformUserId v \<noteq> Some sub) (app_users s'))"
    unfolding sub(3) using assms(4,5) u(2) by auto
  then have v: "v \<in> set (app_users s')"
    by simp
  have "unique_on au_id (app_users s')"
    using sub(2) by (simp add: app_ok_def)
  then show ?thesis
    using v u(1) assms(5) unique_on_eqD by metis
qed

lemma accounts_keyed_on_platform_user_witness:
  "\<exists>v \<in> set (app_users sample_app_db). au_email v = au_email provisioned_user
     \<and> v \<in> set (app_users provisioned_db) \<and> au_id v \<noteq> au_id provisioned_user"
proof -
  obtain v where v: "app_users sample_app_db = [v]" "au_email v = au_email provisioned_user"
    "au_platformUserId v \<noteq> au_platformUserId provisioned_user"
    by (simp add: sample_app_db_def provisioned_user_def)
  then show ?thesis
    using accounts_keyed_on_platform_user [OF sample_app_ok sample_provision, of v] by auto
qed

text \<open>
  C18: The cookie redirects end: a request that was redirected is let through at its new address with the
  same cookies.
\<close>

theorem redirects_end:
  "proxy cookies path = Some path' \<Longrightarrow> proxy cookies path' = None"
proof -
  have pub: "under ''/login'' PUBLIC_PATHS" "\<not> under ''/'' PUBLIC_PATHS"
    by code_simp+
  assume "proxy cookies path = Some path'"
  then show "proxy cookies path' = None"
    using pub by (auto simp: proxy_def Let_def split: if_splits)
qed

lemma redirects_end_witness: "proxy [] ''/members'' = Some ''/login'' \<and> proxy [] ''/login'' = None"
proof -
  have "proxy [] ''/members'' = Some ''/login''"
    by code_simp
  then show ?thesis
    using redirects_end by blast
qed

text \<open>
  C5: Signing in to an app is signing in to the platform, and the session is bound to the workspace whose
  password was proven: there is a live, verified platform account with the address and the password
  given, in a usable workspace, and the session's user and workspace are the local rows of exactly
  that account and that workspace, with the role the platform gives it there, except that whoever was
  OWNER of that workspace before stays OWNER.
\<close>

theorem sign_in_bound_to_its_workspace:
  assumes "faithful_api env cfg wc wa cid dr at p api" and "ac_platform acfg = Some api"
    and "unique_on tn_id (tenants p)" and "app_ok s" and "fresh_ids ids s"
    and "authorize_credentials acfg (Some email) (Some pw) slug ids s = (Some az, s')"
  shows "\<exists>u t a w. u \<in> set (users p) \<and> tenant_of p u = Some t \<and> tenant_usable t at
    \<and> u_email u = lower (trim email) \<and> bcrypt_compare env pw (u_passwordHash u)
    \<and> u_deletedAt u = None \<and> u_emailVerifiedAt u \<noteq> None
    \<and> account_of_sub s' (u_id u) = Some a \<and> workspace_by_slug s' (tn_slug t) = Some w
    \<and> jt_uid (jwt_sign_in az now s') = Some (au_id a)
    \<and> jt_tenantId (jwt_sign_in az now s') = Some (ws_id w)
    \<and> jt_role (jwt_sign_in az now s') = Some (if role_in s (au_id a) (ws_id w) = Some OWNER then OWNER
         else platform_role (map JStr (rolesForApp p u cid)))"
proof -
  define ws where "ws = (case slug of
        Some x \<Rightarrow> if trim x \<noteq> [] then Some (lower (trim x)) else ac_defaultWorkspace acfg
      | None \<Rightarrow> ac_defaultWorkspace acfg)"
  define dto where "dto = \<lparr>lg_tenantSlug = ws, lg_email = lower (trim email), lg_password = pw, lg_clientId = cid\<rparr>"
  have pr: "provisioned api (fst (login env cfg dto None dr at p)) ids s = (Some az, s')"
    using assms(1,2,6) unfolding faithful_api_def authorize_credentials_def dto_def ws_def
    by (simp add: Let_def split: if_splits)
  then obtain ses p' where l: "login env cfg dto None dr at p = (Inr ses, p')"
    by (cases "login env cfg dto None dr at p"; cases "fst (login env cfg dto None dr at p)")
       (auto simp: provisioned_def)
  obtain u tenant where u: "tenant = (if truthy (lg_tenantSlug dto)
       then live_tenant_by_slug p (the (lg_tenantSlug dto)) else None)"
    "live_user_by_email p (map_option tn_id tenant) (lower (lg_email dto)) = Some u"
    "bcrypt_compare env (lg_password dto) (u_passwordHash u)"
    "completeLogin env cfg u tenant (lg_clientId dto) None ''password'' dr at p = (Inr ses, p')"
    using l by (rule login_Inr)
  obtain t a w where r: "tenant = Some t" "account_of_sub s' (u_id u) = Some a" "az_id az = au_id a"
    "workspace_by_slug s' (tn_slug t) = Some w" "az_tenantId az = Some (ws_id w)" "ws_id w \<noteq> []"
    "role_in s' (au_id a) (ws_id w) = Some (if role_in s (au_id a) (ws_id w) = Some OWNER then OWNER
       else platform_role (map JStr (rolesForApp p u cid)))"
    using provisioned_session [OF assms(1,4,5), of u tenant None "''password''" p ses p' az s'] u(4) pr l
    by (auto simp: dto_def)
  have "tenant_of p u = Some t"
    using login_tenant_of [OF assms(3) u(1,2)] r(1) by simp
  moreover have "tenant_usable t at" "u_deletedAt u = None" "u_emailVerifiedAt u \<noteq> None"
    using completeLogin_Inr [OF u(4)] r(1) by auto
  moreover have "jt_tenantId (jwt_sign_in az now s') = Some (ws_id w)"
    "jt_role (jwt_sign_in az now s') = role_in s' (au_id a) (ws_id w)"
    using r(3,5-7) by (auto simp: jwt_sign_in_def role_in_def dest: membership_ofD)
  ultimately show ?thesis
    using live_user_by_emailD [OF u(2)] u(3) r
    by (intro exI [of _ u] exI [of _ t] exI [of _ a] exI [of _ w]) (auto simp: dto_def lower_lower)
qed

lemma sign_in_bound_to_its_workspace_witness:
  "\<exists>az s'. authorize_credentials sample_app_cfg (Some ''a@x'') (Some ''pw'') (Some ''acme'') sample_ids
       empty_app = (Some az, s')
     \<and> (\<exists>a w. account_of_sub s' ''u1'' = Some a \<and> jt_uid (jwt_sign_in az 20 s') = Some (au_id a)
          \<and> jt_tenantId (jwt_sign_in az 20 s') = Some (ws_id w) \<and> w \<in> set (workspaces s'))"
proof -
  obtain az s' where a: "authorize_credentials sample_app_cfg (Some ''a@x'') (Some ''pw'') (Some ''acme'')
      sample_ids empty_app = (Some az, s')"
    using sample_sign_in by (metis option.exhaust prod.collapse)
  have e: "app_ok empty_app" "fresh_ids sample_ids empty_app"
    by (code_simp, code_simp)
  have "ac_platform sample_app_cfg = Some sample_api"
    by (simp add: sample_app_cfg_def)
  from sign_in_bound_to_its_workspace [OF sample_faithful this sample_unique e a, of 20]
  obtain u t a w where r: "u \<in> set (users sample_db)" "account_of_sub s' (u_id u) = Some a"
    "workspace_by_slug s' (tn_slug (t :: tenant)) = Some w" "jt_uid (jwt_sign_in az 20 s') = Some (au_id a)"
    "jt_tenantId (jwt_sign_in az 20 s') = Some (ws_id w)"
    by blast
  have "\<forall>u \<in> set (users sample_db). u_id u = ''u1''"
    by code_simp
  then show ?thesis
    using r a workspace_by_slugD [OF r(3)]
    by (intro exI [of _ az] exI [of _ s'] conjI exI [of _ a] exI [of _ w]) auto
qed

section \<open>Observations\<close>

text \<open>
  A demotion on the platform does not reach an open session. The refresh reads the app's own
  memberships, which only a sign-in of that user changes, so as long as those stay the same a session
  keeps its role for its thirty days, although the comment at \<open>ROLE_REFRESH_MS\<close> says that the interval
  bounds the time until the app notices.
\<close>

lemma demotion_waits_for_sign_in:
  assumes "app_ok s0" and "\<forall>(now, s) \<in> set h. memberships s = memberships s0"
  shows "jt_role (token_run (jwt_sign_in az at s0) h) = jt_role (jwt_sign_in az at s0)
    \<and> jt_tenantId (token_run (jwt_sign_in az at s0) h) = jt_tenantId (jwt_sign_in az at s0)"
proof -
  have step: "jt_role (jwt_refresh t now s) = jt_role t \<and> jt_tenantId (jwt_refresh t now s) = jt_tenantId t
      \<and> (scopeless (jwt_refresh t now s) \<or> role_in s0 (nullish (jt_uid t) []) (nullish (jt_tenantId t) []) = jt_role t
          \<and> jt_role t \<noteq> None \<and> jt_tenantId t \<noteq> None)"
    if "scopeless t \<or> role_in s0 (nullish (jt_uid t) []) (nullish (jt_tenantId t) []) = jt_role t
          \<and> jt_role t \<noteq> None \<and> jt_tenantId t \<noteq> None" and "memberships s = memberships s0" for t now s
  proof -
    have "membership_of s = membership_of s0"
      using that(2) by (simp add: membership_of_def fun_eq_iff)
    moreover have "mb_tenantId m = i" if "membership_of s0 u i = Some m" for u i m
      using membership_ofD [OF that] by simp
    ultimately show ?thesis
      using that(1)
      by (cases "jt_uid t"; cases "jt_tenantId t")
         (auto simp: jwt_refresh_def scopeless_def role_in_def Let_def)
  qed
  have "jt_role (token_run t h) = jt_role t \<and> jt_tenantId (token_run t h) = jt_tenantId t"
    if "scopeless t \<or> role_in s0 (nullish (jt_uid t) []) (nullish (jt_tenantId t) []) = jt_role t
          \<and> jt_role t \<noteq> None \<and> jt_tenantId t \<noteq> None" for t
    using that assms(2)
  proof (induction t h rule: token_run.induct)
    case (2 t now s h)
    show ?case
      using 2(1) 2(3) step [OF 2(2), of s now] by auto
  qed simp
  moreover have "scopeless (jwt_sign_in az at s0) \<or> seen [(at, s0)] at (jwt_sign_in az at s0)"
    by (rule seen_sign_in [OF assms(1)])
  ultimately show ?thesis
    by (auto simp: seen_def)
qed

text \<open>
  The sudo cookie is not bound to the session: any session of any user passes the gate with any token,
  so on a shared browser the next user to sign in acts with the token of the one before.
\<close>

lemma sudo_not_bound_to_session:
  "isPlatformMode cfg \<Longrightarrow> is_ok (requireApiSession cookie now s) \<Longrightarrow> token \<noteq> [] \<Longrightarrow>
   memberProxyGate cfg cookie (Some token) now s = Inr token"
  by (auto simp: memberProxyGate_def is_ok_iff)

end
