(* ===== verification/App_Account.thy ===== *)
theory App_Account
  imports App_Session Account_Flows Policy
begin

text \<open>
  The account forms of an app made from the template: \<open>templates/next/src/app/(auth)/actions.ts\<close>
  (signup, login, recovery), \<open>lib/auth/tokens.ts\<close> (single-use tokens), the password change of
  \<open>settings/account/actions.ts\<close>, the two sudo routes, and the audit trail of \<open>lib/audit.ts\<close>.

  Where the app runs on the platform its forms hand over to it; standalone they do the work
  themselves. A form answers with its state, signs in (Auth.js redirects), or throws. The em dash of
  the messages is the code unit \<open>0x97\<close>. Of a mail the address, the subject and the link are kept.
\<close>

section \<open>State and answers\<close>

record app_mail =
  ml_to :: string
  ml_subject :: string
  ml_link :: string

text \<open>The tables, the limiter's map (one per server process) and the mail sent.\<close>

record web =
  wb_db :: app_db
  wb_hits :: hit_log
  wb_mails :: "app_mail list"

record form_state =
  fs_error :: "string option"
  fs_notice :: "string option"
  fs_resend :: "(string \<times> string) option" \<comment> \<open>\<open>canResend\<close>, with the address and the workspace\<close>

datatype outcome = Answer form_state | SignedIn jwt | Thrown http_error

definition form_error :: "string \<Rightarrow> outcome" where
  "form_error msg = Answer \<lparr>fs_error = Some msg, fs_notice = None, fs_resend = None\<rparr>"

definition form_ok :: outcome where
  "form_ok = Answer \<lparr>fs_error = None, fs_notice = None, fs_resend = None\<rparr>"

definition try_again :: "string \<Rightarrow> string" where
  "try_again what = what @ '' '' @ em_dash @ '' try again in a few minutes''"

fun error_message :: "http_error \<Rightarrow> string" where
  "error_message (BadRequest m) = m"
| "error_message (Unauthorized m) = m"
| "error_message (Forbidden m) = m"
| "error_message (NotFound m) = m"
| "error_message (Conflict m) = m"
| "error_message (TooManyRequests m) = m"
| "error_message (ServiceUnavailable m) = m"
| "error_message (PrismaError m) = m"
| "error_message (UncaughtError m) = m"

definition with_db :: "(app_db \<Rightarrow> app_db) \<Rightarrow> web \<Rightarrow> web" where
  "with_db f w = w\<lparr>wb_db := f (wb_db w)\<rparr>"

definition limited :: "string \<Rightarrow> nat \<Rightarrow> time \<Rightarrow> web \<Rightarrow> bool \<times> web" where
  "limited key mx now w =
     (case rateLimit key mx LIMIT_WINDOW now (wb_hits w) of (ok, hits) \<Rightarrow> (ok, w\<lparr>wb_hits := hits\<rparr>))"

definition app_audit_event ::
  "string \<Rightarrow> string option \<Rightarrow> string option \<Rightarrow> json option \<Rightarrow> app_db \<Rightarrow> app_db" where
  "app_audit_event action tid uid detail s =
     s\<lparr>app_audits := app_audits s @ [\<lparr>aa_action = action, aa_tenantId = tid, aa_userId = uid,
        aa_detail = stored_detail detail\<rparr>]\<rparr>"

section \<open>Single-use tokens\<close>

datatype token_purpose = ResetToken | InviteToken

definition token_identifier :: "token_purpose \<Rightarrow> string \<Rightarrow> string" where
  "token_identifier purpose email =
     (case purpose of ResetToken \<Rightarrow> ''reset'' | InviteToken \<Rightarrow> ''invite'') @ '':'' @ email"

definition RESET_TTL_MS :: int where "RESET_TTL_MS = 60 * 60 * 1000"

text \<open>Both statements run in one transaction; the hash of a token is unique.\<close>

definition createToken ::
  "app_cfg \<Rightarrow> token_purpose \<Rightarrow> string \<Rightarrow> int \<Rightarrow> string \<Rightarrow> time \<Rightarrow> app_db \<Rightarrow> unit res \<times> app_db" where
  "createToken cfg purpose email ttlMs raw now s =
     (let i = token_identifier purpose email;
          rows = del_where (\<lambda>t. vt_identifier t = i) (verification_tokens s)
      in if ac_sha256 cfg raw \<in> vt_token ` set rows then (Inl (PrismaError ''P2002''), s)
         else (Inr (), s\<lparr>verification_tokens := rows @
           [\<lparr>vt_identifier = i, vt_token = ac_sha256 cfg raw, vt_expires = now + ttlMs\<rparr>]\<rparr>))"

definition consumeToken ::
  "app_cfg \<Rightarrow> token_purpose \<Rightarrow> string \<Rightarrow> string \<Rightarrow> time \<Rightarrow> app_db \<Rightarrow> bool \<times> app_db" where
  "consumeToken cfg purpose email raw now s =
     (let P = (\<lambda>t. vt_identifier t = token_identifier purpose email \<and> vt_token t = ac_sha256 cfg raw)
      in case find P (verification_tokens s) of
           None \<Rightarrow> (False, s)
         | Some row \<Rightarrow> (now < vt_expires row,
             s\<lparr>verification_tokens := del_where P (verification_tokens s)\<rparr>))"

section \<open>Reading the forms\<close>

text \<open>A field as \<open>FormData.get\<close> gives it, \<open>None\<close> where it is absent. A message is the first issue.\<close>

definition read_company :: "app_cfg \<Rightarrow> string option \<Rightarrow> string + string" where
  "read_company cfg raw = (case raw of None \<Rightarrow> Inl (ac_zodMessage cfg ''company'')
     | Some x \<Rightarrow> (let t = trim x in
         if length t < 2 then Inl ''Company name must be at least 2 characters''
         else if 80 < length t then Inl (ac_zodMessage cfg ''company'') else Inr t))"

definition read_email :: "app_cfg \<Rightarrow> string \<Rightarrow> string option \<Rightarrow> string + string" where
  "read_email cfg msg raw = (case raw of None \<Rightarrow> Inl (ac_zodMessage cfg ''email'')
     | Some x \<Rightarrow> (let e = lower (trim x) in if ac_validEmail cfg e then Inr e else Inl msg))"

definition read_new_password :: "app_cfg \<Rightarrow> string option \<Rightarrow> string + string" where
  "read_new_password cfg raw = (case raw of None \<Rightarrow> Inl (ac_zodMessage cfg ''password'')
     | Some p \<Rightarrow> (case template_validatePassword p of Some err \<Rightarrow> Inl err | None \<Rightarrow> Inr p))"

definition read_required :: "app_cfg \<Rightarrow> string \<Rightarrow> nat \<Rightarrow> string \<Rightarrow> string option \<Rightarrow> string + string" where
  "read_required cfg fld minLen msg raw = (case raw of None \<Rightarrow> Inl (ac_zodMessage cfg fld)
     | Some x \<Rightarrow> if length x < minLen then Inl msg else Inr x)"

definition then_read :: "'e + 'a \<Rightarrow> ('a \<Rightarrow> 'e + 'b) \<Rightarrow> 'e + 'b" where
  "then_read x f = (case x of Inl e \<Rightarrow> Inl e | Inr v \<Rightarrow> f v)"

lemma then_read_simps [simp]: "then_read (Inl e) f = Inl e" "then_read (Inr v) f = f v"
  by (simp_all add: then_read_def)

lemma then_read_Inr: "then_read x f = Inr y \<longleftrightarrow> (\<exists>v. x = Inr v \<and> f v = Inr y)"
  by (cases x) auto

record signup_form =
  sf_company :: "string option"
  sf_email :: "string option"
  sf_password :: "string option"

definition read_signup :: "app_cfg \<Rightarrow> signup_form \<Rightarrow> string + (string \<times> string \<times> string)" where
  "read_signup cfg f = then_read (read_company cfg (sf_company f)) (\<lambda>c.
     then_read (read_email cfg ''Enter a valid email address'' (sf_email f)) (\<lambda>e.
     then_read (read_new_password cfg (sf_password f)) (\<lambda>p. Inr (c, e, p))))"

record login_form =
  lf_email :: "string option"
  lf_password :: "string option"
  lf_workspace :: "string option"

definition read_login :: "app_cfg \<Rightarrow> login_form \<Rightarrow> string + (string \<times> string \<times> string option)" where
  "read_login cfg f = then_read (read_email cfg ''Enter a valid email address'' (lf_email f)) (\<lambda>e.
     then_read (read_required cfg ''password'' 1 ''Password is required'' (lf_password f)) (\<lambda>p.
       Inr (e, p, map_option (\<lambda>x. lower (trim x)) (lf_workspace f))))"

record reset_form =
  rf_email :: "string option"
  rf_token :: "string option"
  rf_password :: "string option"
  rf_confirm :: "string option"

definition read_reset :: "app_cfg \<Rightarrow> reset_form \<Rightarrow> string + (string \<times> string \<times> string)" where
  "read_reset cfg f = then_read (read_email cfg (ac_zodMessage cfg ''email'') (rf_email f)) (\<lambda>e.
     then_read (read_required cfg ''token'' 10 (ac_zodMessage cfg ''token'') (rf_token f)) (\<lambda>t.
     then_read (read_new_password cfg (rf_password f)) (\<lambda>p.
     then_read (read_required cfg ''confirm'' 0 [] (rf_confirm f)) (\<lambda>c.
       if p = c then Inr (e, t, p) else Inl ''Passwords don't match''))))"

section \<open>Signing in and up\<close>

text \<open>\<open>signIn('credentials', ...)\<close>: \<open>None\<close> where it throws an \<open>AuthError\<close>.\<close>

definition web_signIn ::
  "app_cfg \<Rightarrow> string \<Rightarrow> string \<Rightarrow> string option \<Rightarrow> row_ids \<Rightarrow> time \<Rightarrow> web \<Rightarrow> jwt option \<times> web" where
  "web_signIn cfg email pw ws ids now w =
     (case authorize_credentials cfg (Some email) (Some pw) ws ids (wb_db w) of
        (None, s) \<Rightarrow> (None, w\<lparr>wb_db := s\<rparr>)
      | (Some az, s) \<Rightarrow> (Some (jwt_sign_in az now s), w\<lparr>wb_db := s\<rparr>))"

definition template_slug :: "string \<Rightarrow> string \<Rightarrow> string" where
  "template_slug name suf = (if slugify name = [] then ''company'' else slugify name) @ ''-'' @ suf"

text \<open>The transaction of a standalone signup: account, workspace and OWNER membership, or nothing.\<close>

definition found_workspace ::
  "app_cfg \<Rightarrow> string \<Rightarrow> string \<Rightarrow> string \<Rightarrow> row_ids \<Rightarrow> string \<Rightarrow> app_db \<Rightarrow> unit res \<times> app_db" where
  "found_workspace cfg company email pw ids suf s =
     (case ids of (wid, uid, now) \<Rightarrow>
        (let slug = template_slug company suf
         in if standalone_account s email \<noteq> None \<or> slug \<in> ws_slug ` set (workspaces s)
               \<or> wid \<in> ws_id ` set (workspaces s) \<or> uid \<in> au_id ` set (app_users s)
            then (Inl (PrismaError ''P2002''), s)
            else (Inr (), s\<lparr>
              app_users := app_users s @ [\<lparr>au_id = uid, au_platformUserId = None, au_email = email,
                au_name = Some (takeWhile (\<lambda>c. c \<noteq> CHR ''@'') email),
                au_passwordHash = Some (ac_hashPassword cfg pw)\<rparr>],
              workspaces := workspaces s @ [\<lparr>ws_id = wid, ws_name = company, ws_slug = slug\<rparr>],
              memberships := memberships s @ [\<lparr>mb_userId = uid, mb_tenantId = wid, mb_role = OWNER,
                mb_createdAt = now\<rparr>]\<rparr>)))"

definition web_signup ::
  "app_cfg \<Rightarrow> signup_form \<Rightarrow> row_ids \<Rightarrow> string \<Rightarrow> time \<Rightarrow> web \<Rightarrow> outcome \<times> web" where
  "web_signup cfg f ids suf now w =
     (case read_signup cfg f of
        Inl msg \<Rightarrow> (form_error msg, w)
      | Inr (company, email, password) \<Rightarrow>
        (case limited (''signup:'' @ email) 5 now w of
           (False, w1) \<Rightarrow> (form_error (try_again ''Too many attempts''), w1)
         | (True, w1) \<Rightarrow>
           (case ac_platform cfg of
              Some api \<Rightarrow>
                (case pa_signup api company email password of
                   Inl e \<Rightarrow> (form_error (error_message e), w1)
                 | Inr slug \<Rightarrow> (Answer \<lparr>fs_error = None, fs_notice = Some (''Workspace \"'' @ slug
                     @ ''\" created. Check your inbox for the verification link, then sign in.''),
                     fs_resend = Some (email, slug)\<rparr>, w1))
            | None \<Rightarrow>
                if standalone_account (wb_db w1) email \<noteq> None
                then (form_error ''An account with this email already exists'', w1)
                else (case found_workspace cfg company email password ids suf (wb_db w1) of
                   (Inl e, _) \<Rightarrow> (Thrown e, w1)
                 | (Inr _, s) \<Rightarrow>
                   (let w2 = w1\<lparr>wb_db := app_audit_event ''auth.signup'' (Some (fst ids)) None
                               (Some (JObj [(''email'', JStr email)])) s\<rparr>
                    in case web_signIn cfg email password None ids now w2 of
                         (Some t, w3) \<Rightarrow> (SignedIn t, w3)
                       | (None, w3) \<Rightarrow> (Thrown (UncaughtError ''CredentialsSignin''), w3))))))"

text \<open>After a failed sign-in on the platform, one more login tells whether the address is unverified.\<close>

definition web_login ::
  "app_cfg \<Rightarrow> login_form \<Rightarrow> row_ids \<Rightarrow> time \<Rightarrow> web \<Rightarrow> outcome \<times> web" where
  "web_login cfg f ids now w =
     (case read_login cfg f of
        Inl msg \<Rightarrow> (form_error msg, w)
      | Inr (email, password, workspace) \<Rightarrow>
        (case limited (''login:'' @ email) 10 now w of
           (False, w1) \<Rightarrow> (form_error (try_again ''Too many attempts''), w1)
         | (True, w1) \<Rightarrow>
           (case web_signIn cfg email password (Some (nullish workspace [])) ids now w1 of
              (Some t, w2) \<Rightarrow> (SignedIn t, w2)
            | (None, w2) \<Rightarrow>
              (case ac_platform cfg of
                 None \<Rightarrow> (form_error ''Invalid email or password'', w2)
               | Some api \<Rightarrow>
                 (let ws = (if truthy workspace then workspace else ac_defaultWorkspace cfg)
                  in case pa_login api ws email password of
                       Inl e \<Rightarrow>
                         if error_message e = ''Email not verified''
                         then (Answer \<lparr>fs_error = Some (''Email not verified '' @ em_dash
                                 @ '' click the link we sent you, then try again.''),
                                 fs_notice = None, fs_resend = Some (email, nullish ws [])\<rparr>, w2)
                         else (form_error ''Invalid email or password'', w2)
                     | Inr _ \<Rightarrow> (form_error ''Invalid email or password'', w2))))))"

section \<open>Recovery\<close>

text \<open>\<open>process.env.AUTH_URL?.replace(/\/$/, '') ?? ...\<close>.\<close>

definition appBaseUrl :: "app_cfg \<Rightarrow> string" where
  "appBaseUrl cfg = (case ac_authUrl cfg of None \<Rightarrow> ''http://localhost:4180''
     | Some u \<Rightarrow> if u \<noteq> [] \<and> last u = CHR ''/'' then butlast u else u)"

text \<open>\<open>String(formData.get(...) ?? '').trim().toLowerCase()\<close>.\<close>

definition plain_field :: "string option \<Rightarrow> string" where
  "plain_field raw = lower (trim (nullish raw []))"

text \<open>The standalone relay: a missing one is logged, one that refuses throws.\<close>

definition app_sendMail :: "app_cfg \<Rightarrow> app_mail \<Rightarrow> web \<Rightarrow> unit res \<times> web" where
  "app_sendMail cfg m w = (case ac_relayAccepts cfg (ml_to m) of
     None \<Rightarrow> (Inr (), w)
   | Some True \<Rightarrow> (Inr (), w\<lparr>wb_mails := wb_mails w @ [m]\<rparr>)
   | Some False \<Rightarrow> (Inl (UncaughtError ''sendMail''), w))"

definition web_requestPasswordReset ::
  "app_cfg \<Rightarrow> string option \<Rightarrow> string option \<Rightarrow> string \<Rightarrow> time \<Rightarrow> web \<Rightarrow> outcome \<times> web" where
  "web_requestPasswordReset cfg rawEmail rawWorkspace raw now w =
     (let email = plain_field rawEmail
      in if \<not> ac_validEmail cfg email then (form_error ''Enter a valid email address'', w)
         else case limited (''pwreset:'' @ email) 3 now w of
           (False, w1) \<Rightarrow> (form_error (try_again ''Too many reset requests''), w1)
         | (True, w1) \<Rightarrow>
           (case ac_platform cfg of
              Some api \<Rightarrow>
                (let workspace = (if plain_field rawWorkspace \<noteq> [] then Some (plain_field rawWorkspace)
                                  else ac_defaultWorkspace cfg)
                 in case pa_forgotPassword api workspace email of
                      Inl _ \<Rightarrow> (form_error (try_again ''Couldn't reach the sign-in service''), w1)
                    | Inr _ \<Rightarrow> (form_ok, w1))
            | None \<Rightarrow>
                (case standalone_account (wb_db w1) email of
                   None \<Rightarrow> (form_ok, w1)
                 | Some u \<Rightarrow>
                   (case createToken cfg ResetToken email RESET_TTL_MS raw now (wb_db w1) of
                      (Inl e, _) \<Rightarrow> (Thrown e, w1)
                    | (Inr _, s) \<Rightarrow>
                      (case app_sendMail cfg \<lparr>ml_to = email, ml_subject = ''Reset your Evo App password'',
                           ml_link = appBaseUrl cfg @ ''/reset-password#email='' @ ac_uriEncode cfg email
                             @ ''&token='' @ raw\<rparr> (w1\<lparr>wb_db := s\<rparr>) of
                         (Inl e, w2) \<Rightarrow> (Thrown e, w2)
                       | (Inr _, w2) \<Rightarrow> (form_ok, w2))))))"

definition web_resetPassword ::
  "app_cfg \<Rightarrow> reset_form \<Rightarrow> row_ids \<Rightarrow> time \<Rightarrow> web \<Rightarrow> outcome \<times> web" where
  "web_resetPassword cfg f ids now w =
     (case read_reset cfg f of
        Inl msg \<Rightarrow> (form_error msg, w)
      | Inr (email, token, password) \<Rightarrow>
        if isPlatformMode cfg
        then (form_error (''This link is no longer valid '' @ em_dash @ '' request a new reset link''), w)
        else case consumeToken cfg ResetToken email token now (wb_db w) of
          (False, s) \<Rightarrow> (form_error (''This link is invalid or has expired '' @ em_dash
                            @ '' request a new one''), w\<lparr>wb_db := s\<rparr>)
        | (True, s) \<Rightarrow>
          (let P = (\<lambda>u. au_email u = email \<and> au_platformUserId u = None)
           in if count_where P (app_users s) = 0
              then (form_error ''Account not found'', w\<lparr>wb_db := s\<rparr>)
              else let s1 = s\<lparr>app_users := upd_where P
                         (\<lambda>u. u\<lparr>au_passwordHash := Some (ac_hashPassword cfg password)\<rparr>) (app_users s)\<rparr>;
                       s2 = app_audit_event ''auth.password_reset'' None None
                         (Some (JObj [(''email'', JStr email)])) s1
                   in case web_signIn cfg email password None ids now (w\<lparr>wb_db := s2\<rparr>) of
                        (Some t, w3) \<Rightarrow> (SignedIn t, w3)
                      | (None, w3) \<Rightarrow> (form_error (''Your password was updated, but automatic sign-in failed ''
                            @ em_dash @ '' sign in with your new password.''), w3)))"

definition web_requestWorkspaceList ::
  "app_cfg \<Rightarrow> string option \<Rightarrow> time \<Rightarrow> web \<Rightarrow> outcome \<times> web" where
  "web_requestWorkspaceList cfg rawEmail now w =
     (let email = plain_field rawEmail
      in if \<not> ac_validEmail cfg email then (form_error ''Enter a valid email address'', w)
         else case limited (''workspaces:'' @ email) 3 now w of
           (False, w1) \<Rightarrow> (form_error (try_again ''Too many requests''), w1)
         | (True, w1) \<Rightarrow>
           (case ac_platform cfg of
              None \<Rightarrow> (form_error (''This deployment has a single workspace '' @ em_dash
                        @ '' leave it blank when signing in''), w1)
            | Some api \<Rightarrow>
              (case pa_forgotWorkspace api email of
                 Inl _ \<Rightarrow> (form_error (try_again ''Couldn't reach the sign-in service''), w1)
               | Inr _ \<Rightarrow> (form_ok, w1))))"

text \<open>Always \<open>{ ok: true }\<close>; the second part is whether the platform was asked.\<close>

definition web_resendVerification ::
  "app_cfg \<Rightarrow> string \<Rightarrow> string option \<Rightarrow> time \<Rightarrow> web \<Rightarrow> bool \<times> web" where
  "web_resendVerification cfg email workspace now w =
     (if \<not> isPlatformMode cfg \<or> email = [] then (False, w)
      else limited (''resend:'' @ email) 3 now w)"

section \<open>Changing the password, and sudo\<close>

record change_form =
  cf_current :: "string option"
  cf_next :: "string option"
  cf_confirm :: "string option"

definition read_change :: "app_cfg \<Rightarrow> change_form \<Rightarrow> string + (string \<times> string)" where
  "read_change cfg f =
     then_read (read_required cfg ''current'' 1 ''Current password is required'' (cf_current f)) (\<lambda>c.
     then_read (read_new_password cfg (cf_next f)) (\<lambda>n.
     then_read (read_required cfg ''confirm'' 0 [] (cf_confirm f)) (\<lambda>d.
       if n = d then Inr (c, n) else Inl ''Passwords don't match'')))"

definition web_changePassword ::
  "app_cfg \<Rightarrow> jwt option \<Rightarrow> change_form \<Rightarrow> time \<Rightarrow> web \<Rightarrow> outcome \<times> web" where
  "web_changePassword cfg cookie f now w =
     (if isPlatformMode cfg then (form_error ''Your password is managed by the platform'', w)
      else case requireApiSession cookie now (wb_db w) of
        Inl e \<Rightarrow> (Thrown e, w)
      | Inr cx \<Rightarrow>
        (case read_change cfg f of
           Inl msg \<Rightarrow> (form_error msg, w)
         | Inr (current, new) \<Rightarrow>
           (case find (\<lambda>u. au_id u = sx_userId cx) (app_users (wb_db w)) of
              None \<Rightarrow> (form_error ''Current password is incorrect'', w)
            | Some u \<Rightarrow>
                if \<not> truthy (au_passwordHash u)
                   \<or> \<not> ac_verifyPassword cfg current (the (au_passwordHash u))
                then (form_error ''Current password is incorrect'', w)
                else (Answer \<lparr>fs_error = None, fs_notice = Some ''Password updated'', fs_resend = None\<rparr>,
                  with_db (\<lambda>s. app_audit_event ''auth.password_changed'' (Some (sx_tenantId cx)) (Some (au_id u)) None
                    (s\<lparr>app_users := upd_where (\<lambda>v. au_id v = au_id u)
                       (\<lambda>v. v\<lparr>au_passwordHash := Some (ac_hashPassword cfg new)\<rparr>) (app_users s)\<rparr>)) w))))"

text \<open>
  The sudo routes of member and passkey management differ in the limiter's key (\<open>member-sudo:\<close>,
  \<open>pk-sudo:\<close>) and the cookie's name and path. The result is the access token the cookie carries.
\<close>

datatype sudo_kind = MemberSudo | PasskeySudo

definition sudo_key :: "sudo_kind \<Rightarrow> string" where
  "sudo_key kind = (case kind of MemberSudo \<Rightarrow> ''member-sudo:'' | PasskeySudo \<Rightarrow> ''pk-sudo:'')"

definition web_sudo ::
  "sudo_kind \<Rightarrow> app_cfg \<Rightarrow> jwt option \<Rightarrow> string option \<Rightarrow> time \<Rightarrow> web \<Rightarrow> string res \<times> web" where
  "web_sudo kind cfg cookie password now w =
     (case ac_platform cfg of
        None \<Rightarrow> (Inl (NotFound ''Not available''), w)
      | Some api \<Rightarrow>
        (case requireApiSession cookie now (wb_db w) of
           Inl e \<Rightarrow> (Inl e, w)
         | Inr cx \<Rightarrow>
           if \<not> truthy password then (Inl (BadRequest ''Password required''), w)
           else case limited (sudo_key kind @ sx_email cx) 5 now w of
             (False, w1) \<Rightarrow> (Inl (TooManyRequests ''Too many attempts''), w1)
           | (True, w1) \<Rightarrow>
             (case find (\<lambda>v. ws_id v = sx_tenantId cx) (workspaces (wb_db w1)) of
                None \<Rightarrow> (Inl (BadRequest ''Workspace not found''), w1)
              | Some ws \<Rightarrow>
                (case pa_login api (Some (ws_slug ws)) (sx_email cx) (the password) of
                   Inl _ \<Rightarrow> (Inl (Unauthorized ''Invalid password''), w1)
                 | Inr ses \<Rightarrow> (Inr (ss_accessToken ses), w1)))))"

section \<open>Requests\<close>

datatype web_request =
    SignupForm signup_form row_ids string
  | LoginForm login_form row_ids
  | ForgotForm "string option" "string option" string \<comment> \<open>address, workspace, the token drawn\<close>
  | ResetForm reset_form row_ids
  | WorkspaceForm "string option"
  | ResendForm string "string option"
  | ChangeForm "jwt option" change_form
  | SudoForm sudo_kind "jwt option" "string option"

definition web_step :: "app_cfg \<Rightarrow> web_request \<Rightarrow> time \<Rightarrow> web \<Rightarrow> web" where
  "web_step cfg r now w =
     (case r of
        SignupForm f ids suf \<Rightarrow> snd (web_signup cfg f ids suf now w)
      | LoginForm f ids \<Rightarrow> snd (web_login cfg f ids now w)
      | ForgotForm e ws raw \<Rightarrow> snd (web_requestPasswordReset cfg e ws raw now w)
      | ResetForm f ids \<Rightarrow> snd (web_resetPassword cfg f ids now w)
      | WorkspaceForm e \<Rightarrow> snd (web_requestWorkspaceList cfg e now w)
      | ResendForm e ws \<Rightarrow> snd (web_resendVerification cfg e ws now w)
      | ChangeForm cookie f \<Rightarrow> snd (web_changePassword cfg cookie f now w)
      | SudoForm kind cookie pw \<Rightarrow> snd (web_sudo kind cfg cookie pw now w))"

text \<open>The ids a request draws are new.\<close>

definition fresh_request :: "web_request \<Rightarrow> web \<Rightarrow> bool" where
  "fresh_request r w = (case r of
       SignupForm f ids suf \<Rightarrow> fresh_ids ids (wb_db w)
     | LoginForm f ids \<Rightarrow> fresh_ids ids (wb_db w)
     | ResetForm f ids \<Rightarrow> fresh_ids ids (wb_db w)
     | _ \<Rightarrow> True)"

inductive web_reach :: "app_cfg \<Rightarrow> web \<Rightarrow> web \<Rightarrow> bool" for cfg where
  refl: "web_reach cfg w w"
| step: "web_reach cfg w v \<Longrightarrow> fresh_request r v \<Longrightarrow> web_reach cfg w (web_step cfg r now v)"

text \<open>The schema's constraints, with at most one token per purpose and address, and the map's keys.\<close>

definition tokens_ok :: "app_db \<Rightarrow> bool" where
  "tokens_ok s \<longleftrightarrow> unique_on vt_identifier (verification_tokens s) \<and> unique_on vt_token (verification_tokens s)"

definition web_ok :: "web \<Rightarrow> bool" where
  "web_ok w \<longleftrightarrow> app_ok (wb_db w) \<and> tokens_ok (wb_db w) \<and> distinct (map fst (wb_hits w))"

section \<open>Facts\<close>

lemma limited_fields [simp]:
  "wb_db (snd (limited key mx now w)) = wb_db w" "wb_mails (snd (limited key mx now w)) = wb_mails w"
  by (simp_all add: limited_def split: prod.split)

lemma limited_db: "limited key mx now w = (b, w1) \<Longrightarrow> wb_db w1 = wb_db w \<and> wb_mails w1 = wb_mails w"
  by (auto simp: limited_def split: prod.splits)

lemma limited_ok: "web_ok w \<Longrightarrow> limited key mx now w = (b, w1) \<Longrightarrow> web_ok w1"
  using rateLimit_distinct [of "wb_hits w" key mx LIMIT_WINDOW now]
  by (auto simp: limited_def web_ok_def split: prod.splits)

lemma app_audit_event_fields [simp]:
  "workspaces (app_audit_event a t u d s) = workspaces s"
  "app_users (app_audit_event a t u d s) = app_users s"
  "memberships (app_audit_event a t u d s) = memberships s"
  "verification_tokens (app_audit_event a t u d s) = verification_tokens s"
  by (simp_all add: app_audit_event_def)

lemma app_ok_cong:
  "workspaces s' = workspaces s \<Longrightarrow> app_users s' = app_users s \<Longrightarrow> memberships s' = memberships s \<Longrightarrow>
   app_ok s' = app_ok s"
  by (simp add: app_ok_def)

lemma app_ok_audit [simp]: "app_ok (app_audit_event a t u d s) = app_ok s"
  by (rule app_ok_cong) simp_all

lemma tokens_ok_audit [simp]: "tokens_ok (app_audit_event a t u d s) = tokens_ok s"
  by (simp add: tokens_ok_def)

text \<open>A new hash changes no key of the accounts.\<close>

lemma app_ok_set_hash:
  "app_ok (s\<lparr>app_users := upd_where P (\<lambda>u. u\<lparr>au_passwordHash := h\<rparr>) (app_users s)\<rparr>) = app_ok s"
  by (simp add: app_ok_def unique_on_upd_where image_upd_where_same filter_upd_where_keep)

lemma createToken_ok:
  assumes "app_ok s \<and> tokens_ok s" and "createToken cfg purpose email ttl raw now s = (r, s')"
  shows "app_ok s' \<and> tokens_ok s'"
proof -
  have "app_ok s' = app_ok s"
    using assms(2) by (intro app_ok_cong) (auto simp: createToken_def Let_def split: if_splits)
  moreover have "tokens_ok s'"
    using assms
    by (auto simp: createToken_def Let_def tokens_ok_def unique_on_append_one unique_on_del_where split: if_splits)
  ultimately show ?thesis
    using assms(1) by simp
qed

lemma consumeToken_ok:
  assumes "app_ok s \<and> tokens_ok s" and "consumeToken cfg purpose email raw now s = (b, s')"
  shows "app_ok s' \<and> tokens_ok s'"
proof -
  have "app_ok s' = app_ok s"
    using assms(2) by (intro app_ok_cong) (auto simp: consumeToken_def Let_def split: option.splits)
  moreover have "tokens_ok s'"
    using assms by (auto simp: consumeToken_def Let_def tokens_ok_def unique_on_del_where split: option.splits)
  ultimately show ?thesis
    using assms(1) by simp
qed

lemma tokens_ok_cong: "verification_tokens s' = verification_tokens s \<Longrightarrow> tokens_ok s' = tokens_ok s"
  by (simp add: tokens_ok_def)

lemma provision_tokens [simp]:
  "verification_tokens (snd (provisionFromPlatform c result ids s)) = verification_tokens s"
proof -
  have "verification_tokens s1 = verification_tokens s" if "upsert_workspace a b d s = (w, s1)" for a b d w s1
    using upsert_workspace_fields(3) [of a b d s] that by simp
  moreover have "verification_tokens s2 = verification_tokens s1" if "upsert_account a b d e s1 = (u, s2)"
    for a b d e u s1 s2
    using upsert_account_fields(3) [of a b d e s1] that by simp
  ultimately show ?thesis
    by (auto simp: provisionFromPlatform_def split: prod.splits option.splits json.splits)
qed

lemma provisioned_keeps:
  assumes "app_ok s" and "fresh_ids ids s"
  shows "app_ok (snd (provisioned api answer ids s))
    \<and> verification_tokens (snd (provisioned api answer ids s)) = verification_tokens s"
proof -
  obtain wid uid now where ids: "ids = (wid, uid, now)"
    by (cases ids)
  have "app_ok (snd (provisionFromPlatform c result ids s))" for c result
    using provision_ok assms ids by simp
  moreover have "snd (provisioned api answer ids s) = s
      \<or> (\<exists>c result. snd (provisioned api answer ids s) = snd (provisionFromPlatform c result ids s))"
  proof (cases answer)
    case (Inr result)
    show ?thesis
    proof (cases "pa_verify api (ss_accessToken result)")
      case (Inr c)
      have "snd (provisioned api answer ids s) = snd (provisionFromPlatform c result ids s)"
        using Inr \<open>answer = Inr result\<close>
        by (simp add: provisioned_def split: prod.split sum.split option.split)
      then show ?thesis
        by blast
    qed (use Inr in \<open>simp add: provisioned_def\<close>)
  qed (simp add: provisioned_def)
  ultimately show ?thesis
    using assms(1) by (elim disjE exE) simp_all
qed

lemma authorize_keeps:
  assumes "app_ok s" and "isPlatformMode cfg \<Longrightarrow> fresh_ids ids s"
    and "authorize_credentials cfg e pw ws ids s = (r, s')"
  shows "app_ok s' \<and> verification_tokens s' = verification_tokens s"
proof (cases "ac_platform cfg")
  case None
  then have "s' = s"
    using assms(3) by (auto simp: authorize_credentials_def Let_def split: if_splits option.splits)
  then show ?thesis
    using assms(1) by simp
next
  case (Some api)
  then have "s' = s \<or> (\<exists>answer. s' = snd (provisioned api answer ids s))"
    using assms(3) unfolding authorize_credentials_def
    by (auto simp: Let_def split: if_splits dest!: sndI)
  then show ?thesis
    using provisioned_keeps [OF assms(1), of ids api] assms(1,2) Some by (auto simp: isPlatformMode_def)
qed

lemma signIn_ok:
  assumes "web_ok w" and "isPlatformMode cfg \<Longrightarrow> fresh_ids ids (wb_db w)"
    and "web_signIn cfg email pw ws ids now w = (r, w')"
  shows "web_ok w'"
proof -
  obtain a s where a: "authorize_credentials cfg (Some email) (Some pw) ws ids (wb_db w) = (a, s)"
    by fastforce
  have s: "app_ok s \<and> verification_tokens s = verification_tokens (wb_db w)"
    by (rule authorize_keeps [OF _ assms(2) a]) (use assms(1) in \<open>auto simp: web_ok_def\<close>)
  then have "tokens_ok s"
    using assms(1) tokens_ok_cong [of s "wb_db w"] by (simp add: web_ok_def)
  moreover have "w' = w\<lparr>wb_db := s\<rparr>"
    using assms(3) a by (cases a) (auto simp: web_signIn_def)
  ultimately show ?thesis
    using assms(1) s by (simp add: web_ok_def)
qed

lemma found_workspace_ok:
  assumes "app_ok s" and "fresh_ids ids s" and "found_workspace cfg company email pw ids suf s = (Inr x, s')"
  shows "app_ok s' \<and> verification_tokens s' = verification_tokens s"
proof -
  obtain wid uid now where ids: "ids = (wid, uid, now)"
    by (cases ids)
  have m: "\<forall>m \<in> set (memberships s). mb_userId m \<noteq> uid"
    using assms(1,2) ids by (auto simp: app_ok_def fresh_ids_def)
  have e: "email \<notin> au_email ` {u \<in> set (app_users s). au_platformUserId u = None}"
    using assms(3) ids by (auto simp: found_workspace_def Let_def standalone_account_def find_None_iff split: if_splits)
  show ?thesis
    using assms m e ids
    by (auto simp: found_workspace_def Let_def app_ok_def fresh_ids_def unique_on_append_one split: if_splits)
qed

lemma web_ok_db:
  "web_ok w \<Longrightarrow> app_ok s \<Longrightarrow> tokens_ok s \<Longrightarrow> web_ok (w\<lparr>wb_db := s\<rparr>)"
  by (simp add: web_ok_def)

lemma web_signup_ok:
  assumes "web_ok w" and "fresh_ids ids (wb_db w)"
  shows "web_ok (snd (web_signup cfg f ids suf now w))"
proof (cases "read_signup cfg f")
  case (Inr v)
  obtain company email password where v: "v = (company, email, password)"
    by (cases v)
  obtain b w1 where l: "limited (''signup:'' @ email) 5 now w = (b, w1)"
    by fastforce
  have w1: "web_ok w1" "wb_db w1 = wb_db w"
    using limited_ok [OF assms(1) l] limited_db [OF l] by simp_all
  show ?thesis
  proof (cases "b \<and> ac_platform cfg = None \<and> standalone_account (wb_db w) email = None")
    case True
    obtain r s where fw: "found_workspace cfg company email password ids suf (wb_db w1) = (r, s)"
      by fastforce
    show ?thesis
    proof (cases r)
      case (Inr x)
      have s: "app_ok s" "tokens_ok s"
        using found_workspace_ok [of "wb_db w1" ids cfg company email password suf x s] fw Inr assms w1 
          tokens_ok_cong [of s "wb_db w1"] by (auto simp: web_ok_def)
      define w2 where "w2 = w1\<lparr>wb_db := app_audit_event ''auth.signup'' (Some (fst ids)) None
                               (Some (JObj [(''email'', JStr email)])) s\<rparr>"
      obtain t w3 where si: "web_signIn cfg email password None ids now w2 = (t, w3)"
        by fastforce
      have "web_ok w3"
        by (rule signIn_ok [OF _ _ si]) (use True w1 s in \<open>simp_all add: w2_def web_ok_db isPlatformMode_def\<close>)
      then show ?thesis
        using \<open>read_signup cfg f = Inr v\<close> v l True w1 fw Inr si
        by (simp add: web_signup_def w2_def split: option.splits)
    qed (use \<open>read_signup cfg f = Inr v\<close> v l True w1 fw in \<open>simp add: web_signup_def\<close>)
  next
    case False
    then have "snd (web_signup cfg f ids suf now w) = w1"
      using Inr v l w1 by (cases b) (auto simp: web_signup_def split: option.split sum.split)
    then show ?thesis
      using w1 by simp
  qed
qed (use assms in \<open>simp add: web_signup_def\<close>)

lemma web_login_state:
  assumes "read_login cfg f = Inr (email, pw, ws)" and "limited (''login:'' @ email) 10 now w = (b, w1)"
  shows "snd (web_login cfg f ids now w)
    = (if b then snd (web_signIn cfg email pw (Some (nullish ws [])) ids now w1) else w1)"
  using assms by (auto simp: web_login_def Let_def split: prod.split option.split sum.split)

lemma web_login_ok:
  assumes "web_ok w" and "fresh_ids ids (wb_db w)"
  shows "web_ok (snd (web_login cfg f ids now w))"
proof (cases "read_login cfg f")
  case (Inr v)
  obtain email pw ws where v: "v = (email, pw, ws)"
    by (cases v)
  obtain b w1 where l: "limited (''login:'' @ email) 10 now w = (b, w1)"
    by fastforce
  have w1: "web_ok w1" "wb_db w1 = wb_db w"
    using limited_ok [OF assms(1) l] limited_db [OF l] by simp_all
  obtain t w2 where si: "web_signIn cfg email pw (Some (nullish ws [])) ids now w1 = (t, w2)"
    by fastforce
  have "web_ok w2"
    by (rule signIn_ok [OF w1(1) _ si]) (use assms(2) w1(2) in simp)
  then show ?thesis
    using web_login_state [of cfg f email pw ws now w b w1 ids] Inr v l w1 si by simp
qed (use assms in \<open>simp add: web_login_def\<close>)

lemma app_sendMail_db: "wb_db (snd (app_sendMail cfg m w)) = wb_db w" "wb_hits (snd (app_sendMail cfg m w)) = wb_hits w"
  by (simp_all add: app_sendMail_def split: option.split bool.split)

lemma web_forgot_ok:
  assumes "web_ok w"
  shows "web_ok (snd (web_requestPasswordReset cfg e ws raw now w))"
proof -
  obtain b w1 where l: "limited (''pwreset:'' @ plain_field e) 3 now w = (b, w1)"
    by fastforce
  have w1: "web_ok w1"
    by (rule limited_ok [OF assms l])
  obtain r s where c: "createToken cfg ResetToken (plain_field e) RESET_TTL_MS raw now (wb_db w1) = (r, s)"
    by fastforce
  have "web_ok (w1\<lparr>wb_db := s\<rparr>)"
    using createToken_ok [OF _ c] w1 by (auto simp: web_ok_def)
  then have "web_ok (snd (app_sendMail cfg m (w1\<lparr>wb_db := s\<rparr>)))" for m
    by (simp add: web_ok_def app_sendMail_db)
  moreover have "web_ok w'" if "app_sendMail cfg m (w1\<lparr>wb_db := s\<rparr>) = (x, w')" for m x w'
    using calculation [of m] that by simp
  ultimately show ?thesis
    using assms w1 l c
    by (auto simp: web_requestPasswordReset_def Let_def split: bool.split option.split sum.split prod.split)
qed

lemma web_reset_state:
  assumes "read_reset cfg f = Inr (email, token, pw)" and "\<not> isPlatformMode cfg"
    and "consumeToken cfg ResetToken email token now (wb_db w) = (b, s)"
  shows "snd (web_resetPassword cfg f ids now w) =
    (if b \<and> count_where (\<lambda>u. au_email u = email \<and> au_platformUserId u = None) (app_users s) \<noteq> 0
     then snd (web_signIn cfg email pw None ids now (w\<lparr>wb_db := app_audit_event ''auth.password_reset'' None None
        (Some (JObj [(''email'', JStr email)]))
        (s\<lparr>app_users := upd_where (\<lambda>u. au_email u = email \<and> au_platformUserId u = None)
           (\<lambda>u. u\<lparr>au_passwordHash := Some (ac_hashPassword cfg pw)\<rparr>) (app_users s)\<rparr>)\<rparr>))
     else w\<lparr>wb_db := s\<rparr>)"
  using assms by (cases b) (auto simp: web_resetPassword_def Let_def split: prod.split option.split)

lemma web_reset_ok:
  assumes "web_ok w" and "fresh_ids ids (wb_db w)"
  shows "web_ok (snd (web_resetPassword cfg f ids now w))"
proof (cases "read_reset cfg f")
  case (Inr v)
  obtain email token pw where v: "v = (email, token, pw)"
    by (cases v)
  show ?thesis
  proof (cases "isPlatformMode cfg")
    case False
    obtain b s where c: "consumeToken cfg ResetToken email token now (wb_db w) = (b, s)"
      by fastforce
    have s: "app_ok s" "tokens_ok s"
      using consumeToken_ok [OF _ c] assms(1) by (auto simp: web_ok_def)
    define w2 where "w2 = w\<lparr>wb_db := app_audit_event ''auth.password_reset'' None None
        (Some (JObj [(''email'', JStr email)]))
        (s\<lparr>app_users := upd_where (\<lambda>u. au_email u = email \<and> au_platformUserId u = None)
           (\<lambda>u. u\<lparr>au_passwordHash := Some (ac_hashPassword cfg pw)\<rparr>) (app_users s)\<rparr>)\<rparr>"
    have w2: "web_ok w2"
      unfolding w2_def using s assms(1)
      by (intro web_ok_db) (simp_all add: app_ok_set_hash tokens_ok_def)
    obtain t w3 where si: "web_signIn cfg email pw None ids now w2 = (t, w3)"
      by fastforce
    have "web_ok w3"
      by (rule signIn_ok [OF w2 _ si]) (use False in simp)
    then show ?thesis
      using web_reset_state [of cfg f email token pw now w b s ids] Inr v False c si s assms(1)
      by (simp add: w2_def [symmetric] web_ok_db)
  qed (use Inr v assms in \<open>simp add: web_resetPassword_def\<close>)
qed (use assms in \<open>simp add: web_resetPassword_def\<close>)

lemma web_change_ok:
  assumes "web_ok w"
  shows "web_ok (snd (web_changePassword cfg cookie f now w))"
  using assms
  by (auto simp: web_changePassword_def with_db_def web_ok_def app_ok_set_hash tokens_ok_def
      split: sum.split option.split)

lemma web_step_ok:
  assumes "web_ok w" and "fresh_request r w"
  shows "web_ok (web_step cfg r now w)"
proof (cases r)
  case (WorkspaceForm e)
  then show ?thesis
    using assms limited_ok [OF assms(1)]
    by (auto simp: web_step_def web_requestWorkspaceList_def Let_def split: prod.split bool.split option.split sum.split)
next
  case (ResendForm e ws)
  then show ?thesis
    using assms limited_ok [OF assms(1), of "''resend:'' @ e" 3 now] 
    by (cases "limited (''resend:'' @ e) 3 now w") (auto simp: web_step_def web_resendVerification_def)
next
  case (SudoForm kind cookie pw)
  then show ?thesis
    using assms limited_ok [OF assms(1)]
    by (auto simp: web_step_def web_sudo_def split: prod.split bool.split option.split sum.split)
qed (use assms in \<open>simp_all add: web_step_def fresh_request_def web_signup_ok web_login_ok web_forgot_ok
      web_reset_ok web_change_ok\<close>)

section \<open>The login form is a limited resource\<close>

text \<open>
  Whether a request is a login for the address, and whether it gets past the limiter, which is read off
  what \<open>login\<close> answers: every login whose form parses is one whose password was tried, unless the
  answer is the one that turns it away.
\<close>

definition turned_away :: outcome where
  "turned_away = form_error (try_again ''Too many attempts'')"

definition login_for :: "app_cfg \<Rightarrow> string \<Rightarrow> time \<times> web_request \<Rightarrow> bool" where
  "login_for cfg email r = (case snd r of
     LoginForm f ids \<Rightarrow> (case read_login cfg f of Inl _ \<Rightarrow> False | Inr (e, p, ws) \<Rightarrow> e = email)
   | _ \<Rightarrow> False)"

definition password_tried :: "app_cfg \<Rightarrow> time \<times> web_request \<Rightarrow> web \<Rightarrow> bool \<times> web" where
  "password_tried cfg r w =
     ((case snd r of
         LoginForm f ids \<Rightarrow> (case read_login cfg f of Inl _ \<Rightarrow> False
           | Inr _ \<Rightarrow> fst (web_login cfg f ids (fst r) w) \<noteq> turned_away)
       | _ \<Rightarrow> False), web_step cfg (snd r) (fst r) w)"

lemma turned_away_ne [simp]:
  "form_error ''Invalid email or password'' \<noteq> turned_away" "SignedIn t \<noteq> turned_away"
  "Answer \<lparr>fs_error = Some (CHR ''E'' # x), fs_notice = None, fs_resend = y\<rparr> \<noteq> turned_away"
  by (simp_all add: turned_away_def form_error_def try_again_def)

lemma web_login_turned_away:
  assumes "read_login cfg f = Inr (email, pw, ws)" and "limited (''login:'' @ email) 10 now w = (b, w1)"
  shows "fst (web_login cfg f ids now w) = turned_away \<longleftrightarrow> \<not> b"
  using assms
  by (auto simp: web_login_def turned_away_def [symmetric] Let_def
      split: prod.splits option.splits sum.splits if_splits)

lemma turned_away_blind:
  assumes "read_login cfg f = Inr (e, pw, ws)" and "read_login cfg f' = Inr (e, pw', ws')"
    and "fst (web_login cfg f ids now v) = turned_away"
  shows "web_login cfg f' ids' now v = web_login cfg f ids now v"
proof -
  obtain b v1 where l: "limited (''login:'' @ e) 10 now v = (b, v1)"
    by fastforce
  have "\<not> b"
    using web_login_turned_away [OF assms(1) l] assms(3) by blast
  then show ?thesis
    using assms(1,2) l by (simp add: web_login_def)
qed

lemma web_signIn_hits: "web_signIn cfg e pw ws ids now w = (t, w') \<Longrightarrow> wb_hits w' = wb_hits w"
  by (auto simp: web_signIn_def split: prod.splits option.splits)

lemma web_signIn_hits_snd [simp]: "wb_hits (snd (web_signIn cfg e pw ws ids now w)) = wb_hits w"
  by (simp add: web_signIn_def split: prod.split option.split)

lemma limited_hits:
  "limited key mx now w = (b, w1) \<Longrightarrow>
   (b, wb_hits w1) = rateLimit key mx LIMIT_WINDOW now (wb_hits w)"
  by (auto simp: limited_def split: prod.splits)

lemma limited_other:
  assumes "limited key mx now w = (b, w1)" and "distinct (map fst (wb_hits w))" and "key \<noteq> k"
  shows "filter (\<lambda>t. now - LIMIT_WINDOW < t) (hits_of k (wb_hits w1))
    = filter (\<lambda>t. now - LIMIT_WINDOW < t) (hits_of k (wb_hits w))"
  using limit_step_recent [OF assms(2), of mx "(now, key)" b "wb_hits w1" k] limited_hits [OF assms(1)] assms(3)
  by (simp add: limit_step_def)

text \<open>A request asks the limiter at most once; one that is no login not under a login's key.\<close>

lemma web_step_hits:
  "wb_hits (web_step cfg r now w) = wb_hits w
   \<or> (\<exists>key mx b w1. limited key mx now w = (b, w1) \<and> ((\<nexists>f ids. r = LoginForm f ids) \<longrightarrow> key \<noteq> ''login:'' @ e)
        \<and> wb_hits (web_step cfg r now w) = wb_hits w1)"
proof (cases r)
  case (SignupForm f ids suf)
  show ?thesis
  proof (cases "read_signup cfg f")
    case (Inr v)
    obtain company email pw where v: "v = (company, email, pw)"
      by (cases v)
    obtain b w1 where l: "limited (''signup:'' @ email) 5 now w = (b, w1)"
      by fastforce
    have "wb_hits (snd (web_signup cfg f ids suf now w)) = wb_hits w1"
      using Inr v l by (auto simp: web_signup_def Let_def split: bool.split option.split sum.split prod.split
          dest: web_signIn_hits)
    then show ?thesis
      using SignupForm l by (auto simp: web_step_def)
  qed (use SignupForm in \<open>simp add: web_step_def web_signup_def\<close>)
next
  case (ForgotForm em ws raw)
  obtain b w1 where l: "limited (''pwreset:'' @ plain_field em) 3 now w = (b, w1)"
    by fastforce
  have "wb_hits w2 = wb_hits w1" if "app_sendMail cfg m (w1\<lparr>wb_db := s\<rparr>) = (x, w2)" for m s x w2
    using app_sendMail_db(2) [of cfg m "w1\<lparr>wb_db := s\<rparr>"] that by simp
  then have "snd (web_requestPasswordReset cfg em ws raw now w) = w
      \<or> wb_hits (snd (web_requestPasswordReset cfg em ws raw now w)) = wb_hits w1"
    using l by (auto simp: web_requestPasswordReset_def Let_def split: bool.split option.split sum.split prod.split)
  then show ?thesis
    using ForgotForm l by (auto simp: web_step_def)
next
  case (ResetForm f ids)
  have "wb_hits (snd (web_resetPassword cfg f ids now w)) = wb_hits w"
    by (auto simp: web_resetPassword_def Let_def split: bool.split option.split sum.split prod.split
        dest: web_signIn_hits)
  then show ?thesis
    using ResetForm by (simp add: web_step_def)
next
  case (WorkspaceForm em)
  obtain b w1 where l: "limited (''workspaces:'' @ plain_field em) 3 now w = (b, w1)"
    by fastforce
  have "web_step cfg r now w \<in> {w, w1}"
    using WorkspaceForm l
    by (auto simp: web_step_def web_requestWorkspaceList_def Let_def split: bool.split option.split sum.split)
  then show ?thesis
    using l by auto
next
  case (ResendForm em ws)
  obtain b w1 where l: "limited (''resend:'' @ em) 3 now w = (b, w1)"
    by fastforce
  have "web_step cfg r now w \<in> {w, w1}"
    using ResendForm l by (auto simp: web_step_def web_resendVerification_def)
  then show ?thesis
    using l by auto
next
  case (ChangeForm cookie f)
  have "wb_hits (snd (web_changePassword cfg cookie f now w)) = wb_hits w"
    by (auto simp: web_changePassword_def with_db_def split: sum.split option.split)
  then show ?thesis
    using ChangeForm by (simp add: web_step_def)
next
  case (SudoForm kind cookie pw)
  have "web_step cfg r now w = w \<or> (\<exists>em. web_step cfg r now w = snd (limited (sudo_key kind @ em) 5 now w))"
    using SudoForm by (auto simp: web_step_def web_sudo_def split: bool.split option.split sum.split prod.split)
       (metis snd_conv)+
  moreover have "sudo_key kind @ em \<noteq> ''login:'' @ e" for em
    by (cases kind) (simp_all add: sudo_key_def)
  ultimately show ?thesis
    by (metis prod.collapse)
next
  case (LoginForm f ids)
  show ?thesis
  proof (cases "read_login cfg f")
    case (Inr v)
    obtain em pw ws where v: "v = (em, pw, ws)"
      by (cases v)
    obtain b w1 where l: "limited (''login:'' @ em) 10 now w = (b, w1)"
      by fastforce
    have "wb_hits (web_step cfg r now w) = wb_hits w1"
      using web_login_state [of cfg f em pw ws now w b w1 ids] LoginForm Inr v l by (simp add: web_step_def)
    then show ?thesis
      using l LoginForm by blast
  qed (use LoginForm in \<open>simp add: web_step_def web_login_def\<close>)
qed

lemma web_step_other:
  assumes "distinct (map fst (wb_hits w))" and "\<nexists>f ids. r = LoginForm f ids"
  shows "filter (\<lambda>t. now - LIMIT_WINDOW < t) (hits_of (''login:'' @ e) (wb_hits (web_step cfg r now w)))
    = filter (\<lambda>t. now - LIMIT_WINDOW < t) (hits_of (''login:'' @ e) (wb_hits w))"
  using web_step_hits [of cfg r now w e] limited_other assms
  by (elim disjE exE conjE) simp_all

text \<open>A login leaves exactly its own entry, when its password gets looked at.\<close>

lemma login_recent:
  assumes "distinct (map fst (wb_hits w))" and "password_tried cfg r w = (b, w')"
  shows "filter (\<lambda>t. fst r - LIMIT_WINDOW < t) (hits_of (''login:'' @ e) (wb_hits w'))
    = filter (\<lambda>t. fst r - LIMIT_WINDOW < t) (hits_of (''login:'' @ e) (wb_hits w))
      @ (if b \<and> login_for cfg e r then [fst r] else [])"
proof (cases "\<exists>f ids. snd r = LoginForm f ids")
  case True
  then obtain f ids where f: "snd r = LoginForm f ids"
    by blast
  show ?thesis
  proof (cases "read_login cfg f")
    case (Inl msg)
    then show ?thesis
      using assms f by (auto simp: password_tried_def web_step_def web_login_def)
  next
    case (Inr v)
    obtain em pw ws where v: "v = (em, pw, ws)"
      by (cases v)
    obtain c w1 where l: "limited (''login:'' @ em) 10 (fst r) w = (c, w1)"
      by fastforce
    have "wb_hits w' = wb_hits w1" "b = c" "login_for cfg e r = (em = e)"
      using assms(2) f Inr v l web_login_state [of cfg f em pw ws "fst r" w c w1 ids]
        web_login_turned_away [of cfg f em pw ws "fst r" w c w1 ids]
      by (auto simp: password_tried_def web_step_def login_for_def)
    then show ?thesis
      using limit_step_recent [OF assms(1), of 10 "(fst r, ''login:'' @ em)" c "wb_hits w1" "''login:'' @ e"]
        limited_hits [OF l]
      by (simp add: limit_step_def)
  qed
next
  case False
  then have "w' = web_step cfg (snd r) (fst r) w" "\<not> b"
    using assms(2) by (auto simp: password_tried_def split: web_request.splits)
  then show ?thesis
    using web_step_other [OF assms(1) False] by simp
qed

lemma login_admits:
  assumes "distinct (map fst (wb_hits w))" and "password_tried cfg r w = (b, w')" and "login_for cfg e r"
  shows "b \<longleftrightarrow> length (filter (\<lambda>t. fst r - LIMIT_WINDOW < t) (hits_of (''login:'' @ e) (wb_hits w))) < 10"
proof -
  obtain f ids pw ws where f: "snd r = LoginForm f ids" "read_login cfg f = Inr (e, pw, ws)"
    using assms(3) by (auto simp: login_for_def split: web_request.splits sum.splits)
  obtain c w1 where l: "limited (''login:'' @ e) 10 (fst r) w = (c, w1)"
    by fastforce
  have "b = c"
    using assms(2) f web_login_turned_away [OF f(2) l, of ids] by (simp add: password_tried_def)
  then show ?thesis
    using limit_step_admits [of 10 "(fst r, ''login:'' @ e)" "wb_hits w" c "wb_hits w1"] limited_hits [OF l]
    by (simp add: limit_step_def)
qed

lemma web_step_distinct:
  assumes "distinct (map fst (wb_hits w))"
  shows "distinct (map fst (wb_hits (web_step cfg r now w)))"
proof -
  have "distinct (map fst (wb_hits w1))" if "limited key mx now w = (b, w1)" for key mx b w1
    using rateLimit_distinct [OF assms, of key mx LIMIT_WINDOW now] limited_hits [OF that] by (metis snd_conv)
  then show ?thesis
    using web_step_hits [of cfg r now w "[]"] assms by (elim disjE exE conjE) simp_all
qed

text \<open>So the login form is a sliding-window limiter for each address, whatever else the app serves.\<close>

interpretation login_form: window_limiter "password_tried cfg" fst "login_for cfg e"
  "\<lambda>w. hits_of (''login:'' @ e) (wb_hits w)" "\<lambda>w. distinct (map fst (wb_hits w))" LIMIT_WINDOW 10 for cfg e
proof (unfold_locales, goal_cases)
  case 1
  then show ?case
    by (simp add: LIMIT_WINDOW_def)
next
  case (2 s r b s')
  then show ?case
    using web_step_distinct [of s cfg "snd r" "fst r"] by (simp add: password_tried_def)
next
  case (3 s r s')
  then show ?case
    using login_recent [of s cfg r True s' e] login_admits [of s cfg r True s' e] by simp
next
  case (4 s r s')
  then show ?case
    using login_recent [of s cfg r False s' e] by simp
next
  case (5 s r b s')
  then show ?case
    using login_recent [of s cfg r b s' e] by simp
qed

section \<open>A small standalone app\<close>

definition alone_cfg :: app_cfg where
  "alone_cfg = sample_app_cfg\<lparr>ac_platform := None\<rparr>"

definition good_password :: string where "good_password = ''correct horse battery''"

definition alone_db :: app_db where
  "alone_db = empty_app\<lparr>workspaces := [\<lparr>ws_id = ''w0'', ws_name = ''Acme'', ws_slug = ''acme-x''\<rparr>],
     app_users := [\<lparr>au_id = ''l0'', au_platformUserId = None, au_email = ''a@x'', au_name = None,
       au_passwordHash = Some ''old''\<rparr>],
     memberships := [\<lparr>mb_userId = ''l0'', mb_tenantId = ''w0'', mb_role = OWNER, mb_createdAt = 1\<rparr>],
     verification_tokens := [\<lparr>vt_identifier = ''reset:a@x'', vt_token = ''h0123456789'', vt_expires = 500\<rparr>]\<rparr>"

definition alone_web :: web where
  "alone_web = \<lparr>wb_db = alone_db, wb_hits = [], wb_mails = []\<rparr>"

definition sample_login_form :: login_form where
  "sample_login_form = \<lparr>lf_email = Some '' A@x'', lf_password = Some ''guess'', lf_workspace = None\<rparr>"

text \<open>The same after ten logins for the address.\<close>

definition guessed_web :: web where
  "guessed_web = alone_web\<lparr>wb_hits := [(''login:a@x'', replicate 10 10)]\<rparr>"

definition sample_reset_form :: reset_form where
  "sample_reset_form = \<lparr>rf_email = Some ''a@x'', rf_token = Some ''0123456789'',
     rf_password = Some good_password, rf_confirm = Some good_password\<rparr>"

lemma alone_ok: "web_ok alone_web"
  by code_simp

lemma good_password_ok: "template_validatePassword good_password = None"
  by code_simp

lemma sample_read_reset: "read_reset alone_cfg sample_reset_form = Inr (''a@x'', ''0123456789'', good_password)"
proof -
  have e: "lower (trim ''a@x'') = ''a@x''"
    by code_simp
  show ?thesis
    by (simp add: read_reset_def read_email_def read_required_def read_new_password_def sample_reset_form_def
        alone_cfg_def sample_app_cfg_def good_password_ok e)
qed

section \<open>Properties\<close>

text \<open>
  C3: However requests for the account forms are ordered, and whatever they hold, the tables keep the
  constraints of the schema, an address has at most one live token of a kind, and the limiter's map
  its keys.
\<close>

theorem forms_keep_schema:
  assumes "web_reach cfg w w'" and "web_ok w"
  shows "web_ok w'"
  using assms by (induction rule: web_reach.induct) (auto intro: web_step_ok)

lemma forms_keep_schema_witness:
  "web_ok (web_step alone_cfg (ForgotForm (Some ''A@x'') None ''fresh'') 20
     (web_step alone_cfg (ForgotForm (Some ''A@x'') None ''other'') 10 alone_web))"
proof -
  have "web_reach alone_cfg alone_web (web_step alone_cfg (ForgotForm (Some ''A@x'') None ''fresh'') 20
     (web_step alone_cfg (ForgotForm (Some ''A@x'') None ''other'') 10 alone_web))"
    by (intro web_reach.intros) (simp_all add: fresh_request_def)
  then show ?thesis
    using forms_keep_schema alone_ok by blast
qed

text \<open>
  C2: Guessing is bounded. In any interval of fifteen minutes at most ten of the logins for an address get
  another answer than the one that turns them away, whatever other forms are sent in between, by
  whomever; and that one tells nothing: any other login for the address, with whatever password, would
  have had the same answer then and left the same behind.
\<close>

theorem login_guesses_bounded:
  assumes "sorted (map fst reqs)" and "wb_hits w = []"
  shows "in_window LIMIT_WINDOW T (admitted (password_tried cfg) fst (login_for cfg e) reqs w) \<le> 10
    \<and> (\<forall>f f' pw pw' ws ws' ids ids' now v. read_login cfg f = Inr (e, pw, ws) \<and> read_login cfg f' = Inr (e, pw', ws')
        \<and> fst (web_login cfg f ids now v) = turned_away
        \<longrightarrow> web_login cfg f' ids' now v = web_login cfg f ids now v)"
proof
  show "in_window LIMIT_WINDOW T (admitted (password_tried cfg) fst (login_for cfg e) reqs w) \<le> 10"
    by (rule login_form.window_bound) (use assms in \<open>simp_all add: hits_of_def\<close>)
qed (blast intro: turned_away_blind)

lemma login_guesses_bounded_witness:
  "in_window LIMIT_WINDOW 30 (admitted (password_tried alone_cfg) fst (login_for alone_cfg ''a@x'')
     [(10, LoginForm sample_login_form sample_ids), (20, LoginForm sample_login_form sample_ids)] alone_web) \<le> 10
   \<and> admitted (password_tried alone_cfg) fst (login_for alone_cfg ''a@x'')
     [(10, LoginForm sample_login_form sample_ids), (20, LoginForm sample_login_form sample_ids)] alone_web = [10, 20]
   \<and> web_login alone_cfg (sample_login_form\<lparr>lf_password := Some ''other''\<rparr>) sample_ids 11 guessed_web
      = web_login alone_cfg sample_login_form sample_ids 11 guessed_web"
proof (intro conjI)
  note bound = login_guesses_bounded [of "[(10, LoginForm sample_login_form sample_ids),
     (20, LoginForm sample_login_form sample_ids)]" alone_web 30 alone_cfg "''a@x''"]
  show "in_window LIMIT_WINDOW 30 (admitted (password_tried alone_cfg) fst (login_for alone_cfg ''a@x'')
     [(10, LoginForm sample_login_form sample_ids), (20, LoginForm sample_login_form sample_ids)] alone_web) \<le> 10"
    by (rule bound [THEN conjunct1]) (simp_all add: alone_web_def)
  have "read_login alone_cfg sample_login_form = Inr (''a@x'', ''guess'', None)"
    "read_login alone_cfg (sample_login_form\<lparr>lf_password := Some ''other''\<rparr>) = Inr (''a@x'', ''other'', None)"
    "fst (web_login alone_cfg sample_login_form sample_ids 11 guessed_web) = turned_away"
    "sorted (map fst [(10 :: time, LoginForm sample_login_form sample_ids), (20, LoginForm sample_login_form sample_ids)])"
    "wb_hits alone_web = []"
    by code_simp+
  then show "web_login alone_cfg (sample_login_form\<lparr>lf_password := Some ''other''\<rparr>) sample_ids 11 guessed_web
      = web_login alone_cfg sample_login_form sample_ids 11 guessed_web"
    using bound [THEN conjunct2] by blast
qed code_simp



text \<open>
  Asking for a reset answers alike for every address as long as mail works: standalone the form says
  the same whether or not the address has an account, and only an account's own address is written to.
\<close>

theorem reset_request_uniform:
  assumes "ac_platform cfg = None" and "ac_relayAccepts cfg (plain_field e) \<noteq> Some False"
    and "ac_sha256 cfg raw \<notin> vt_token ` set (verification_tokens (wb_db w))"
  shows "fst (web_requestPasswordReset cfg e ws raw now w)
      = (if \<not> ac_validEmail cfg (plain_field e) then form_error ''Enter a valid email address''
         else if fst (rateLimit (''pwreset:'' @ plain_field e) 3 LIMIT_WINDOW now (wb_hits w)) then form_ok
         else form_error (try_again ''Too many reset requests''))
    \<and> (\<exists>new. wb_mails (snd (web_requestPasswordReset cfg e ws raw now w)) = wb_mails w @ new
         \<and> (\<forall>m \<in> set new. ml_to m = plain_field e \<and> standalone_account (wb_db w) (plain_field e) \<noteq> None))"
proof -
  obtain b w1 where l: "limited (''pwreset:'' @ plain_field e) 3 now w = (b, w1)"
    by fastforce
  have w1: "wb_db w1 = wb_db w" "wb_mails w1 = wb_mails w"
    "fst (rateLimit (''pwreset:'' @ plain_field e) 3 LIMIT_WINDOW now (wb_hits w)) = b"
    using limited_db [OF l] limited_hits [OF l] by (auto dest: arg_cong [where f = fst])
  obtain s where c: "createToken cfg ResetToken (plain_field e) RESET_TTL_MS raw now (wb_db w) = (Inr (), s)"
    using assms(3) by (fastforce simp: createToken_def Let_def)
  show ?thesis
    using assms(1,2) l w1 c
    by (auto simp: web_requestPasswordReset_def Let_def app_sendMail_def split: bool.split option.split)
qed

lemma reset_request_uniform_witness:
  "fst (web_requestPasswordReset alone_cfg (Some ''A@x'') None ''fresh'' 10 alone_web) = form_ok
   \<and> fst (web_requestPasswordReset alone_cfg (Some ''b@x'') None ''fresh'' 10 alone_web) = form_ok"
proof -
  have "ac_platform alone_cfg = None" "\<And>x. ac_relayAccepts alone_cfg x = Some True"
    by (simp_all add: alone_cfg_def sample_app_cfg_def)
  moreover have "ac_sha256 alone_cfg ''fresh'' \<notin> vt_token ` set (verification_tokens (wb_db alone_web))"
    "ac_validEmail alone_cfg (plain_field (Some ''A@x''))" "ac_validEmail alone_cfg (plain_field (Some ''b@x''))"
    "fst (rateLimit (''pwreset:'' @ plain_field (Some ''A@x'')) 3 LIMIT_WINDOW 10 (wb_hits alone_web))"
    "fst (rateLimit (''pwreset:'' @ plain_field (Some ''b@x'')) 3 LIMIT_WINDOW 10 (wb_hits alone_web))"
    by code_simp+
  ultimately show ?thesis
    using reset_request_uniform [of alone_cfg "Some ''A@x''" "''fresh''" alone_web None 10]
      reset_request_uniform [of alone_cfg "Some ''b@x''" "''fresh''" alone_web None 10] by simp
qed

section \<open>Observations\<close>

text \<open>
  A relay that refuses mail tells accounts apart: the request throws for an address with an account
  and answers as always for one without, although the comment at \<open>requestPasswordReset\<close> says that it
  always answers the same way.
\<close>

lemma refused_mail_tells_accounts_apart:
  "case fst (web_requestPasswordReset (alone_cfg\<lparr>ac_relayAccepts := (\<lambda>to. Some False)\<rparr>) (Some ''a@x'') None
      ''fresh'' 10 alone_web) of Thrown e \<Rightarrow> True | _ \<Rightarrow> False"
  "fst (web_requestPasswordReset (alone_cfg\<lparr>ac_relayAccepts := (\<lambda>to. Some False)\<rparr>) (Some ''b@x'') None
      ''fresh'' 10 alone_web) = form_ok"
  by code_simp+

end
