(* ===== verification/Js_Date.thy ===== *)
theory Js_Date
  imports Prelude
begin

text \<open>
  JavaScript's \<open>Date\<close> in UTC, as ECMA-262 defines it (Day, YearFromTime, MonthFromTime,
  DateFromTime) on the proleptic Gregorian calendar: the year, month and day of a moment, and
  \<open>toISOString\<close> for the years 0 to 9999.
\<close>

definition day_from_year :: "int \<Rightarrow> int" where
  "day_from_year y = 365 * (y - 1970) + (y - 1969) div 4 - (y - 1901) div 100 + (y - 1601) div 400"

definition leap_year :: "int \<Rightarrow> bool" where
  "leap_year y = (y mod 4 = 0 \<and> (y mod 100 \<noteq> 0 \<or> y mod 400 = 0))"

text \<open>The year of a day: the average year gives an estimate that is off by one at most.\<close>

definition year_from_day :: "int \<Rightarrow> int" where
  "year_from_day d = (let y = 1970 + d * 400 div 146097
     in if day_from_year (y + 1) \<le> d then y + 1 else if d < day_from_year y then y - 1 else y)"

definition month_lengths :: "int \<Rightarrow> int list" where
  "month_lengths y = [31, if leap_year y then 29 else 28, 31, 30, 31, 30, 31, 31, 30, 31, 30, 31]"

text \<open>The month (from 1) and the day of the month (from 1) of the day \<open>n\<close> of a year (from 0).\<close>

fun month_and_date :: "int \<Rightarrow> int \<Rightarrow> int list \<Rightarrow> int \<times> int" where
  "month_and_date m n [] = (m, n + 1)"
| "month_and_date m n (l # ls) = (if n < l then (m, n + 1) else month_and_date (m + 1) (n - l) ls)"

definition utc_date :: "time \<Rightarrow> int \<times> int \<times> int" where
  "utc_date t = (let d = t div day_ms; y = year_from_day d
     in (y, month_and_date 1 (d - day_from_year y) (month_lengths y)))"

definition getUTCFullYear :: "time \<Rightarrow> int" where
  "getUTCFullYear t = fst (utc_date t)"

definition utc_month :: "time \<Rightarrow> int" where
  "utc_month t = fst (snd (utc_date t))"

text \<open>\<open>Date.UTC(y, 0, 1)\<close>.\<close>

definition utc_new_year :: "int \<Rightarrow> time" where
  "utc_new_year y = day_from_year y * day_ms"

text \<open>\<open>String(n).padStart(w, '0')\<close>.\<close>

definition padded :: "nat \<Rightarrow> int \<Rightarrow> string" where
  "padded w n = (let s = show_int n in replicate (w - length s) CHR ''0'' @ s)"

definition toISOString :: "time \<Rightarrow> string" where
  "toISOString t = (case utc_date t of (y, m, d) \<Rightarrow> let r = t mod day_ms in
     padded 4 y @ ''-'' @ padded 2 m @ ''-'' @ padded 2 d @ ''T''
     @ padded 2 (r div 3600000) @ '':'' @ padded 2 (r div 60000 mod 60) @ '':''
     @ padded 2 (r div 1000 mod 60) @ ''.'' @ padded 3 (r mod 1000) @ ''Z'')"

section \<open>The year of a moment\<close>

lemma div_bounds: "0 < (b::int) \<Longrightarrow> b * (a div b) \<le> a \<and> a < b * (a div b) + b"
  using mult_div_mod_eq [of b a] pos_mod_bound [of b a] pos_mod_sign [of b a] by linarith

lemma year_from_day:
  "day_from_year (year_from_day d) \<le> d \<and> d < day_from_year (year_from_day d + 1)"
proof -
  define q where "q = d * 400 div 146097"
  have q: "146097 * q \<le> 400 * d" "400 * d < 146097 * q + 146097"
    using div_bounds [of 146097 "d * 400"] by (simp_all add: q_def)
  have bounds: "day_from_year (1970 + n) * 400 \<le> 146097 * n + 1180 \<and> 146097 * n - 790 \<le> day_from_year (1970 + n) * 400" for n
    using div_bounds [of 4 "n + 1"] div_bounds [of 100 "n + 69"] div_bounds [of 400 "n + 369"]
    by (simp add: day_from_year_def algebra_simps)
  have "day_from_year (1970 + q - 1) \<le> d" "d < day_from_year (1970 + q + 2)"
    using bounds [of "q - 1"] bounds [of "q + 2"] q by (simp_all add: algebra_simps)
  then show ?thesis
    unfolding year_from_day_def Let_def q_def [symmetric]
    by (simp add: algebra_simps)
qed

lemma utc_new_year_le: "utc_new_year (getUTCFullYear t) \<le> t"
  "t < utc_new_year (getUTCFullYear t + 1)"
proof -
  have d: "day_from_year (getUTCFullYear t) \<le> t div day_ms"
    "t div day_ms < day_from_year (getUTCFullYear t + 1)"
    using year_from_day [of "t div day_ms"] by (simp_all add: getUTCFullYear_def utc_date_def Let_def)
  have t: "day_ms * (t div day_ms) \<le> t" "t < day_ms * (t div day_ms) + day_ms"
    using div_bounds [of day_ms t] by (simp_all add: day_ms_def)
  show "utc_new_year (getUTCFullYear t) \<le> t"
    using mult_left_mono [OF d(1), of day_ms] t(1)
    by (simp add: utc_new_year_def day_ms_def mult.commute)
  have "t div day_ms + 1 \<le> day_from_year (getUTCFullYear t + 1)"
    using d(2) by simp
  then show "t < utc_new_year (getUTCFullYear t + 1)"
    using mult_left_mono [of "t div day_ms + 1" _ day_ms] t(2)
    by (simp add: utc_new_year_def day_ms_def mult.commute algebra_simps)
qed

section \<open>Characters of numbers and dates\<close>

definition plain_char :: "char \<Rightarrow> bool" where
  "plain_char c = (c \<noteq> CHR '','' \<and> c \<noteq> CHR 0x22 \<and> c \<noteq> CHR 0x0A \<and> c \<noteq> CHR 0x0D)"

lemma code_of_digits_of: "c \<in> set (digits_of n) \<Longrightarrow> 48 \<le> (of_char c :: nat) \<and> (of_char c :: nat) \<le> 57"
proof (induction n rule: digits_of.induct)
  case (1 n)
  show ?case
  proof (cases "n < 10")
    case True
    then show ?thesis
      using 1(2) by (subst (asm) digits_of.simps) (auto simp: of_char_of)
  next
    case False
    then have "c \<in> set (digits_of (n div 10)) \<or> c = char_of (48 + n mod 10)"
      using 1(2) by (subst (asm) digits_of.simps) auto
    then show ?thesis
      using 1(1) [OF False] by (auto simp: of_char_of)
  qed
qed

lemma plain_digits: "list_all plain_char (digits_of n)"
  by (auto simp: list_all_iff plain_char_def dest: code_of_digits_of)

lemma plain_show_int: "list_all plain_char (show_int i)"
  using plain_digits by (auto simp: show_int_def plain_char_def)

lemma plain_zero: "plain_char CHR ''0''"
  by (simp add: plain_char_def)

lemma list_all_replicate: "list_all P (replicate n x) \<longleftrightarrow> n = 0 \<or> P x"
  by (cases n) (auto simp: list_all_iff)

lemma plain_padded: "list_all plain_char (padded w i)"
  using plain_show_int [of i] plain_zero unfolding padded_def Let_def list_all_append list_all_replicate
  by simp

lemma plain_signs:
  "plain_char CHR ''-''" "plain_char CHR ''T''" "plain_char CHR '':''" "plain_char CHR ''.''"
  "plain_char CHR ''Z''"
  by (simp_all add: plain_char_def)

lemma plain_toISOString: "list_all plain_char (toISOString t)"
proof -
  obtain y m d where "utc_date t = (y, m, d)"
    by (cases "utc_date t") auto
  then show ?thesis
    unfolding toISOString_def Let_def by (simp add: plain_padded plain_signs del: One_nat_def)
qed

end
