(* ===== verification/Revenue.thy ===== *)
theory Revenue
  imports Email Billing Js_Date "HOL-Library.AList"
begin

text \<open>
  The operator's figures, \<open>platform/src/revenue/\<close>: the Stripe health check with its alerts
  (\<open>stripe-health.service.ts\<close>), the revenue report pulled from Stripe, its split by workspace and
  its CSV export (\<open>revenue.service.ts\<close>), and the readiness check (\<open>billing-readiness.service.ts\<close>).

  What Stripe and its status page answer at the moment of a request are arguments
  (\<open>stripe_reports\<close>, \<open>status_answer\<close>). An object keyed by strings is an association list in the
  order of insertion, as \<open>Object.entries\<close> lists it for keys that are no array indices; an object
  that the code reads with \<open>in\<close> holds currency codes only, none of which names a property of
  \<open>Object.prototype\<close>.
\<close>

section \<open>Is Stripe reachable\<close>

datatype health_state = HealthOk | StripeDown | NetworkDown | Unconfigured

definition health_name :: "health_state \<Rightarrow> string" where
  "health_name h = (case h of HealthOk \<Rightarrow> ''ok'' | StripeDown \<Rightarrow> ''stripe_down''
     | NetworkDown \<Rightarrow> ''network_down'' | Unconfigured \<Rightarrow> ''unconfigured'')"

record stripe_health =
  sh_state :: health_state
  sh_indicator :: "string option"
  sh_checkedAt :: string
  sh_detail :: string

definition STRIPE_STATUS_PAGE :: string where
  "STRIPE_STATUS_PAGE = ''https://status.stripe.com/''"

text \<open>
  The status page: not reachable within the timeout, an error status or a body that is not the JSON
  of an object, or a body with what it holds at \<open>status?.indicator\<close>.
\<close>

datatype status_answer = PageUnreachable | PageRefused | PageBody "string option"

definition statusPageIndicator :: "status_answer \<Rightarrow> string option" where
  "statusPageIndicator page = (case page of
      PageUnreachable \<Rightarrow> None
    | PageRefused \<Rightarrow> None
    | PageBody indicator \<Rightarrow> Some (nullish indicator ''unknown''))"

text \<open>A call of Stripe's client: the message of the error it throws, or its answer.\<close>

type_synonym 'a answer = "string + 'a"

record sub_item =
  si_priceId :: string
  si_nickname :: "string option"
  si_interval :: "string option" \<comment> \<open>\<open>price.recurring?.interval\<close>\<close>

record stripe_sub =
  ss_status :: string
  ss_trialEnd :: "int option"
  ss_canceledAt :: "int option"
  ss_items :: "sub_item list"

text \<open>A customer reference: an id, or the expanded object with its id.\<close>

datatype customer_ref = CustomerId string | CustomerObject string

record paid_invoice =
  pi_created :: int
  pi_paidAt :: "int option"
  pi_currency :: string
  pi_amountPaid :: int
  pi_tax :: "int option"
  pi_customer :: "customer_ref option"

datatype charge_ref = ChargeId string | ChargeObject "customer_ref option"

record stripe_refund =
  rf_status :: string
  rf_created :: int
  rf_currency :: string
  rf_amount :: int
  rf_charge :: "charge_ref option"

text \<open>
  What Stripe answers: the balance, all subscriptions, and the paid invoices and the refunds
  created at or after a moment in seconds. A listing that breaks off in the middle is an error, as
  the loop over it throws.
\<close>

record stripe_reports =
  balance_retrieve :: "unit answer"
  subscriptions_list :: "stripe_sub list answer"
  invoices_list :: "int \<Rightarrow> paid_invoice list answer"
  refunds_list :: "int \<Rightarrow> stripe_refund list answer"

definition health_probe :: "stripe_reports \<Rightarrow> status_answer \<Rightarrow> string \<Rightarrow> stripe_health" where
  "health_probe stripe page checkedAt =
     (case balance_retrieve stripe of
        Inr _ \<Rightarrow> \<lparr>sh_state = HealthOk, sh_indicator = None, sh_checkedAt = checkedAt,
          sh_detail = ''Stripe API reachable.''\<rparr>
      | Inl message \<Rightarrow>
        (case statusPageIndicator page of
           Some indicator \<Rightarrow> \<lparr>sh_state = StripeDown, sh_indicator = Some indicator,
             sh_checkedAt = checkedAt,
             sh_detail = ''Stripe API unreachable but status.stripe.com responds '' @ em_dash
               @ '' the problem is on Stripe's side (indicator: '' @ indicator @ ''). API error: ''
               @ slice 0 200 message\<rparr>
         | None \<Rightarrow> \<lparr>sh_state = NetworkDown, sh_indicator = None, sh_checkedAt = checkedAt,
             sh_detail = ''Neither the Stripe API nor status.stripe.com is reachable '' @ em_dash
               @ '' the problem is most likely on our side (network/DNS/egress), not Stripe.''\<rparr>))"

text \<open>
  The state the two services keep in memory: the state announced last, the last good figures; and,
  for the alerts, the e-mail service's state and the tables.
\<close>

definition alert_of :: "string \<Rightarrow> health_state \<Rightarrow> stripe_health \<Rightarrow> send_dto" where
  "alert_of recipient prev health =
     (let wentDown = sh_state health \<noteq> HealthOk; nl = [CHR 0x0A]
      in \<lparr>sd_fromName = None, sd_tenantId = None, sd_to = recipient,
          sd_subject = (if wentDown
            then ''[URGENT] Stripe connectivity lost ('' @ health_name (sh_state health) @ '')''
            else ''[resolved] Stripe connectivity restored''),
          sd_content = Authored (Some
            (sh_detail health @ nl @ nl
             @ ''State: '' @ health_name prev @ '' -> '' @ health_name (sh_state health) @ nl
             @ ''Checked: '' @ sh_checkedAt health @ nl
             @ ''Stripe status page: '' @ STRIPE_STATUS_PAGE @ nl @ nl
             @ (if wentDown
                then ''Billing checkout and revenue figures are affected until this clears. ''
                  @ ''Cached revenue figures remain visible, marked with their fetch time.''
                else ''Normal service. Figures refresh on next load.''))) None\<rparr>)"

text \<open>The alert that a new state calls for, and the state remembered. A failing send is only logged.\<close>

definition transition_alert ::
  "string option \<Rightarrow> health_state option \<Rightarrow> stripe_health \<Rightarrow> send_dto option" where
  "transition_alert recipient prev health =
     (case prev of
        None \<Rightarrow> None
      | Some p \<Rightarrow>
          if p = sh_state health then None
          else if \<not> truthy recipient then None
          else Some (alert_of (the recipient) p health))"

definition announceTransition ::
  "env \<Rightarrow> config \<Rightarrow> stripe_health \<Rightarrow> time \<Rightarrow> health_state option \<times> (quota_state \<times> db) \<Rightarrow>
   health_state option \<times> (quota_state \<times> db)" where
  "announceTransition env cfg health now st =
     (case transition_alert (alertsEmail cfg) (fst st) health of
        None \<Rightarrow> (Some (sh_state health), snd st)
      | Some alert \<Rightarrow> (Some (sh_state health), snd (send env cfg alert None now (snd st))))"

definition health_check ::
  "env \<Rightarrow> config \<Rightarrow> stripe_reports option \<Rightarrow> status_answer \<Rightarrow> time \<Rightarrow>
   health_state option \<times> (quota_state \<times> db) \<Rightarrow>
   stripe_health \<times> (health_state option \<times> (quota_state \<times> db))" where
  "health_check env cfg stripe page now st =
     (let health = (case stripe of
            None \<Rightarrow> \<lparr>sh_state = Unconfigured, sh_indicator = None,
              sh_checkedAt = toISOString now, sh_detail = ''STRIPE_SECRET_KEY is not set.''\<rparr>
          | Some api \<Rightarrow> health_probe api page (toISOString now))
      in (health, announceTransition env cfg health now st))"

section \<open>Amounts by currency\<close>

type_synonym amounts = "(string \<times> int) list"

definition sumCents :: "amounts \<Rightarrow> int" where
  "sumCents b = sum_list (map snd b)"

text \<open>\<open>bucket[key] = (bucket[key] ?? 0) + n\<close>, for amounts and for counts.\<close>

definition addAmount :: "amounts \<Rightarrow> string \<Rightarrow> int \<Rightarrow> amounts" where
  "addAmount bucket currency cents =
     AList.update currency (nullish (map_of bucket currency) 0 + cents) bucket"

definition add_under ::
  "(string \<times> amounts) list \<Rightarrow> string \<Rightarrow> string \<Rightarrow> int \<Rightarrow> (string \<times> amounts) list" where
  "add_under bucket key currency cents =
     AList.update key (addAmount (nullish (map_of bucket key) []) currency cents) bucket"

definition month_key :: "time \<Rightarrow> string" where
  "month_key at = show_int (getUTCFullYear at) @ ''-'' @ padded 2 (utc_month at)"

definition addMonthly ::
  "(string \<times> amounts) list \<Rightarrow> time \<Rightarrow> string \<Rightarrow> int \<Rightarrow> (string \<times> amounts) list" where
  "addMonthly bucket at currency cents = add_under bucket (month_key at) currency cents"

text \<open>The two loops that make net amounts: gross less refunds, then the currencies only refunded.\<close>

definition net_of :: "amounts \<Rightarrow> amounts \<Rightarrow> amounts" where
  "net_of gross refunds =
     foldl (\<lambda>net (ccy, cents). if map_of net ccy \<noteq> None then net else AList.update ccy (- cents) net)
       (foldl (\<lambda>net (ccy, cents). AList.update ccy (cents - nullish (map_of refunds ccy) 0) net)
          [] gross)
       refunds"

section \<open>The figures\<close>

record snapshot =
  fetchedAt :: string
  yearStart :: string
  sn_total :: int
  byStatus :: amounts
  byPlan :: amounts
  byInterval :: amounts
  canceledDuringTrial :: int
  grossByMonth :: "(string \<times> amounts) list"
  grossYtd :: amounts
  taxYtd :: amounts
  refundsByMonth :: "(string \<times> amounts) list"
  refundsYtd :: amounts
  netYtd :: amounts
  grossByCustomer :: "(string \<times> amounts) list"
  refundsByCustomer :: "(string \<times> amounts) list"

definition empty_snapshot :: "string \<Rightarrow> string \<Rightarrow> snapshot" where
  "empty_snapshot at start = \<lparr>fetchedAt = at, yearStart = start, sn_total = 0, byStatus = [],
     byPlan = [], byInterval = [], canceledDuringTrial = 0, grossByMonth = [], grossYtd = [],
     taxYtd = [], refundsByMonth = [], refundsYtd = [], netYtd = [], grossByCustomer = [],
     refundsByCustomer = []\<rparr>"

text \<open>\<open>soldByPrice\<close>: the app and tier of a price, the last row of the table winning.\<close>

definition sold_by_price :: "db \<Rightarrow> string \<Rightarrow> (string \<times> string) option" where
  "sold_by_price s priceId =
     map_option (\<lambda>p. (case app_by_id s (p_appId p) of None \<Rightarrow> [] | Some a \<Rightarrow> a_name a, p_tier p))
       (find (\<lambda>p. p_stripePriceId p = priceId) (rev (prices s)))"

definition tally_item :: "db \<Rightarrow> snapshot \<Rightarrow> sub_item \<Rightarrow> snapshot" where
  "tally_item s sn item =
     (let interval = nullish (si_interval item) ''one-time'';
          sold = sold_by_price s (si_priceId item);
          app = nullish (map_option fst sold) ''unmapped'';
          plan = nullish (map_option snd sold) (nullish (si_nickname item) (si_priceId item))
      in sn\<lparr>byInterval := addAmount (byInterval sn) interval 1,
            byPlan := addAmount (byPlan sn) (app @ ''|'' @ plan @ ''|'' @ interval) 1\<rparr>)"

definition tally_sub :: "db \<Rightarrow> snapshot \<Rightarrow> stripe_sub \<Rightarrow> snapshot" where
  "tally_sub s sn sub =
     (let sn1 = sn\<lparr>sn_total := sn_total sn + 1, byStatus := addAmount (byStatus sn) (ss_status sub) 1\<rparr>;
          sn2 = foldl (tally_item s) sn1 (ss_items sub)
      in if ss_status sub = ''canceled'' \<and> ss_trialEnd sub \<noteq> None \<and> ss_canceledAt sub \<noteq> None
            \<and> the (ss_canceledAt sub) \<le> the (ss_trialEnd sub)
         then sn2\<lparr>canceledDuringTrial := canceledDuringTrial sn2 + 1\<rparr> else sn2)"

definition customer_id :: "customer_ref option \<Rightarrow> string option" where
  "customer_id c = (case c of None \<Rightarrow> None | Some (CustomerId i) \<Rightarrow> Some i
     | Some (CustomerObject i) \<Rightarrow> Some i)"

definition paid_at :: "paid_invoice \<Rightarrow> time" where
  "paid_at i = nullish (pi_paidAt i) (pi_created i) * 1000"

definition add_customer ::
  "string option \<Rightarrow> string \<Rightarrow> int \<Rightarrow> (string \<times> amounts) list \<Rightarrow> (string \<times> amounts) list" where
  "add_customer cust ccy cents m = (if truthy cust then add_under m (the cust) ccy cents else m)"

definition tally_invoice :: "snapshot \<Rightarrow> paid_invoice \<Rightarrow> snapshot" where
  "tally_invoice sn i =
     sn\<lparr>grossByMonth := addMonthly (grossByMonth sn) (paid_at i) (pi_currency i) (pi_amountPaid i),
        grossYtd := addAmount (grossYtd sn) (pi_currency i) (pi_amountPaid i),
        taxYtd := (case pi_tax i of None \<Rightarrow> taxYtd sn
          | Some tax \<Rightarrow> if tax \<noteq> 0 then addAmount (taxYtd sn) (pi_currency i) tax else taxYtd sn),
        grossByCustomer := add_customer (customer_id (pi_customer i)) (pi_currency i)
          (pi_amountPaid i) (grossByCustomer sn)\<rparr>"

definition charge_customer :: "charge_ref option \<Rightarrow> string option" where
  "charge_customer ch = (case ch of Some (ChargeObject c) \<Rightarrow> customer_id c | _ \<Rightarrow> None)"

definition tally_refund :: "snapshot \<Rightarrow> stripe_refund \<Rightarrow> snapshot" where
  "tally_refund sn r =
     (if rf_status r \<noteq> ''succeeded'' then sn
      else sn\<lparr>refundsByMonth := addMonthly (refundsByMonth sn) (rf_created r * 1000)
                (rf_currency r) (rf_amount r),
              refundsYtd := addAmount (refundsYtd sn) (rf_currency r) (rf_amount r),
              refundsByCustomer := add_customer (charge_customer (rf_charge r)) (rf_currency r)
                (rf_amount r) (refundsByCustomer sn)\<rparr>)"

definition year_start :: "time \<Rightarrow> time" where
  "year_start now = utc_new_year (getUTCFullYear now)"

definition revenue_pull :: "stripe_reports option \<Rightarrow> time \<Rightarrow> db \<Rightarrow> snapshot answer" where
  "revenue_pull stripe now s =
     (case stripe of
        None \<Rightarrow> Inl ''Stripe not configured''
      | Some api \<Rightarrow>
        (let since = year_start now div 1000;
             sn0 = empty_snapshot (toISOString now) (toISOString (year_start now))
         in case subscriptions_list api of
              Inl e \<Rightarrow> Inl e
            | Inr subs \<Rightarrow>
              (case invoices_list api since of
                 Inl e \<Rightarrow> Inl e
               | Inr invoices \<Rightarrow>
                 (case refunds_list api since of
                    Inl e \<Rightarrow> Inl e
                  | Inr refunds \<Rightarrow>
                    (let sn = foldl tally_refund (foldl tally_invoice
                           (foldl (tally_sub s) sn0 subs) invoices) refunds
                     in Inr (sn\<lparr>netYtd := net_of (grossYtd sn) (refundsYtd sn)\<rparr>))))))"

section \<open>The report and the split by workspace\<close>

record revenue_report =
  rr_stale :: bool
  rr_health :: stripe_health
  rr_snapshot :: "snapshot option"

text \<open>The answers of one request: Stripe's, the status page's and the clock's.\<close>

record revenue_request =
  rq_stripe :: "stripe_reports option"
  rq_page :: status_answer
  rq_now :: time

record revenue_state =
  lastGood :: "snapshot option"
  lastState :: "health_state option"
  rv_mail :: quota_state
  rv_db :: db

definition check_health ::
  "env \<Rightarrow> config \<Rightarrow> revenue_request \<Rightarrow> revenue_state \<Rightarrow> stripe_health \<times> revenue_state" where
  "check_health env cfg rq st =
     (case health_check env cfg (rq_stripe rq) (rq_page rq) (rq_now rq)
             (lastState st, (rv_mail st, rv_db st)) of
        (health, (prev, (q, s))) \<Rightarrow>
          (health, st\<lparr>lastState := prev, rv_mail := q, rv_db := s\<rparr>))"

definition report ::
  "env \<Rightarrow> config \<Rightarrow> revenue_request \<Rightarrow> revenue_state \<Rightarrow> revenue_report res \<times> revenue_state" where
  "report env cfg rq st =
     (case check_health env cfg rq st of (health, st1) \<Rightarrow>
        if sh_state health = Unconfigured
        then (Inl (ServiceUnavailable ''Stripe is not configured on this deployment.''), st1)
        else (case revenue_pull (rq_stripe rq) (rq_now rq) (rv_db st1) of
                Inr sn \<Rightarrow> (Inr \<lparr>rr_stale = False, rr_health = health, rr_snapshot = Some sn\<rparr>,
                    st1\<lparr>lastGood := Some sn\<rparr>)
              | Inl _ \<Rightarrow> (Inr \<lparr>rr_stale = True, rr_health = health, rr_snapshot = lastGood st1\<rparr>, st1)))"

record tenant_revenue =
  tv_tenantId :: string
  tv_slug :: string
  tv_name :: string
  tv_customer :: string
  tv_gross :: amounts
  tv_refunds :: amounts
  tv_net :: amounts
  tv_subscriptions :: "(string \<times> string \<times> app_tenant_status) list" \<comment> \<open>app, plan, status\<close>

definition customer_ids :: "snapshot \<Rightarrow> string list" where
  "customer_ids sn = rev (remdups (rev (map fst (grossByCustomer sn) @ map fst (refundsByCustomer sn))))"

text \<open>\<open>byCustomer\<close>: the workspace of a customer id, the last row winning.\<close>

definition tenant_of_customer :: "db \<Rightarrow> string \<Rightarrow> tenant option" where
  "tenant_of_customer s cust = find (\<lambda>t. tn_stripeCustomerId t = Some cust) (rev (tenants s))"

definition subscriptions_of :: "db \<Rightarrow> tenant option \<Rightarrow> (string \<times> string \<times> app_tenant_status) list" where
  "subscriptions_of s t = (case t of
      None \<Rightarrow> []
    | Some t' \<Rightarrow> map (\<lambda>a. (case app_by_id s (at_appId a) of None \<Rightarrow> [] | Some p \<Rightarrow> a_name p,
                        at_plan a, at_status a))
        (filter (\<lambda>a. at_tenantId a = tn_id t' \<and> at_stripeSubscriptionId a \<noteq> None) (app_tenants s)))"

definition tenant_row :: "db \<Rightarrow> snapshot \<Rightarrow> string \<Rightarrow> tenant_revenue" where
  "tenant_row s sn cust =
     (let t = tenant_of_customer s cust;
          gross = nullish (map_of (grossByCustomer sn) cust) [];
          refunds = nullish (map_of (refundsByCustomer sn) cust) []
      in \<lparr>tv_tenantId = nullish (map_option tn_id t) [], tv_slug = nullish (map_option tn_slug t) [],
          tv_name = nullish (map_option tn_name t) (''(no tenant for '' @ cust @ '')''),
          tv_customer = cust, tv_gross = gross, tv_refunds = refunds,
          tv_net = net_of gross refunds, tv_subscriptions = subscriptions_of s t\<rparr>)"

definition byTenant ::
  "env \<Rightarrow> config \<Rightarrow> revenue_request \<Rightarrow> revenue_state \<Rightarrow>
   (bool \<times> tenant_revenue list) res \<times> revenue_state" where
  "byTenant env cfg rq st =
     (case report env cfg rq st of
        (Inl e, st1) \<Rightarrow> (Inl e, st1)
      | (Inr r, st1) \<Rightarrow>
          (Inr (rr_stale r, case rr_snapshot r of
             None \<Rightarrow> []
           | Some sn \<Rightarrow> sort_key (\<lambda>v. - sumCents (tv_net v))
               (map (tenant_row (rv_db st1) sn) (customer_ids sn))), st1))"

section \<open>The books\<close>

text \<open>
  What the figures stand for: sums over the invoices and refunds that Stripe lists, as functions of
  the currency, the month and the customer. \<open>figures\<close> is the abstraction function that reads a
  snapshot as such books.
\<close>

definition total_of :: "('a \<Rightarrow> bool) \<Rightarrow> ('a \<Rightarrow> int) \<Rightarrow> 'a list \<Rightarrow> int" where
  "total_of P n xs = sum_list (map n (filter P xs))"

definition amt :: "amounts \<Rightarrow> string \<Rightarrow> int" where
  "amt b c = nullish (map_of b c) 0"

definition amt_under :: "(string \<times> amounts) list \<Rightarrow> string \<Rightarrow> string \<Rightarrow> int" where
  "amt_under m k c = amt (nullish (map_of m k) []) c"

record books =
  bk_gross :: "string \<Rightarrow> int"
  bk_tax :: "string \<Rightarrow> int"
  bk_refunds :: "string \<Rightarrow> int"
  bk_net :: "string \<Rightarrow> int"
  bk_grossIn :: "string \<Rightarrow> string \<Rightarrow> int"
  bk_refundsIn :: "string \<Rightarrow> string \<Rightarrow> int"
  bk_grossFrom :: "string \<Rightarrow> string \<Rightarrow> int"
  bk_refundsTo :: "string \<Rightarrow> string \<Rightarrow> int"

definition refunded :: "stripe_refund \<Rightarrow> bool" where
  "refunded r = (rf_status r = ''succeeded'')"

definition books_of :: "paid_invoice list \<Rightarrow> stripe_refund list \<Rightarrow> books" where
  "books_of invoices refunds =
     (let gross = (\<lambda>P. total_of P pi_amountPaid invoices);
          back = (\<lambda>P. total_of (\<lambda>r. refunded r \<and> P r) rf_amount refunds)
      in \<lparr>bk_gross = (\<lambda>c. gross (\<lambda>i. pi_currency i = c)),
          bk_tax = (\<lambda>c. total_of (\<lambda>i. pi_currency i = c) (\<lambda>i. nullish (pi_tax i) 0) invoices),
          bk_refunds = (\<lambda>c. back (\<lambda>r. rf_currency r = c)),
          bk_net = (\<lambda>c. gross (\<lambda>i. pi_currency i = c) - back (\<lambda>r. rf_currency r = c)),
          bk_grossIn = (\<lambda>m c. gross (\<lambda>i. month_key (paid_at i) = m \<and> pi_currency i = c)),
          bk_refundsIn = (\<lambda>m c. back (\<lambda>r. month_key (rf_created r * 1000) = m \<and> rf_currency r = c)),
          bk_grossFrom = (\<lambda>k c. gross (\<lambda>i. truthy (customer_id (pi_customer i))
             \<and> customer_id (pi_customer i) = Some k \<and> pi_currency i = c)),
          bk_refundsTo = (\<lambda>k c. back (\<lambda>r. truthy (charge_customer (rf_charge r))
             \<and> charge_customer (rf_charge r) = Some k \<and> rf_currency r = c))\<rparr>)"

definition figures :: "snapshot \<Rightarrow> books" where
  "figures sn = \<lparr>bk_gross = amt (grossYtd sn), bk_tax = amt (taxYtd sn),
     bk_refunds = amt (refundsYtd sn), bk_net = amt (netYtd sn),
     bk_grossIn = amt_under (grossByMonth sn), bk_refundsIn = amt_under (refundsByMonth sn),
     bk_grossFrom = amt_under (grossByCustomer sn),
     bk_refundsTo = amt_under (refundsByCustomer sn)\<rparr>"

named_theorems amount_simps \<open>what the amounts of a bucket are after an addition\<close>

lemma amt_addAmount [amount_simps]: "amt (addAmount b k n) c = amt b c + (if c = k then n else 0)"
  by (simp add: amt_def addAmount_def AList.update_conv')

lemma amt_Nil [amount_simps]: "amt [] c = 0" "amt_under [] k c = 0"
  by (simp_all add: amt_def amt_under_def)

lemma amt_add_under [amount_simps]:
  "amt_under (add_under m k ccy n) k' c = amt_under m k' c + (if k' = k \<and> c = ccy then n else 0)"
  by (simp add: amt_under_def add_under_def AList.update_conv' amount_simps)

lemma amt_add_customer [amount_simps]:
  "amt_under (add_customer cust ccy n m) k c
   = amt_under m k c + (if truthy cust \<and> cust = Some k \<and> c = ccy then n else 0)"
  by (cases cust) (auto simp: add_customer_def amount_simps)

lemma fold_total:
  assumes "\<And>sn x. h (step sn x) = h sn + (if P x then n x else 0)"
  shows "h (foldl step sn xs) = h sn + total_of P n xs"
  by (induction xs arbitrary: sn) (auto simp: assms total_of_def)

lemma fold_same: "(\<And>sn x. h (step sn x) = h sn) \<Longrightarrow> h (foldl step sn xs) = h sn"
  by (induction xs arbitrary: sn) auto

text \<open>The net amounts, for a bucket of gross amounts that lists every currency once.\<close>

lemma map_of_gross_loop:
  "distinct (map fst g) \<Longrightarrow>
   map_of (foldl (\<lambda>net (k, v). AList.update k (f k v) net) net g) c
   = (case map_of g c of Some v \<Rightarrow> Some (f c v) | None \<Rightarrow> map_of net c)"
proof (induction g arbitrary: net)
  case (Cons kv g)
  obtain k v where "kv = (k, v)"
    by (cases kv)
  moreover have "map_of g k = None"
    using Cons.prems \<open>kv = (k, v)\<close> by (simp add: map_of_eq_None_iff)
  moreover have "distinct (map fst g)"
    using Cons.prems by simp
  ultimately show ?case
    unfolding foldl_Cons Cons.IH [OF \<open>distinct (map fst g)\<close>]
    by (auto simp: AList.update_conv' split: option.split)
qed simp

lemma map_of_refund_loop:
  "map_of (foldl (\<lambda>net (k, v). if map_of net k \<noteq> None then net else AList.update k (f v) net) net r) c
   = (case map_of net c of Some v \<Rightarrow> Some v | None \<Rightarrow> map_option f (map_of r c))"
proof (induction r arbitrary: net)
  case (Cons kv r)
  obtain k v where "kv = (k, v)"
    by (cases kv)
  then show ?case
    unfolding foldl_Cons Cons.IH by (auto simp: AList.update_conv' split: option.split)
qed (simp split: option.split)

lemma amt_net_of [amount_simps]:
  assumes "distinct (map fst g)"
  shows "amt (net_of g r) c = amt g c - amt r c"
  unfolding net_of_def amt_def map_of_refund_loop map_of_gross_loop [OF assms]
  by (cases "map_of r c") (auto split: option.split)

lemma distinct_addAmount: "distinct (map fst b) \<Longrightarrow> distinct (map fst (addAmount b k n))"
  by (simp add: addAmount_def AList.distinct_update)

definition buckets_ok :: "(string \<times> amounts) list \<Rightarrow> bool" where
  "buckets_ok m = (distinct (map fst m) \<and> (\<forall>k b. map_of m k = Some b \<longrightarrow> distinct (map fst b)))"

lemma buckets_ok_add_under: "buckets_ok m \<Longrightarrow> buckets_ok (add_under m k ccy n)"
  by (auto simp: buckets_ok_def add_under_def AList.distinct_update AList.update_conv'
      distinct_addAmount split: option.split if_splits; cases "map_of m k"; auto intro!: distinct_addAmount)

definition snapshot_ok :: "snapshot \<Rightarrow> bool" where
  "snapshot_ok sn = (distinct (map fst (grossYtd sn)) \<and> distinct (map fst (refundsYtd sn))
     \<and> buckets_ok (grossByCustomer sn) \<and> buckets_ok (refundsByCustomer sn))"

lemma snapshot_ok_steps:
  "snapshot_ok sn \<Longrightarrow> snapshot_ok (tally_invoice sn i)"
  "snapshot_ok sn \<Longrightarrow> snapshot_ok (tally_refund sn r)"
  by (auto simp: snapshot_ok_def tally_invoice_def tally_refund_def distinct_addAmount
      add_customer_def buckets_ok_add_under)

lemma fold_keeps: "(\<And>sn x. I sn \<Longrightarrow> I (step sn x)) \<Longrightarrow> I sn \<Longrightarrow> I (foldl step sn xs)"
  by (induction xs arbitrary: sn) auto

section \<open>What the loops add up\<close>

lemmas tally_defs = tally_invoice_def tally_refund_def addMonthly_def

text \<open>The subscriptions loop writes no amount.\<close>

definition money :: "snapshot \<Rightarrow> (amounts \<times> amounts \<times> amounts) \<times> (string \<times> amounts) list list" where
  "money sn = ((grossYtd sn, taxYtd sn, refundsYtd sn),
     [grossByMonth sn, refundsByMonth sn, grossByCustomer sn, refundsByCustomer sn])"

lemma money_tally_sub: "money (tally_sub s sn sub) = money sn"
proof -
  have "money (foldl (tally_item s) sn0 items) = money sn0" for sn0 items
    by (rule fold_same) (simp add: money_def tally_item_def Let_def)
  then show ?thesis
    by (simp add: tally_sub_def Let_def money_def)
qed

lemma money_subs: "money (foldl (tally_sub s) (empty_snapshot at start) subs) = money (empty_snapshot at start)"
  by (rule fold_same) (rule money_tally_sub)

lemma invoice_totals:
  "amt (grossYtd (foldl tally_invoice sn is)) c
     = amt (grossYtd sn) c + total_of (\<lambda>i. pi_currency i = c) pi_amountPaid is"
  "amt (taxYtd (foldl tally_invoice sn is)) c
     = amt (taxYtd sn) c + total_of (\<lambda>i. pi_currency i = c) (\<lambda>i. nullish (pi_tax i) 0) is"
  "amt_under (grossByMonth (foldl tally_invoice sn is)) m c = amt_under (grossByMonth sn) m c
     + total_of (\<lambda>i. month_key (paid_at i) = m \<and> pi_currency i = c) pi_amountPaid is"
  "amt_under (grossByCustomer (foldl tally_invoice sn is)) k c = amt_under (grossByCustomer sn) k c
     + total_of (\<lambda>i. truthy (customer_id (pi_customer i)) \<and> customer_id (pi_customer i) = Some k
         \<and> pi_currency i = c) pi_amountPaid is"
  "refundsYtd (foldl tally_invoice sn is) = refundsYtd sn"
  "refundsByMonth (foldl tally_invoice sn is) = refundsByMonth sn"
  "refundsByCustomer (foldl tally_invoice sn is) = refundsByCustomer sn"
proof -
  show "amt (grossYtd (foldl tally_invoice sn is)) c
     = amt (grossYtd sn) c + total_of (\<lambda>i. pi_currency i = c) pi_amountPaid is"
    by (rule fold_total [where h = "\<lambda>sn. amt (grossYtd sn) c"]) (simp add: tally_defs amount_simps)
  show "amt (taxYtd (foldl tally_invoice sn is)) c
     = amt (taxYtd sn) c + total_of (\<lambda>i. pi_currency i = c) (\<lambda>i. nullish (pi_tax i) 0) is"
    by (rule fold_total [where h = "\<lambda>sn. amt (taxYtd sn) c"])
      (simp add: tally_defs amount_simps split: option.split)
  show "amt_under (grossByMonth (foldl tally_invoice sn is)) m c = amt_under (grossByMonth sn) m c
     + total_of (\<lambda>i. month_key (paid_at i) = m \<and> pi_currency i = c) pi_amountPaid is"
    by (rule fold_total [where h = "\<lambda>sn. amt_under (grossByMonth sn) m c"])
      (auto simp: tally_defs amount_simps)
  show "amt_under (grossByCustomer (foldl tally_invoice sn is)) k c = amt_under (grossByCustomer sn) k c
     + total_of (\<lambda>i. truthy (customer_id (pi_customer i)) \<and> customer_id (pi_customer i) = Some k
         \<and> pi_currency i = c) pi_amountPaid is"
    by (rule fold_total [where h = "\<lambda>sn. amt_under (grossByCustomer sn) k c"])
      (auto simp: tally_defs amount_simps)
qed (rule fold_same; simp add: tally_defs)+

lemma refund_totals:
  "amt (refundsYtd (foldl tally_refund sn rs)) c
     = amt (refundsYtd sn) c + total_of (\<lambda>r. refunded r \<and> rf_currency r = c) rf_amount rs"
  "amt_under (refundsByMonth (foldl tally_refund sn rs)) m c = amt_under (refundsByMonth sn) m c
     + total_of (\<lambda>r. refunded r \<and> month_key (rf_created r * 1000) = m \<and> rf_currency r = c)
         rf_amount rs"
  "amt_under (refundsByCustomer (foldl tally_refund sn rs)) k c = amt_under (refundsByCustomer sn) k c
     + total_of (\<lambda>r. refunded r \<and> truthy (charge_customer (rf_charge r))
         \<and> charge_customer (rf_charge r) = Some k \<and> rf_currency r = c) rf_amount rs"
  "grossYtd (foldl tally_refund sn rs) = grossYtd sn" "taxYtd (foldl tally_refund sn rs) = taxYtd sn"
  "grossByMonth (foldl tally_refund sn rs) = grossByMonth sn"
  "grossByCustomer (foldl tally_refund sn rs) = grossByCustomer sn"
proof -
  show "amt (refundsYtd (foldl tally_refund sn rs)) c
     = amt (refundsYtd sn) c + total_of (\<lambda>r. refunded r \<and> rf_currency r = c) rf_amount rs"
    by (rule fold_total [where h = "\<lambda>sn. amt (refundsYtd sn) c"])
      (auto simp: tally_defs amount_simps refunded_def)
  show "amt_under (refundsByMonth (foldl tally_refund sn rs)) m c = amt_under (refundsByMonth sn) m c
     + total_of (\<lambda>r. refunded r \<and> month_key (rf_created r * 1000) = m \<and> rf_currency r = c)
         rf_amount rs"
    by (rule fold_total [where h = "\<lambda>sn. amt_under (refundsByMonth sn) m c"])
      (auto simp: tally_defs amount_simps refunded_def)
  show "amt_under (refundsByCustomer (foldl tally_refund sn rs)) k c
     = amt_under (refundsByCustomer sn) k c
     + total_of (\<lambda>r. refunded r \<and> truthy (charge_customer (rf_charge r))
         \<and> charge_customer (rf_charge r) = Some k \<and> rf_currency r = c) rf_amount rs"
    by (rule fold_total [where h = "\<lambda>sn. amt_under (refundsByCustomer sn) k c"])
      (auto simp: tally_defs amount_simps refunded_def)
qed (rule fold_same; simp add: tally_defs)+

lemma stamps_tally_sub:
  "fetchedAt (tally_sub s sn sub) = fetchedAt sn" "yearStart (tally_sub s sn sub) = yearStart sn"
proof -
  have "fetchedAt (foldl (tally_item s) y items) = fetchedAt y"
    "yearStart (foldl (tally_item s) y items) = yearStart y" for y items
    by (rule fold_same; simp add: tally_item_def Let_def)+
  then show "fetchedAt (tally_sub s sn sub) = fetchedAt sn"
    "yearStart (tally_sub s sn sub) = yearStart sn"
    by (simp_all add: tally_sub_def Let_def)
qed

lemma revenue_pull_ok:
  assumes "revenue_pull stripe now s = Inr sn"
  obtains api invoices refunds sn1 fin where "stripe = Some api"
    "invoices_list api (year_start now div 1000) = Inr invoices"
    "refunds_list api (year_start now div 1000) = Inr refunds"
    "money sn1 = money (empty_snapshot [] [])"
    "fetchedAt sn1 = toISOString now" "yearStart sn1 = toISOString (year_start now)"
    "fin = foldl tally_refund (foldl tally_invoice sn1 invoices) refunds"
    "sn = fin\<lparr>netYtd := net_of (grossYtd fin) (refundsYtd fin)\<rparr>"
proof -
  obtain api subs invoices refunds where r: "stripe = Some api"
    "invoices_list api (year_start now div 1000) = Inr invoices"
    "refunds_list api (year_start now div 1000) = Inr refunds" "subscriptions_list api = Inr subs"
    using assms by (auto simp: revenue_pull_def Let_def split: option.splits sum.splits)
  define sn1 where "sn1 = foldl (tally_sub s)
     (empty_snapshot (toISOString now) (toISOString (year_start now))) subs"
  have "money sn1 = money (empty_snapshot [] [])"
    unfolding sn1_def money_subs by (simp add: money_def empty_snapshot_def)
  moreover have "fetchedAt sn1 = toISOString now" "yearStart sn1 = toISOString (year_start now)"
    unfolding sn1_def by (subst fold_same; simp add: stamps_tally_sub empty_snapshot_def)+
  moreover have "sn = (let fin = foldl tally_refund (foldl tally_invoice sn1 invoices) refunds
      in fin\<lparr>netYtd := net_of (grossYtd fin) (refundsYtd fin)\<rparr>)"
    using assms by (simp add: revenue_pull_def Let_def r sn1_def)
  ultimately show thesis
    using that [OF r(1-3)] by (simp add: Let_def)
qed

lemma books_eqI:
  assumes "\<And>c. bk_gross a c = bk_gross b c" "\<And>c. bk_tax a c = bk_tax b c"
    "\<And>c. bk_refunds a c = bk_refunds b c" "\<And>c. bk_net a c = bk_net b c"
    "\<And>m c. bk_grossIn a m c = bk_grossIn b m c" "\<And>m c. bk_refundsIn a m c = bk_refundsIn b m c"
    "\<And>k c. bk_grossFrom a k c = bk_grossFrom b k c" "\<And>k c. bk_refundsTo a k c = bk_refundsTo b k c"
  shows "(a :: books) = b"
  using assms by (cases a; cases b; simp add: fun_eq_iff)

lemma snapshot_ok_pull: "revenue_pull stripe now s = Inr sn \<Longrightarrow> snapshot_ok sn"
proof (elim revenue_pull_ok)
  fix sn1 fin invoices refunds
  assume m: "money sn1 = money (empty_snapshot [] [])"
    and fin: "fin = foldl tally_refund (foldl tally_invoice sn1 invoices) refunds"
    and sn: "sn = fin\<lparr>netYtd := net_of (grossYtd fin) (refundsYtd fin)\<rparr>"
  have "snapshot_ok sn1"
    using m by (simp add: money_def empty_snapshot_def snapshot_ok_def buckets_ok_def)
  then have "snapshot_ok fin"
    unfolding fin
    by (simp add: fold_keeps [where I = snapshot_ok] snapshot_ok_steps)
  then show "snapshot_ok sn"
    by (simp add: sn snapshot_ok_def)
qed

text \<open>
  C11: The figures of a pull are the books of what Stripe listed: every amount by currency, month and
  customer is the sum of the paid amounts, the taxes and the succeeded refunds it stands for, and
  the net of every currency is gross less refunds, also where there was nothing but refunds.
\<close>

theorem figures_refine_books:
  assumes "revenue_pull (Some api) now s = Inr sn"
    and "invoices_list api (year_start now div 1000) = Inr invoices"
    and "refunds_list api (year_start now div 1000) = Inr refunds"
  shows "figures sn = books_of invoices refunds"
proof -
  obtain sn1 fin where m: "money sn1 = money (empty_snapshot [] [])"
    and fin: "fin = foldl tally_refund (foldl tally_invoice sn1 invoices) refunds"
    and sn: "sn = fin\<lparr>netYtd := net_of (grossYtd fin) (refundsYtd fin)\<rparr>"
    using assms(1) by (rule revenue_pull_ok) (use assms(2,3) in auto)
  have "distinct (map fst (grossYtd fin))"
    using snapshot_ok_pull [OF assms(1)] by (simp add: snapshot_ok_def sn)
  moreover have "grossYtd sn1 = []" "taxYtd sn1 = []" "refundsYtd sn1 = []" "grossByMonth sn1 = []"
    "refundsByMonth sn1 = []" "grossByCustomer sn1 = []" "refundsByCustomer sn1 = []"
    using m by (simp_all add: money_def empty_snapshot_def)
  ultimately show ?thesis
    by (intro books_eqI)
      (simp_all add: figures_def books_of_def Let_def sn amount_simps fin invoice_totals refund_totals)
qed

section \<open>No payment is lost between the views\<close>

definition total_under :: "(string \<times> amounts) list \<Rightarrow> string \<Rightarrow> int" where
  "total_under m c = sum_list (map (\<lambda>(k, b). amt b c) m)"

lemma total_under_add [amount_simps]:
  "total_under (add_under m k ccy n) c = total_under m c + (if c = ccy then n else 0)"
proof -
  have "total_under (AList.update k (addAmount b ccy n) m) c
      = total_under m c + (if c = ccy then n else 0)
        + (amt b c - amt (nullish (map_of m k) []) c)" for b
    by (induction m) (auto simp: total_under_def amount_simps)
  then show ?thesis
    by (simp add: add_under_def)
qed

lemma total_under_add_customer [amount_simps]:
  "total_under (add_customer cust ccy n m) c
   = total_under m c + (if truthy cust \<and> c = ccy then n else 0)"
  by (simp add: add_customer_def amount_simps)

lemma total_under_keys:
  "distinct (map fst m) \<Longrightarrow> distinct ks \<Longrightarrow> fst ` set m \<subseteq> set ks \<Longrightarrow>
   sum_list (map (\<lambda>k. amt_under m k c) ks) = total_under m c"
proof (induction m arbitrary: ks)
  case Nil
  then show ?case
    by (simp add: total_under_def amount_simps)
next
  case (Cons kb m)
  obtain k b where kb: "kb = (k, b)"
    by (cases kb)
  obtain xs ys where ks: "ks = xs @ k # ys"
    using Cons.prems(3) kb by (metis fst_conv image_insert insert_subset list.simps(15) split_list)
  have "sum_list (map (\<lambda>j. amt_under (kb # m) j c) zs) = sum_list (map (\<lambda>j. amt_under m j c) zs)"
    if "k \<notin> set zs" for zs
    using that by (induction zs) (auto simp: amt_under_def kb)
  moreover have "k \<notin> set xs" "k \<notin> set ys"
    using Cons.prems(2) ks by auto
  moreover have "amt_under (kb # m) k c = amt b c"
    by (simp add: amt_under_def kb)
  ultimately have "sum_list (map (\<lambda>j. amt_under (kb # m) j c) ks)
      = amt b c + sum_list (map (\<lambda>j. amt_under m j c) (xs @ ys))"
    unfolding ks by simp
  also have "sum_list (map (\<lambda>j. amt_under m j c) (xs @ ys)) = total_under m c"
    using Cons.prems kb ks by (intro Cons.IH) auto
  finally show ?case
    by (simp add: total_under_def kb)
qed

text \<open>The months of a year add up to the year, and the customers to what had a customer.\<close>

lemma pull_totals:
  assumes "revenue_pull (Some api) now s = Inr sn"
    and "invoices_list api (year_start now div 1000) = Inr invoices"
    and "refunds_list api (year_start now div 1000) = Inr refunds"
  shows "total_under (grossByMonth sn) c = amt (grossYtd sn) c"
    "total_under (refundsByMonth sn) c = amt (refundsYtd sn) c"
    "total_under (grossByCustomer sn) c
       = total_of (\<lambda>i. truthy (customer_id (pi_customer i)) \<and> pi_currency i = c) pi_amountPaid invoices"
    "total_under (refundsByCustomer sn) c = total_of (\<lambda>r. refunded r
         \<and> truthy (charge_customer (rf_charge r)) \<and> rf_currency r = c) rf_amount refunds"
proof -
  obtain sn1 fin where m: "money sn1 = money (empty_snapshot [] [])"
    and fin: "fin = foldl tally_refund (foldl tally_invoice sn1 invoices) refunds"
    and sn: "sn = fin\<lparr>netYtd := net_of (grossYtd fin) (refundsYtd fin)\<rparr>"
    using assms(1) by (rule revenue_pull_ok) (use assms(2,3) in auto)
  have e: "grossYtd sn1 = []" "refundsYtd sn1 = []" "grossByMonth sn1 = []"
    "refundsByMonth sn1 = []" "grossByCustomer sn1 = []" "refundsByCustomer sn1 = []"
    "total_under [] c = 0"
    using m by (simp_all add: money_def empty_snapshot_def total_under_def)
  have i: "total_under (grossByMonth (foldl tally_invoice x xs)) c = total_under (grossByMonth x) c
      + total_of (\<lambda>i. pi_currency i = c) pi_amountPaid xs"
    "total_under (grossByCustomer (foldl tally_invoice x xs)) c = total_under (grossByCustomer x) c
      + total_of (\<lambda>i. truthy (customer_id (pi_customer i)) \<and> pi_currency i = c) pi_amountPaid xs" for x xs
    by (rule fold_total [where h = "\<lambda>sn. total_under (grossByMonth sn) c"]
        fold_total [where h = "\<lambda>sn. total_under (grossByCustomer sn) c"],
        auto simp: tally_defs amount_simps)+
  have r: "total_under (refundsByMonth (foldl tally_refund x rs)) c = total_under (refundsByMonth x) c
      + total_of (\<lambda>r. refunded r \<and> rf_currency r = c) rf_amount rs"
    "total_under (refundsByCustomer (foldl tally_refund x rs)) c = total_under (refundsByCustomer x) c
      + total_of (\<lambda>r. refunded r \<and> truthy (charge_customer (rf_charge r)) \<and> rf_currency r = c)
          rf_amount rs" for x rs
    by (rule fold_total [where h = "\<lambda>sn. total_under (refundsByMonth sn) c"]
        fold_total [where h = "\<lambda>sn. total_under (refundsByCustomer sn) c"],
        auto simp: tally_defs amount_simps refunded_def)+
  show "total_under (grossByMonth sn) c = amt (grossYtd sn) c"
    "total_under (refundsByMonth sn) c = amt (refundsYtd sn) c"
    "total_under (grossByCustomer sn) c
       = total_of (\<lambda>i. truthy (customer_id (pi_customer i)) \<and> pi_currency i = c) pi_amountPaid invoices"
    "total_under (refundsByCustomer sn) c = total_of (\<lambda>r. refunded r
         \<and> truthy (charge_customer (rf_charge r)) \<and> rf_currency r = c) rf_amount refunds"
    by (simp_all add: sn fin invoice_totals refund_totals i r e amount_simps)
qed

text \<open>The rows of the split, and how they add up.\<close>

lemma distinct_customer_ids: "distinct (customer_ids sn)"
  by (simp add: customer_ids_def)

lemma set_customer_ids:
  "set (customer_ids sn) = fst ` set (grossByCustomer sn) \<union> fst ` set (refundsByCustomer sn)"
  by (auto simp: customer_ids_def)

lemma amt_tenant_row:
  "amt (tv_gross (tenant_row s sn k)) c = amt_under (grossByCustomer sn) k c"
  "amt (tv_refunds (tenant_row s sn k)) c = amt_under (refundsByCustomer sn) k c"
  "snapshot_ok sn \<Longrightarrow> amt (tv_net (tenant_row s sn k)) c
     = amt_under (grossByCustomer sn) k c - amt_under (refundsByCustomer sn) k c"
proof -
  show "amt (tv_gross (tenant_row s sn k)) c = amt_under (grossByCustomer sn) k c"
    "amt (tv_refunds (tenant_row s sn k)) c = amt_under (refundsByCustomer sn) k c"
    by (simp_all add: tenant_row_def Let_def amt_under_def)
  assume "snapshot_ok sn"
  then have "distinct (map fst (nullish (map_of (grossByCustomer sn) k) []))"
    by (cases "map_of (grossByCustomer sn) k") (auto simp: snapshot_ok_def buckets_ok_def)
  then show "amt (tv_net (tenant_row s sn k)) c
     = amt_under (grossByCustomer sn) k c - amt_under (refundsByCustomer sn) k c"
    by (simp add: tenant_row_def Let_def amt_under_def amount_simps)
qed

lemma rows_add_up:
  assumes "snapshot_ok sn"
  shows "(\<Sum>r\<leftarrow>map (tenant_row s sn) (customer_ids sn). amt (tv_net r) c)
    = total_under (grossByCustomer sn) c - total_under (refundsByCustomer sn) c"
proof -
  have "(\<Sum>r\<leftarrow>map (tenant_row s sn) (customer_ids sn). amt (tv_net r) c)
      = (\<Sum>k\<leftarrow>customer_ids sn. amt_under (grossByCustomer sn) k c)
        - (\<Sum>k\<leftarrow>customer_ids sn. amt_under (refundsByCustomer sn) k c)"
    by (simp add: amt_tenant_row(3) [OF assms] comp_def sum_list_subtractf)
  also have "\<dots> = total_under (grossByCustomer sn) c - total_under (refundsByCustomer sn) c"
    using assms distinct_customer_ids
    by (simp add: total_under_keys snapshot_ok_def buckets_ok_def set_customer_ids)
  finally show ?thesis .
qed

lemma sum_list_sort_key: "(\<Sum>x\<leftarrow>sort_key f xs. (g x :: int)) = (\<Sum>x\<leftarrow>xs. g x)"
proof -
  have "(\<Sum>y\<leftarrow>insort_key f x ys. g y) = g x + (\<Sum>y\<leftarrow>ys. g y)" for x ys
    by (induction ys) auto
  then show ?thesis
    by (induction xs) auto
qed

lemma total_of_split:
  "total_of P n xs = total_of (\<lambda>x. Q x \<and> P x) n xs + total_of (\<lambda>x. \<not> Q x \<and> P x) n xs"
  by (induction xs) (auto simp: total_of_def)

lemma report_ok:
  assumes "report env cfg rq st = (Inr r, st')"
  shows "\<not> rr_stale r \<Longrightarrow> \<exists>sn. rr_snapshot r = Some sn \<and> lastGood st' = Some sn
      \<and> revenue_pull (rq_stripe rq) (rq_now rq) (rv_db st') = Inr sn"
    and "rr_stale r \<Longrightarrow> rr_snapshot r = lastGood st \<and> lastGood st' = lastGood st"
  using assms by (auto simp: report_def check_health_def split: prod.splits if_splits sum.splits)

text \<open>What was paid or returned without a customer: in the totals, in no workspace's row.\<close>

definition unattributed :: "paid_invoice list \<Rightarrow> stripe_refund list \<Rightarrow> string \<Rightarrow> int" where
  "unattributed invoices refunds c =
     total_of (\<lambda>i. \<not> truthy (customer_id (pi_customer i)) \<and> pi_currency i = c) pi_amountPaid invoices
     - total_of (\<lambda>r. \<not> truthy (charge_customer (rf_charge r)) \<and> refunded r \<and> rf_currency r = c)
         rf_amount refunds"

text \<open>
  C13: The split by workspace loses no payment: there is one row for a customer, its net is what the
  customer paid less what it got back, the rows and the payments without a customer add up to the
  net of the dashboard in every currency, and the biggest payer comes first.
\<close>

theorem split_accounts_for_every_payment:
  assumes "byTenant env cfg rq st = (Inr (False, rows), st')" and "rq_stripe rq = Some api"
    and "invoices_list api (year_start (rq_now rq) div 1000) = Inr invoices"
    and "refunds_list api (year_start (rq_now rq) div 1000) = Inr refunds"
  shows "distinct (map tv_customer rows)
    \<and> (\<forall>row \<in> set rows. \<forall>c. amt (tv_net row) c
         = bk_grossFrom (books_of invoices refunds) (tv_customer row) c
           - bk_refundsTo (books_of invoices refunds) (tv_customer row) c)
    \<and> (\<forall>c. (\<Sum>row\<leftarrow>rows. amt (tv_net row) c) + unattributed invoices refunds c
         = bk_net (books_of invoices refunds) c)
    \<and> sorted (map (\<lambda>v. - sumCents (tv_net v)) rows)"
proof -
  obtain r where r: "report env cfg rq st = (Inr r, st')" "\<not> rr_stale r"
    and rows: "rows = (case rr_snapshot r of None \<Rightarrow> [] | Some sn \<Rightarrow>
      sort_key (\<lambda>v. - sumCents (tv_net v)) (map (tenant_row (rv_db st') sn) (customer_ids sn)))"
    using assms(1) by (auto simp: byTenant_def split: prod.splits sum.splits)
  obtain sn where sn: "rr_snapshot r = Some sn"
    and pull: "revenue_pull (Some api) (rq_now rq) (rv_db st') = Inr sn"
    using report_ok(1) [OF r] assms(2) by auto
  have ok: "snapshot_ok sn"
    by (rule snapshot_ok_pull [OF pull])
  have books: "books_of invoices refunds = figures sn"
    by (rule figures_refine_books [OF pull assms(3,4), symmetric])
  have rows': "rows = sort_key (\<lambda>v. - sumCents (tv_net v))
      (map (tenant_row (rv_db st') sn) (customer_ids sn))"
    by (simp add: rows sn)
  have cust: "tv_customer (tenant_row s sn k) = k" for s k
    by (simp add: tenant_row_def Let_def)
  have "(\<Sum>row\<leftarrow>rows. amt (tv_net row) c) + unattributed invoices refunds c
      = bk_net (books_of invoices refunds) c" for c
    using rows_add_up [OF ok, of c "rv_db st'"] pull_totals(3,4) [OF pull assms(3,4), of c]
      total_of_split [of "\<lambda>i. pi_currency i = c" pi_amountPaid invoices "\<lambda>i. truthy (customer_id (pi_customer i))"]
      total_of_split [of "\<lambda>r. refunded r \<and> rf_currency r = c" rf_amount refunds
        "\<lambda>r. truthy (charge_customer (rf_charge r))"]
    by (simp add: rows' sum_list_sort_key unattributed_def books_of_def Let_def conj_ac)
  moreover have "distinct (map tv_customer rows)"
    unfolding rows' distinct_map using distinct_customer_ids [of sn]
    by (auto simp: cust distinct_map inj_on_def) (metis cust)
  moreover have "amt (tv_net row) c = bk_grossFrom (figures sn) (tv_customer row) c
      - bk_refundsTo (figures sn) (tv_customer row) c" if "row \<in> set rows" for row c
    using that by (auto simp: rows' amt_tenant_row(3) [OF ok] cust figures_def)
  moreover have "sorted (map (\<lambda>v. - sumCents (tv_net v)) rows)"
    by (simp add: rows')
  ultimately show ?thesis
    by (simp add: books)
qed

text \<open>A pull succeeds when the three listings do, and then the report is fresh.\<close>

lemma revenue_pull_total:
  assumes "subscriptions_list api = Inr subs" "invoices_list api (year_start now div 1000) = Inr invoices"
    "refunds_list api (year_start now div 1000) = Inr refunds"
  shows "\<exists>sn. revenue_pull (Some api) now s = Inr sn"
  using assms by (simp add: revenue_pull_def Let_def)

lemma check_health_configured:
  assumes "rq_stripe rq = Some api"
  shows "\<exists>health st1. check_health env cfg rq st = (health, st1) \<and> sh_state health \<noteq> Unconfigured
    \<and> lastGood st1 = lastGood st"
  using assms by (auto simp: check_health_def health_check_def health_probe_def Let_def
      split: prod.splits sum.splits option.splits)

lemma report_fresh:
  assumes "rq_stripe rq = Some api" and "\<And>s. \<exists>sn. revenue_pull (Some api) (rq_now rq) s = Inr sn"
  shows "\<exists>r sn st'. report env cfg rq st = (Inr r, st') \<and> \<not> rr_stale r \<and> rr_snapshot r = Some sn
    \<and> lastGood st' = Some sn"
proof -
  obtain health st1 where c: "check_health env cfg rq st = (health, st1)" "sh_state health \<noteq> Unconfigured"
    using check_health_configured [OF assms(1)] by blast
  obtain sn where "revenue_pull (Some api) (rq_now rq) (rv_db st1) = Inr sn"
    using assms(2) by blast
  then show ?thesis
    using c by (simp add: report_def assms(1))
qed

lemma report_stale:
  assumes "rq_stripe rq = Some api" and "\<And>s. \<exists>e. revenue_pull (Some api) (rq_now rq) s = Inl e"
  shows "\<exists>r st'. report env cfg rq st = (Inr r, st') \<and> rr_stale r \<and> rr_snapshot r = lastGood st"
proof -
  obtain health st1 where c: "check_health env cfg rq st = (health, st1)" "sh_state health \<noteq> Unconfigured"
    "lastGood st1 = lastGood st"
    using check_health_configured [OF assms(1)] by blast
  obtain e where "revenue_pull (Some api) (rq_now rq) (rv_db st1) = Inl e"
    using assms(2) by blast
  then show ?thesis
    using c by (simp add: report_def assms(1))
qed

lemma byTenant_fresh:
  assumes "rq_stripe rq = Some api" and "\<And>s. \<exists>sn. revenue_pull (Some api) (rq_now rq) s = Inr sn"
  shows "\<exists>rows st'. byTenant env cfg rq st = (Inr (False, rows), st')"
  using report_fresh [OF assms, of env cfg st] by (auto simp: byTenant_def)

section \<open>A small account\<close>

definition sample_invoices :: "paid_invoice list" where
  "sample_invoices =
    [\<lparr>pi_created = 1767225600, pi_paidAt = Some 1767225700, pi_currency = ''usd'', pi_amountPaid = 1200,
       pi_tax = Some 200, pi_customer = Some (CustomerId ''cus_1'')\<rparr>,
     \<lparr>pi_created = 1770000000, pi_paidAt = None, pi_currency = ''eur'', pi_amountPaid = 500,
       pi_tax = None, pi_customer = None\<rparr>,
     \<lparr>pi_created = 1770000000, pi_paidAt = None, pi_currency = ''usd'', pi_amountPaid = 1200,
       pi_tax = None, pi_customer = Some (CustomerObject ''cus_1'')\<rparr>]"

definition sample_refunds :: "stripe_refund list" where
  "sample_refunds =
    [\<lparr>rf_status = ''succeeded'', rf_created = 1770000001, rf_currency = ''gbp'', rf_amount = 300,
       rf_charge = Some (ChargeObject (Some (CustomerId ''cus_2'')))\<rparr>,
     \<lparr>rf_status = ''pending'', rf_created = 1770000002, rf_currency = ''usd'', rf_amount = 1200,
       rf_charge = Some (ChargeId ''ch_1'')\<rparr>]"

definition sample_reports :: stripe_reports where
  "sample_reports = \<lparr>balance_retrieve = Inr (), subscriptions_list = Inr
     [\<lparr>ss_status = ''canceled'', ss_trialEnd = Some 20, ss_canceledAt = Some 10,
        ss_items = [\<lparr>si_priceId = ''price_1'', si_nickname = None, si_interval = Some ''month''\<rparr>]\<rparr>],
     invoices_list = (\<lambda>since. Inr (filter (\<lambda>i. since \<le> pi_created i) sample_invoices)),
     refunds_list = (\<lambda>since. Inr (filter (\<lambda>r. since \<le> rf_created r) sample_refunds))\<rparr>"

definition sample_now :: time where
  "sample_now = 1771000000000"

definition sample_request :: revenue_request where
  "sample_request = \<lparr>rq_stripe = Some sample_reports, rq_page = PageUnreachable, rq_now = sample_now\<rparr>"

definition sample_revenue :: revenue_state where
  "sample_revenue = \<lparr>lastGood = None, lastState = None, rv_mail = no_sends, rv_db = sample_billing\<rparr>"

lemma sample_since: "year_start sample_now div 1000 = 1767225600"
  by code_simp

lemma sample_lists:
  "invoices_list sample_reports (year_start sample_now div 1000) = Inr sample_invoices"
  "refunds_list sample_reports (year_start sample_now div 1000) = Inr sample_refunds"
  by (simp_all add: sample_since sample_reports_def sample_invoices_def sample_refunds_def)

lemmas sample_books = books_of_def Let_def total_of_def sample_invoices_def sample_refunds_def
  refunded_def unattributed_def customer_id_def charge_customer_def

lemma sample_pull: "\<exists>sn. revenue_pull (Some sample_reports) sample_now s = Inr sn"
  by (rule revenue_pull_total [OF _ sample_lists]) (simp add: sample_reports_def)

lemma figures_refine_books_witness:
  "\<exists>sn. revenue_pull (Some sample_reports) sample_now sample_billing = Inr sn
     \<and> figures sn = books_of sample_invoices sample_refunds
     \<and> bk_net (figures sn) ''gbp'' = -300"
proof -
  obtain sn where sn: "revenue_pull (Some sample_reports) sample_now sample_billing = Inr sn"
    using sample_pull by blast
  have "bk_net (books_of sample_invoices sample_refunds) ''gbp'' = -300"
    by (simp add: sample_books)
  then show ?thesis
    using figures_refine_books [OF sn sample_lists] sn by simp
qed

lemma split_accounts_for_every_payment_witness:
  "\<exists>rows st'. byTenant sample_env sample_cfg sample_request sample_revenue = (Inr (False, rows), st')
     \<and> (\<Sum>row\<leftarrow>rows. amt (tv_net row) ''eur'') = 0
     \<and> unattributed sample_invoices sample_refunds ''eur'' = 500"
proof -
  obtain rows st' where
    b: "byTenant sample_env sample_cfg sample_request sample_revenue = (Inr (False, rows), st')"
    using byTenant_fresh [of sample_request sample_reports sample_env sample_cfg sample_revenue]
      sample_pull by (auto simp: sample_request_def)
  have "unattributed sample_invoices sample_refunds ''eur'' = 500"
    "bk_net (books_of sample_invoices sample_refunds) ''eur'' = 500"
    by (simp_all add: sample_books)
  moreover have q: "rq_stripe sample_request = Some sample_reports" "rq_now sample_request = sample_now"
    by (simp_all add: sample_request_def)
  have "(\<Sum>row\<leftarrow>rows. amt (tv_net row) ''eur'') + unattributed sample_invoices sample_refunds ''eur''
      = bk_net (books_of sample_invoices sample_refunds) ''eur''"
    using split_accounts_for_every_payment [OF b q(1)] sample_lists unfolding q by blast
  ultimately show ?thesis
    using b by auto
qed

text \<open>
  The listing asks for invoices by their creation, the figures are by payment: what was invoiced at
  the end of December and paid in January is in no month of the new year.
\<close>

lemma new_year_payment_missing:
  "\<exists>sn. revenue_pull (Some (sample_reports\<lparr>invoices_list := (\<lambda>since. Inr (filter
        (\<lambda>i. since \<le> pi_created i) [hd sample_invoices\<lparr>pi_created := 1767225599\<rparr>]))\<rparr>))
      sample_now sample_billing = Inr sn
    \<and> paid_at (hd sample_invoices) \<ge> year_start sample_now
    \<and> amt (grossYtd sn) ''usd'' = 0 \<and> grossByMonth sn = []"
proof -
  let ?p = "revenue_pull (Some (sample_reports\<lparr>invoices_list := (\<lambda>since. Inr (filter
        (\<lambda>i. since \<le> pi_created i) [hd sample_invoices\<lparr>pi_created := 1767225599\<rparr>]))\<rparr>))
      sample_now sample_billing"
  have "(case ?p of Inl e \<Rightarrow> False | Inr sn \<Rightarrow> amt (grossYtd sn) ''usd'' = 0 \<and> grossByMonth sn = [])"
    "paid_at (hd sample_invoices) \<ge> year_start sample_now"
    by code_simp+
  then show ?thesis
    by (auto split: sum.splits)
qed

end
