(* ===== verification/Revenue_Console.thy ===== *)
theory Revenue_Console
  imports Revenue
begin

text \<open>
  The console's view of the revenue: the CSV export (\<open>toCsv\<close> of \<open>revenue.service.ts\<close>), and the
  routes of \<open>revenue.controller.ts\<close> behind the platform administrator's guard, with the readiness
  check (\<open>billing-readiness.service.ts\<close>).
\<close>

section \<open>The CSV export\<close>

definition formula_char :: "char \<Rightarrow> bool" where
  "formula_char c = (c = CHR ''='' \<or> c = CHR ''+'' \<or> c = CHR ''-'' \<or> c = CHR ''@''
     \<or> c = CHR 0x09 \<or> c = CHR 0x0D)"

definition formula_start :: "string \<Rightarrow> bool" where
  "formula_start v = (case v of [] \<Rightarrow> False | c # _ \<Rightarrow> formula_char c)"

definition csv_safe :: "string \<Rightarrow> string" where
  "csv_safe v = (if formula_start v then CHR 0x27 # v else v)"

definition double_quotes :: "string \<Rightarrow> string" where
  "double_quotes v = concat (map (\<lambda>c. if c = CHR 0x22 then [c, c] else [c]) v)"

definition csv_special :: "char \<Rightarrow> bool" where
  "csv_special c = (c = CHR 0x22 \<or> c = CHR '','' \<or> c = CHR 0x0A)"

definition csv_esc :: "string \<Rightarrow> string" where
  "csv_esc v = (let safe = csv_safe v
     in if list_ex csv_special safe then CHR 0x22 # double_quotes safe @ [CHR 0x22] else safe)"

type_synonym csv_row = "string \<times> string \<times> string \<times> string" \<comment> \<open>section, key, currency, value\<close>

definition csv_line :: "csv_row \<Rightarrow> string" where
  "csv_line row = (case row of (section, key, currency, value) \<Rightarrow>
     join '','' [csv_esc section, csv_esc key, csv_esc currency, value])"

definition bool_name :: "bool \<Rightarrow> string" where
  "bool_name b = (if b then ''true'' else ''false'')"

definition monthly_rows :: "string \<Rightarrow> (string \<times> amounts) list \<Rightarrow> csv_row list" where
  "monthly_rows section bucket =
     concat (map (\<lambda>(month, per). map (\<lambda>(ccy, cents). (section, month, ccy, show_int cents)) per) bucket)"

definition ytd_rows :: "string \<Rightarrow> amounts \<Rightarrow> csv_row list" where
  "ytd_rows section b = map (\<lambda>(ccy, cents). (section, ''ytd'', ccy, show_int cents)) b"

definition count_rows :: "string \<Rightarrow> amounts \<Rightarrow> csv_row list" where
  "count_rows section b = map (\<lambda>(k, v). (section, k, [], show_int v)) b"

definition csv_rows :: "revenue_report \<Rightarrow> csv_row list" where
  "csv_rows r =
     (''meta'', ''stale'', [], bool_name (rr_stale r))
     # (''meta'', ''health'', [], health_name (sh_state (rr_health r)))
     # (case rr_snapshot r of
          None \<Rightarrow> []
        | Some s \<Rightarrow>
            [(''meta'', ''fetched_at'', [], fetchedAt s),
             (''subscriptions'', ''total'', [], show_int (sn_total s)),
             (''subscriptions'', ''canceled_during_trial'', [], show_int (canceledDuringTrial s))]
            @ count_rows ''subscriptions.by_status'' (byStatus s)
            @ count_rows ''subscriptions.by_plan'' (byPlan s)
            @ count_rows ''subscriptions.by_interval'' (byInterval s)
            @ monthly_rows ''billed.gross_by_month'' (grossByMonth s)
            @ monthly_rows ''billed.refunds_by_month'' (refundsByMonth s)
            @ ytd_rows ''billed.gross_ytd'' (grossYtd s)
            @ ytd_rows ''billed.tax_ytd'' (taxYtd s)
            @ ytd_rows ''billed.refunds_ytd'' (refundsYtd s)
            @ ytd_rows ''billed.net_ytd'' (netYtd s))"

definition toCsv :: "revenue_report \<Rightarrow> string" where
  "toCsv r = join [CHR 0x0A] (''section,key,currency,value'' # map csv_line (csv_rows r)) @ [CHR 0x0A]"

subsection \<open>Reading it back\<close>

text \<open>
  A reader of comma-separated values (RFC 4180, with a line feed at the end of a record): cells
  that start with a quote run to the closing quote, a doubled quote in them is a quote.
\<close>

datatype csv_mode = CellStart | Bare | Quoted | QuoteSeen

fun csv_go :: "csv_mode \<Rightarrow> string \<Rightarrow> string list \<Rightarrow> string \<Rightarrow> string list list" where
  "csv_go m cell row [] =
     (if m = CellStart \<and> row = [] then [] else [rev (rev cell # row)])"
| "csv_go m cell row (c # s) =
     (if m = Quoted
      then if c = CHR 0x22 then csv_go QuoteSeen cell row s else csv_go Quoted (c # cell) row s
      else if m = QuoteSeen \<and> c = CHR 0x22 then csv_go Quoted (c # cell) row s
      else if m = CellStart \<and> c = CHR 0x22 then csv_go Quoted [] row s
      else if c = CHR '','' then csv_go CellStart [] (rev cell # row) s
      else if c = CHR 0x0A then rev (rev cell # row) # csv_go CellStart [] [] s
      else csv_go Bare (c # cell) row s)"

definition csv_read :: "string \<Rightarrow> string list list" where
  "csv_read = csv_go CellStart [] []"

lemma csv_go_bare:
  "\<not> list_ex csv_special v \<Longrightarrow> csv_go Bare cell row (v @ s) = csv_go Bare (rev v @ cell) row s"
  by (induction v arbitrary: cell) (auto simp: csv_special_def)

lemma csv_go_quoted:
  "csv_go Quoted cell row (double_quotes v @ s) = csv_go Quoted (rev v @ cell) row s"
  by (induction v arbitrary: cell) (auto simp: double_quotes_def)

text \<open>What follows a cell decides alone how the reading goes on.\<close>

definition csv_after :: "string \<Rightarrow> string list \<Rightarrow> char \<Rightarrow> string \<Rightarrow> string list list" where
  "csv_after cell row d s = (if d = CHR '','' then csv_go CellStart [] (cell # row) s
     else rev (cell # row) # csv_go CellStart [] [] s)"

definition csv_end :: "char \<Rightarrow> bool" where
  "csv_end d = (d = CHR '','' \<or> d = CHR 0x0A)"

lemma csv_go_plain_cell:
  assumes "\<not> list_ex csv_special v" "csv_end d"
  shows "csv_go CellStart [] row (v @ d # s) = csv_after v row d s"
proof (cases v)
  case Nil
  then show ?thesis
    using assms(2) by (auto simp: csv_after_def csv_end_def)
next
  case (Cons c w)
  then have "csv_go CellStart [] row (v @ d # s) = csv_go Bare [c] row (w @ d # s)"
    using assms(1) by (auto simp: csv_special_def)
  also have "\<dots> = csv_after v row d s"
    using assms Cons by (subst csv_go_bare) (auto simp: csv_after_def csv_end_def)
  finally show ?thesis .
qed

lemma csv_go_esc:
  assumes "csv_end d"
  shows "csv_go CellStart [] row (csv_esc v @ d # s) = csv_after (csv_safe v) row d s"
proof (cases "list_ex csv_special (csv_safe v)")
  case True
  then have "csv_go CellStart [] row (csv_esc v @ d # s)
      = csv_go Quoted [] row (double_quotes (csv_safe v) @ CHR 0x22 # d # s)"
    by (simp add: csv_esc_def)
  then show ?thesis
    using assms by (auto simp: csv_go_quoted csv_after_def csv_end_def)
next
  case False
  then show ?thesis
    using csv_go_plain_cell [OF False assms] by (simp add: csv_esc_def)
qed

definition row_cells :: "csv_row \<Rightarrow> string list" where
  "row_cells row = (case row of (section, key, currency, value) \<Rightarrow>
     [csv_safe section, csv_safe key, csv_safe currency, value])"

lemma csv_go_line:
  assumes "\<not> list_ex csv_special (snd (snd (snd row)))"
  shows "csv_go CellStart [] [] (csv_line row @ CHR 0x0A # s) = row_cells row # csv_go CellStart [] [] s"
proof -
  obtain a b c v where row: "row = (a, b, c, v)"
    by (cases row)
  have line: "csv_line row @ CHR 0x0A # s = csv_esc a @ CHR '','' # csv_esc b @ CHR '','' # csv_esc c
      @ CHR '','' # v @ CHR 0x0A # s"
    by (simp add: csv_line_def row)
  have "csv_go CellStart [] [] (csv_line row @ CHR 0x0A # s)
      = csv_go CellStart [] [csv_safe c, csv_safe b, csv_safe a] (v @ CHR 0x0A # s)"
    unfolding line by (simp add: csv_go_esc csv_end_def csv_after_def)
  also have "\<dots> = row_cells row # csv_go CellStart [] [] s"
    using assms by (subst csv_go_plain_cell) (auto simp: row csv_after_def csv_end_def row_cells_def)
  finally show ?thesis .
qed

lemma csv_go_lines:
  assumes "\<And>row. row \<in> set rows \<Longrightarrow> \<not> list_ex csv_special (snd (snd (snd row)))" and "rows \<noteq> []"
  shows "csv_go CellStart [] [] (join [CHR 0x0A] (map csv_line rows) @ CHR 0x0A # s)
    = map row_cells rows @ csv_go CellStart [] [] s"
  using assms
proof (induction rows)
  case (Cons row rows)
  then show ?case
    by (cases rows) (simp_all add: csv_go_line)
qed simp

definition csv_header :: csv_row where
  "csv_header = (''section'', ''key'', ''currency'', ''value'')"

lemma csv_line_header: "csv_line csv_header = ''section,key,currency,value''"
  by code_simp

lemma plain_not_special: "list_all plain_char v \<Longrightarrow> \<not> list_ex csv_special v"
  by (auto simp: list_all_iff list_ex_iff plain_char_def csv_special_def)

lemma names_not_special:
  "\<not> list_ex csv_special (bool_name b)" "\<not> list_ex csv_special (health_name h)"
  by (cases b; simp add: bool_name_def csv_special_def)
    (cases h; simp add: health_name_def csv_special_def)

lemma csv_values_plain:
  assumes "row \<in> set (csv_rows r)"
    and "\<And>sn. rr_snapshot r = Some sn \<Longrightarrow> list_all plain_char (fetchedAt sn)"
  shows "\<not> list_ex csv_special (snd (snd (snd row)))"
  using assms(1)
  by (auto simp: csv_rows_def names_not_special plain_not_special plain_show_int assms(2)
      count_rows_def monthly_rows_def ytd_rows_def split: option.splits)

text \<open>Which values can start like a formula: a moment of the years 0 to 9999 and a count do not.\<close>

lemma digits_not_formula: "\<not> formula_start (digits_of n @ s)"
proof (cases "digits_of n")
  case Nil
  then show ?thesis
    by (subst (asm) digits_of.simps) (simp split: if_splits)
next
  case (Cons c w)
  then have "48 \<le> (of_char c :: nat) \<and> (of_char c :: nat) \<le> 57"
    using code_of_digits_of [of c n] by simp
  then show ?thesis
    using Cons by (auto simp: formula_start_def formula_char_def)
qed

lemma zeros_not_formula: "\<not> formula_start s \<Longrightarrow> \<not> formula_start (replicate n CHR ''0'' @ s)"
  by (cases n) (auto simp: formula_start_def formula_char_def)

lemma show_int_formula: "formula_start (show_int i @ s) \<longleftrightarrow> i < 0"
  using digits_not_formula by (auto simp: show_int_def) (simp add: formula_start_def formula_char_def)

lemma iso_not_formula:
  assumes "0 \<le> getUTCFullYear t" and "getUTCFullYear t \<le> 9999"
  shows "\<not> formula_start (toISOString t)"
proof -
  obtain y m d where ymd: "utc_date t = (y, m, d)"
    by (cases "utc_date t") auto
  then have y: "0 \<le> y" "y \<le> 9999"
    using assms by (simp_all add: getUTCFullYear_def)
  have "\<not> formula_start (padded 4 y @ s)" for s
    unfolding padded_def Let_def append_assoc
    by (rule zeros_not_formula) (use y in \<open>simp add: show_int_formula\<close>)
  then show ?thesis
    using y unfolding toISOString_def Let_def ymd by simp
qed

definition this_era :: "string \<Rightarrow> bool" where
  "this_era at \<longleftrightarrow> (\<exists>t. at = toISOString t \<and> 0 \<le> getUTCFullYear t \<and> getUTCFullYear t \<le> 9999)"

lemma csv_value_formula:
  assumes "row \<in> set (csv_rows r)" and "formula_start (snd (snd (snd row)))"
    and "\<And>sn. rr_snapshot r = Some sn \<Longrightarrow> \<not> formula_start (fetchedAt sn)"
  shows "\<exists>n < 0. snd (snd (snd row)) = show_int n"
proof -
  have "\<not> formula_start (bool_name b)" "\<not> formula_start (health_name h)" for b h
    by (cases b; simp add: bool_name_def formula_start_def formula_char_def)
      (cases h; simp add: health_name_def formula_start_def formula_char_def)
  then have "\<exists>n. snd (snd (snd row)) = show_int n"
    using assms by (auto simp: csv_rows_def count_rows_def monthly_rows_def ytd_rows_def split: option.splits)
  then show ?thesis
    using assms(2) show_int_formula [where s = "[]"] by auto
qed

text \<open>
  C17: The export is read back as the figures it was made of, whatever names, plans and currencies they
  carry: the cells of every row are the section, the key and the currency, made safe, and the
  value. None of the first three starts like a formula, which a spreadsheet would evaluate; the value,
  which is written as it is, does only where it is a negative number.
\<close>

theorem csv_roundtrip:
  assumes "\<And>sn. rr_snapshot r = Some sn \<Longrightarrow> this_era (fetchedAt sn)"
  shows "csv_read (toCsv r) = map row_cells (csv_header # csv_rows r)
    \<and> (\<forall>row \<in> set (csv_rows r). (\<forall>cell \<in> set (take 3 (row_cells row)). \<not> formula_start cell)
        \<and> (formula_start (row_cells row ! 3) \<longrightarrow> (\<exists>n < 0. row_cells row ! 3 = show_int n)))"
proof
  have plain: "list_all plain_char (fetchedAt sn)" "\<not> formula_start (fetchedAt sn)" if "rr_snapshot r = Some sn" for sn
    using assms [OF that] plain_toISOString iso_not_formula by (auto simp: this_era_def)
  have "toCsv r = join [CHR 0x0A] (map csv_line (csv_header # csv_rows r)) @ CHR 0x0A # []"
    by (simp add: toCsv_def csv_line_header)
  moreover have "\<not> list_ex csv_special (snd (snd (snd csv_header)))"
    by code_simp
  ultimately show "csv_read (toCsv r) = map row_cells (csv_header # csv_rows r)"
    unfolding csv_read_def
    using csv_values_plain [OF _ plain(1)]
    by (simp only:, subst csv_go_lines) (auto dest: csv_values_plain [OF _ plain(1)])
  have "\<not> formula_start (csv_safe v)" for v
    by (auto simp: csv_safe_def formula_start_def formula_char_def split: list.splits)
  moreover have "row_cells row ! 3 = snd (snd (snd row))" for row
    by (simp add: row_cells_def numeral_3_eq_3 split: prod.split)
  ultimately show "\<forall>row \<in> set (csv_rows r). (\<forall>cell \<in> set (take 3 (row_cells row)). \<not> formula_start cell)
        \<and> (formula_start (row_cells row ! 3) \<longrightarrow> (\<exists>n < 0. row_cells row ! 3 = show_int n))"
    using csv_value_formula [OF _ _ plain(2)] by (auto simp: row_cells_def numeral_3_eq_3)
qed

definition sample_snapshot :: snapshot where
  "sample_snapshot = (empty_snapshot ''2026-02-13T16:26:40.000Z'' ''2026-01-01T00:00:00.000Z'')
     \<lparr>byPlan := [(''=cmd|Pro, \"team\"|month'', 2)], grossYtd := [(''usd'', 2400)]\<rparr>"

definition sample_report :: revenue_report where
  "sample_report = \<lparr>rr_stale = True, rr_health = \<lparr>sh_state = StripeDown, sh_indicator = None,
     sh_checkedAt = [], sh_detail = []\<rparr>, rr_snapshot = Some sample_snapshot\<rparr>"

lemma csv_roundtrip_witness:
  "[''subscriptions.by_plan'', CHR 0x27 # ''=cmd|Pro, \"team\"|month'', [], ''2'']
     \<in> set (csv_read (toCsv sample_report))"
proof -
  have "fetchedAt sample_snapshot = toISOString sample_now \<and> getUTCFullYear sample_now = 2026"
    by code_simp
  then have "this_era (fetchedAt sample_snapshot)"
    by (intro this_era_def [THEN iffD2] exI [of _ sample_now]) simp
  then have "csv_read (toCsv sample_report) = map row_cells (csv_header # csv_rows sample_report)"
    using csv_roundtrip [of sample_report] by (simp add: sample_report_def)
  moreover have "(''subscriptions.by_plan'', ''=cmd|Pro, \"team\"|month'', [], show_int 2)
      \<in> set (csv_rows sample_report)"
    by (simp add: csv_rows_def sample_report_def sample_snapshot_def empty_snapshot_def count_rows_def)
  moreover have "row_cells (''subscriptions.by_plan'', ''=cmd|Pro, \"team\"|month'', [], show_int 2)
      = [''subscriptions.by_plan'', CHR 0x27 # ''=cmd|Pro, \"team\"|month'', [], ''2'']"
    by code_simp
  ultimately show ?thesis
    by (metis (no_types, lifting) image_eqI list.set_intros(2) list.set_map)
qed

section \<open>Could a payment be taken\<close>

record app_readiness =
  ar_clientId :: string
  ar_name :: string
  sellableHere :: nat
  strandedOtherMode :: nat
  unverified :: nat
  ar_tiers :: "string list"

record billing_readiness =
  br_mode :: stripe_mode
  secretKeySet :: bool
  webhookSecretSet :: bool
  br_apps :: "app_readiness list"
  problems :: "string list"

text \<open>
  The order of JavaScript's \<open>sort()\<close> on strings, by code units; the database's order of names is
  the argument \<open>collation\<close>.
\<close>

fun js_string_le :: "string \<Rightarrow> string \<Rightarrow> bool" where
  "js_string_le [] t = True"
| "js_string_le (c # s) [] = False"
| "js_string_le (c # s) (d # t) = ((of_char c :: nat) < of_char d \<or> c = d \<and> js_string_le s t)"

fun js_insert :: "string \<Rightarrow> string list \<Rightarrow> string list" where
  "js_insert x [] = [x]"
| "js_insert x (y # ys) = (if js_string_le x y then x # y # ys else y # js_insert x ys)"

definition js_sort :: "string list \<Rightarrow> string list" where
  "js_sort xs = foldr js_insert xs []"

definition in_mode :: "config \<Rightarrow> app_price \<Rightarrow> bool" where
  "in_mode cfg p = (stripeMode cfg = Unset \<or> p_livemode p = (stripeMode cfg = Live))"

definition readiness_row :: "config \<Rightarrow> db \<Rightarrow> app \<Rightarrow> app_readiness" where
  "readiness_row cfg s app =
     (let ps = filter (\<lambda>p. p_appId p = a_id app) (prices s);
          here = filter (in_mode cfg) ps;
          stranded = (if stripeMode cfg = Unset then []
            else filter (\<lambda>p. p_livemode p \<noteq> (stripeMode cfg = Live)) ps)
      in \<lparr>ar_clientId = a_clientId app, ar_name = a_name app,
          sellableHere = length (filter p_sellable here), strandedOtherMode = length stranded,
          unverified = count_where (\<lambda>p. p_stripeProductId p = []) ps,
          ar_tiers = js_sort (remdups (map p_tier (filter p_sellable here)))\<rparr>)"

text \<open>The sentences for an operator, each cut after what tells it apart.\<close>

definition row_problems :: "config \<Rightarrow> app_readiness \<Rightarrow> string list" where
  "row_problems cfg row =
     (if 0 < unverified row
      then [ar_name row @ '' has '' @ show_int (int (unverified row))
            @ '' price(s) whose amount was never read from Stripe'']
      else [])
     @ (if sellableHere row = 0 \<and> 0 < strandedOtherMode row
        then [ar_name row @ '' has '' @ show_int (int (strandedOtherMode row))
              @ '' price(s) registered, but all of them belong to ''
              @ (if stripeMode cfg = Live then ''test'' else ''live'') @ '' mode'']
        else if 0 < strandedOtherMode row
        then [ar_name row @ '' has '' @ show_int (int (strandedOtherMode row))
              @ '' price(s) from the other Stripe mode.'']
        else [])"

definition readiness_check :: "config \<Rightarrow> (string \<Rightarrow> int) \<Rightarrow> db \<Rightarrow> billing_readiness" where
  "readiness_check cfg collation s =
     (let keySet = trim (nullish (stripeSecretKey cfg) []) \<noteq> [];
          hookSet = trim (nullish (stripeWebhookSecret cfg) []) \<noteq> [];
          rows = map (readiness_row cfg s)
            (sort_key (collation \<circ> a_name) (filter (\<lambda>a. a_deletedAt a = None) (apps s)))
      in \<lparr>br_mode = stripeMode cfg, secretKeySet = keySet, webhookSecretSet = hookSet, br_apps = rows,
          problems =
            (if \<not> keySet then [''STRIPE_SECRET_KEY is not set'']
             else if stripeMode cfg = Unset
             then [''STRIPE_SECRET_KEY is set but is not a recognised secret key''] else [])
            @ (if \<not> hookSet then [''STRIPE_WEBHOOK_SECRET is not set''] else [])
            @ concat (map (row_problems cfg) rows)\<rparr>)"

section \<open>The routes\<close>

datatype revenue_call = CallSummary | CallReadiness | CallByTenant | CallHealth | CallExport

datatype revenue_answer = AnsSummary revenue_report | AnsReadiness billing_readiness
  | AnsByTenant bool "tenant_revenue list" | AnsHealth stripe_health | AnsExport string

definition revenue_route ::
  "env \<Rightarrow> config \<Rightarrow> (string \<Rightarrow> int) \<Rightarrow> revenue_call \<Rightarrow> revenue_request \<Rightarrow> revenue_state \<Rightarrow>
   revenue_answer res \<times> revenue_state" where
  "revenue_route env cfg collation call rq st =
     (case call of
        CallSummary \<Rightarrow> (case report env cfg rq st of
            (Inl e, st1) \<Rightarrow> (Inl e, st1) | (Inr r, st1) \<Rightarrow> (Inr (AnsSummary r), st1))
      | CallReadiness \<Rightarrow> (Inr (AnsReadiness (readiness_check cfg collation (rv_db st))), st)
      | CallByTenant \<Rightarrow> (case byTenant env cfg rq st of
            (Inl e, st1) \<Rightarrow> (Inl e, st1) | (Inr (stale, rows), st1) \<Rightarrow> (Inr (AnsByTenant stale rows), st1))
      | CallHealth \<Rightarrow> (case check_health env cfg rq st of (h, st1) \<Rightarrow> (Inr (AnsHealth h), st1))
      | CallExport \<Rightarrow> (case report env cfg rq st of
            (Inl e, st1) \<Rightarrow> (Inl e, st1) | (Inr r, st1) \<Rightarrow> (Inr (AnsExport (toCsv r)), st1)))"

definition revenue_api ::
  "env \<Rightarrow> config \<Rightarrow> (string \<Rightarrow> int) \<Rightarrow> string option \<Rightarrow> revenue_call \<Rightarrow> revenue_request \<Rightarrow> revenue_state \<Rightarrow>
   revenue_answer res \<times> revenue_state" where
  "revenue_api env cfg collation header call rq st =
     (case jwt_guard env header (rq_now rq) of
        Inl e \<Rightarrow> (Inl e, st)
      | Inr c \<Rightarrow>
        (case platform_admin_guard c of
           Inl e \<Rightarrow> (Inl e, st)
         | Inr _ \<Rightarrow> revenue_route env cfg collation call rq st))"

type_synonym console_call = "string option \<times> revenue_call \<times> revenue_request"

definition serve :: "env \<Rightarrow> config \<Rightarrow> (string \<Rightarrow> int) \<Rightarrow> console_call list \<Rightarrow> revenue_state \<Rightarrow> revenue_state" where
  "serve env cfg collation calls st =
     foldl (\<lambda>st (header, call, rq). snd (revenue_api env cfg collation header call rq st)) st calls"

section \<open>Figures are labelled with the moment they are true of\<close>

definition true_of :: "revenue_request \<Rightarrow> snapshot \<Rightarrow> bool" where
  "true_of rq sn = (\<exists>api invoices refunds. rq_stripe rq = Some api
     \<and> invoices_list api (year_start (rq_now rq) div 1000) = Inr invoices
     \<and> refunds_list api (year_start (rq_now rq) div 1000) = Inr refunds
     \<and> figures sn = books_of invoices refunds \<and> fetchedAt sn = toISOString (rq_now rq))"

lemma pull_true_of:
  assumes "revenue_pull (rq_stripe rq) (rq_now rq) s = Inr sn"
  shows "true_of rq sn"
proof -
  obtain api invoices refunds sn1 fin where r: "rq_stripe rq = Some api"
    "invoices_list api (year_start (rq_now rq) div 1000) = Inr invoices"
    "refunds_list api (year_start (rq_now rq) div 1000) = Inr refunds"
    "fetchedAt sn1 = toISOString (rq_now rq)"
    "fin = foldl tally_refund (foldl tally_invoice sn1 invoices) refunds"
    "sn = fin\<lparr>netYtd := net_of (grossYtd fin) (refundsYtd fin)\<rparr>"
    using assms by (rule revenue_pull_ok)
  have "fetchedAt fin = fetchedAt sn1"
    unfolding r(5) by (simp add: fold_same [where h = fetchedAt] tally_defs)
  then show ?thesis
    using figures_refine_books [of api "rq_now rq" s sn invoices refunds] assms r
    by (auto simp: true_of_def)
qed

lemma report_keeps_true:
  assumes "report env cfg rq st = (out, st')"
  shows "lastGood st' = lastGood st \<or> (\<exists>sn. lastGood st' = Some sn \<and> true_of rq sn)"
    and "out = Inr r \<Longrightarrow> rr_snapshot r = Some sn \<Longrightarrow>
      (if rr_stale r then lastGood st = Some sn else true_of rq sn)"
  using assms pull_true_of
  by (auto simp: report_def check_health_def split: prod.splits if_splits sum.splits)

lemma api_keeps_true:
  assumes "revenue_api env cfg collation header call rq st = (out, st')"
  shows "lastGood st' = lastGood st \<or> (\<exists>sn. lastGood st' = Some sn \<and> true_of rq sn)"
proof -
  obtain out1 st1 where r: "report env cfg rq st = (out1, st1)"
    by (cases "report env cfg rq st")
  have h: "lastGood (snd (check_health env cfg rq st)) = lastGood st"
    by (simp add: check_health_def split: prod.split)
  have "st' = st \<or> st' = st1 \<or> st' = snd (check_health env cfg rq st)"
    using assms r
    by (auto simp: revenue_api_def revenue_route_def byTenant_def
        split: sum.splits revenue_call.splits prod.splits)
  then show ?thesis
    using report_keeps_true(1) [OF r] h by auto
qed

lemma serve_keeps_true:
  assumes "lastGood (serve env cfg collation calls st) = Some sn" and "lastGood st = None"
  shows "\<exists>(header, call, rq) \<in> set calls. true_of rq sn"
  using assms(1)
proof (induction calls rule: rev_induct)
  case Nil
  then show ?case
    using assms(2) by (simp add: serve_def)
next
  case (snoc c calls)
  obtain header call rq where c: "c = (header, call, rq)"
    by (cases c)
  let ?st = "serve env cfg collation calls st"
  have "serve env cfg collation (calls @ [c]) st = snd (revenue_api env cfg collation header call rq ?st)"
    by (simp add: serve_def c)
  then show ?case
    using snoc api_keeps_true [of env cfg collation header call rq ?st]
    by (cases "revenue_api env cfg collation header call rq ?st") (auto simp: c)
qed

text \<open>
  C12: A figure is never passed off as another moment's: whatever the console asked before, a summary is
  answered to platform administrators only, and its figures are the books of what Stripe answered
  at the moment they are labelled with. That moment is now unless the report says that it is stale;
  then it is the moment of an earlier request.
\<close>

theorem figures_labelled:
  assumes "revenue_api env cfg collation header CallSummary rq
      (serve env cfg collation calls st) = (Inr (AnsSummary r), st')"
    and "lastGood st = None" and "rr_snapshot r = Some sn"
  shows "(\<exists>c. jwt_guard env header (rq_now rq) = Inr c \<and> platform_admin_guard c = Inr ())
    \<and> (if rr_stale r then \<exists>(header', call', rq') \<in> set calls. true_of rq' sn else true_of rq sn)"
proof -
  let ?st = "serve env cfg collation calls st"
  have "report env cfg rq ?st = (Inr r, st')"
    and g: "\<exists>c. jwt_guard env header (rq_now rq) = Inr c \<and> platform_admin_guard c = Inr ()"
    using assms(1) by (auto simp: revenue_api_def revenue_route_def split: sum.splits prod.splits)
  then show ?thesis
    using report_keeps_true(2) [of env cfg rq ?st _ st' r sn] assms(2,3) serve_keeps_true
    by (metis (no_types, lifting))
qed

text \<open>
  Ready means ready: the check finds no problem exactly when there is a recognised key and a webhook
  secret and no registered price of a live app is a placeholder or of the other mode; so then every
  registered price passes the mode check of checkout. The counts are those of the prices that the
  app can list.
\<close>

lemma readiness_row_listed:
  "sellableHere (readiness_row cfg s app) = length (listPrices cfg (a_id app) s)"
  "strandedOtherMode (readiness_row cfg s app) = 0 \<longleftrightarrow>
     (\<forall>p \<in> set (prices s). p_appId p = a_id app \<longrightarrow> assertPriceMode cfg p = Inr ())"
proof -
  have "filter p_sellable (filter (in_mode cfg) (filter (\<lambda>p. p_appId p = a_id app) (prices s)))
      = filter (\<lambda>p. p_appId p = a_id app \<and> p_sellable p
          \<and> (stripeMode cfg \<noteq> Unset \<longrightarrow> p_livemode p = (stripeMode cfg = Live))) (prices s)"
    by (auto simp: in_mode_def intro: filter_cong)
  then show "sellableHere (readiness_row cfg s app) = length (listPrices cfg (a_id app) s)"
    by (simp add: readiness_row_def Let_def listPrices_def)
  show "strandedOtherMode (readiness_row cfg s app) = 0 \<longleftrightarrow>
     (\<forall>p \<in> set (prices s). p_appId p = a_id app \<longrightarrow> assertPriceMode cfg p = Inr ())"
    by (auto simp: readiness_row_def Let_def assertPriceMode_def filter_empty_conv)
qed

lemma row_problems_Nil:
  "row_problems cfg row = [] \<longleftrightarrow> unverified row = 0 \<and> strandedOtherMode row = 0"
  by (auto simp: row_problems_def)

theorem readiness_exact:
  "(problems (readiness_check cfg collation s) = []
    \<longleftrightarrow> trim (nullish (stripeSecretKey cfg) []) \<noteq> [] \<and> stripeMode cfg \<noteq> Unset
      \<and> trim (nullish (stripeWebhookSecret cfg) []) \<noteq> []
      \<and> (\<forall>app \<in> set (apps s). a_deletedAt app = None \<longrightarrow>
          (\<forall>p \<in> set (prices s). p_appId p = a_id app \<longrightarrow>
            p_stripeProductId p \<noteq> [] \<and> assertPriceMode cfg p = Inr ())))
   \<and> map sellableHere (br_apps (readiness_check cfg collation s))
     = map (\<lambda>app. length (listPrices cfg (a_id app) s))
         (sort_key (collation \<circ> a_name) (filter (\<lambda>a. a_deletedAt a = None) (apps s)))"
proof -
  have u: "unverified (readiness_row cfg s app) = 0 \<longleftrightarrow>
      (\<forall>p \<in> set (prices s). p_appId p = a_id app \<longrightarrow> p_stripeProductId p \<noteq> [])" for app
    by (auto simp: readiness_row_def Let_def count_where_0)
  show ?thesis
    by (auto simp: readiness_check_def Let_def row_problems_Nil u readiness_row_listed comp_def)
qed

definition ready_cfg :: config where
  "ready_cfg = sample_cfg\<lparr>stripeSecretKey := Some ''sk_test_1'', stripeWebhookSecret := Some ''whsec_1'',
     stripeMode := Test\<rparr>"

lemma readiness_exact_witness:
  "problems (readiness_check ready_cfg (\<lambda>_. 0) sample_billing) = []
   \<and> problems (readiness_check ready_cfg (\<lambda>_. 0)
       (sample_billing\<lparr>prices := [sample_price\<lparr>p_livemode := True\<rparr>]\<rparr>)) \<noteq> []"
  unfolding readiness_exact [THEN conjunct1]
  by code_simp

definition admin_env :: env where
  "admin_env = sample_env\<lparr>jwt_verify := (\<lambda>now tok. Some [(''platform_admin'', JBool True)])\<rparr>"

lemma figures_labelled_witness:
  "\<exists>r st' sn. revenue_api admin_env sample_cfg (\<lambda>_. 0) (Some ''Bearer x'') CallSummary
      (sample_request\<lparr>rq_stripe := Some (sample_reports\<lparr>balance_retrieve := Inl ''timeout'',
          invoices_list := (\<lambda>_. Inl ''timeout'')\<rparr>), rq_now := sample_now + 5\<rparr>)
      (serve admin_env sample_cfg (\<lambda>_. 0) [(Some ''Bearer x'', CallSummary, sample_request)]
         sample_revenue) = (Inr (AnsSummary r), st')
     \<and> rr_stale r \<and> rr_snapshot r = Some sn \<and> true_of sample_request sn"
proof -
  let ?rq = "sample_request\<lparr>rq_stripe := Some (sample_reports\<lparr>balance_retrieve := Inl ''timeout'',
          invoices_list := (\<lambda>_. Inl ''timeout'')\<rparr>), rq_now := sample_now + 5\<rparr>"
  let ?st = "serve admin_env sample_cfg (\<lambda>_. 0) [(Some ''Bearer x'', CallSummary, sample_request)]
         sample_revenue"
  have g: "jwt_guard admin_env (Some ''Bearer x'') now = Inr [(''platform_admin'', JBool True)]" for now
    by (simp add: jwt_guard_def admin_env_def starts_with_def claim_truthy_def)
  have p: "platform_admin_guard [(''platform_admin'', JBool True)] = Inr ()"
    by (simp add: platform_admin_guard_def)
  have q: "rq_stripe sample_request = Some sample_reports" "rq_now sample_request = sample_now"
    by (simp_all add: sample_request_def)
  have "\<exists>sn. lastGood ?st = Some sn"
    using report_fresh [OF q(1), of admin_env sample_cfg sample_revenue] sample_pull
    by (auto simp: serve_def revenue_api_def g p revenue_route_def q)
  then obtain sn where sn: "lastGood ?st = Some sn"
    by blast
  have "rq_stripe ?rq = Some (sample_reports\<lparr>balance_retrieve := Inl ''timeout'',
      invoices_list := (\<lambda>_. Inl ''timeout'')\<rparr>)"
    by simp
  moreover have "\<exists>e. revenue_pull (Some (sample_reports\<lparr>balance_retrieve := Inl ''timeout'',
      invoices_list := (\<lambda>_. Inl ''timeout'')\<rparr>)) (rq_now ?rq) s = Inl e" for s
    by (simp add: revenue_pull_def sample_reports_def Let_def)
  ultimately obtain r st' where "report admin_env sample_cfg ?rq ?st = (Inr r, st')" "rr_stale r"
    "rr_snapshot r = Some sn"
    using report_stale [of ?rq _ admin_env sample_cfg ?st] sn by fastforce
  then have r: "revenue_api admin_env sample_cfg (\<lambda>_. 0) (Some ''Bearer x'') CallSummary ?rq ?st
      = (Inr (AnsSummary r), st')" "rr_stale r" "rr_snapshot r = Some sn"
    by (simp_all add: revenue_api_def g p revenue_route_def)
  have "lastGood sample_revenue = None"
    by (simp add: sample_revenue_def)
  then show ?thesis
    using figures_labelled [OF r(1) _ r(3)] r by auto
qed

text \<open>
  Not only the way down and the way back are announced: when one failure follows another, the loss
  of connectivity is mailed again.
\<close>

lemma alert_between_two_failures:
  "\<exists>alert. transition_alert (Some ''ops@x'') (Some StripeDown)
      (health_probe (sample_reports\<lparr>balance_retrieve := Inl ''timeout''\<rparr>) PageUnreachable []) = Some alert
    \<and> starts_with (sd_subject alert) ''[URGENT] Stripe connectivity lost''"
  by (simp add: transition_alert_def health_probe_def statusPageIndicator_def alert_of_def Let_def
      starts_with_def)

end
