(* ===== verification/Env_File.thy ===== *)
theory Env_File
  imports Prelude
begin

text \<open>
  \<open>patchEnvFile\<close> of \<open>cli/src/register.ts\<close>: lines \<open>KEY=value\<close> of a text are replaced in place, and
  missing ones appended.
\<close>

section \<open>Lines of a text\<close>

text \<open>The code units that end a line for \<open>^\<close>, \<open>$\<close> (flag \<open>m\<close>) and \<open>.\<close> of a regular expression.\<close>

definition line_end :: "char \<Rightarrow> bool" where
  "line_end c = (c = CHR 0x0A \<or> c = CHR 0x0D)"

text \<open>
  The first match of \<open>/^KEY=.*$/m\<close> for a key that stands for itself in a regular expression (a
  \<open>word_key\<close> below: no dot, star or bracket): what is before it, the match, and what is after it. The
  flag says whether the place is the start of a line.
\<close>

fun find_line :: "string \<Rightarrow> bool \<Rightarrow> string \<Rightarrow> (string \<times> string \<times> string) option" where
  "find_line key bol [] = (if bol \<and> starts_with [] (key @ ''='') then Some ([], [], []) else None)"
| "find_line key bol (c # s) =
     (if bol \<and> starts_with (c # s) (key @ ''='')
      then Some ([], takeWhile (\<lambda>d. \<not> line_end d) (c # s), dropWhile (\<lambda>d. \<not> line_end d) (c # s))
      else map_option (\<lambda>(b, m, a). (c # b, m, a)) (find_line key (line_end c) s))"

text \<open>
  What \<open>String.prototype.replace\<close> puts in for a match of a regular expression without groups: a
  dollar sign and a dollar sign, ampersand, backtick or apostrophe stand for a dollar sign, the
  match, and what is before and after it.
\<close>

fun expand_dollar :: "string \<Rightarrow> string \<Rightarrow> string \<Rightarrow> string \<Rightarrow> string" where
  "expand_dollar b m a (c # d # s) =
     (if c = CHR ''$'' \<and> d = CHR ''$'' then CHR ''$'' # expand_dollar b m a s
      else if c = CHR ''$'' \<and> d = CHR ''&'' then m @ expand_dollar b m a s
      else if c = CHR ''$'' \<and> d = CHR 0x60 then b @ expand_dollar b m a s
      else if c = CHR ''$'' \<and> d = CHR 0x27 then a @ expand_dollar b m a s
      else c # expand_dollar b m a (d # s))"
| "expand_dollar b m a s = s"

text \<open>\<open>out.replace(/\n?$/, "\n")\<close>: the text with a line feed at its end.\<close>

definition ending_line :: "string \<Rightarrow> string" where
  "ending_line out = (if out \<noteq> [] \<and> last out = CHR 0x0A then out else out @ [CHR 0x0A])"

section \<open>Patching\<close>

definition patch_entry :: "string \<Rightarrow> string \<times> string \<Rightarrow> string" where
  "patch_entry out entry =
     (case entry of (key, value) \<Rightarrow> let line = key @ ''='' @ value in
        case find_line key True out of
          Some (b, m, a) \<Rightarrow> b @ expand_dollar b m a line @ a
        | None \<Rightarrow> ending_line out @ line @ [CHR 0x0A])"

text \<open>The file's text, \<open>None\<close> where it does not exist, and the entries in the order of the object.\<close>

definition patchEnvFile :: "string option \<Rightarrow> (string \<times> string) list \<Rightarrow> string" where
  "patchEnvFile file entries =
     (let out = foldl patch_entry (nullish file []) entries
      in if out \<noteq> [] \<and> hd out = CHR 0x0A then tl out else out)"

section \<open>Reading an entry\<close>

text \<open>The value that the first line of a key gives it.\<close>

definition env_value :: "string \<Rightarrow> string \<Rightarrow> string option" where
  "env_value key text = (case find_line key True text of None \<Rightarrow> None
     | Some (b, m, a) \<Rightarrow> Some (drop (length key + 1) m))"

text \<open>A key has no equals sign and ends no line; a value to be written is one line without dollar signs.\<close>

definition env_key :: "string \<Rightarrow> bool" where
  "env_key k = (k \<noteq> [] \<and> list_all (\<lambda>c. c \<noteq> CHR ''='' \<and> \<not> line_end c) k)"

definition plain_value :: "string \<Rightarrow> bool" where
  "plain_value v = list_all (\<lambda>c. c \<noteq> CHR ''$'' \<and> \<not> line_end c) v"

text \<open>
  The keys the code's regular expression matches as they are, letters, digits and underscores, and the
  values its replacement leaves as they are: one line in which no dollar sign is followed by one of
  the four characters that make it a pattern.
\<close>

definition word_char :: "char \<Rightarrow> bool" where
  "word_char c = (let n = of_char c :: nat in
     65 \<le> n \<and> n \<le> 90 \<or> 97 \<le> n \<and> n \<le> 122 \<or> 48 \<le> n \<and> n \<le> 57 \<or> n = 95)"

definition word_key :: "string \<Rightarrow> bool" where
  "word_key k \<longleftrightarrow> k \<noteq> [] \<and> list_all word_char k"

fun no_pattern :: "string \<Rightarrow> bool" where
  "no_pattern (c # d # s) \<longleftrightarrow>
     \<not> (c = CHR ''$'' \<and> d \<in> {CHR ''$'', CHR ''&'', CHR 0x60, CHR 0x27}) \<and> no_pattern (d # s)"
| "no_pattern s \<longleftrightarrow> True"

definition literal_value :: "string \<Rightarrow> bool" where
  "literal_value v \<longleftrightarrow> no_pattern v \<and> list_all (\<lambda>c. \<not> line_end c) v"

lemma word_key_env:
  assumes "word_key k"
  shows "env_key k" "list_all (\<lambda>c. c \<noteq> CHR ''$'') k"
proof -
  have "\<not> word_char CHR ''$''" "\<not> word_char CHR ''=''" "\<not> word_char CHR 0x0A" "\<not> word_char CHR 0x0D"
    by code_simp+
  then have "c \<noteq> CHR ''$'' \<and> c \<noteq> CHR ''='' \<and> \<not> line_end c" if "c \<in> set k" for c
    using assms that by (auto simp: word_key_def list_all_iff line_end_def)
  then show "env_key k" "list_all (\<lambda>c. c \<noteq> CHR ''$'') k"
    using assms by (auto simp: env_key_def word_key_def list_all_iff)
qed

lemma no_pattern_Cons: "c \<noteq> CHR ''$'' \<Longrightarrow> no_pattern (c # v) = no_pattern v"
  by (cases v) simp_all

lemma no_pattern_prepend: "list_all (\<lambda>c. c \<noteq> CHR ''$'') k \<Longrightarrow> no_pattern (k @ v) = no_pattern v"
  by (induction k) (simp_all add: no_pattern_Cons del: no_pattern.simps(1))

lemma no_pattern_plain: "list_all (\<lambda>c. c \<noteq> CHR ''$'') v \<Longrightarrow> no_pattern v"
  using no_pattern_prepend [of v "[]"] by simp

lemma plain_value_literal:
  assumes "plain_value v"
  shows "literal_value v"
proof -
  have "list_all (\<lambda>c. c \<noteq> CHR ''$'') v" "list_all (\<lambda>c. \<not> line_end c) v"
    using assms by (auto simp: plain_value_def list_all_iff)
  then show ?thesis
    by (simp add: literal_value_def no_pattern_plain)
qed

text \<open>
  The text as its lines: reading a key is finding the first line that starts with it, and a match
  of \<open>find_line\<close> is that line, between what ends the line before and what ends the line itself.
\<close>

definition of_key :: "string \<Rightarrow> string \<Rightarrow> bool" where
  "of_key key l = starts_with l (key @ ''='')"

abbreviation lines_of :: "string \<Rightarrow> string list" where
  "lines_of \<equiv> split_at line_end"

lemma split_at_plain: "list_all (\<lambda>c. \<not> p c) m \<Longrightarrow> split_at p m = [m]"
  by (induction m) auto

lemma split_at_line:
  "list_all (\<lambda>c. \<not> p c) m \<Longrightarrow> p d \<Longrightarrow> split_at p (m @ d # s) = m # split_at p s"
  by (induction m) auto

text \<open>What comes before a line, up to an end of line, and what comes after it.\<close>

definition lines_before :: "string \<Rightarrow> string list" where
  "lines_before b = (if b = [] then [] else butlast (lines_of b))"

definition lines_after :: "string \<Rightarrow> string list" where
  "lines_after a = (if a = [] then [] else lines_of (tl a))"

definition at_line :: "string \<Rightarrow> string \<Rightarrow> bool" where
  "at_line b a = ((b = [] \<or> line_end (last b)) \<and> (a = [] \<or> line_end (hd a)))"

lemma split_at_last_end: "b \<noteq> [] \<Longrightarrow> p (last b) \<Longrightarrow> butlast (split_at p b) \<noteq> []"
proof (induction b)
  case (Cons c b)
  then show ?case
    by (cases "b = []") (auto split: list.splits)
qed simp

lemma split_at_end: "b \<noteq> [] \<Longrightarrow> p (last b) \<Longrightarrow> split_at p (b @ s) = butlast (split_at p b) @ split_at p s"
proof (induction b)
  case (Cons c b)
  show ?case
  proof (cases "b = []")
    case True
    then show ?thesis
      using Cons.prems by simp
  next
    case False
    then have "split_at p (b @ s) = butlast (split_at p b) @ split_at p s" "butlast (split_at p b) \<noteq> []"
      using Cons split_at_last_end [of b p] by auto
    then show ?thesis
      by (auto split: list.splits)
  qed
qed simp

lemma lines_of_line:
  assumes "at_line b a" and "list_all (\<lambda>c. \<not> line_end c) m"
  shows "lines_of (b @ m @ a) = lines_before b @ m # lines_after a"
proof -
  have "lines_of (m @ a) = m # lines_after a"
    using assms by (cases a) (auto simp: lines_after_def at_line_def split_at_plain split_at_line)
  then show ?thesis
    using assms(1) by (auto simp: lines_before_def at_line_def split_at_end)
qed

lemma starts_with_append: "starts_with s p \<longleftrightarrow> (\<exists>r. s = p @ r)"
  by (auto simp: starts_with_def) (metis append_take_drop_id)

lemma starts_with_Nil: "starts_with [] p \<longleftrightarrow> p = []"
  by (auto simp: starts_with_def)

lemma of_key_Nil: "\<not> of_key key []"
  by (simp add: of_key_def starts_with_Nil)

lemma of_key_same:
  assumes "of_key k l" "of_key k' l" "env_key k" "env_key k'"
  shows "k = k'"
proof -
  have "\<exists>r. l = k @ CHR ''='' # r" "\<exists>r. l = k' @ CHR ''='' # r"
    using assms(1,2) by (simp_all add: of_key_def starts_with_append)
  then obtain r r' where l: "l = k @ CHR ''='' # r" "l = k' @ CHR ''='' # r'"
    by blast
  have "takeWhile (\<lambda>c. c \<noteq> CHR ''='') l = k"
    using assms(3) unfolding l(1) by (subst takeWhile_append2) (auto simp: env_key_def list_all_iff)
  moreover have "takeWhile (\<lambda>c. c \<noteq> CHR ''='') l = k'"
    using assms(4) unfolding l(2) by (subst takeWhile_append2) (auto simp: env_key_def list_all_iff)
  ultimately show ?thesis
    by simp
qed

lemma first_line: "\<exists>r. s = hd (lines_of s) @ r"
  by (induction s) (auto split: list.split)

lemma of_key_first:
  assumes "of_key key (hd (lines_of s))"
  shows "starts_with s (key @ ''='')"
  using assms first_line [of s] by (auto simp: of_key_def starts_with_append)

lemma lines_before_Cons:
  "line_end c \<Longrightarrow> lines_before (c # b) = [] # lines_before b"
  "\<not> line_end c \<Longrightarrow> lines_before b \<noteq> [] \<Longrightarrow>
     lines_before (c # b) = (c # hd (lines_before b)) # tl (lines_before b)"
  by (auto simp: lines_before_def split: list.splits if_splits)

lemma lines_before_not_Nil: "b \<noteq> [] \<Longrightarrow> line_end (last b) \<Longrightarrow> lines_before b \<noteq> []"
  using split_at_last_end [of b line_end] by (simp add: lines_before_def)

lemma find_line_Some:
  assumes "env_key key" and "find_line key bol s = Some (b, m, a)"
  shows "s = b @ m @ a \<and> (b = [] \<longrightarrow> bol) \<and> at_line b a \<and> list_all (\<lambda>c. \<not> line_end c) m
    \<and> of_key key m \<and> (\<forall>l \<in> set (if bol then lines_before b else tl (lines_before b)). \<not> of_key key l)"
  using assms(2)
proof (induction s arbitrary: bol b)
  case Nil
  then show ?case
    using assms(1) by (auto simp: env_key_def starts_with_Nil split: if_splits)
next
  case (Cons c s)
  let ?plain = "\<lambda>d. \<not> line_end d"
  show ?case
  proof (cases "bol \<and> starts_with (c # s) (key @ ''='')")
    case True
    then have e: "b = []" "m = takeWhile ?plain (c # s)" "a = dropWhile ?plain (c # s)"
      using Cons.prems by auto
    obtain r where r: "c # s = (key @ ''='') @ r"
      using True by (auto simp: starts_with_append)
    have "\<forall>d \<in> set (key @ ''=''). ?plain d"
      using assms(1) by (auto simp: env_key_def list_all_iff line_end_def)
    then have "m = (key @ ''='') @ takeWhile ?plain r"
      unfolding e(2) r by (subst takeWhile_append2) auto
    moreover have "c # s = m @ a"
      unfolding e by (rule takeWhile_dropWhile_id [symmetric])
    moreover have "list_all ?plain m"
      unfolding e(2) list_all_iff using set_takeWhileD [of _ ?plain "c # s"] by blast
    moreover have "a = [] \<or> line_end (hd a)"
      unfolding e(3) using hd_dropWhile [of ?plain "c # s"] by blast
    ultimately show ?thesis
      using True by (simp add: e(1) at_line_def of_key_def starts_with_append lines_before_def)
  next
    case False
    then obtain b' where b': "find_line key (line_end c) s = Some (b', m, a)" "b = c # b'"
      using Cons.prems by auto
    note ih = Cons.IH [OF b'(1)]
    show ?thesis
    proof (cases "line_end c")
      case True
      then show ?thesis
        using ih b'(2) by (auto simp: at_line_def lines_before_Cons of_key_Nil)
    next
      case plain: False
      then have nb: "b' \<noteq> []" "line_end (last b')"
        using ih by (auto simp: at_line_def)
      have hd': "hd (lines_of (c # s)) = c # hd (lines_before b')"
      proof -
        have "lines_of s = lines_before b' @ lines_of (m @ a)"
          using ih nb by (simp add: lines_before_def split_at_end)
        then show ?thesis
          using plain lines_before_not_Nil [OF nb] by (cases "lines_before b'") auto
      qed
      have "\<not> of_key key (c # hd (lines_before b'))" if bol
        using of_key_first [of key "c # s", unfolded hd'] \<open>\<not> (bol \<and> _)\<close> that by blast
      then show ?thesis
        using ih nb b'(2) plain by (auto simp: at_line_def lines_before_Cons lines_before_not_Nil)
    qed
  qed
qed

lemma find_line_None:
  assumes "env_key key" and "find_line key bol s = None"
  shows "\<forall>l \<in> set (if bol then lines_of s else tl (lines_of s)). \<not> of_key key l"
  using assms(2)
proof (induction s arbitrary: bol)
  case (Cons c s)
  then have n: "find_line key (line_end c) s = None" "\<not> (bol \<and> starts_with (c # s) (key @ ''=''))"
    by (auto split: if_splits)
  have "\<not> of_key key (hd (lines_of (c # s)))" if bol
    using of_key_first n(2) that by blast
  then show ?case
    using Cons.IH [OF n(1)] by (auto simp: of_key_Nil split: list.splits if_splits)
qed (auto simp: of_key_Nil)

lemma env_value_lines:
  assumes "env_key key"
  shows "env_value key s = map_option (drop (length key + 1)) (find (of_key key) (lines_of s))"
proof (cases "find_line key True s")
  case None
  then show ?thesis
    using find_line_None [OF assms None] by (auto simp: env_value_def find_None_iff)
next
  case (Some p)
  obtain b m a where p: "p = (b, m, a)"
    by (cases p)
  have f: "s = b @ m @ a" "at_line b a" "list_all (\<lambda>c. \<not> line_end c) m" "of_key key m"
    "\<forall>l \<in> set (lines_before b). \<not> of_key key l"
    using find_line_Some [OF assms Some [unfolded p]] by auto
  have "find (of_key key) (lines_before b) = None"
    using f(5) by (simp add: find_None_iff)
  then have "find (of_key key) (lines_of s) = Some m"
    unfolding f(1) lines_of_line [OF f(2,3)] using f(4) by (simp add: find_append)
  then show ?thesis
    by (simp add: env_value_def Some p)
qed

text \<open>What patching one entry does to the lines.\<close>

lemma expand_plain: "no_pattern v \<Longrightarrow> expand_dollar b m a v = v"
  by (induction b m a v rule: expand_dollar.induct) auto

lemma lines_of_ending: "butlast (lines_of (ending_line out)) = (if out \<noteq> [] \<and> last out = CHR 0x0A
   then butlast (lines_of out) else lines_of out)"
proof (cases "out \<noteq> [] \<and> last out = CHR 0x0A")
  case False
  have "lines_of (out @ [CHR 0x0A]) = lines_of out @ [[]]"
  proof (induction out)
    case (Cons c out)
    then show ?case
      by (auto split: list.split simp: Cons_eq_append_conv)
  qed (simp add: line_end_def)
  then show ?thesis
    using False by (auto simp: ending_line_def)
qed (simp add: ending_line_def)

lemma find_butlast_end:
  assumes "out \<noteq> []" "last out = CHR 0x0A"
  shows "find (of_key key) (butlast (lines_of out)) = find (of_key key) (lines_of out)"
proof -
  have "lines_of (out @ []) = butlast (lines_of out) @ lines_of []"
    using assms by (intro split_at_end) (auto simp: line_end_def)
  then have "find (of_key key) (lines_of out) = find (of_key key) (butlast (lines_of out) @ [[]])"
    by simp
  then show ?thesis
    by (simp add: find_append of_key_Nil split: option.split)
qed

lemma line_end_lf: "line_end CHR 0x0A"
  by (simp add: line_end_def)

lemma patch_entry_lines:
  assumes "env_key k" and "literal_value v" and "list_all (\<lambda>c. c \<noteq> CHR ''$'') k"
    and "out' = patch_entry out (k, v)" and "env_key key"
  shows "find (of_key key) (lines_of out')
    = (if key = k then Some (k @ ''='' @ v) else find (of_key key) (lines_of out))"
proof -
  let ?line = "k @ ''='' @ v"
  have plain: "list_all (\<lambda>c. \<not> line_end c) ?line"
    using assms(1,2) by (auto simp: env_key_def literal_value_def list_all_iff line_end_def)
  have line: "of_key key ?line \<longleftrightarrow> key = k"
    using of_key_same [of key ?line k] assms(1,5) by (auto simp: of_key_def starts_with_append)
  have expand: "expand_dollar b m a ?line = ?line" for b m a
    using assms(2) no_pattern_prepend [of "k @ ''=''" v] assms(3)
    by (intro expand_plain) (simp add: literal_value_def)
  show ?thesis
  proof (cases "find_line k True out")
    case None
    then have o: "out' = ending_line out @ ?line @ [CHR 0x0A]"
      by (simp add: assms(4) patch_entry_def Let_def)
    have "ending_line out \<noteq> []" "line_end (last (ending_line out))"
      by (auto simp: ending_line_def line_end_def)
    moreover have "lines_of (?line @ [CHR 0x0A]) = [?line, []]"
      using split_at_line [of line_end ?line "CHR 0x0A" "[]"] plain line_end_lf by simp
    ultimately have "lines_of out' = butlast (lines_of (ending_line out)) @ [?line, []]"
      by (simp add: o split_at_end)
    moreover have "find (of_key key) (butlast (lines_of (ending_line out))) = find (of_key key) (lines_of out)"
      unfolding lines_of_ending using find_butlast_end by simp
    moreover have "find (of_key k) (lines_of out) = None"
      using find_line_None [OF assms(1) None] by (simp add: find_None_iff)
    ultimately show ?thesis
      using line by (auto simp: find_append of_key_Nil split: option.split)
  next
    case (Some p)
    obtain b m a where p: "p = (b, m, a)"
      by (cases p)
    have f: "out = b @ m @ a" "at_line b a" "list_all (\<lambda>c. \<not> line_end c) m" "of_key k m"
      "\<forall>l \<in> set (lines_before b). \<not> of_key k l"
      using find_line_Some [OF assms(1) Some [unfolded p]] by auto
    have "out' = b @ ?line @ a"
      using Some by (simp add: assms(4) patch_entry_def Let_def p expand del: append.simps)
    then have "lines_of out' = lines_before b @ ?line # lines_after a"
      using lines_of_line [OF f(2) plain] by simp
    moreover have "lines_of out = lines_before b @ m # lines_after a"
      unfolding f(1) by (rule lines_of_line [OF f(2,3)])
    moreover have "key \<noteq> k \<Longrightarrow> \<not> of_key key m"
      using of_key_same [OF _ f(4) assms(5,1)] by blast
    moreover have "find (of_key k) (lines_before b) = None"
      using f(5) by (simp add: find_None_iff)
    ultimately show ?thesis
      using line by (auto simp: find_append split: option.split)
  qed
qed

lemma patch_entries_lines:
  assumes "distinct (map fst entries)" and "env_key key"
    and "\<forall>(k, v) \<in> set entries. word_key k \<and> literal_value v"
  shows "find (of_key key) (lines_of (foldl patch_entry out entries))
    = (case map_of entries key of Some v \<Rightarrow> Some (key @ ''='' @ v)
       | None \<Rightarrow> find (of_key key) (lines_of out))"
  using assms(1,3)
proof (induction entries arbitrary: out)
  case (Cons e entries)
  obtain k v where e: "e = (k, v)"
    by (cases e)
  have k: "env_key k" "literal_value v" "list_all (\<lambda>c. c \<noteq> CHR ''$'') k"
    using Cons.prems(2) word_key_env [of k] by (simp_all add: e)
  have "map_of entries k = None"
    using Cons.prems(1) by (simp add: e map_of_eq_None_iff)
  moreover have "find (of_key key) (lines_of (foldl patch_entry (patch_entry out e) entries))
    = (case map_of entries key of Some v \<Rightarrow> Some (key @ ''='' @ v)
       | None \<Rightarrow> find (of_key key) (lines_of (patch_entry out e)))"
    using Cons.prems by (intro Cons.IH) auto
  ultimately show ?case
    using patch_entry_lines [OF k _ assms(2), of "patch_entry out e" out]
    by (auto simp: e split: option.split)
qed simp

lemma find_tl:
  assumes "out \<noteq> []" "hd out = CHR 0x0A"
  shows "find (of_key key) (lines_of (tl out)) = find (of_key key) (lines_of out)"
  using assms by (cases out) (auto simp: line_end_def of_key_Nil)

lemma patch_env_read:
  assumes "distinct (map fst entries)"
    and "\<forall>(k, v) \<in> set entries. word_key k \<and> literal_value v"
    and "env_key key"
  shows "env_value key (patchEnvFile file entries)
    = (case map_of entries key of Some v \<Rightarrow> Some v
       | None \<Rightarrow> env_value key (nullish file []))"
proof -
  let ?out = "foldl patch_entry (nullish file []) entries"
  have "find (of_key key) (lines_of (patchEnvFile file entries)) = find (of_key key) (lines_of ?out)"
    using find_tl [of ?out] by (simp add: patchEnvFile_def Let_def)
  then show ?thesis
    unfolding env_value_lines [OF assms(3)]
      patch_entries_lines [OF assms(1,3,2)]
    by (simp split: option.split)
qed

text \<open>
  C15: What is patched into a file is read back from it, and nothing else changes: after
  \<open>patchEnvFile\<close> with keys of letters, digits and underscores, and values that are one line and in
  which no dollar sign starts a replacement pattern, every key of the entries has its value, whether it
  was there or not, and every other key has the value it had. (The replacement mangles the other
  values, as shown below.)
\<close>

theorem patch_env_roundtrip:
  assumes "distinct (map fst entries)"
    and "\<forall>(k, v) \<in> set entries. word_key k \<and> literal_value v"
    and "env_key key"
  shows "env_value key (patchEnvFile file entries)
    = (case map_of entries key of Some v \<Rightarrow> Some v
       | None \<Rightarrow> env_value key (nullish file []))"
  by (rule patch_env_read [OF assms])

lemma patch_env_roundtrip_witness:
  "env_value ''B'' (patchEnvFile (Some ''A=1\<newline>B=2'') [(''C'', ''x''), (''B'', ''3'')]) = Some ''3''
   \<and> env_value ''A'' (patchEnvFile (Some ''A=1\<newline>B=2'') [(''C'', ''x''), (''B'', ''3'')]) = Some ''1''"
proof -
  have "env_key ''A''" "env_key ''B''" "word_key ''B''" "word_key ''C''" "literal_value ''x''" "literal_value ''3''"
    by code_simp+
  moreover have "env_value ''A'' ''A=1\<newline>B=2'' = Some ''1''"
    by code_simp
  ultimately show ?thesis
    using patch_env_roundtrip [of "[(''C'', ''x''), (''B'', ''3'')]" _ "Some ''A=1\<newline>B=2''"]
    by simp
qed

text \<open>A dollar sign in a value that replaces a line is taken as a pattern.\<close>

lemma dollar_value_mangled:
  "env_value ''B'' (patchEnvFile (Some ''B=2'') [(''B'', ''a$&b'')]) = Some ''aB=2b''"
  by code_simp

end
