(* ===== verification/Cli.thy ===== *)
theory Cli
  imports Apps Env_File
begin

text \<open>
  The command line tool \<open>evo\<close> (\<open>cli/src/\<close>): the names of a new app and the renaming of the
  template (\<open>transforms.ts\<close>), the scaffolding (\<open>new.ts\<close>), registering an app with the platform
  (\<open>register.ts\<close>) and the flags (\<open>cli.ts\<close>).

  A thrown error is its message. The file system is a tree of named entries with the texts of the
  files; a file the tool writes is a path, as the list of its names, with its text.
\<close>

section \<open>Names\<close>

record name_forms =
  nf_slug :: string
  nf_dbIdent :: string
  nf_upper :: string
  nf_title :: string

definition lower_letter :: "char \<Rightarrow> bool" where
  "lower_letter c = (97 \<le> (of_char c :: nat) \<and> (of_char c :: nat) \<le> 122)"

definition slug_char :: "char \<Rightarrow> bool" where
  "slug_char c = (lower_letter c \<or> is_digit c)"

text \<open>\<open>/^[a-z][a-z0-9-]*[a-z0-9]$/\<close> and no double dash.\<close>

definition valid_name :: "string \<Rightarrow> bool" where
  "valid_name raw = (2 \<le> length raw \<and> lower_letter (hd raw) \<and> slug_char (last raw)
     \<and> list_all (\<lambda>c. slug_char c \<or> c = CHR ''-'') raw \<and> \<not> js_includes raw ''--'')"

definition title_word :: "string \<Rightarrow> string" where
  "title_word w = (case w of [] \<Rightarrow> [] | c # cs \<Rightarrow> upper_char c # cs)"

definition nameForms :: "string \<Rightarrow> string + name_forms" where
  "nameForms raw =
     (if \<not> valid_name raw then Inl (''Invalid app name \"'' @ raw @ ''\"'')
      else let dbIdent = map (\<lambda>c. if c = CHR ''-'' then CHR ''_'' else c) raw
           in Inr \<lparr>nf_slug = raw, nf_dbIdent = dbIdent, nf_upper = upper dbIdent,
                nf_title = join '' '' (map title_word (split_at (\<lambda>c. c = CHR ''-'') raw))\<rparr>)"

section \<open>Renaming the template\<close>

text \<open>\<open>s.replaceAll(p, r)\<close> for a pattern that is not empty and a replacement without dollar signs.\<close>

function replace_all :: "string \<Rightarrow> string \<Rightarrow> string \<Rightarrow> string" where
  "replace_all p r [] = []"
| "replace_all p r (c # s) =
     (if p \<noteq> [] \<and> starts_with (c # s) p then r @ replace_all p r (drop (length p) (c # s))
      else c # replace_all p r s)"
  by pat_completeness auto
termination
  by (relation "measure (\<lambda>(p, r, s). length s)") auto

record ports =
  appPort :: int
  dbPort :: int

definition TEMPLATE_APP_PORT :: string where "TEMPLATE_APP_PORT = ''4180''"
definition TEMPLATE_DB_PORT :: string where "TEMPLATE_DB_PORT = ''5446''"

definition replaceInfra :: "string \<Rightarrow> name_forms \<Rightarrow> ports \<Rightarrow> string" where
  "replaceInfra text n p =
     replace_all TEMPLATE_APP_PORT (show_int (appPort p))
       (replace_all TEMPLATE_DB_PORT (show_int (dbPort p))
         (replace_all ''evoapp'' (nf_dbIdent n) text))"

definition replaceCommon :: "string \<Rightarrow> name_forms \<Rightarrow> ports \<Rightarrow> string" where
  "replaceCommon text n p =
     replace_all TEMPLATE_DB_PORT (show_int (dbPort p))
       (replace_all TEMPLATE_APP_PORT (show_int (appPort p))
         (replace_all ''evoapp'' (nf_slug n)
           (replace_all ''Evo App'' (nf_title n)
             (replace_all ''EVOAPP'' (nf_upper n)
               (replace_all ''evo-app-next'' (nf_slug n) text)))))"

section \<open>Scaffolding\<close>

datatype entry = File string | Dir "(string \<times> entry) list"

definition EXCLUDES :: "string list" where
  "EXCLUDES = [''node_modules'', ''.next'', ''dist'', ''.env'', ''next-env.d.ts'',
     ''package-lock.json'', ''tsconfig.tsbuildinfo'']"

definition INFRA_FILES :: "string list" where
  "INFRA_FILES = [''docker-compose.yml'', ''.env.example'']"

text \<open>\<open>walk\<close>: the files below a directory that no excluded name leads to, with their texts.\<close>

fun walk :: "(string \<times> entry) list \<Rightarrow> (string list \<times> string) list" where
  "walk [] = []"
| "walk ((name, e) # es) =
     (if name \<in> set EXCLUDES then []
      else case e of
          Dir ds \<Rightarrow> map (\<lambda>(path, t). (name # path, t)) (walk ds)
        | File t \<Rightarrow> [([name], t)]) @ walk es"

definition renamed :: "name_forms \<Rightarrow> ports \<Rightarrow> string list \<Rightarrow> string \<Rightarrow> string" where
  "renamed n p path text =
     (if last path \<in> set INFRA_FILES then replaceInfra text n p else replaceCommon text n p)"

text \<open>How npm is run: the file, its first arguments, and whether through a shell.\<close>

definition npmInvocation ::
  "string \<Rightarrow> string \<Rightarrow> (string \<Rightarrow> string) \<Rightarrow> (string \<Rightarrow> bool) \<Rightarrow> string \<times> string list \<times> bool" where
  "npmInvocation execPath platform npm_cli exists =
     (if platform \<noteq> ''win32'' then (''npm'', [], False)
      else if exists (npm_cli execPath) then (execPath, [npm_cli execPath], False)
      else (''npm'', [], True))"

definition CMD_METACHARACTERS :: "char list" where
  "CMD_METACHARACTERS = ''&|<>^\"%!''"

text \<open>
  The machine the tool runs on: Node's path, the platform, the path of npm's entry beside Node, what
  exists, the resolved target and its vendor directory, the SDK's directory, what \<open>npm pack\<close> prints
  (\<open>None\<close> where it fails), the drawn secret, and \<open>package.json\<close>: \<open>JSON.parse\<close> of its text with the
  assignments of its name and description, then that of the SDK with \<open>JSON.stringify\<close>.
\<close>

record machine =
  mc_execPath :: string
  mc_platform :: string
  mc_npmCli :: "string \<Rightarrow> string"
  mc_exists :: "string \<Rightarrow> bool"
  mc_target :: string
  mc_vendorDir :: string
  mc_sdkDir :: string
  mc_pack :: "string \<times> string list \<times> bool \<Rightarrow> string \<Rightarrow> string option" \<comment> \<open>how npm is run, the destination\<close>
  mc_secret :: string
  mc_package :: "string \<Rightarrow> string \<Rightarrow> string \<Rightarrow> string + (string \<Rightarrow> string)" \<comment> \<open>text, name, description\<close>

definition last_line :: "string \<Rightarrow> string" where
  "last_line out = trim (last (split_at (\<lambda>c. c = CHR 0x0A) (trim out)))"

definition vendorSdk :: "machine \<Rightarrow> string + string" where
  "vendorSdk m =
     (let npm = npmInvocation (mc_execPath m) (mc_platform m) (mc_npmCli m) (mc_exists m)
      in if snd (snd npm) \<and> list_ex (\<lambda>c. c \<in> set CMD_METACHARACTERS) (mc_vendorDir m)
         then Inl (''The target directory '' @ mc_vendorDir m
           @ '' contains a character cmd.exe would interpret; choose a plainer --dir'')
         else case mc_pack m npm (mc_vendorDir m) of
             Some out \<Rightarrow> Inr (''file:./vendor/'' @ last_line out)
           | None \<Rightarrow> Inr (''file:'' @ map (\<lambda>c. if c = CHR 0x5C then CHR ''/'' else c) (mc_sdkDir m)))"

definition NEXT_CONFIG :: string where
  "NEXT_CONFIG = ''import type { NextConfig } from \"next\";'' @ [CHR 0x0A, CHR 0x0A]
     @ ''const nextConfig: NextConfig = {};'' @ [CHR 0x0A, CHR 0x0A]
     @ ''export default nextConfig;'' @ [CHR 0x0A]"

definition env_text :: "name_forms \<Rightarrow> ports \<Rightarrow> string \<Rightarrow> string" where
  "env_text n p secret = join [CHR 0x0A]
     [''DATABASE_URL=postgresql://'' @ nf_dbIdent n @ '':'' @ nf_dbIdent n @ ''@localhost:''
        @ show_int (dbPort p) @ ''/'' @ nf_dbIdent n,
      ''AUTH_SECRET='' @ secret, ''AUTH_URL=http://localhost:'' @ show_int (appPort p), []]"

record new_options =
  no_name :: string
  no_stack :: string
  no_ports :: ports

text \<open>The files of the new app; \<open>occupied\<close> is whether the target exists and is not empty.\<close>

definition scaffold ::
  "machine \<Rightarrow> new_options \<Rightarrow> (string \<times> entry) list \<Rightarrow> bool \<Rightarrow> string + (string list \<Rightarrow> string option)" where
  "scaffold m opts template occupied =
     (if no_stack opts \<noteq> ''next''
      then Inl (''Unknown stack \"'' @ no_stack opts @ ''\" (available: next)'')
      else case nameForms (no_name opts) of
          Inl e \<Rightarrow> Inl e
        | Inr n \<Rightarrow>
            if occupied
            then Inl (''Target directory '' @ mc_target m @ '' already exists and is not empty'')
            else let files = map_of (map (\<lambda>(path, t). (path, renamed n (no_ports opts) path t)) (walk template))
              in case files [''package.json''] of
                   None \<Rightarrow> Inl ''ENOENT''
                 | Some pkg \<Rightarrow>
                   (case mc_package m pkg (nf_slug n)
                           (nf_title n @ '' '' @ em_dash @ '' built on the EvoPlatform next template'') of
                      Inl e \<Rightarrow> Inl e
                    | Inr with_sdk \<Rightarrow>
                      (case vendorSdk m of
                         Inl e \<Rightarrow> Inl e
                       | Inr sdk \<Rightarrow> Inr (files([''package.json''] \<mapsto> with_sdk sdk,
                           [''next.config.ts''] \<mapsto> NEXT_CONFIG,
                           [''.env''] \<mapsto> env_text n (no_ports opts) (mc_secret m))))))"

section \<open>Flags\<close>

definition bad_arguments :: "string \<Rightarrow> string" where
  "bad_arguments near = ''Bad arguments near \"'' @ near @ ''\"''"

text \<open>\<open>parseFlags\<close>: the flags in the order given, a later one of the same name winning.\<close>

fun parseFlags :: "string list \<Rightarrow> (string \<rightharpoonup> string) \<Rightarrow> string + (string \<rightharpoonup> string)" where
  "parseFlags [] flags = Inr flags"
| "parseFlags [f] flags = Inl (bad_arguments f)"
| "parseFlags (f # v # rest) flags =
     (if \<not> starts_with f ''--'' then Inl (bad_arguments f)
      else parseFlags rest (flags(drop 2 f \<mapsto> v)))"

text \<open>
  \<open>main\<close>: the call that the arguments ask for. \<open>Number\<close> with \<open>Number.isInteger\<close> is an argument: the
  integer a text stands for. A password that neither the flags nor the environment give is asked for.
\<close>

record register_options =
  ro_name :: string
  ro_platformUrl :: string
  ro_email :: string
  ro_password :: "string option" \<comment> \<open>\<open>None\<close> where it is asked for\<close>
  ro_dir :: string
  ro_workspace :: "string option"

datatype evo_call = ShowUsage int | Refuse string | CallNew new_options "string option"
  | CallRegister register_options

definition evo_new :: "(string \<Rightarrow> int option) \<Rightarrow> string \<Rightarrow> (string \<rightharpoonup> string) \<Rightarrow> evo_call" where
  "evo_new to_integer name flags =
     (case (to_integer (nullish (flags ''port'') ''4180''), to_integer (nullish (flags ''db-port'') ''5446'')) of
        (Some app, Some db) \<Rightarrow> CallNew \<lparr>no_name = name, no_stack = nullish (flags ''stack'') ''next'',
            no_ports = \<lparr>appPort = app, dbPort = db\<rparr>\<rparr> (flags ''dir'')
      | _ \<Rightarrow> Refuse ''Ports must be integers'')"

definition evo_register :: "string option \<Rightarrow> string \<Rightarrow> (string \<rightharpoonup> string) \<Rightarrow> evo_call" where
  "evo_register EVO_ADMIN_PASSWORD name flags =
     (if \<not> truthy (flags ''email'') then Refuse ''--email is required for register''
      else CallRegister \<lparr>ro_name = name,
        ro_platformUrl = nullish (flags ''platform-url'') ''http://localhost:8200'',
        ro_email = the (flags ''email''), ro_password = or_else (flags ''password'') EVO_ADMIN_PASSWORD,
        ro_dir = nullish (flags ''dir'') (''./'' @ name), ro_workspace = flags ''workspace''\<rparr>)"

definition evo_main :: "(string \<Rightarrow> int option) \<Rightarrow> string option \<Rightarrow> string list \<Rightarrow> evo_call" where
  "evo_main to_integer EVO_ADMIN_PASSWORD argv =
     (case argv of
        command # name # rest \<Rightarrow>
          if command \<notin> {''new'', ''register''} \<or> name = [] \<or> starts_with name ''--''
          then ShowUsage (if command = ''--help'' then 0 else 1)
          else (case parseFlags rest Map.empty of
                  Inl e \<Rightarrow> Refuse e
                | Inr flags \<Rightarrow>
                    if command = ''register'' then evo_register EVO_ADMIN_PASSWORD name flags
                    else evo_new to_integer name flags)
      | [command] \<Rightarrow> ShowUsage (if command = ''--help'' then 0 else 1)
      | [] \<Rightarrow> ShowUsage 0)"

section \<open>Registering an app\<close>

text \<open>
  The platform at the other end: its routes for login and for new apps, with the message of the
  error they answer with. The drawn values are those of the login and of the new app.
\<close>

fun http_message :: "http_error \<Rightarrow> string" where
  "http_message (BadRequest m) = m"
| "http_message (Unauthorized m) = m"
| "http_message (Forbidden m) = m"
| "http_message (NotFound m) = m"
| "http_message (Conflict m) = m"
| "http_message (TooManyRequests m) = m"
| "http_message (ServiceUnavailable m) = m"
| "http_message (PrismaError m) = ''Internal server error''"
| "http_message (UncaughtError m) = ''Internal server error''"

definition api_answer :: "string \<Rightarrow> 'a res \<Rightarrow> string + 'a" where
  "api_answer path r = (case r of Inl e \<Rightarrow> Inl (path @ '' failed: '' @ http_message e) | Inr x \<Rightarrow> Inr x)"

definition apps_route ::
  "env \<Rightarrow> string option \<Rightarrow> create_app_dto \<Rightarrow> string \<Rightarrow> string \<Rightarrow> string \<Rightarrow> time \<Rightarrow> db \<Rightarrow>
   (app_view \<times> string) res \<times> db" where
  "apps_route env header dto newId hex secret now s =
     (case jwt_guard env header now of
        Inl e \<Rightarrow> (Inl e, s)
      | Inr c \<Rightarrow>
        (case platform_admin_guard c of
           Inl e \<Rightarrow> (Inl e, s)
         | Inr _ \<Rightarrow> app_create env dto newId hex secret now s))"

record registration_draws =
  rg_login :: drawn
  rg_appId :: string
  rg_hex :: string
  rg_secret :: string

definition register_entries ::
  "string \<Rightarrow> string \<Rightarrow> string \<Rightarrow> string option \<Rightarrow> (string \<times> string) list" where
  "register_entries base clientId clientSecret workspace =
     [(''PLATFORM_URL'', base), (''EVO_CLIENT_ID'', clientId), (''EVO_CLIENT_SECRET'', clientSecret),
      (''NEXT_PUBLIC_PLATFORM_MODE'', ''1'')]
     @ (if truthy workspace then [(''PLATFORM_DEFAULT_WORKSPACE'', the workspace)] else [])"

text \<open>\<open>register\<close>: the new text of the app's \<open>.env\<close>, and the platform's tables after it.\<close>

definition register_app ::
  "env \<Rightarrow> config \<Rightarrow> register_options \<Rightarrow> string \<Rightarrow> registration_draws \<Rightarrow> string option \<Rightarrow> time \<Rightarrow> db \<Rightarrow>
   (string + string) \<times> db" where
  "register_app env cfg opts password dr file now s =
     (let base = strip_trailing_slashes (ro_platformUrl opts) in
      case login env cfg \<lparr>lg_tenantSlug = None, lg_email = ro_email opts, lg_password = password,
             lg_clientId = None\<rparr> None (rg_login dr) now s of
        (r, s1) \<Rightarrow>
        (case api_answer ''/auth/login'' r of
           Inl e \<Rightarrow> (Inl e, s1)
         | Inr session \<Rightarrow>
             if \<not> ss_platformAdmin session then (Inl ''That account is not a platform admin'', s1)
             else (case apps_route env (Some (''Bearer '' @ ss_accessToken session))
                     \<lparr>ca_name = ro_name opts, ca_displayName = None, ca_callbackUrls = None,
                      ca_autoEnroll = None\<rparr> (rg_appId dr) (rg_hex dr) (rg_secret dr) now s1 of
                     (r2, s2) \<Rightarrow>
                     (case api_answer ''/admin/apps'' r2 of
                        Inl e \<Rightarrow> (Inl e, s2)
                      | Inr (view, clientSecret) \<Rightarrow>
                          (Inr (patchEnvFile file (register_entries base (av_clientId view)
                             clientSecret (ro_workspace opts))), s2)))))"

section \<open>Names tell apps apart\<close>

lemma nameForms_ok:
  "nameForms raw = Inr n \<Longrightarrow> valid_name raw \<and> nf_slug n = raw
     \<and> nf_dbIdent n = map (\<lambda>c. if c = CHR ''-'' then CHR ''_'' else c) raw
     \<and> nf_upper n = upper (nf_dbIdent n)
     \<and> nf_title n = join '' '' (map title_word (split_at (\<lambda>c. c = CHR ''-'') raw))"
  by (auto simp: nameForms_def Let_def split: if_splits)

definition name_char :: "char \<Rightarrow> bool" where
  "name_char c = (slug_char c \<or> c = CHR ''-'')"

lemma valid_name_chars: "valid_name raw \<Longrightarrow> list_all name_char raw"
  by (simp add: valid_name_def name_char_def list_all_iff)

text \<open>Each form is undone by a function on its characters, so it determines the name.\<close>

lemma slug_char_cases: "slug_char c \<Longrightarrow> lower_char (upper_char c) = c \<and> lower_char c = c
    \<and> c \<noteq> CHR ''-'' \<and> c \<noteq> CHR ''_'' \<and> c \<noteq> CHR '' ''
    \<and> upper_char c \<noteq> CHR ''_'' \<and> upper_char c \<noteq> CHR '' ''"
proof -
  assume s: "slug_char c"
  define n where "n = (of_char c :: nat)"
  have c: "c = char_of n"
    by (simp add: n_def)
  have n: "97 \<le> n \<and> n \<le> 122 \<or> 48 \<le> n \<and> n \<le> 57"
    using s by (simp add: slug_char_def lower_letter_def is_digit_def n_def)
  define u where "u = (if 97 \<le> n then n - 32 else n)"
  have u: "u < 256" "65 \<le> u \<and> u \<le> 90 \<and> u + 32 = n \<or> u = n \<and> n \<le> 57"
    using n by (auto simp: u_def)
  have up: "upper_char c = char_of u"
    using n by (auto simp: upper_char_def Let_def n_def [symmetric] u_def c)
  have ofu: "(of_char (char_of u :: char) :: nat) = u"
    using u(1) by (simp add: of_char_of)
  have "lower_char (char_of u) = char_of n"
    using u(2) n unfolding lower_char_def Let_def ofu by auto
  moreover have "lower_char c = c"
    using n unfolding lower_char_def Let_def n_def [symmetric] by auto
  moreover have "c \<noteq> CHR ''-''" "c \<noteq> CHR ''_''" "c \<noteq> CHR '' ''"
    using n by (auto simp: n_def)
  moreover have "upper_char c \<noteq> CHR ''_''" "upper_char c \<noteq> CHR '' ''"
  proof -
    have "(of_char (CHR ''_'') :: nat) = 95" "(of_char (CHR '' '') :: nat) = 32"
      by simp_all
    then have "upper_char c = CHR ''_'' \<Longrightarrow> u = 95" "upper_char c = CHR '' '' \<Longrightarrow> u = 32"
      using ofu up by metis+
    then show "upper_char c \<noteq> CHR ''_''" "upper_char c \<noteq> CHR '' ''"
      using u(2) n by auto
  qed
  ultimately show ?thesis
    unfolding up by (simp add: c)
qed

text \<open>What undoes the capitals and the spaces of a title.\<close>

definition untitle :: "char \<Rightarrow> char" where
  "untitle c = (if c = CHR '' '' then CHR ''-'' else lower_char c)"

lemma map_join: "map f (join sep ws) = join (map f sep) (map (map f) ws)"
  by (induction sep ws rule: join.induct) auto

lemma untitle_word: "list_all slug_char w \<Longrightarrow> map untitle (title_word w) = w"
  by (cases w) (auto simp: title_word_def untitle_def slug_char_cases list_all_iff intro!: map_idI)

lemma forms_undone:
  assumes "nameForms raw = Inr n"
  shows "map untitle (nf_title n) = raw"
    and "map (\<lambda>c. if c = CHR ''_'' then CHR ''-'' else c) (nf_dbIdent n) = raw"
    and "map lower_char (nf_upper n) = nf_dbIdent n"
proof -
  note f = nameForms_ok [OF assms]
  have chars: "slug_char c \<or> c = CHR ''-''" if "c \<in> set raw" for c
    using f that by (auto simp: valid_name_def list_all_iff)
  have "map untitle (title_word w) = w" if "w \<in> set (split_at (\<lambda>c. c = CHR ''-'') raw)" for w
    using split_at_chars [OF that] chars by (intro untitle_word) (auto simp: list_all_iff)
  then have "map (map untitle \<circ> title_word) (split_at (\<lambda>c. c = CHR ''-'') raw)
      = split_at (\<lambda>c. c = CHR ''-'') raw"
    by (intro map_idI) simp
  then show "map untitle (nf_title n) = raw"
    using join_split [of "CHR ''-''" raw] f by (simp add: map_join untitle_def comp_def)
  have "\<not> slug_char CHR ''_''"
    using slug_char_cases by blast
  then have "CHR ''_'' \<notin> set raw"
    using chars by fastforce
  then show "map (\<lambda>c. if c = CHR ''_'' then CHR ''-'' else c) (nf_dbIdent n) = raw"
    using f chars by (auto simp: slug_char_cases intro!: map_idI)
  have "lower_char CHR ''_'' = CHR ''_''" "lower_char (upper_char CHR ''_'') = CHR ''_''"
    by code_simp+
  then have "lower_char (upper_char (if c = CHR ''-'' then CHR ''_'' else c))
      = (if c = CHR ''-'' then CHR ''_'' else c)" if "c \<in> set raw" for c
    using chars [OF that] slug_char_cases [of c] by (cases "c = CHR ''-''") simp_all
  then show "map lower_char (nf_upper n) = nf_dbIdent n"
    using f by (simp add: upper_def)
qed

text \<open>
  Two apps with different names share none of the identities derived from them: not the package
  name, not the database user, not the prefix of the browser's database and not the title.
\<close>

theorem names_never_collide:
  assumes "nameForms a = Inr n" and "nameForms b = Inr m"
    and "nf_slug n = nf_slug m \<or> nf_dbIdent n = nf_dbIdent m \<or> nf_upper n = nf_upper m
      \<or> nf_title n = nf_title m"
  shows "a = b"
  using assms(3) forms_undone [OF assms(1)] forms_undone [OF assms(2)]
    nameForms_ok [OF assms(1)] nameForms_ok [OF assms(2)]
  by metis

lemma char_codes:
  "char_of (48::nat) = CHR ''0''" "char_of (52::nat) = CHR ''4''" "char_of (53::nat) = CHR ''5''"
  "char_of (54::nat) = CHR ''6''" "char_of (65::nat) = CHR ''A''" "char_of (84::nat) = CHR ''T''"
  by code_simp+

lemmas name_eval = char_codes nameForms_def valid_name_def slug_char_def lower_letter_def is_digit_def
  starts_with_def title_word_def upper_char_def upper_def Let_def

lemma names_never_collide_witness:
  "\<exists>n. nameForms ''acme-tracker'' = Inr n \<and> nf_title n = ''Acme Tracker''
     \<and> \<not> (\<exists>m. nameForms ''acme-trackers'' = Inr m \<and> nf_title m = nf_title n)"
proof -
  have "case nameForms ''acme-tracker'' of Inl e \<Rightarrow> False | Inr n \<Rightarrow> nf_title n = ''Acme Tracker''"
    by (simp add: name_eval)
  then obtain n where n: "nameForms ''acme-tracker'' = Inr n" "nf_title n = ''Acme Tracker''"
    by (auto split: sum.splits)
  have "\<not> (\<exists>m. nameForms ''acme-trackers'' = Inr m \<and> nf_title m = nf_title n)"
  proof
    assume "\<exists>m. nameForms ''acme-trackers'' = Inr m \<and> nf_title m = nf_title n"
    then obtain m where "nameForms ''acme-trackers'' = Inr m" "nf_title n = nf_title m"
      by auto
    then have "''acme-tracker'' = ''acme-trackers''"
      using names_never_collide [OF n(1)] by blast
    then show False
      by simp
  qed
  then show ?thesis
    using n by blast
qed

text \<open>
  The replacements run one after the other over the whole text: a name or a port that holds a later
  pattern is itself replaced.
\<close>

lemmas rename_eval = replaceCommon_def TEMPLATE_APP_PORT_def TEMPLATE_DB_PORT_def starts_with_def
  show_int_def digits_of.simps char_codes

lemma renamed_twice:
  "\<exists>n. nameForms ''evoapp-x'' = Inr n \<and> replaceCommon ''evo-app-next'' n \<lparr>appPort = 4180, dbPort = 5446\<rparr>
     = ''evoapp-x-x''"
  "replaceCommon ''port 4180'' \<lparr>nf_slug = ''ab'', nf_dbIdent = ''ab'', nf_upper = ''AB'', nf_title = ''Ab''\<rparr>
     \<lparr>appPort = 5446, dbPort = 5500\<rparr> = ''port 5500''"
proof -
  have "case nameForms ''evoapp-x'' of Inl e \<Rightarrow> False | Inr n \<Rightarrow>
      replaceCommon ''evo-app-next'' n \<lparr>appPort = 4180, dbPort = 5446\<rparr> = ''evoapp-x-x''"
    by (simp add: name_eval rename_eval)
  then show "\<exists>n. nameForms ''evoapp-x'' = Inr n
     \<and> replaceCommon ''evo-app-next'' n \<lparr>appPort = 4180, dbPort = 5446\<rparr> = ''evoapp-x-x''"
    by (auto split: sum.splits)
qed (simp add: rename_eval)

section \<open>What a new app takes from the template\<close>

text \<open>A template without what the tool leaves out.\<close>

fun prune :: "(string \<times> entry) list \<Rightarrow> (string \<times> entry) list" where
  "prune [] = []"
| "prune ((name, e) # es) =
     (if name \<in> set EXCLUDES then []
      else [(name, case e of Dir ds \<Rightarrow> Dir (prune ds) | File t \<Rightarrow> File t)]) @ prune es"

lemma walk_append: "walk (xs @ ys) = walk xs @ walk ys"
  by (induction xs rule: walk.induct) auto

lemma walk_prune: "walk (prune es) = walk es"
  by (induction es rule: prune.induct) (auto simp: walk_append split: entry.split)

lemma walk_paths: "(path, t) \<in> set (walk es) \<Longrightarrow> path \<noteq> [] \<and> set path \<inter> set EXCLUDES = {}"
  by (induction es arbitrary: path t rule: walk.induct) (fastforce split: entry.splits if_splits)+

text \<open>
  C16: Nothing that is left out of the template reaches a new app, its secrets least of all: two
  templates that differ only below excluded names give the same app, and every file of it is one
  the tool writes itself or the renamed text of a template's file that no excluded name leads to.
\<close>

theorem scaffold_leaves_out:
  assumes "scaffold m opts template occupied = Inr files"
  shows "(\<forall>template'. prune template' = prune template \<longrightarrow>
        scaffold m opts template' occupied = Inr files)
    \<and> (\<forall>path t. files path = Some t \<longrightarrow>
        path \<in> {[''package.json''], [''next.config.ts''], [''.env'']}
        \<or> set path \<inter> set EXCLUDES = {}
          \<and> (\<exists>n t0. nameForms (no_name opts) = Inr n \<and> (path, t0) \<in> set (walk template)
               \<and> t = renamed n (no_ports opts) path t0))"
proof (intro conjI allI impI)
  fix template'
  assume "prune template' = prune template"
  then have w: "walk template' = walk template"
    using walk_prune by metis
  have "scaffold m opts template' occupied = scaffold m opts template occupied"
    unfolding scaffold_def w by (rule refl)
  then show "scaffold m opts template' occupied = Inr files"
    using assms by simp
next
  fix path t
  assume p: "files path = Some t"
  obtain n f where n: "nameForms (no_name opts) = Inr n"
    and f: "f = map_of (map (\<lambda>(path, t). (path, renamed n (no_ports opts) path t)) (walk template))"
    and g: "\<And>q. q \<notin> {[''package.json''], [''next.config.ts''], [''.env'']} \<Longrightarrow> files q = f q"
    using assms by (auto simp: scaffold_def Let_def split: if_splits sum.splits option.splits)
  show "path \<in> {[''package.json''], [''next.config.ts''], [''.env'']}
        \<or> set path \<inter> set EXCLUDES = {}
          \<and> (\<exists>n t0. nameForms (no_name opts) = Inr n \<and> (path, t0) \<in> set (walk template)
               \<and> t = renamed n (no_ports opts) path t0)"
  proof (cases "path \<in> {[''package.json''], [''next.config.ts''], [''.env'']}")
    case False
    have "f path = Some t"
      using p g [OF False] by simp
    then obtain t0 where "(path, t0) \<in> set (walk template)" "t = renamed n (no_ports opts) path t0"
      unfolding f by (auto dest!: map_of_SomeD)
    then show ?thesis
      using walk_paths n by blast
  qed blast
qed

definition sample_machine :: machine where
  "sample_machine = \<lparr>mc_execPath = ''/usr/bin/node'', mc_platform = ''linux'', mc_npmCli = (\<lambda>p. p),
     mc_exists = (\<lambda>_. False), mc_target = ''/apps/ab'', mc_vendorDir = ''/apps/ab/vendor'',
     mc_sdkDir = ''/evo/sdk'', mc_pack = (\<lambda>_ _. Some ''sdk.tgz''), mc_secret = ''s3cret'',
     mc_package = (\<lambda>text name description. Inr (\<lambda>sdk. text @ sdk))\<rparr>"

definition sample_template :: "(string \<times> entry) list" where
  "sample_template = [(''package.json'', File ''{}''), (''.env'', File ''AUTH_SECRET=mine''),
     (''src'', Dir [(''app.ts'', File ''evoapp''), (''dist'', Dir [(''x'', File ''y'')])])]"

lemma scaffold_leaves_out_witness:
  "\<exists>files. scaffold sample_machine \<lparr>no_name = ''ab'', no_stack = ''next'', no_ports = \<lparr>appPort = 1, dbPort = 2\<rparr>\<rparr>
      sample_template False = Inr files
     \<and> scaffold sample_machine \<lparr>no_name = ''ab'', no_stack = ''next'', no_ports = \<lparr>appPort = 1, dbPort = 2\<rparr>\<rparr>
      (filter (\<lambda>(name, e). name \<noteq> ''.env'') sample_template) False = Inr files"
proof -
  have "\<exists>files. scaffold sample_machine \<lparr>no_name = ''ab'', no_stack = ''next'', no_ports = \<lparr>appPort = 1, dbPort = 2\<rparr>\<rparr>
      sample_template False = Inr files"
    by (simp add: scaffold_def sample_template_def sample_machine_def name_eval EXCLUDES_def
        vendorSdk_def npmInvocation_def Let_def)
  then obtain files where f: "scaffold sample_machine
      \<lparr>no_name = ''ab'', no_stack = ''next'', no_ports = \<lparr>appPort = 1, dbPort = 2\<rparr>\<rparr> sample_template False
      = Inr files"
    by blast
  moreover have "prune (filter (\<lambda>(name, e). name \<noteq> ''.env'') sample_template) = prune sample_template"
    by (simp add: sample_template_def EXCLUDES_def)
  ultimately show ?thesis
    using scaffold_leaves_out [OF f] by blast
qed

text \<open>Flags are read back in the order they were given.\<close>

lemma parseFlags_given:
  "parseFlags (concat (map (\<lambda>(k, v). [''--'' @ k, v]) kvs)) flags = Inr (foldl (\<lambda>m (k, v). m(k \<mapsto> v)) flags kvs)"
  by (induction kvs arbitrary: flags) (auto simp: starts_with_def)

section \<open>Registered is wired\<close>

lemma app_create_client:
  assumes "app_create env dto i hex secret now s = (Inr (view, sec), s')"
    and "bcrypt_compare env secret (bcrypt_hash env secret)"
  shows "sec = secret \<and> av_clientId view = ''app_'' @ hex
    \<and> (\<exists>a. client_guard env (Some (av_clientId view)) (Some secret) s' = Inr a
         \<and> a_name a = ca_name dto \<and> a \<notin> set (apps s))"
proof -
  define a where "a = \<lparr>a_id = i, a_clientId = ''app_'' @ hex, a_clientSecretHash = bcrypt_hash env secret,
     a_name = ca_name dto, a_displayName = ca_displayName dto,
     a_callbackUrls = nullish (ca_callbackUrls dto) [], a_autoEnroll = nullish (ca_autoEnroll dto) True,
     a_brand = None, a_createdAt = now, a_deletedAt = None\<rparr>"
  have fields: "a_clientId a = ''app_'' @ hex" "a_deletedAt a = None" "a_name a = ca_name dto"
    "a_clientSecretHash a = bcrypt_hash env secret"
    by (simp_all add: a_def)
  obtain s1 where s1: "insert_app a s = (Inr (), s1)" and s': "apps s' = apps s1"
    and r: "sec = secret" "view = app_public s1 a"
    using assms(1) unfolding app_create_def Let_def a_def [symmetric]
    by (auto split: if_splits prod.splits sum.splits)
  have a: "a_clientId a \<notin> a_clientId ` set (apps s)" "apps s' = apps s @ [a]"
    using s1 s' by (auto simp: insert_app_def split: if_splits)
  have v: "av_clientId view = a_clientId a"
    by (simp add: r app_public_def)
  have "find (\<lambda>b. a_clientId b = a_clientId a \<and> a_deletedAt b = None) (apps s) = None"
    using a(1) unfolding find_None_iff by (metis image_eqI)
  then have "live_app_by_client s' (a_clientId a) = Some a"
    using fields(2) by (simp add: live_app_by_client_def find_append a(2))
  then have "client_guard env (Some (av_clientId view)) (Some secret) s' = Inr a"
    using assms(2) by (simp add: client_guard_def v fields(4))
  moreover have "a \<notin> set (apps s)"
    using a(1) by blast
  ultimately show ?thesis
    using fields r(1) v by auto
qed

lemma register_app_ok:
  assumes "register_app env cfg opts password dr file now s = (Inr text, s')"
  obtains session s1 view clientSecret where
    "login env cfg \<lparr>lg_tenantSlug = None, lg_email = ro_email opts, lg_password = password,
       lg_clientId = None\<rparr> None (rg_login dr) now s = (Inr session, s1)"
    "ss_platformAdmin session"
    "app_create env \<lparr>ca_name = ro_name opts, ca_displayName = None, ca_callbackUrls = None,
       ca_autoEnroll = None\<rparr> (rg_appId dr) (rg_hex dr) (rg_secret dr) now s1 = (Inr (view, clientSecret), s')"
    "text = patchEnvFile file (register_entries (strip_trailing_slashes (ro_platformUrl opts))
       (av_clientId view) clientSecret (ro_workspace opts))"
  using assms
  by (auto simp: register_app_def apps_route_def api_answer_def Let_def
      split: prod.splits sum.splits if_splits)

lemma login_admin:
  assumes "login env cfg dto ip dr now s = (Inr ses, s')"
  shows "apps s' = apps s \<and> (\<exists>u \<in> set (users s). u_email u = lower (lg_email dto)
    \<and> bcrypt_compare env (lg_password dto) (u_passwordHash u) \<and> u_isPlatformAdmin u = ss_platformAdmin ses)"
proof -
  obtain u tenant where u: "live_user_by_email s (map_option tn_id tenant) (lower (lg_email dto)) = Some u"
    "bcrypt_compare env (lg_password dto) (u_passwordHash u)"
    "completeLogin env cfg u tenant (lg_clientId dto) ip ''password'' dr now s = (Inr ses, s')"
    using assms by (rule login_Inr)
  have "ss_platformAdmin ses = u_isPlatformAdmin u \<and> apps s' = apps s"
    using u(3) by (auto simp: completeLogin_def issueTokens_def insert_refresh_token_def Let_def
        split: if_splits sum.splits prod.splits)
  moreover have "u \<in> set (users s) \<and> u_email u = lower (lg_email dto)"
    using u(1) by (auto simp: live_user_by_email_def dest: find_SomeD)
  ultimately show ?thesis
    using u(2) by auto
qed

lemma env_keys:
  "env_key ''PLATFORM_URL''" "env_key ''EVO_CLIENT_ID''" "env_key ''EVO_CLIENT_SECRET''"
  "env_key ''NEXT_PUBLIC_PLATFORM_MODE''" "env_key ''PLATFORM_DEFAULT_WORKSPACE''"
  by (simp_all add: env_key_def line_end_def)

lemma word_keys:
  "word_key ''PLATFORM_URL''" "word_key ''EVO_CLIENT_ID''" "word_key ''EVO_CLIENT_SECRET''"
  "word_key ''NEXT_PUBLIC_PLATFORM_MODE''" "word_key ''PLATFORM_DEFAULT_WORKSPACE''"
  by code_simp+


definition sample_admin :: user where
  "sample_admin = sample_user\<lparr>u_id := ''u9'', u_tenantId := None, u_email := ''op@x'',
     u_isPlatformAdmin := True\<rparr>"

definition platform_env :: env where
  "platform_env = sample_env\<lparr>jwt_verify := (\<lambda>now tok. Some [(''platform_admin'', JBool True)])\<rparr>"

definition sample_registration :: "(string + string) \<times> db" where
  "sample_registration = register_app platform_env sample_cfg
     \<lparr>ro_name = ''acme'', ro_platformUrl = ''http://p/'', ro_email = ''op@x'', ro_password = None,
      ro_dir = ''.'', ro_workspace = None\<rparr> ''pw''
     \<lparr>rg_login = (''r1'', ''new''), rg_appId = ''a7'', rg_hex = ''f00'', rg_secret = ''sec''\<rparr>
     (Some ''X=1'') 10 (sample_db\<lparr>users := [sample_admin]\<rparr>)"

lemma sample_registered: "\<exists>t s'. sample_registration = (Inr t, s')"
proof -
  have "case fst sample_registration of Inl e \<Rightarrow> False | Inr t \<Rightarrow> True"
    by code_simp
  then show ?thesis
    by (metis (no_types, lifting) old.sum.simps(5) prod.collapse sum.exhaust)
qed


end
