(* ===== verification/Spec2Isabelle.thy ===== *)
theory Spec2Isabelle
  imports Platform_Api Sync_Convergence Sdk App_Account Revenue_Console Cli
begin

text \<open>
  A model of EvoPlatform: the NestJS service that keeps the workspaces, accounts, apps and billing of a
  fleet of products (\<open>platform/\<close>), the Next.js template its products start from
  (\<open>templates/next/\<close>), the Node library they talk to it with (\<open>packages/sdk-node/\<close>) and the tool
  that makes and registers them (\<open>cli/\<close>). Every definition is translated from the TypeScript; every
  name is the source's where Isabelle allows it.

  \<^bold>\<open>Conventions.\<close> A table is the list of its rows and the database the record \<open>db\<close> (theory
  \<open>Store\<close>); an operation of a service takes its arguments, the values it draws (ids, random
  strings), the clock and the state, and returns \<open>http_error + 'a\<close> with the new state. Uniqueness
  violations are the error \<open>PrismaError\<close> of the statement that causes them. What a library or another
  server does is an argument: the record \<open>env\<close> (bcrypt, SHA-256, RS256, HMAC, AES, the SMTP relay),
  \<open>stripe_api\<close> and \<open>stripe_reports\<close>, \<open>webauthn\<close>, \<open>machine\<close>; what the code relies on is a
  named hypothesis (\<open>token_laws\<close>: a token that verifies carries the claims it was signed with;
  \<open>cipher_laws\<close>: a ciphertext decrypts to what was encrypted; \<open>reads_back\<close> and \<open>faithful_api\<close> for the
  library and the template), and \<open>numbered_env\<close> and \<open>numbered_lib\<close> are concrete ones that satisfy them. Times are milliseconds. Strings are Latin-1; the order of the
  database's collation is an argument where it shows. Error messages are the source's, those with a
  long explanation cut after their first sentence.

  \<^bold>\<open>The platform.\<close>
  \<^item> \<open>Prelude\<close>, \<open>Js_Date\<close>, \<open>Config\<close>, \<open>Store\<close>: JavaScript's values and dates, the configuration
    (\<open>config.ts\<close>), the schema (\<open>prisma/schema.prisma\<close>).
  \<^item> \<open>Audit_Log\<close> (\<open>audit/audit.service.ts\<close>), \<open>Limits\<close> (the rate limiters), \<open>Policy\<close>
    (\<open>core/password-policy.ts\<close> and the template's copy), \<open>Lifecycle\<close> (the contract of rows that are
    deleted in two steps).
  \<^item> \<open>Auth\<close> (\<open>auth/auth.service.ts\<close> and the guards): login, the gate, refresh with rotation and
    reuse detection. \<open>Passkeys\<close> (\<open>passkeys/\<close>): the two WebAuthn ceremonies. Password login, refresh
    and passkey login are the three interpretations of the locale \<open>session_gate\<close>, which says that a
    session belongs to a live verified account of a usable workspace that has the app.
  \<^item> \<open>Account_Flows\<close> (\<open>auth/account-flows.service.ts\<close>, \<open>signup.service.ts\<close>, \<open>product.ts\<close>):
    verification, recovery and signup. \<open>Auth_Pages\<close> (\<open>auth/auth-pages.ts\<close>): the pages their links land on.
  \<^item> \<open>Users\<close> (\<open>users/\<close>, \<open>core/bootstrap-admin.service.ts\<close>, \<open>core/retention.service.ts\<close>),
    \<open>Members\<close> (\<open>tenant/\<close> and the invites), \<open>Tenants\<close> (\<open>tenants/\<close>), \<open>Apps\<close> (\<open>apps/\<close>): the consoles.
    The locale \<open>keeps_admin\<close> is their contract with the last platform administrator, \<open>soft_delete\<close>
    that of accounts, apps and workspaces.
  \<^item> \<open>Billing\<close> (\<open>billing/\<close>): what is sold, checkout, and the webhook events, whose effect on the
    grants is the locale \<open>grant_driver\<close>. \<open>Revenue\<close> and \<open>Revenue_Console\<close> (\<open>revenue/\<close>): the figures,
    which refine the sums over Stripe's ledger, their export, and the readiness check.
  \<^item> \<open>Console_Api\<close> and \<open>Platform_Api\<close> (the controllers): every route as a request, the guards in front of
    it, the operation behind it. Runs of requests by people without an administrator's session are the
    step relation \<open>attempted\<close>, and what such runs leave alone is \<open>modest\<close>.
  \<^item> \<open>Email_Template\<close>, \<open>Email_Layout\<close> and \<open>Email\<close> (\<open>email/\<close>): the copy with its placeholders, the shell
    around it in both parts of a message (no value opens a tag in copy that is \<open>settled\<close>), the relay a message uses, the quota of an app (two
    interpretations of \<open>window_limiter\<close>). \<open>Brand\<close> (\<open>apps/brand.service.ts\<close>): the brand an app is served.

  \<^bold>\<open>The template.\<close>
  \<^item> \<open>App_Session\<close> (\<open>src/auth.ts\<close>, \<open>lib/platform.ts\<close>, \<open>lib/auth/dal.ts\<close>, \<open>proxy.ts\<close>,
    \<open>lib/member-proxy.ts\<close>): signing in through the platform, the local rows it makes, the session token
    and its minute-long memory of the role. \<open>App_Account\<close> (\<open>(auth)/actions.ts\<close>, \<open>lib/auth/tokens.ts\<close>
    and their neighbours): the forms of a standalone app.
  \<^item> \<open>Sync_Server\<close> (\<open>api/sync/route.ts\<close>, \<open>lib/sync/server.ts\<close>), \<open>Sync_Feed\<close> and \<open>Sync_Pages\<close> (the
    pages of changes as the locale \<open>cursor_feed\<close>, for projects and for tasks), \<open>Sync_Client\<close>,
    \<open>Sync_Run\<close> and \<open>Sync_Convergence\<close> (\<open>lib/sync/client.ts\<close>, \<open>outbox.ts\<close>): the offline store, a sync as
    the code runs it, and a step relation of everything that can happen between its requests.

  \<^bold>\<open>The library and the tool.\<close>
  \<^item> \<open>Sdk\<close>: the key cache, token verification, the middleware and every request.
  \<^item> \<open>Cli\<close> and \<open>Env_File\<close>: names, scaffolding, the patched \<open>.env\<close>, and registering against the
    platform modelled here, so that the credentials written are shown to work.

  \<^bold>\<open>What is shown.\<close> Per component: who may do what and what nobody can (the gates, confinement to a
  workspace, single use of tokens and links, whatever
  comes in between), the invariants of the tables under any sequence of
  requests (grants, catalogue, accounts, the app's tables), what each operation does on each branch,
  agreement of routines that decide the same thing (login and refresh, entitlement and login), the
  round trips (tickets, \<open>.env\<close>, CSV), the bounds of the limiters, and for sync that the projects of a
  replica below its cursor are the server's and that a sync at rest ends in agreement on them (of the
  tasks \<open>replicas_disagree_on_tasks\<close> shows otherwise). Over the whole interface of the
  platform: the authority of a platform administrator comes from one only. Each property stands with a witness
  that applies it to concrete data. Lemmas named after a defect (\<open>one_client_exhausts_address\<close>,
  \<open>failed_payment_reopens_suspended\<close>, \<open>big_outbox_never_drains\<close>, \<open>renamed_twice\<close> and others) show
  what the code does where a comment says otherwise.

  \<^bold>\<open>Loops and fuel.\<close> \<open>syncOnce\<close> runs at most 50 rounds as the code does (\<open>sync_loop\<close> has that
  number as its fuel, and running out is the code's own outcome); the other loops are structural, or
  have a measure (\<open>replace_all\<close>, \<open>walk\<close>). A request carries at most 5000 mutations, a page and an
  export at most the numbers of rows of the code.

  \<^bold>\<open>Not modelled.\<close> React components and the console's browser code (they render, and what they call
  is modelled), cryptography and key files, the wiring of NestJS and
  Prisma, the throttler, class-validator's checks of requests beyond the types, retries of the database, seeds. Within
  the modelled operations, statements of one request run without another request between them except
  where a theory says so (refresh, the limiter, the key cache, sync).
\<close>

end
